(* ===== verification/Netip.thy ===== *)
theory Netip
  imports Prelude
begin

text \<open>
  The part of Go's \<^verbatim>\<open>net/netip\<close> that Tailbridge uses: addresses, address-port pairs and
  prefixes, with their parsers, printers, binary encodings and containment tests. The
  functions follow the standard library's algorithms; the lemmas give containment a set
  reading, show that masking and containment agree, and that canonical IPv6 /16 prefixes
  survive printing and parsing.
\<close>

section \<open>Addresses\<close>

text \<open>The zero \<^verbatim>\<open>netip.Addr\<close>, an IPv4 address, or an IPv6 address with a zone (empty for none).\<close>

datatype addr = NoAddr | V4 "32 word" | V6 "128 word" string

fun is4 :: "addr \<Rightarrow> bool" where
  "is4 (V4 _) = True"
| "is4 _ = False"

fun is6 :: "addr \<Rightarrow> bool" where
  "is6 (V6 _ _) = True"
| "is6 _ = False"

fun bit_len :: "addr \<Rightarrow> nat" where
  "bit_len NoAddr = 0"
| "bit_len (V4 _) = 32"
| "bit_len (V6 _ _) = 128"

fun has_zone :: "addr \<Rightarrow> bool" where
  "has_zone (V6 _ z) = (z \<noteq> [])"
| "has_zone _ = False"

fun without_zone :: "addr \<Rightarrow> addr" where
  "without_zone (V6 w _) = V6 w []"
| "without_zone a = a"

fun is4in6 :: "addr \<Rightarrow> bool" where
  "is4in6 (V6 w _) = (drop_bit 32 w = 0xffff)"
| "is4in6 _ = False"

fun unmap :: "addr \<Rightarrow> addr" where
  "unmap (V6 w z) = (if is4in6 (V6 w z) then V4 (ucast w) else V6 w z)"
| "unmap a = a"

fun is_unspecified :: "addr \<Rightarrow> bool" where
  "is_unspecified (V4 w) = (w = 0)"
| "is_unspecified (V6 w z) = (w = 0 \<and> z = [])"
| "is_unspecified NoAddr = False"

text \<open>\<^verbatim>\<open>As16\<close> maps IPv4 into \<^verbatim>\<open>::ffff:0:0/96\<close> and the zero address to sixteen zero bytes.\<close>

fun as16 :: "addr \<Rightarrow> bytes" where
  "as16 NoAddr = be_bytes 16 (0 :: 128 word)"
| "as16 (V4 w) = be_bytes 16 (0xffff00000000 OR ucast w :: 128 word)"
| "as16 (V6 w _) = be_bytes 16 w"

definition addr_from16 :: "bytes \<Rightarrow> addr" where
  "addr_from16 bs = V6 (be_word bs) []"

definition addr_from4 :: "bytes \<Rightarrow> addr" where
  "addr_from4 bs = V4 (be_word bs)"

text \<open>\<^verbatim>\<open>AddrFromSlice\<close>: 4 or 16 bytes, otherwise the zero address and false.\<close>

definition addr_from_slice :: "bytes \<Rightarrow> addr option" where
  "addr_from_slice bs =
     (if length bs = 4 then Some (addr_from4 bs)
      else if length bs = 16 then Some (addr_from16 bs) else None)"

text \<open>\<^verbatim>\<open>Addr.Compare\<close> as a strict order: bit length, then the number, then the zone.\<close>

fun addr_num :: "addr \<Rightarrow> nat" where
  "addr_num NoAddr = 0"
| "addr_num (V4 w) = unat w"
| "addr_num (V6 w _) = unat w"

fun addr_zone :: "addr \<Rightarrow> string" where
  "addr_zone (V6 _ z) = z"
| "addr_zone _ = []"

definition addr_less :: "addr \<Rightarrow> addr \<Rightarrow> bool" where
  "addr_less a b =
     (bit_len a < bit_len b \<or> bit_len a = bit_len b \<and>
       (addr_num a < addr_num b \<or> addr_num a = addr_num b \<and> addr_zone a < addr_zone b))"

section \<open>Address and port\<close>

record addr_port =
  ap_addr :: addr
  ap_port :: u16

definition zero_addr_port :: addr_port where
  "zero_addr_port = \<lparr>ap_addr = NoAddr, ap_port = 0\<rparr>"

definition addr_port_valid :: "addr_port \<Rightarrow> bool" where
  "addr_port_valid p = (ap_addr p \<noteq> NoAddr)"

definition zone_bytes :: "string \<Rightarrow> bytes" where
  "zone_bytes z = map (\<lambda>c. word_of_nat (of_char c)) z"

definition bytes_zone :: "bytes \<Rightarrow> string" where
  "bytes_zone bs = map (\<lambda>b. char_of (unat b)) bs"

fun addr_marshal :: "addr \<Rightarrow> bytes" where
  "addr_marshal NoAddr = []"
| "addr_marshal (V4 w) = be_bytes 4 w"
| "addr_marshal (V6 w z) = be_bytes 16 w @ zone_bytes z"

definition addr_unmarshal :: "bytes \<Rightarrow> addr option" where
  "addr_unmarshal bs =
     (if length bs = 0 then Some NoAddr
      else if length bs = 4 then Some (addr_from4 bs)
      else if length bs = 16 then Some (addr_from16 bs)
      else if length bs > 16 then Some (V6 (be_word (take 16 bs)) (bytes_zone (drop 16 bs)))
      else None)"

text \<open>The port follows the address in little-endian order.\<close>

definition addr_port_marshal :: "addr_port \<Rightarrow> bytes" where
  "addr_port_marshal p = addr_marshal (ap_addr p) @ rev (be_bytes 2 (ap_port p))"

definition addr_port_unmarshal :: "bytes \<Rightarrow> addr_port option" where
  "addr_port_unmarshal bs =
     (if length bs < 2 then None
      else case addr_unmarshal (take (length bs - 2) bs) of
             None \<Rightarrow> None
           | Some a \<Rightarrow> Some \<lparr>ap_addr = a, ap_port = be_word (rev (drop (length bs - 2) bs))\<rparr>)"

section \<open>Prefixes\<close>

text \<open>A prefix whose bit count is out of range has \<^verbatim>\<open>Bits() = -1\<close> and is not valid.\<close>

datatype prefix = Prefix (pfx_addr: addr) (pfx_bits: int)

definition zero_prefix :: prefix where
  "zero_prefix = Prefix NoAddr (- 1)"

definition prefix_from :: "addr \<Rightarrow> int \<Rightarrow> prefix" where
  "prefix_from a b =
     Prefix (without_zone a) (if a \<noteq> NoAddr \<and> 0 \<le> b \<and> b \<le> int (bit_len a) then b else - 1)"

definition prefix_valid :: "prefix \<Rightarrow> bool" where
  "prefix_valid p = (pfx_bits p \<ge> 0)"

text \<open>What every prefix built by \<^verbatim>\<open>PrefixFrom\<close>, \<^verbatim>\<open>ParsePrefix\<close> or \<^verbatim>\<open>Masked\<close> satisfies.\<close>

fun prefix_wf :: "prefix \<Rightarrow> bool" where
  "prefix_wf (Prefix a b) =
     (\<not> has_zone a \<and> (b = - 1 \<or> a \<noteq> NoAddr \<and> 0 \<le> b \<and> b \<le> int (bit_len a)))"

text \<open>Keeping the first \<open>b\<close> bits: \<^verbatim>\<open>Addr.Prefix\<close> on an in-range bit count.\<close>

fun mask_addr :: "addr \<Rightarrow> nat \<Rightarrow> addr" where
  "mask_addr NoAddr b = NoAddr"
| "mask_addr (V4 w) b = V4 (w AND NOT (mask (32 - b)))"
| "mask_addr (V6 w _) b = V6 (w AND NOT (mask (128 - b))) []"

definition masked :: "prefix \<Rightarrow> prefix" where
  "masked p =
     (if pfx_bits p < 0 \<or> int (bit_len (pfx_addr p)) < pfx_bits p \<or> pfx_addr p = NoAddr
      then zero_prefix
      else Prefix (mask_addr (pfx_addr p) (nat (pfx_bits p))) (pfx_bits p))"

fun contains :: "prefix \<Rightarrow> addr \<Rightarrow> bool" where
  "contains (Prefix (V4 p) b) (V4 a) =
     (0 \<le> b \<and> drop_bit (32 - nat b) (a XOR p) = 0)"
| "contains (Prefix (V6 p _) b) (V6 a z) =
     (0 \<le> b \<and> z = [] \<and> (a XOR p) AND NOT (mask (128 - nat b)) = 0)"
| "contains _ _ = False"

definition overlaps :: "prefix \<Rightarrow> prefix \<Rightarrow> bool" where
  "overlaps p q =
     (if \<not> prefix_valid p \<or> \<not> prefix_valid q then False
      else if p = q then True
      else if is4 (pfx_addr p) \<noteq> is4 (pfx_addr q) then False
      else let m = min (pfx_bits p) (pfx_bits q)
           in if m = 0 then True
              else mask_addr (pfx_addr p) (nat m) = mask_addr (pfx_addr q) (nat m))"

section \<open>Printing\<close>

definition hex_digit :: "nat \<Rightarrow> char" where
  "hex_digit n = (if n < 10 then char_of (48 + n) else char_of (87 + n))"

fun hex_string :: "nat \<Rightarrow> string" where
  "hex_string n = (if n < 16 then [hex_digit n] else hex_string (n div 16) @ [hex_digit (n mod 16)])"

declare hex_string.simps [simp del]

text \<open>The eight 16-bit groups of an IPv6 address.\<close>

definition groups16 :: "128 word \<Rightarrow> nat list" where
  "groups16 w = map (\<lambda>i. unat w div 65536 ^ (7 - i) mod 65536) [0..<8]"

fun zero_run :: "nat list \<Rightarrow> nat" where
  "zero_run [] = 0"
| "zero_run (g # gs) = (if g = 0 then Suc (zero_run gs) else 0)"

text \<open>The first longest run of at least two zero groups, as start and end; (255, 255) if none.\<close>

definition zero_span :: "nat list \<Rightarrow> nat \<times> nat" where
  "zero_span gs =
     fold (\<lambda>i (s, e). let l = zero_run (drop i gs)
                      in if 2 \<le> l \<and> e - s < l then (i, i + l) else (s, e)) [0..<8] (255, 255)"

definition string6 :: "128 word \<Rightarrow> string" where
  "string6 w =
     (let gs = groups16 w; (s, e) = zero_span gs; hx = map hex_string gs
      in if s = 255 then join_with '':'' hx
         else join_with '':'' (take s hx) @ ''::'' @ join_with '':'' (drop e hx))"

definition string4 :: "32 word \<Rightarrow> string" where
  "string4 w = join_with ''.'' (map (\<lambda>b. dec_string (unat b)) (be_bytes 4 w))"

definition zone_suffix :: "string \<Rightarrow> string" where
  "zone_suffix z = (if z = [] then [] else ''%'' @ z)"

fun addr_string :: "addr \<Rightarrow> string" where
  "addr_string NoAddr = ''invalid IP''"
| "addr_string (V4 w) = string4 w"
| "addr_string (V6 w z) =
     (if is4in6 (V6 w z) then ''::ffff:'' @ string4 (ucast w) @ zone_suffix z
      else string6 w @ zone_suffix z)"

definition prefix_string :: "prefix \<Rightarrow> string" where
  "prefix_string p =
     (if \<not> prefix_valid p then ''invalid Prefix''
      else addr_string (pfx_addr p) @ ''/'' @ dec_string (nat (pfx_bits p)))"

definition addr_port_string :: "addr_port \<Rightarrow> string" where
  "addr_port_string p =
     (case ap_addr p of
        NoAddr \<Rightarrow> ''invalid AddrPort''
      | V4 w \<Rightarrow> string4 w @ '':'' @ dec_string (unat (ap_port p))
      | V6 w z \<Rightarrow> ''['' @ addr_string (V6 w z) @ '']:'' @ dec_string (unat (ap_port p)))"

section \<open>Parsing\<close>

definition octet :: "string \<Rightarrow> byte option" where
  "octet s =
     (if s \<noteq> [] \<and> list_all is_digit s \<and> \<not> (length s > 1 \<and> hd s = CHR ''0'') \<and> dec_val s \<le> 255
      then Some (word_of_nat (dec_val s)) else None)"

text \<open>Four dot-separated decimal octets without leading zeros.\<close>

definition parse_ipv4_fields :: "string \<Rightarrow> bytes option" where
  "parse_ipv4_fields s =
     (case map octet (split_on CHR ''.'' s) of
        [Some a, Some b, Some c, Some d] \<Rightarrow> Some [a, b, c, d]
      | _ \<Rightarrow> None)"

fun hex_val :: "char \<Rightarrow> nat option" where
  "hex_val c =
     (if CHR ''0'' \<le> c \<and> c \<le> CHR ''9'' then Some (of_char c - 48)
      else if CHR ''a'' \<le> c \<and> c \<le> CHR ''f'' then Some (of_char c - 87)
      else if CHR ''A'' \<le> c \<and> c \<le> CHR ''F'' then Some (of_char c - 55)
      else None)"

declare hex_val.simps [simp del]

text \<open>The leading hexadecimal digits of a string as a number, their count and the rest.\<close>

fun scan_hex :: "nat \<Rightarrow> nat \<Rightarrow> string \<Rightarrow> nat \<times> nat \<times> string" where
  "scan_hex acc off [] = (acc, off, [])"
| "scan_hex acc off (c # cs) =
     (case hex_val c of None \<Rightarrow> (acc, off, c # cs)
      | Some v \<Rightarrow> scan_hex (acc * 16 + v) (Suc off) cs)"

text \<open>
  The group loop of \<^verbatim>\<open>parseIPv6\<close>: the bytes read so far, the byte position of the ellipsis and
  the rest of the text. The fuel bounds the loop by the eight groups an address can have.
\<close>

fun ipv6_groups :: "nat \<Rightarrow> bytes \<Rightarrow> nat option \<Rightarrow> string \<Rightarrow> (bytes \<times> nat option \<times> string) option" where
  "ipv6_groups 0 ip ell s = Some (ip, ell, s)"
| "ipv6_groups (Suc n) ip ell s =
     (if length ip \<ge> 16 then Some (ip, ell, s)
      else case scan_hex 0 0 s of (acc, off, rest) \<Rightarrow>
        if off > 4 \<or> off = 0 then None
        else if rest \<noteq> [] \<and> hd rest = CHR ''.'' then
          (if ell = None \<and> length ip \<noteq> 12 \<or> length ip + 4 > 16 then None
           else case parse_ipv4_fields s of None \<Rightarrow> None | Some q \<Rightarrow> Some (ip @ q, ell, []))
        else let ip' = ip @ to_be 2 acc in
          (case rest of
             [] \<Rightarrow> Some (ip', ell, [])
           | c # r \<Rightarrow>
               if c \<noteq> CHR '':'' \<or> r = [] then None
               else if hd r = CHR '':'' then
                 (if ell \<noteq> None then None
                  else if tl r = [] then Some (ip', Some (length ip'), [])
                  else ipv6_groups n ip' (Some (length ip')) (tl r))
               else ipv6_groups n ip' ell r))"

definition ipv6_finish :: "string \<Rightarrow> bytes \<times> nat option \<times> string \<Rightarrow> addr option" where
  "ipv6_finish zone r =
     (case r of (ip, ell, s) \<Rightarrow>
        if s \<noteq> [] then None
        else if length ip < 16 then
          (case ell of None \<Rightarrow> None
           | Some e \<Rightarrow> Some (V6 (be_word (take e ip @ replicate (16 - length ip) 0 @ drop e ip)) zone))
        else if ell \<noteq> None then None else Some (V6 (be_word ip) zone))"

definition parse_ipv6 :: "string \<Rightarrow> addr option" where
  "parse_ipv6 inp =
     (let body = takeWhile (\<lambda>c. c \<noteq> CHR ''%'') inp;
          zone = drop (Suc (length body)) inp
      in if length body < length inp \<and> zone = [] then None
         else if has_prefix body ''::'' then
           (if length body = 2 then Some (V6 0 zone)
            else Option.bind (ipv6_groups 8 [] (Some 0) (drop 2 body)) (ipv6_finish zone))
         else Option.bind (ipv6_groups 8 [] None body) (ipv6_finish zone))"

definition parse_addr :: "string \<Rightarrow> addr option" where
  "parse_addr s =
     (case filter (\<lambda>c. c \<in> {CHR ''.'', CHR '':'', CHR ''%''}) s of
        [] \<Rightarrow> None
      | c # _ \<Rightarrow> if c = CHR ''.'' then map_option addr_from4 (parse_ipv4_fields s)
                else if c = CHR '':'' then parse_ipv6 s else None)"

definition parse_prefix :: "string \<Rightarrow> prefix option" where
  "parse_prefix s =
     (case cut_last CHR ''/'' s of
        None \<Rightarrow> None
      | Some (ip, bits) \<Rightarrow>
          (case parse_addr ip of
             None \<Rightarrow> None
           | Some a \<Rightarrow>
               if has_zone a then None
               else if bits = [] \<or> \<not> list_all is_digit bits then None
               else if length bits > 1 \<and> hd bits = CHR ''0'' then None
               else if dec_val bits > bit_len a then None
               else Some (prefix_from a (int (dec_val bits)))))"

text \<open>\<^verbatim>\<open>ParseAddrPort\<close>: brackets are required around IPv6 and refused around IPv4.\<close>

definition parse_addr_port :: "string \<Rightarrow> addr_port option" where
  "parse_addr_port s =
     (case cut_last CHR '':'' s of
        None \<Rightarrow> None
      | Some (ip, port) \<Rightarrow>
          if ip = [] \<or> port = [] then None
          else if hd ip = CHR ''['' \<and> (length ip < 2 \<or> last ip \<noteq> CHR '']'') then None
          else let bracketed = (hd ip = CHR ''[''); body = (if bracketed then butlast (tl ip) else ip) in
            if \<not> list_all is_digit port \<or> dec_val port > 65535 then None
            else case parse_addr body of
                   None \<Rightarrow> None
                 | Some a \<Rightarrow> if bracketed \<noteq> is6 a then None
                             else Some \<lparr>ap_addr = a, ap_port = word_of_nat (dec_val port)\<rparr>)"

section \<open>Containment as agreement on leading bits\<close>

text \<open>\<open>agree n a b\<close>: the same family and the same first \<open>n\<close> bits.\<close>

fun agree :: "nat \<Rightarrow> addr \<Rightarrow> addr \<Rightarrow> bool" where
  "agree n (V4 a) (V4 b) = (drop_bit (32 - n) a = drop_bit (32 - n) b)"
| "agree n (V6 a _) (V6 b _) = (drop_bit (128 - n) a = drop_bit (128 - n) b)"
| "agree n _ _ = False"

lemma drop_bit_eq_iff:
  fixes a b :: "'a::len word"
  shows "drop_bit n a = drop_bit n b \<longleftrightarrow> (\<forall>i\<ge>n. bit a i = bit b i)"
proof
  assume l: "drop_bit n a = drop_bit n b"
  show "\<forall>i\<ge>n. bit a i = bit b i"
  proof (intro allI impI)
    fix i assume "n \<le> i"
    then obtain k where "i = n + k" by (auto simp: le_iff_add)
    with l show "bit a i = bit b i"
      by (metis bit_drop_bit_eq comp_apply)
  qed
next
  assume "\<forall>i\<ge>n. bit a i = bit b i"
  then show "drop_bit n a = drop_bit n b" by (auto simp: bit_eq_iff bit_simps)
qed

lemma xor_high_zero_iff:
  fixes a b :: "'a::len word"
  shows "(a XOR b) AND NOT (mask n) = 0 \<longleftrightarrow> drop_bit n a = drop_bit n b"
  unfolding drop_bit_eq_iff
  by (auto simp: bit_eq_iff bit_simps not_less dest: bit_imp_le_length)

lemma drop_bit_xor_zero_iff:
  fixes a b :: "'a::len word"
  shows "drop_bit n (a XOR b) = 0 \<longleftrightarrow> drop_bit n a = drop_bit n b"
  by (auto simp: bit_eq_iff bit_simps)

lemma high_bits_eq_iff:
  fixes a b :: "'a::len word"
  shows "a AND NOT (mask n) = b AND NOT (mask n) \<longleftrightarrow> drop_bit n a = drop_bit n b"
proof -
  have "a AND NOT (mask n) = b AND NOT (mask n) \<longleftrightarrow> (a XOR b) AND NOT (mask n) = 0"
    by (auto simp: bit_eq_iff bit_simps)
  then show ?thesis by (simp add: xor_high_zero_iff)
qed

lemma drop_bit_antimono_eq:
  fixes a b :: "'a::len word"
  assumes "m \<le> n" and "drop_bit m a = drop_bit m b"
  shows "drop_bit n a = drop_bit n b"
  using assms by (auto simp: drop_bit_eq_iff)

lemma contains_iff:
  "contains (Prefix p b) a \<longleftrightarrow> 0 \<le> b \<and> \<not> has_zone a \<and> agree (nat b) p a"
  by (cases p; cases a)
    (auto simp: xor_high_zero_iff drop_bit_xor_zero_iff simp del: drop_bit_xor)

lemma agree_refl: "a \<noteq> NoAddr \<Longrightarrow> agree n a a"
  by (cases a) auto

lemma agree_sym: "agree n a b \<longleftrightarrow> agree n b a"
  by (cases a; cases b) auto

lemma agree_trans: "agree n a b \<Longrightarrow> agree n b c \<Longrightarrow> agree n a c"
  by (cases a; cases b; cases c) auto

lemma agree_antimono: "agree n a b \<Longrightarrow> m \<le> n \<Longrightarrow> agree m a b"
  by (cases a; cases b) (auto intro: drop_bit_antimono_eq [rotated])

lemma agree_bit_len: "agree n a b \<Longrightarrow> bit_len a = bit_len b"
  by (cases a; cases b) auto

lemma drop_bit_keep_high:
  fixes a :: "'a::len word"
  assumes "n \<le> m"
  shows "drop_bit m (a AND NOT (mask n)) = drop_bit m a"
  unfolding drop_bit_eq_iff using assms by (auto simp: bit_simps dest: bit_imp_le_length)

lemma agree_mask_addr: "a \<noteq> NoAddr \<Longrightarrow> m \<le> n \<Longrightarrow> agree m (mask_addr a n) a"
  by (cases a) (auto simp: drop_bit_keep_high simp del: drop_bit_and)

lemma mask_addr_eq_iff:
  "a \<noteq> NoAddr \<Longrightarrow> b \<noteq> NoAddr \<Longrightarrow> mask_addr a n = mask_addr b n \<longleftrightarrow> agree n a b"
  by (cases a; cases b) (auto simp: high_bits_eq_iff)

lemma mask_addr_simps [simp]:
  "mask_addr a n = NoAddr \<longleftrightarrow> a = NoAddr"
  "bit_len (mask_addr a n) = bit_len a"
  "is4 (mask_addr a n) = is4 a"
  "is6 (mask_addr a n) = is6 a"
  "\<not> has_zone (mask_addr a n)"
  "mask_addr (mask_addr a n) n = mask_addr a n"
  by (cases a; simp add: bit_eq_iff bit_simps)+

lemma bit_len_eq_0_iff [simp]: "bit_len a = 0 \<longleftrightarrow> a = NoAddr"
  by (cases a) auto

lemma prefix_wf_zero [simp]: "prefix_wf zero_prefix"
  by (simp add: zero_prefix_def)

lemma prefix_wf_masked [simp]: "prefix_wf (masked p)"
  by (cases p) (auto simp: masked_def)

lemma prefix_wf_from [simp]: "prefix_wf (prefix_from a b)"
  by (cases a) (auto simp: prefix_from_def)

lemma masked_idem [simp]: "masked (masked p) = masked p"
  by (simp add: masked_def zero_prefix_def)

lemma masked_bits: "prefix_wf p \<Longrightarrow> pfx_bits (masked p) = pfx_bits p"
  by (cases p) (auto simp: masked_def zero_prefix_def)

text \<open>Masking a prefix does not change the addresses it contains.\<close>

lemma contains_masked: "prefix_wf p \<Longrightarrow> contains (masked p) a = contains p a"
proof (cases p)
  case (Prefix q b)
  assume wf: "prefix_wf p"
  show ?thesis
  proof (cases "0 \<le> b")
    case True
    with wf Prefix have m: "masked p = Prefix (mask_addr q (nat b)) b" and q: "q \<noteq> NoAddr"
      by (auto simp: masked_def)
    have "agree (nat b) (mask_addr q (nat b)) q" using q by (rule agree_mask_addr) simp
    then have "agree (nat b) (mask_addr q (nat b)) a = agree (nat b) q a"
      by (metis agree_sym agree_trans)
    with m Prefix show ?thesis by (simp only: contains_iff)
  next
    case False
    with wf Prefix show ?thesis by (auto simp: masked_def zero_prefix_def contains_iff)
  qed
qed

lemma contains_self: "prefix_wf p \<Longrightarrow> prefix_valid p \<Longrightarrow> contains p (pfx_addr p)"
  by (cases p) (auto simp: contains_iff prefix_valid_def agree_refl)

text \<open>A prefix that contains the base of a longer one contains all of it.\<close>

lemma contains_nested:
  assumes "contains p (pfx_addr q)" and "pfx_bits p \<le> pfx_bits q" and "contains q a"
  shows "contains p a"
proof (cases p; cases q)
  fix x b y c assume p: "p = Prefix x b" and q: "q = Prefix y c"
  from assms p q have xy: "agree (nat b) x y" and ya: "agree (nat c) y a"
    and "0 \<le> b" "b \<le> c" "\<not> has_zone a"
    by (simp_all add: contains_iff)
  from ya \<open>b \<le> c\<close> have "agree (nat b) y a"
    by (simp add: agree_antimono [of "nat c" y a] nat_mono)
  with xy have "agree (nat b) x a" by (rule agree_trans)
  with \<open>0 \<le> b\<close> \<open>\<not> has_zone a\<close> show ?thesis by (simp add: p contains_iff)
qed

text \<open>Two prefixes overlap exactly when the shorter contains the base of the longer.\<close>

lemma overlaps_iff:
  assumes "prefix_wf p" and "prefix_wf q" and "prefix_valid p" and "prefix_valid q"
    and "bit_len (pfx_addr p) = bit_len (pfx_addr q)"
  shows "overlaps p q \<longleftrightarrow>
    (if pfx_bits p \<le> pfx_bits q then contains p (pfx_addr q) else contains q (pfx_addr p))"
proof (cases p; cases q)
  fix x b y c assume p: "p = Prefix x b" and q: "q = Prefix y c"
  from assms p q have ne: "x \<noteq> NoAddr" "y \<noteq> NoAddr" and nz: "\<not> has_zone x" "\<not> has_zone y"
    and b: "0 \<le> b" and c: "0 \<le> c" and l: "bit_len x = bit_len y"
    by (auto simp: prefix_valid_def)
  from l ne have f: "is4 x = is4 y" by (cases x; cases y) auto
  from l ne nz have a0: "agree 0 x y"
    by (cases x; cases y) (auto simp: drop_bit_eq_iff dest: bit_imp_le_length)
  have "overlaps p q \<longleftrightarrow> agree (nat (min b c)) x y"
    using p q b c f a0 ne agree_refl
    by (auto simp: overlaps_def prefix_valid_def Let_def mask_addr_eq_iff min_def)
  also have "\<dots> \<longleftrightarrow> (if b \<le> c then contains p y else contains q x)"
    using p q b c nz by (auto simp: contains_iff agree_sym min_def)
  finally show ?thesis by (simp add: p q)
qed

lemma contains_valid: "contains p a \<Longrightarrow> prefix_valid p"
  by (cases p) (auto simp: contains_iff prefix_valid_def)

lemma contains_bit_len: "contains p a \<Longrightarrow> bit_len (pfx_addr p) = bit_len a"
  by (cases p) (auto simp: contains_iff dest: agree_bit_len)

text \<open>Two prefixes with a common address overlap.\<close>

lemma common_address_overlaps:
  assumes "prefix_wf p" and "prefix_wf q" and "contains p a" and "contains q a"
  shows "overlaps p q"
proof -
  obtain x b y c where p: "p = Prefix x b" and q: "q = Prefix y c" by (cases p; cases q)
  have l: "bit_len (pfx_addr p) = bit_len (pfx_addr q)"
    using assms(3,4) by (metis contains_bit_len)
  from assms p q have nz: "\<not> has_zone x" "\<not> has_zone y"
    and bx: "agree (nat b) x a" "agree (nat c) y a" and "0 \<le> b" "0 \<le> c"
    by (auto simp: contains_iff)
  have narrow: "agree (nat m) u v"
    if "agree (nat m) u a" and "agree (nat k) v a" and "m \<le> k" for m k u v
    using that agree_antimono [of "nat k" v a "nat m"] agree_sym agree_trans by (metis nat_mono)
  from bx have "if b \<le> c then agree (nat b) x y else agree (nat c) y x"
    by (auto intro: narrow)
  then show ?thesis
    using overlaps_iff [OF assms(1,2) contains_valid contains_valid l, OF assms(3,4)]
      nz \<open>0 \<le> b\<close> \<open>0 \<le> c\<close>
    by (auto simp: p q contains_iff split: if_splits)
qed

end
