(* ===== verification/Netip_Codec.thy ===== *)
theory Netip_Codec
  imports Netip
begin

text \<open>
  The binary encodings of \<^verbatim>\<open>net/netip\<close> as instances of one codec interface, the byte view of
  IPv6 addresses that the address translation works on, and the text round trip of canonical
  IPv6 /16 prefixes, the form in which the registry stores every route.
\<close>

section \<open>The codec interface\<close>

locale codec =
  fixes enc :: "'a \<Rightarrow> bytes"
    and dec :: "bytes \<Rightarrow> 'a option"
  assumes dec_enc: "dec (enc x) = Some x"
    and enc_dec: "dec bs = Some x \<Longrightarrow> enc x = bs"
begin

lemma dec_iff: "dec bs = Some x \<longleftrightarrow> enc x = bs"
  using dec_enc enc_dec by blast

lemma enc_inject: "enc x = enc y \<longleftrightarrow> x = y"
  by (metis dec_enc option.inject)

end

lemma zone_bytes_length [simp]: "length (zone_bytes z) = length z"
  by (simp add: zone_bytes_def)

lemma zone_bytes_Nil [simp]: "zone_bytes [] = []"
  by (simp add: zone_bytes_def)

lemma bytes_zone_zone_bytes [simp]: "bytes_zone (zone_bytes z) = z"
proof -
  have "unat (word_of_nat (of_char c) :: byte) = of_char c" for c
    by (simp add: unat_of_nat take_bit_eq_mod)
  then show ?thesis
    by (simp add: bytes_zone_def zone_bytes_def o_def)
qed

lemma zone_bytes_bytes_zone [simp]: "zone_bytes (bytes_zone bs) = bs"
proof -
  have "of_char (char_of (unat b)) = unat b" for b :: byte
    using unsigned_less [of b, where 'a = nat] by simp
  then show ?thesis
    by (simp add: bytes_zone_def zone_bytes_def o_def)
qed

lemma be_word_take16 [simp]: "be_word (be_bytes 16 w) = (w :: 128 word)"
  by (rule be_word_be_bytes) simp

lemma be_bytes_word16 [simp]: "length bs = 16 \<Longrightarrow> be_bytes 16 (be_word bs :: 128 word) = bs"
  using be_bytes_be_word [of bs, where 'a = 128] by simp

lemma be_word_take4 [simp]: "be_word (be_bytes 4 w) = (w :: 32 word)"
  by (rule be_word_be_bytes) simp

lemma be_bytes_word4 [simp]: "length bs = 4 \<Longrightarrow> be_bytes 4 (be_word bs :: 32 word) = bs"
  using be_bytes_be_word [of bs, where 'a = 32] by simp

lemma be_word_port [simp]: "be_word (be_bytes 2 w) = (w :: u16)"
  by (rule be_word_be_bytes) simp

lemma be_bytes_port [simp]: "length bs = 2 \<Longrightarrow> be_bytes 2 (be_word bs :: u16) = bs"
  using be_bytes_be_word [of bs, where 'a = 16] by simp

lemma be_word_u64 [simp]: "be_word (be_bytes 8 w) = (w :: u64)"
  by (rule be_word_be_bytes) simp

lemma be_bytes_u64 [simp]: "length bs = 8 \<Longrightarrow> be_bytes 8 (be_word bs :: u64) = bs"
  using be_bytes_be_word [of bs, where 'a = 64] by simp

interpretation addr_codec: codec addr_marshal addr_unmarshal
proof unfold_locales
  fix a show "addr_unmarshal (addr_marshal a) = Some a"
    by (cases a) (auto simp: addr_unmarshal_def addr_from4_def addr_from16_def)
next
  fix bs a assume "addr_unmarshal bs = Some a"
  then show "addr_marshal a = bs"
    by (auto simp: addr_unmarshal_def addr_from4_def addr_from16_def split: if_splits)
qed

interpretation ap_codec: codec addr_port_marshal addr_port_unmarshal
proof unfold_locales
  fix p :: addr_port
  show "addr_port_unmarshal (addr_port_marshal p) = Some p"
    by (simp add: addr_port_unmarshal_def addr_port_marshal_def addr_codec.dec_enc)
next
  fix bs p assume "addr_port_unmarshal bs = Some p"
  then show "addr_port_marshal p = bs"
    by (auto simp: addr_port_unmarshal_def addr_port_marshal_def addr_codec.dec_iff
             split: if_splits option.splits)
qed

lemma addr_port_marshal_length: "2 \<le> length (addr_port_marshal p)"
  by (simp add: addr_port_marshal_def)

section \<open>The bytes of an IPv6 address\<close>

lemma length_as16 [simp]: "length (as16 a) = 16"
  by (cases a) auto

lemma as16_from16 [simp]: "length bs = 16 \<Longrightarrow> as16 (addr_from16 bs) = bs"
  by (simp add: addr_from16_def)

lemma addr_from16_as16: "is6 a \<Longrightarrow> addr_from16 (as16 a) = without_zone a"
  by (cases a) (auto simp: addr_from16_def)

lemma to_be_append: "to_be (m + n) x = to_be m (x div 256 ^ n) @ to_be n x"
proof (induction n arbitrary: x)
  case 0
  then show ?case by simp
next
  case (Suc n)
  have "x div 256 div 256 ^ n = x div (256 * 256 ^ n)" by (simp add: div_mult2_eq)
  with Suc show ?case by simp
qed

lemma to_be_inj: "to_be n x = to_be n y \<longleftrightarrow> x mod 256 ^ n = y mod 256 ^ n"
proof
  assume "to_be n x = to_be n y"
  then have "from_be (to_be n x) = from_be (to_be n y)" by simp
  then show "x mod 256 ^ n = y mod 256 ^ n" by (simp add: from_be_to_be)
next
  have mod_id: "to_be n (z mod 256 ^ n) = to_be n z" for z
    using to_be_from_be [of "to_be n z"] by (simp add: from_be_to_be)
  assume "x mod 256 ^ n = y mod 256 ^ n"
  then show "to_be n x = to_be n y" by (metis mod_id)
qed

text \<open>The first two bytes of an IPv6 address are its first sixteen bits.\<close>

lemma take2_be_bytes: "take 2 (be_bytes 16 (w :: 128 word)) = to_be 2 (unat w div 2 ^ 112)"
proof -
  have "be_bytes 16 w = to_be 2 (unat w div 256 ^ 14) @ to_be 14 (unat w)"
    using to_be_append [of 2 14 "unat w"] by (simp add: be_bytes_def)
  then show ?thesis by simp
qed

lemma take2_eq_iff:
  fixes v w :: "128 word"
  shows "take 2 (be_bytes 16 v) = take 2 (be_bytes 16 w) \<longleftrightarrow> drop_bit 112 v = drop_bit 112 w"
proof -
  have small: "unat x div 2 ^ 112 < 256 ^ 2" for x :: "128 word"
    using unsigned_less [of x, where 'a = nat] by (simp add: less_mult_imp_div_less)
  have "unat (drop_bit 112 x) = unat x div 2 ^ 112" for x :: "128 word"
    by (subst unsigned_drop_bit_eq) (simp only: take_bit_word_eq_self drop_bit_eq_div unsigned_take_bit_eq order_refl take_bit_nat_eq_self unsigned_less)
  then have "drop_bit 112 v = drop_bit 112 w \<longleftrightarrow> unat v div 2 ^ 112 = unat w div 2 ^ 112"
    by (simp only: word_unat_eq_iff)
  then show ?thesis using small [of v] small [of w]
    by (simp add: take2_be_bytes to_be_inj)
qed

lemma contains16_iff:
  "contains (Prefix (V6 p z) 16) a \<longleftrightarrow> is6 a \<and> \<not> has_zone a \<and> take 2 (as16 a) = take 2 (be_bytes 16 p)"
  by (cases a) (auto simp: contains_iff take2_eq_iff)

text \<open>IPv6 prefixes of sixteen bits, the unit of every virtual network.\<close>

definition slash16 :: "prefix \<Rightarrow> bool" where
  "slash16 p \<longleftrightarrow> is6 (pfx_addr p) \<and> pfx_bits p = 16"

lemma slash16_masked [simp]: "slash16 (masked p) = slash16 p"
  by (cases "pfx_addr p") (auto simp: slash16_def masked_def zero_prefix_def)

lemma slash16_masked_wf: "slash16 p \<Longrightarrow> masked p = Prefix (mask_addr (pfx_addr p) 16) 16"
  by (cases "pfx_addr p") (auto simp: slash16_def masked_def)

end
