(* ===== verification/Protocol.thy ===== *)
theory Protocol
  imports Netip_Codec
begin

text \<open>
  Package \<^verbatim>\<open>internal/protocol\<close>: the UDP datagram format of \<^verbatim>\<open>datagram.go\<close> and the length-prefixed
  control frames of \<^verbatim>\<open>protocol.go\<close>. The JSON codec is a parameter of the frame functions; a
  writer is a state with a step function, a reader is the bytes it will deliver before it
  ends. The lemmas show that the datagram encoder and decoder are exact inverses, that the
  write loop delivers every byte through partial writes, and that a written frame is read
  back with the rest of the stream untouched.
\<close>

section \<open>UDP datagrams (datagram.go)\<close>

definition datagramVersion :: byte where
  "datagramVersion = 2"

record UDPDatagram =
  ud_FlowID :: u64
  ud_Response :: bool
  ud_Source :: addr_port
  ud_Destination :: addr_port
  ud_Payload :: bytes

datatype datagram_error =
    AddressTooLong | DatagramInvalid | FlagsInvalid | LengthsInvalid
  | SourceInvalid | DestinationInvalid

text \<open>\<^verbatim>\<open>AddrPort.MarshalBinary\<close> never fails, so its error returns have no branch.\<close>

definition EncodeUDP :: "UDPDatagram \<Rightarrow> datagram_error + bytes" where
  "EncodeUDP packet =
     (let source = addr_port_marshal (ud_Source packet);
          destination = addr_port_marshal (ud_Destination packet)
      in if length source > 255 \<or> length destination > 255 then Inl AddressTooLong
         else Inr ([datagramVersion, if ud_Response packet then 1 else 0]
                   @ be_bytes 8 (ud_FlowID packet)
                   @ [word_of_nat (length source), word_of_nat (length destination)]
                   @ source @ destination @ ud_Payload packet))"

definition DecodeUDP :: "bytes \<Rightarrow> datagram_error + UDPDatagram" where
  "DecodeUDP data =
     (if length data < 12 \<or> data ! 0 \<noteq> datagramVersion then Inl DatagramInvalid
      else if data ! 1 AND NOT 1 \<noteq> 0 then Inl FlagsInvalid
      else let sourceLength = unat (data ! 10);
               destinationLength = unat (data ! 11);
               headerLength = 12 + sourceLength + destinationLength
           in if sourceLength = 0 \<or> destinationLength = 0 \<or> headerLength > length data
              then Inl LengthsInvalid
              else (case addr_port_unmarshal (take sourceLength (drop 12 data)) of
                      None \<Rightarrow> Inl SourceInvalid
                    | Some source \<Rightarrow>
                        (case addr_port_unmarshal
                                (take destinationLength (drop (12 + sourceLength) data)) of
                           None \<Rightarrow> Inl DestinationInvalid
                         | Some destination \<Rightarrow>
                             Inr \<lparr>ud_FlowID = be_word (take 8 (drop 2 data)),
                                  ud_Response = (data ! 1 AND 1 = 1),
                                  ud_Source = source, ud_Destination = destination,
                                  ud_Payload = drop headerLength data\<rparr>)))"

section \<open>Control frames (protocol.go)\<close>

definition MaxControlFrame :: nat where
  "MaxControlFrame = 64 * 1024"

definition ALPN :: string where "ALPN = ''tailbridge/2''"
definition ALPNV3 :: string where "ALPNV3 = ''tailbridge/3''"
definition RegistrationALPN :: string where "RegistrationALPN = ''tailbridge-register/1''"
definition ProtocolVersion :: string where "ProtocolVersion = ''2.0''"
definition ProtocolVersionV3 :: string where "ProtocolVersionV3 = ''3.0''"

record RegistrationRequest =
  rr_RequestID :: string
  rr_Kind :: string
  rr_ProjectID :: string
  rr_EnvironmentID :: string
  rr_EnvironmentName :: string
  rr_DeploymentID :: string
  rr_ProjectAlias :: string
  rr_EnvironmentAlias :: string
  rr_IdentityKey :: bytes
  rr_TransportKey :: bytes
  rr_Proof :: bytes

record RegistrationResponse =
  rs_RequestID :: string
  rs_State :: string
  rs_ErrorCode :: string
  rs_RetryAfterMS :: int
  rs_VirtualPrefix :: string
  rs_RealPrefix :: string
  rs_DNSSuffix :: string
  rs_CertificatePEM :: bytes
  rs_CertificateEnd :: int
  rs_LeaseExpiresAt :: int

record ConnectorHelloV3 =
  h3_ProtocolVersion :: string
  h3_ProjectID :: string
  h3_EnvironmentID :: string
  h3_IdentityKeyID :: string
  h3_Routes :: "string list"
  h3_SoftwareVersion :: string
  h3_StartedUnixNano :: int

record ConnectorHello =
  h2_ProtocolVersion :: string
  h2_ConnectorID :: string
  h2_Environment :: string
  h2_Routes :: "string list"
  h2_SoftwareVersion :: string
  h2_StartedUnixNano :: int

record ConnectorAccepted =
  ca_SessionID :: string
  ca_ConnectorID :: string
  ca_Slot :: int
  ca_VirtualPrefix :: string
  ca_RealPrefix :: string
  ca_Routes :: "string list"
  ca_MaxTCPFlows :: int

record OpenTCP =
  ot_FlowID :: u64
  ot_Source :: string
  ot_Destination :: string
  ot_DeadlineUnixMS :: int
  ot_TraceParent :: string
  ot_TraceState :: string

record OpenTCPResult =
  or_Accepted :: bool
  or_Code :: string

datatype io_error =
    WriterError | ErrShortWrite | WriterPanic | EOF | UnexpectedEOF
  | MarshalError | UnmarshalError | FrameTooLarge | FrameSizeInvalid nat

text \<open>
  A writer is a function from its state and the bytes offered to the new state, the count
  written and whether it failed. \<^verbatim>\<open>payload[written:]\<close> panics when a writer reports more bytes
  than it was given.
\<close>

type_synonym 'w writer = "'w \<Rightarrow> bytes \<Rightarrow> 'w \<times> nat \<times> bool"

function writeAll :: "'w writer \<Rightarrow> 'w \<Rightarrow> bytes \<Rightarrow> 'w \<times> io_error option" where
  "writeAll wr w payload =
     (if payload = [] then (w, None)
      else case wr w payload of (w', written, failed) \<Rightarrow>
        if failed then (w', Some WriterError)
        else if written = 0 then (w', Some ErrShortWrite)
        else if written > length payload then (w', Some WriterPanic)
        else writeAll wr w' (drop written payload))"
  by pat_completeness auto
termination
  by (relation "measure (\<lambda>(wr, w, payload). length payload)") auto

declare writeAll.simps [simp del]

definition WriteFrame ::
    "('v \<Rightarrow> bytes option) \<Rightarrow> 'w writer \<Rightarrow> 'w \<Rightarrow> 'v \<Rightarrow> 'w \<times> io_error option" where
  "WriteFrame marshal wr w value =
     (case marshal value of
        None \<Rightarrow> (w, Some MarshalError)
      | Some payload \<Rightarrow>
          if length payload > MaxControlFrame then (w, Some FrameTooLarge)
          else case writeAll wr w (to_be 4 (length payload)) of
                 (w', Some e) \<Rightarrow> (w', Some e)
               | (w', None) \<Rightarrow> writeAll wr w' payload)"

text \<open>\<^verbatim>\<open>io.ReadFull\<close> on a reader that delivers \<open>inp\<close> and then ends.\<close>

definition ReadFull :: "nat \<Rightarrow> bytes \<Rightarrow> io_error + bytes \<times> bytes" where
  "ReadFull n inp =
     (if n \<le> length inp then Inr (take n inp, drop n inp)
      else if inp = [] then Inl EOF else Inl UnexpectedEOF)"

definition ReadFrame :: "(bytes \<Rightarrow> 'v option) \<Rightarrow> bytes \<Rightarrow> io_error + 'v \<times> bytes" where
  "ReadFrame unmarshal inp =
     (case ReadFull 4 inp of
        Inl e \<Rightarrow> Inl e
      | Inr (header, rest) \<Rightarrow>
          (let size = from_be header in
           if size = 0 \<or> size > MaxControlFrame then Inl (FrameSizeInvalid size)
           else case ReadFull size rest of
                  Inl e \<Rightarrow> Inl e
                | Inr (payload, rest') \<Rightarrow>
                    (case unmarshal payload of None \<Rightarrow> Inl UnmarshalError
                     | Some v \<Rightarrow> Inr (v, rest'))))"

section \<open>Datagram lemmas\<close>

lemma flags_even: "(b :: byte) AND NOT 1 = 0 \<Longrightarrow> b = 0 \<or> b = 1"
proof -
  assume z: "b AND NOT 1 = 0"
  have high: "\<not> bit b i" if "i \<noteq> 0" for i
  proof
    assume "bit b i"
    with that have "bit (b AND NOT 1) i"
      by (auto simp: bit_and_iff bit_not_iff bit_1_iff dest: bit_imp_le_length)
    with z show False by simp
  qed
  show ?thesis
  proof (cases "bit b 0")
    case True
    have "b = 1" by (rule bit_word_eqI) (use True high in \<open>auto simp: bit_1_iff\<close>)
    then show ?thesis ..
  next
    case False
    have "b = 0" by (rule bit_word_eqI) (use False high in \<open>metis bit_0_eq bot_apply bot_bool_def\<close>)
    then show ?thesis ..
  qed
qed

lemma flag_values [simp]:
  "(1 :: byte) AND NOT 1 = 0" "(0 :: byte) AND NOT 1 = 0"
  "(1 :: byte) AND 1 = 1" "(0 :: byte) AND 1 = 0"
  by simp_all

lemma unat_of_length: "n \<le> 255 \<Longrightarrow> unat (word_of_nat n :: byte) = n"
  by (simp add: unat_of_nat take_bit_eq_mod)

lemma EncodeUDP_decodes: "EncodeUDP p = Inr d \<Longrightarrow> DecodeUDP d = Inr p"
proof -
  let ?s = "addr_port_marshal (ud_Source p)" and ?t = "addr_port_marshal (ud_Destination p)"
  let ?f = "be_bytes 8 (ud_FlowID p)"
  assume "EncodeUDP p = Inr d"
  then have ls: "length ?s \<le> 255" and lt: "length ?t \<le> 255"
    and d: "d = [2, if ud_Response p then 1 else 0] @ ?f
              @ [word_of_nat (length ?s), word_of_nat (length ?t)] @ ?s @ ?t @ ud_Payload p"
    by (auto simp: EncodeUDP_def Let_def datagramVersion_def split: if_splits)
  have sl: "unat (d ! 10) = length ?s" and tl: "unat (d ! 11) = length ?t"
    using ls lt by (simp_all add: d nth_append unat_of_length)
  have d0: "d ! 0 = 2" and d1: "d ! 1 = (if ud_Response p then 1 else 0)" by (simp_all add: d)
  have f: "take 8 (drop 2 d) = ?f" by (simp add: d)
  have body: "drop 12 d = ?s @ ?t @ ud_Payload p" by (simp add: d)
  have s: "take (length ?s) (drop 12 d) = ?s" by (simp add: body)
  have t: "take (length ?t) (drop (12 + length ?s) d) = ?t"
    using body by (metis append_eq_conv_conj drop_drop add.commute)
  have pl: "drop (12 + length ?s + length ?t) d = ud_Payload p"
    using body by (metis append_eq_conv_conj drop_drop add.commute add.assoc length_append append_assoc)
  have len: "12 + length ?s + length ?t \<le> length d" by (simp add: d)
  have ne: "?s \<noteq> []" "?t \<noteq> []" using addr_port_marshal_length by (metis list.size(3) not_numeral_le_zero)+
  have fl: "d ! 1 AND NOT 1 = 0" "(d ! 1 AND 1 = 1) = ud_Response p" unfolding d1 by simp_all
  show ?thesis
    unfolding DecodeUDP_def Let_def datagramVersion_def fl sl tl f s t pl d0 ap_codec.dec_enc
    using ne len by simp
qed

lemma list_12: "12 \<le> length (d :: 'a list) \<Longrightarrow>
  d = [d ! 0, d ! 1] @ take 8 (drop 2 d) @ [d ! 10, d ! 11] @ drop 12 d"
proof -
  assume l: "12 \<le> length d"
  have "drop 8 (drop 2 d) = drop 10 d" "drop 2 (drop 10 d) = drop 12 d" by simp_all
  then have a: "d = take 2 d @ take 8 (drop 2 d) @ take 2 (drop 10 d) @ drop 12 d"
    by (metis append_take_drop_id)
  have b: "take 2 d = [d ! 0, d ! 1]"
    using l by (auto intro!: nth_equalityI simp: less_2_cases_iff)
  have c: "take 2 (drop 10 d) = [d ! 10, d ! 11]"
    using l by (auto intro!: nth_equalityI simp: less_2_cases_iff)
  show ?thesis using a unfolding b c .
qed

lemma DecodeUDP_encodes: "DecodeUDP d = Inr p \<Longrightarrow> EncodeUDP p = Inr d"
proof -
  let ?n = "unat (d ! 10)" and ?m = "unat (d ! 11)"
  assume dec: "DecodeUDP d = Inr p"
  from dec have l: "12 \<le> length d" and d0: "d ! 0 = 2" and fl: "d ! 1 AND NOT 1 = 0"
    and hl: "12 + ?n + ?m \<le> length d"
    and src: "addr_port_unmarshal (take ?n (drop 12 d)) = Some (ud_Source p)"
    and dst: "addr_port_unmarshal (take ?m (drop (12 + ?n) d)) = Some (ud_Destination p)"
    and id: "ud_FlowID p = be_word (take 8 (drop 2 d))"
    and rsp: "ud_Response p = (d ! 1 AND 1 = 1)"
    and pay: "ud_Payload p = drop (12 + ?n + ?m) d"
    unfolding DecodeUDP_def Let_def datagramVersion_def
    by (auto simp del: bit.conj_cancel_right split: if_splits option.splits)
  have s: "addr_port_marshal (ud_Source p) = take ?n (drop 12 d)"
    and t: "addr_port_marshal (ud_Destination p) = take ?m (drop (12 + ?n) d)"
    using src dst by (simp_all only: ap_codec.dec_iff)
  have ls: "length (take ?n (drop 12 d)) = ?n" and lt: "length (take ?m (drop (12 + ?n) d)) = ?m"
    using hl by simp_all
  have small: "unat b \<le> 255" for b :: byte
    using unsigned_less [of b, where 'a = nat] by simp
  have tail: "drop 12 d = take ?n (drop 12 d) @ take ?m (drop (12 + ?n) d) @ drop (12 + ?n + ?m) d"
  proof -
    have "drop ?n (drop 12 d) = drop (12 + ?n) d" by (simp add: add.commute)
    moreover have "drop ?m (drop (12 + ?n) d) = drop (12 + ?n + ?m) d" by (simp add: ac_simps)
    ultimately show ?thesis by (metis append_take_drop_id)
  qed
  have r: "(if ud_Response p then 1 else 0) = d ! 1"
    using flags_even [OF fl] rsp by auto
  have f: "be_bytes 8 (ud_FlowID p) = take 8 (drop 2 d)"
    using l unfolding id by simp
  have "EncodeUDP p = Inr ([2, d ! 1] @ take 8 (drop 2 d) @ [d ! 10, d ! 11] @ drop 12 d)"
    unfolding EncodeUDP_def Let_def datagramVersion_def s t ls lt f r pay
    using small [of "d ! 10"] small [of "d ! 11"] tail by simp
  also have "\<dots> = Inr d" using list_12 [OF l] d0 by simp
  finally show ?thesis .
qed

section \<open>Frame lemmas\<close>

text \<open>
  The contract of \<^verbatim>\<open>io.Writer\<close> that the write loop relies on: a call appends a prefix of the
  bytes it was given to what the sink holds, and a call that does not fail makes progress.
\<close>

definition conforming :: "'w writer \<Rightarrow> ('w \<Rightarrow> bytes) \<Rightarrow> bool" where
  "conforming wr sink \<longleftrightarrow>
     (\<forall>w p w' n failed. wr w p = (w', n, failed) \<longrightarrow>
        n \<le> length p \<and> sink w' = sink w @ take n p \<and> (\<not> failed \<and> p \<noteq> [] \<longrightarrow> 0 < n))"

lemma conformingD:
  assumes "conforming wr sink" and "wr w p = (w', n, failed)"
  shows "n \<le> length p" "sink w' = sink w @ take n p" "\<not> failed \<Longrightarrow> p \<noteq> [] \<Longrightarrow> 0 < n"
  using assms unfolding conforming_def by blast+

lemma writeAll_delivers:
  assumes "conforming wr sink" and "writeAll wr w payload = (w', r)"
  shows "(\<exists>k \<le> length payload. sink w' = sink w @ take k payload)
       \<and> (r = None \<longrightarrow> sink w' = sink w @ payload) \<and> (r = None \<or> r = Some WriterError)"
  using assms
proof (induction wr w payload arbitrary: w' r rule: writeAll.induct)
  case (1 wr w payload)
  show ?case
  proof (cases "payload = []")
    case True
    with "1.prems" show ?thesis by (simp add: writeAll.simps)
  next
    case False
    obtain v n failed where st: "wr w payload = (v, n, failed)" by (cases "wr w payload")
    note c = conformingD [OF "1.prems"(1) st]
    show ?thesis
    proof (cases failed)
      case True
      with "1.prems"(2) False st have "w' = v" "r = Some WriterError"
        by (simp_all add: writeAll.simps [of wr w payload])
      with c(1,2) show ?thesis by auto
    next
      case ok: False
      with c False have n: "0 < n" "n \<le> length payload" by auto
      from "1.prems"(2) False st ok n have "writeAll wr v (drop n payload) = (w', r)"
        by (simp add: writeAll.simps [of wr w payload])
      from "1.IH" [OF False st [symmetric] refl ok _ _ "1.prems"(1) this] n
      obtain k where k: "k \<le> length (drop n payload)" "sink w' = sink v @ take k (drop n payload)"
        and d: "r = None \<longrightarrow> sink w' = sink v @ drop n payload" "r = None \<or> r = Some WriterError"
        by (metis less_not_refl not_less)
      have "sink w' = sink w @ take (n + k) payload"
        using k(2) c(2) by (simp add: take_add)
      with k n d c(2) show ?thesis by (auto intro!: exI [of _ "n + k"])
    qed
  qed
qed

lemma ReadFull_append [simp]: "length a = n \<Longrightarrow> ReadFull n (a @ b) = Inr (a, b)"
  by (simp add: ReadFull_def)

lemma ReadFrame_frame:
  assumes "payload \<noteq> []" and "length payload \<le> MaxControlFrame" and "unmarshal payload = Some v"
  shows "ReadFrame unmarshal (to_be 4 (length payload) @ payload @ rest) = Inr (v, rest)"
proof -
  have "length payload < 256 ^ 4" using assms(2) by (simp add: MaxControlFrame_def)
  then have "from_be (to_be 4 (length payload)) = length payload" by (simp add: from_be_to_be)
  with assms show ?thesis by (simp add: ReadFrame_def)
qed

section \<open>Properties\<close>

text \<open>
  C9. The UDP datagram format is exact: a byte string decodes to a datagram if and only if it
  is that datagram's encoding. So encoding then decoding loses nothing, and no two byte
  strings stand for the same datagram.
\<close>

theorem datagram_codec_exact: "DecodeUDP d = Inr p \<longleftrightarrow> EncodeUDP p = Inr d"
  using EncodeUDP_decodes DecodeUDP_encodes by blast

text \<open>
  C28. A control frame that \<^verbatim>\<open>WriteFrame\<close> reports as written, through any conforming writer and
  however it splits the writes, is appended whole to the sink, and \<^verbatim>\<open>ReadFrame\<close> reads the same
  value back and leaves the bytes after the frame unread.
\<close>

theorem frame_roundtrip:
  assumes "conforming wr sink" and "marshal v = Some payload" and "payload \<noteq> []"
    and "unmarshal payload = Some v" and "WriteFrame marshal wr w v = (w', None)"
  shows "\<exists>frame. sink w' = sink w @ frame
           \<and> (\<forall>rest. ReadFrame unmarshal (frame @ rest) = Inr (v, rest))"
proof -
  from assms(2,5) obtain v1 where small: "length payload \<le> MaxControlFrame"
    and hd: "writeAll wr w (to_be 4 (length payload)) = (v1, None)"
    and pl: "writeAll wr v1 payload = (w', None)"
    by (auto simp: WriteFrame_def split: if_splits prod.splits option.splits)
  have "sink w' = sink w @ to_be 4 (length payload) @ payload"
    using writeAll_delivers [OF assms(1) hd] writeAll_delivers [OF assms(1) pl] by simp
  moreover have "ReadFrame unmarshal ((to_be 4 (length payload) @ payload) @ rest) = Inr (v, rest)" for rest
    using ReadFrame_frame [where unmarshal = unmarshal and v = v, OF assms(3) small assms(4)] by simp
  ultimately show ?thesis by blast
qed

text \<open>A writer that takes three bytes at a time shows that the hypotheses can hold.\<close>

definition chunk_writer :: "bytes writer" where
  "chunk_writer w p = (w @ take 3 p, min 3 (length p), False)"

lemma chunk_writer_conforming: "conforming chunk_writer id"
  by (auto simp: conforming_def chunk_writer_def min_def)

theorem frame_roundtrip_witness:
  "\<exists>frame. id ([9] @ [0, 0, 0, 4, 1, 2, 3, 4]) = id [9] @ frame
     \<and> (\<forall>rest. ReadFrame Some (frame @ rest) = Inr ([1, 2, 3, 4], rest))"
proof (rule frame_roundtrip [OF chunk_writer_conforming])
  show "Some [1, 2, 3, 4] = Some [1, 2, 3, 4 :: byte]" by simp
  show "[1, 2, 3, 4 :: byte] \<noteq> []" by simp
  show "Some [1, 2, 3, 4] = Some [1, 2, 3, 4 :: byte]" by simp
  show "WriteFrame Some chunk_writer [9] [1, 2, 3, 4] = ([9] @ [0, 0, 0, 4, 1, 2, 3, 4], None)"
    by code_simp
qed

end
