(* ===== verification/Translation.thy ===== *)
theory Translation
  imports Netip_Codec
begin

text \<open>
  Address translation between a connector's virtual and real IPv6 /16 (package
  \<^verbatim>\<open>internal/edge\<close>, \<^verbatim>\<open>translation.go\<close>). The lemmas characterise when a translation succeeds,
  what it keeps of the address, and that translating back restores it.
\<close>

datatype translate_error = NotIPv6Slash16 | errAddressOutsidePrefix

definition translateAddress :: "addr \<Rightarrow> prefix \<Rightarrow> prefix \<Rightarrow> translate_error + addr" where
  "translateAddress address0 from0 to0 =
     (let address = unmap address0; frm = masked from0; to = masked to0 in
      if \<not> is6 address \<or> \<not> is6 (pfx_addr frm) \<or> \<not> is6 (pfx_addr to)
         \<or> pfx_bits frm \<noteq> 16 \<or> pfx_bits to \<noteq> 16 then Inl NotIPv6Slash16
      else if \<not> contains frm address then Inl errAddressOutsidePrefix
      else let translated = as16 address; prefix = as16 (pfx_addr to)
           in Inr (addr_from16 (translated[0 := prefix ! 0, 1 := prefix ! 1])))"

definition translateAddrPort :: "addr_port \<Rightarrow> prefix \<Rightarrow> prefix \<Rightarrow> translate_error + addr_port" where
  "translateAddrPort address frm to =
     (case translateAddress (ap_addr address) frm to of
        Inl e \<Rightarrow> Inl e
      | Inr translated \<Rightarrow> Inr \<lparr>ap_addr = translated, ap_port = ap_port address\<rparr>)"

section \<open>Lemmas\<close>

lemma patch2: "length bs = 16 \<Longrightarrow> bs[0 := x, Suc 0 := y] = [x, y] @ drop 2 bs"
proof -
  assume "length bs = 16"
  then obtain u v ws where "bs = u # v # ws"
    by (metis length_Suc_conv numeral_eq_Suc pred_numeral_simps(2) semiring_norm(26,27))
  then show ?thesis by simp
qed

lemma take2_nth: "length bs = 16 \<Longrightarrow> take 2 bs = [bs ! 0, bs ! 1]"
  by (rule nth_equalityI) (auto simp: less_2_cases_iff)

lemma contains_slash16:
  assumes "slash16 p"
  shows "contains (masked p) a \<longleftrightarrow>
    is6 a \<and> \<not> has_zone a \<and> take 2 (as16 a) = take 2 (as16 (pfx_addr (masked p)))"
proof -
  from assms obtain w where "masked p = Prefix (V6 w []) 16"
    by (cases "pfx_addr p") (auto simp: slash16_masked_wf slash16_def)
  then show ?thesis by (simp add: contains16_iff)
qed

lemma translateAddress_Inr:
  "translateAddress a frm to = Inr b \<longleftrightarrow>
     slash16 frm \<and> slash16 to \<and> contains (masked frm) (unmap a)
     \<and> b = addr_from16 (take 2 (as16 (pfx_addr (masked to))) @ drop 2 (as16 (unmap a)))"
proof -
  have s: "slash16 p \<longleftrightarrow> is6 (pfx_addr (masked p)) \<and> pfx_bits (masked p) = 16" for p
    using slash16_masked [of p] unfolding slash16_def [of "masked p"] by simp
  have c: "contains (masked frm) (unmap a) \<Longrightarrow> slash16 frm \<Longrightarrow> is6 (unmap a)"
    by (simp add: contains_slash16)
  show ?thesis
    by (auto simp: translateAddress_def Let_def s patch2 take2_nth
        dest: c [unfolded s] split: if_splits)
qed

lemma translate_bytes:
  assumes "translateAddress a frm to = Inr b"
  shows "is6 b" and "\<not> has_zone b"
    and "take 2 (as16 b) = take 2 (as16 (pfx_addr (masked to)))"
    and "drop 2 (as16 b) = drop 2 (as16 (unmap a))"
    and "contains (masked to) b"
proof -
  let ?bs = "take 2 (as16 (pfx_addr (masked to))) @ drop 2 (as16 (unmap a))"
  from assms have b: "b = addr_from16 ?bs" and t: "slash16 to"
    by (simp_all add: translateAddress_Inr)
  have bb: "as16 b = ?bs" by (simp add: b)
  show z: "is6 b" "\<not> has_zone b" by (simp_all add: b addr_from16_def)
  show p: "take 2 (as16 b) = take 2 (as16 (pfx_addr (masked to)))"
    and "drop 2 (as16 b) = drop 2 (as16 (unmap a))" by (simp_all add: bb)
  from z p t show "contains (masked to) b" by (simp add: contains_slash16)
qed

section \<open>Properties\<close>

text \<open>
  Translating an address from the virtual to the real prefix and the result back again
  restores the address (unmapped, as the code unmaps it first), unless the translated
  address is an IPv4-mapped one, which the code refuses to translate back.
\<close>

theorem translate_roundtrip:
  assumes "translateAddress a frm to = Inr b" and "\<not> is4in6 b"
  shows "translateAddress b to frm = Inr (unmap a)"
proof -
  from assms(1) have f: "slash16 frm" and t: "slash16 to" and c: "contains (masked frm) (unmap a)"
    by (simp_all add: translateAddress_Inr)
  from c f have a: "is6 (unmap a)" "\<not> has_zone (unmap a)"
    and pa: "take 2 (as16 (unmap a)) = take 2 (as16 (pfx_addr (masked frm)))"
    by (simp_all add: contains_slash16)
  have ub: "unmap b = b" using assms(2) by (cases b) auto
  have "addr_from16 (take 2 (as16 (pfx_addr (masked frm))) @ drop 2 (as16 b)) = unmap a"
    using translate_bytes(4) [OF assms(1)] pa a addr_from16_as16 [OF a(1)]
    by (metis append_take_drop_id has_zone.elims(3) is6.simps(2,3) without_zone.simps(1))
  with translate_bytes(5) [OF assms(1)] f t show ?thesis
    by (simp add: translateAddress_Inr ub)
qed

text \<open>
  A successful translation of an address and port keeps the port and the last fourteen
  bytes of the address, takes the first two bytes from the target prefix, and lands inside
  that prefix; it succeeds exactly when both prefixes are IPv6 /16 and the unmapped address
  lies in the source prefix.
\<close>

theorem translate_sound:
  "(\<exists>q. translateAddrPort p frm to = Inr q) = (slash16 frm \<and> slash16 to \<and> contains (masked frm) (unmap (ap_addr p)))
   \<and> (\<forall>q. translateAddrPort p frm to = Inr q \<longrightarrow>
        ap_port q = ap_port p
      \<and> drop 2 (as16 (ap_addr q)) = drop 2 (as16 (unmap (ap_addr p)))
      \<and> take 2 (as16 (ap_addr q)) = take 2 (as16 (pfx_addr (masked to)))
      \<and> contains (masked to) (ap_addr q))"
proof -
  have iff: "translateAddrPort p frm to = Inr q \<longleftrightarrow>
      ap_port q = ap_port p \<and> translateAddress (ap_addr p) frm to = Inr (ap_addr q)" for q
    by (cases q) (auto simp: translateAddrPort_def split: sum.splits)
  have "(\<exists>q. translateAddrPort p frm to = Inr q) \<longleftrightarrow> (\<exists>b. translateAddress (ap_addr p) frm to = Inr b)"
    by (auto simp: translateAddrPort_def split: sum.splits)
  moreover have "(\<exists>b. translateAddress (ap_addr p) frm to = Inr b) \<longleftrightarrow>
      slash16 frm \<and> slash16 to \<and> contains (masked frm) (unmap (ap_addr p))"
    unfolding translateAddress_Inr by blast
  ultimately show ?thesis
    unfolding iff using translate_bytes(3-5) [of "ap_addr p" frm to] by blast
qed

text \<open>The default pools: \<^verbatim>\<open>fd40::/16\<close> to \<^verbatim>\<open>fd12::/16\<close>.\<close>

theorem translate_roundtrip_witness:
  "translateAddress (V6 0xfd120000000000000000000000000010 [])
      (Prefix (V6 0xfd120000000000000000000000000000 []) 16)
      (Prefix (V6 0xfd400000000000000000000000000000 []) 16)
   = Inr (unmap (V6 0xfd400000000000000000000000000010 []))"
proof (rule translate_roundtrip)
  show "translateAddress (V6 0xfd400000000000000000000000000010 [])
      (Prefix (V6 0xfd400000000000000000000000000000 []) 16)
      (Prefix (V6 0xfd120000000000000000000000000000 []) 16)
    = Inr (V6 0xfd120000000000000000000000000010 [])" by code_simp
  show "\<not> is4in6 (V6 0xfd120000000000000000000000000010 [])" by code_simp
qed

theorem translate_sound_witness:
  "ap_port \<lparr>ap_addr = V6 0xfd120000000000000000000000000010 [], ap_port = 53\<rparr> = 53
   \<and> contains (masked (Prefix (V6 0xfd120000000000000000000000000000 []) 16))
        (V6 0xfd120000000000000000000000000010 [])"
proof -
  have "translateAddrPort \<lparr>ap_addr = V6 0xfd400000000000000000000000000010 [], ap_port = 53\<rparr>
      (Prefix (V6 0xfd400000000000000000000000000000 []) 16)
      (Prefix (V6 0xfd120000000000000000000000000000 []) 16)
    = Inr \<lparr>ap_addr = V6 0xfd120000000000000000000000000010 [], ap_port = 53\<rparr>" by code_simp
  from translate_sound [THEN conjunct2, rule_format, OF this] show ?thesis by simp
qed

end
