(* ===== verification/Config.thy ===== *)
theory Config
  imports Translation
begin

text \<open>
  Package \<^verbatim>\<open>internal/config\<close>, the value checks: destination lists (\<^verbatim>\<open>Allowed\<close>,
  \<^verbatim>\<open>IntersectPrefixes\<close>, \<^verbatim>\<open>ValidateAcceptedRoutes\<close>), names, DNS suffixes, prefixes, ports and the
  static connector registry. Base64 and JSON decoding are parameters. The lemmas show that
  the intersection accepts exactly the addresses both lists accept, and that a decoded
  registry has distinct, disjoint slots.
\<close>

section \<open>Data\<close>

record ConnectorTarget =
  ct_ConnectorID :: string
  ct_ProjectID :: string
  ct_Environment :: string
  ct_EnvironmentName :: string
  ct_Slot :: int
  ct_VirtualPrefix :: prefix
  ct_RealPrefix :: prefix
  ct_DNSSuffix :: string

record connectorTargetJSON =
  cj_ConnectorID :: string
  cj_ProjectID :: string
  cj_Environment :: string
  cj_EnvironmentName :: string
  cj_Slot :: int
  cj_VirtualPrefix :: string
  cj_RealPrefix :: string
  cj_DNSSuffix :: string

datatype config_error =
    Required string | NotBase64 string | NotJSON string | TrailingData string | Invalid string
  | NoRoutes | RouteNotCIDR string | RouteRepeated string | RouteNotAllowed string

section \<open>Names, labels and suffixes\<close>

definition asciiLetterOrDigit :: "char \<Rightarrow> bool" where
  "asciiLetterOrDigit c \<longleftrightarrow>
     between CHR ''a'' CHR ''z'' c \<or> between CHR ''A'' CHR ''Z'' c \<or> between CHR ''0'' CHR ''9'' c"

definition validName :: "string \<Rightarrow> bool" where
  "validName v =
     (\<not> (length v < 1 \<or> length v > 63 \<or> \<not> asciiLetterOrDigit (hd v))
      \<and> list_all (\<lambda>c. asciiLetterOrDigit c \<or> c = CHR ''.'' \<or> c = CHR ''_'' \<or> c = CHR ''-'') (tl v))"

definition validDNSLabel :: "string \<Rightarrow> bool" where
  "validDNSLabel l =
     (\<not> (length l < 1 \<or> length l > 63 \<or> \<not> asciiLetterOrDigit (hd l) \<or> \<not> asciiLetterOrDigit (last l))
      \<and> list_all (\<lambda>c. asciiLetterOrDigit c \<or> c = CHR ''-'') (butlast (tl l)))"

definition dnsSuffixValue :: "string \<Rightarrow> string \<Rightarrow> config_error + string" where
  "dnsSuffixValue name raw =
     (let suffix = to_lower (trim_where (\<lambda>c. c = CHR ''.'') (trim_space raw)) in
      if suffix = [] \<or> suffix = ''railway.internal'' \<or> \<not> has_suffix suffix ''.railway.internal''
      then Inl (Invalid name)
      else if \<not> list_all validDNSLabel (split_on CHR ''.'' suffix) then Inl (Invalid name)
      else Inr suffix)"

section \<open>Prefixes\<close>

definition ipv6Prefix16 :: "string \<Rightarrow> string \<Rightarrow> config_error + prefix" where
  "ipv6Prefix16 name raw =
     (case parse_prefix (trim_space raw) of
        None \<Rightarrow> Inl (Invalid name)
      | Some p \<Rightarrow> if \<not> is6 (pfx_addr p) \<or> pfx_bits p \<noteq> 16 \<or> p \<noteq> masked p then Inl (Invalid name)
                  else Inr p)"

text \<open>The constant networks \<^verbatim>\<open>fd00::/8\<close>, \<^verbatim>\<open>fd20::/11\<close> and \<^verbatim>\<open>fd12::/16\<close>.\<close>

definition fd00_8 :: prefix where
  "fd00_8 = Prefix (V6 0xfd000000000000000000000000000000 []) 8"

definition fd20_11 :: prefix where
  "fd20_11 = Prefix (V6 0xfd200000000000000000000000000000 []) 11"

definition fd12_16 :: prefix where
  "fd12_16 = Prefix (V6 0xfd120000000000000000000000000000 []) 16"

definition virtualNetworkValue :: "string \<Rightarrow> config_error + prefix" where
  "virtualNetworkValue raw =
     (case parse_prefix (trim_space raw) of
        None \<Rightarrow> Inl (Invalid ''TB_VIRTUAL_NETWORK'')
      | Some p \<Rightarrow>
          if \<not> is6 (pfx_addr p) \<or> pfx_bits p < 10 \<or> pfx_bits p > 16 \<or> p \<noteq> masked p
          then Inl (Invalid ''TB_VIRTUAL_NETWORK'')
          else if \<not> contains fd00_8 (pfx_addr p) then Inl (Invalid ''TB_VIRTUAL_NETWORK'')
          else Inr p)"

definition prefixes :: "string \<Rightarrow> config_error + prefix list" where
  "prefixes raw =
     (if trim_space raw = [] then Inl (Required ''CIDR'')
      else map_result (\<lambda>part. case parse_prefix (trim_space part) of
                               None \<Rightarrow> Inl (RouteNotCIDR part) | Some p \<Rightarrow> Inr (masked p))
             (split_on CHR '','' raw))"

definition commaValues :: "string \<Rightarrow> string list" where
  "commaValues raw = filter (\<lambda>v. v \<noteq> []) (map trim_space (split_on CHR '','' raw))"

definition Allowed :: "prefix list \<Rightarrow> addr \<Rightarrow> bool" where
  "Allowed ps address = list_ex (\<lambda>p. contains p address) ps"

text \<open>The body of the inner loop of \<^verbatim>\<open>IntersectPrefixes\<close> for one masked pair.\<close>

definition intersectPair :: "prefix list \<Rightarrow> prefix \<Rightarrow> prefix \<Rightarrow> prefix list" where
  "intersectPair result left right =
     (if bit_len (pfx_addr left) \<noteq> bit_len (pfx_addr right) \<or> \<not> overlaps left right then result
      else let intersection = (if pfx_bits right > pfx_bits left then right else left) in
        if list_ex (\<lambda>existing. pfx_bits existing \<le> pfx_bits intersection
                      \<and> contains existing (pfx_addr intersection)) result
        then result
        else filter (\<lambda>existing. \<not> (pfx_bits intersection \<le> pfx_bits existing
                      \<and> contains intersection (pfx_addr existing))) result @ [intersection])"

definition IntersectPrefixes :: "prefix list \<Rightarrow> prefix list \<Rightarrow> prefix list" where
  "IntersectPrefixes first second =
     foldl (\<lambda>result left. foldl (\<lambda>acc right. intersectPair acc (masked left) (masked right)) result second)
       [] first"

text \<open>The loop of \<^verbatim>\<open>ValidateAcceptedRoutes\<close>, with the routes already seen.\<close>

fun validateRoutes :: "prefix list \<Rightarrow> prefix set \<Rightarrow> string list \<Rightarrow> config_error + prefix list" where
  "validateRoutes allowed seen [] = Inr []"
| "validateRoutes allowed seen (raw # rest) =
     (case parse_prefix (trim_space raw) of
        None \<Rightarrow> Inl (RouteNotCIDR raw)
      | Some route0 \<Rightarrow>
          (let route = masked route0 in
           if route \<in> seen then Inl (RouteRepeated raw)
           else if \<not> list_ex (\<lambda>c. let candidate = masked c in
                        bit_len (pfx_addr candidate) = bit_len (pfx_addr route)
                        \<and> pfx_bits candidate \<le> pfx_bits route
                        \<and> contains candidate (pfx_addr route)) allowed
           then Inl (RouteNotAllowed raw)
           else (case validateRoutes allowed (insert route seen) rest of
                   Inl e \<Rightarrow> Inl e
                 | Inr routes \<Rightarrow> Inr (route # routes))))"

definition ValidateAcceptedRoutes :: "string list \<Rightarrow> prefix list \<Rightarrow> config_error + prefix list" where
  "ValidateAcceptedRoutes accepted allowed =
     (if accepted = [] then Inl NoRoutes else validateRoutes allowed {} accepted)"

section \<open>The static connector registry\<close>

text \<open>One iteration of the loop of \<^verbatim>\<open>connectorTargets\<close>: the checks on a single entry.\<close>

definition connectorTarget :: "connectorTargetJSON \<Rightarrow> config_error + ConnectorTarget" where
  "connectorTarget v =
     (if \<not> validName (cj_ConnectorID v) \<or> \<not> validName (cj_Environment v) then Inl (Invalid ''connectorId'')
      else if cj_Slot v < 0 \<or> cj_Slot v > 31 then Inl (Invalid ''slot'')
      else case ipv6Prefix16 ''virtualPrefix'' (cj_VirtualPrefix v) of
          Inl e \<Rightarrow> Inl (Invalid ''virtualPrefix'')
        | Inr virtualPrefix \<Rightarrow>
            if \<not> contains fd20_11 (pfx_addr virtualPrefix) then Inl (Invalid ''virtualPrefix'')
            else if uint (as16 (pfx_addr virtualPrefix) ! 1 - 0x20) \<noteq> cj_Slot v
            then Inl (Invalid ''virtualPrefix'')
            else (case ipv6Prefix16 ''realPrefix'' (cj_RealPrefix v) of
                Inl e \<Rightarrow> Inl e
              | Inr realPrefix \<Rightarrow>
                  (case dnsSuffixValue ''dnsSuffix'' (cj_DNSSuffix v) of
                     Inl e \<Rightarrow> Inl e
                   | Inr suffix \<Rightarrow>
                       Inr \<lparr>ct_ConnectorID = cj_ConnectorID v, ct_ProjectID = cj_ProjectID v,
                            ct_Environment = cj_Environment v,
                            ct_EnvironmentName = (if cj_EnvironmentName v = [] then cj_Environment v
                                                  else cj_EnvironmentName v),
                            ct_Slot = cj_Slot v, ct_VirtualPrefix = virtualPrefix,
                            ct_RealPrefix = realPrefix, ct_DNSSuffix = suffix\<rparr>)))"

text \<open>The loop with its three sets of values already used.\<close>

fun connectorLoop :: "string set \<Rightarrow> int set \<Rightarrow> prefix set \<Rightarrow> connectorTargetJSON list
    \<Rightarrow> config_error + ConnectorTarget list" where
  "connectorLoop ids slots pfxs [] = Inr []"
| "connectorLoop ids slots pfxs (v # vs) =
     (case connectorTarget v of
        Inl e \<Rightarrow> Inl e
      | Inr t \<Rightarrow>
          if ct_ConnectorID t \<in> ids then Inl (Invalid ''connectorId'')
          else if ct_Slot t \<in> slots then Inl (Invalid ''slot'')
          else if ct_VirtualPrefix t \<in> pfxs then Inl (Invalid ''virtualPrefix'')
          else (case connectorLoop (insert (ct_ConnectorID t) ids) (insert (ct_Slot t) slots)
                       (insert (ct_VirtualPrefix t) pfxs) vs of
                  Inl e \<Rightarrow> Inl e
                | Inr ts \<Rightarrow> Inr (t # ts)))"

text \<open>
  \<open>b64\<close> is \<^verbatim>\<open>base64.StdEncoding.DecodeString\<close>; \<open>json\<close> decodes the first JSON value as a connector
  array and tells whether anything follows it.
\<close>

definition connectorTargets ::
    "(string \<Rightarrow> bytes option) \<Rightarrow> (bytes \<Rightarrow> (connectorTargetJSON list \<times> bool) option) \<Rightarrow> string
     \<Rightarrow> config_error + ConnectorTarget list" where
  "connectorTargets b64 json encoded =
     (if encoded = [] then Inl (Required ''TB_CONNECTORS_B64'')
      else case b64 encoded of
          None \<Rightarrow> Inl (NotBase64 ''TB_CONNECTORS_B64'')
        | Some payload \<Rightarrow>
            (case json payload of
               None \<Rightarrow> Inl (NotJSON ''TB_CONNECTORS_B64'')
             | Some (values, trailing) \<Rightarrow>
                 if trailing then Inl (TrailingData ''TB_CONNECTORS_B64'')
                 else if length values < 1 \<or> length values > 32 then Inl (Invalid ''TB_CONNECTORS_B64'')
                 else connectorLoop {} {} {} values))"

section \<open>Lemmas: destination lists\<close>

abbreviation wf_list :: "prefix list \<Rightarrow> bool" where
  "wf_list ps \<equiv> list_all prefix_wf ps"

lemma Allowed_simps [simp]:
  "Allowed [] a = False"
  "Allowed (p # ps) a \<longleftrightarrow> contains p a \<or> Allowed ps a"
  "Allowed (ps @ qs) a \<longleftrightarrow> Allowed ps a \<or> Allowed qs a"
  by (auto simp: Allowed_def)

lemma overlaps_sym: "overlaps p q \<longleftrightarrow> overlaps q p"
  by (auto simp: overlaps_def min.commute Let_def)

text \<open>The narrower of two overlapping masked prefixes is their common range.\<close>

lemma overlap_narrower:
  assumes wf: "prefix_wf l" "prefix_wf r"
    and ov: "bit_len (pfx_addr l) = bit_len (pfx_addr r)" "overlaps l r"
  shows "contains (if pfx_bits r > pfx_bits l then r else l) a \<longleftrightarrow> contains l a \<and> contains r a"
proof -
  have v: "prefix_valid l" "prefix_valid r" using ov(2) by (auto simp: overlaps_def split: if_splits)
  show ?thesis
    using overlaps_iff [OF wf v ov(1)] ov(2) contains_nested [of l r a] contains_nested [of r l a]
      overlaps_iff [OF wf(2,1) v(2,1) ov(1)[symmetric]] wf v overlaps_sym [of l r]
    by (auto split: if_splits simp: contains_self)
qed

lemma intersectPair_wf:
  "wf_list res \<Longrightarrow> prefix_wf l \<Longrightarrow> prefix_wf r \<Longrightarrow> wf_list (intersectPair res l r)"
  by (auto simp: intersectPair_def Let_def list_all_iff)

lemma intersectPair_Allowed:
  assumes "wf_list res" and wf: "prefix_wf l" "prefix_wf r"
  shows "Allowed (intersectPair res l r) a \<longleftrightarrow> Allowed res a \<or> contains l a \<and> contains r a"
proof (cases "bit_len (pfx_addr l) \<noteq> bit_len (pfx_addr r) \<or> \<not> overlaps l r")
  case True
  then have "\<not> (contains l a \<and> contains r a)"
    using common_address_overlaps [OF wf] by (metis contains_bit_len)
  with True show ?thesis by (auto simp: intersectPair_def)
next
  case False
  define i where "i = (if pfx_bits r > pfx_bits l then r else l)"
  have i: "contains i a \<longleftrightarrow> contains l a \<and> contains r a"
    using False overlap_narrower [OF wf] unfolding i_def by blast
  have nest: "contains e (pfx_addr i) \<Longrightarrow> pfx_bits e \<le> pfx_bits i \<Longrightarrow> contains i a \<Longrightarrow> contains e a"
    "contains i (pfx_addr e) \<Longrightarrow> pfx_bits i \<le> pfx_bits e \<Longrightarrow> contains e a \<Longrightarrow> contains i a" for e
    using contains_nested by blast+
  show ?thesis
    using False by (auto simp: intersectPair_def Let_def i_def [symmetric] i [symmetric]
        Allowed_def list_ex_iff dest: nest)
qed

text \<open>The accumulated list stays irredundant: no member's base lies in another, wider member.\<close>

definition covers :: "prefix \<Rightarrow> prefix \<Rightarrow> bool" where
  "covers p q \<longleftrightarrow> pfx_bits p \<le> pfx_bits q \<and> contains p (pfx_addr q)"

definition irredundant :: "prefix list \<Rightarrow> bool" where
  "irredundant ps \<longleftrightarrow>
     (\<forall>i < length ps. \<forall>j < length ps. i \<noteq> j \<longrightarrow> \<not> covers (ps ! i) (ps ! j))"

lemma irredundant_Nil [simp]: "irredundant []"
  by (simp add: irredundant_def)

lemma irredundant_snoc:
  "irredundant (ps @ [q]) \<longleftrightarrow> irredundant ps \<and> (\<forall>p \<in> set ps. \<not> covers p q \<and> \<not> covers q p)"
  by (fastforce simp: irredundant_def nth_append in_set_conv_nth less_Suc_eq)

lemma irredundant_filter: "irredundant ps \<Longrightarrow> irredundant (filter P ps)"
  by (induction ps rule: rev_induct) (auto simp: irredundant_snoc)

lemma intersectPair_irredundant: "irredundant res \<Longrightarrow> irredundant (intersectPair res l r)"
  by (auto simp: intersectPair_def Let_def irredundant_snoc irredundant_filter covers_def list_ex_iff)

text \<open>Both loops of \<^verbatim>\<open>IntersectPrefixes\<close> as one fold over the pairs.\<close>

lemma IntersectPrefixes_fold:
  "IntersectPrefixes fs ss =
     foldl (\<lambda>acc (l, r). intersectPair acc (masked l) (masked r)) [] (List.product fs ss)"
proof -
  have "foldl (\<lambda>res l. foldl (\<lambda>acc r. intersectPair acc (masked l) (masked r)) res ss) acc fs =
    foldl (\<lambda>acc (l, r). intersectPair acc (masked l) (masked r)) acc (List.product fs ss)" for acc
    by (induction fs arbitrary: acc) (simp_all add: foldl_map)
  then show ?thesis by (simp add: IntersectPrefixes_def)
qed

lemma intersect_fold:
  assumes "wf_list acc" and "irredundant acc"
    and "\<forall>(l, r) \<in> set ps. prefix_wf l \<and> prefix_wf r"
  shows "let res = foldl (\<lambda>acc (l, r). intersectPair acc (masked l) (masked r)) acc ps in
    wf_list res \<and> irredundant res \<and>
    (Allowed res a \<longleftrightarrow> Allowed acc a \<or> (\<exists>(l, r) \<in> set ps. contains l a \<and> contains r a))"
  using assms
proof (induction ps arbitrary: acc)
  case (Cons x ps)
  obtain l r where x: "x = (l, r)" by (cases x)
  show ?case
    using Cons.prems Cons.IH [of "intersectPair acc (masked l) (masked r)"]
    by (auto simp: x Let_def intersectPair_wf intersectPair_irredundant intersectPair_Allowed
        contains_masked)
qed simp

text \<open>
  C29. For any two lists of destination prefixes, \<^verbatim>\<open>IntersectPrefixes\<close> yields a list that allows
  exactly the addresses that both lists allow, and in which no prefix is made redundant by another.
\<close>

theorem IntersectPrefixes_exact:
  assumes "wf_list first" and "wf_list second"
  shows "(Allowed (IntersectPrefixes first second) address \<longleftrightarrow>
      Allowed first address \<and> Allowed second address)
    \<and> irredundant (IntersectPrefixes first second)"
proof -
  have "\<forall>(l, r) \<in> set (List.product first second). prefix_wf l \<and> prefix_wf r"
    using assms by (auto simp: list_all_iff)
  from intersect_fold [OF _ _ this, of "[]" address] show ?thesis
    by (auto simp: IntersectPrefixes_fold Let_def Allowed_def list_ex_iff)
qed

theorem IntersectPrefixes_exact_witness:
  "Allowed (IntersectPrefixes [fd00_8, fd12_16] [fd20_11]) (V6 0xfd250000000000000000000000000001 [])
   \<and> \<not> Allowed (IntersectPrefixes [fd00_8, fd12_16] [fd20_11]) (V6 0xfd120000000000000000000000000001 [])"
proof -
  have wf: "wf_list [fd00_8, fd12_16]" "wf_list [fd20_11]" by code_simp+
  have "Allowed [fd00_8, fd12_16] (V6 0xfd250000000000000000000000000001 [])"
    "Allowed [fd20_11] (V6 0xfd250000000000000000000000000001 [])"
    "\<not> Allowed [fd20_11] (V6 0xfd120000000000000000000000000001 [])" by code_simp+
  then show ?thesis by (simp add: IntersectPrefixes_exact [OF wf])
qed

text \<open>An accepted route list is a list of distinct masked routes, each inside an allowed one.\<close>

lemma validateRoutes_ok:
  "validateRoutes allowed seen raws = Inr routes \<Longrightarrow>
     distinct routes \<and> set routes \<inter> seen = {} \<and>
     map Some routes = map (\<lambda>raw. map_option masked (parse_prefix (trim_space raw))) raws \<and>
     (\<forall>r \<in> set routes. \<exists>c \<in> set allowed. covers (masked c) r)"
proof (induction allowed seen raws arbitrary: routes rule: validateRoutes.induct)
  case (2 allowed seen raw rest)
  from "2.prems" obtain r0 tl where p: "parse_prefix (trim_space raw) = Some r0"
    and r: "routes = masked r0 # tl" "masked r0 \<notin> seen"
    and c: "\<exists>c \<in> set allowed. covers (masked c) (masked r0)"
    and tl: "validateRoutes allowed (insert (masked r0) seen) rest = Inr tl"
    by (auto simp: Let_def covers_def list_ex_iff split: option.splits if_splits sum.splits)
  with "2.IH" [OF p refl, of tl] "2.prems" show ?case
    by (auto simp: Let_def split: if_splits)
qed simp

text \<open>
  C30. Whatever \<^verbatim>\<open>ValidateAcceptedRoutes\<close> accepts is non-empty, free of repetitions, is the masked
  form of the routes on the wire in their order, and opens no address outside the allowed list.
\<close>

theorem ValidateAcceptedRoutes_sound:
  assumes "ValidateAcceptedRoutes accepted allowed = Inr routes" and "wf_list allowed"
  shows "routes \<noteq> [] \<and> distinct routes \<and>
    map Some routes = map (\<lambda>raw. map_option masked (parse_prefix (trim_space raw))) accepted \<and>
    (\<forall>a. Allowed routes a \<longrightarrow> Allowed allowed a)"
proof -
  from assms(1) have ne: "accepted \<noteq> []" and "validateRoutes allowed {} accepted = Inr routes"
    by (auto simp: ValidateAcceptedRoutes_def split: if_splits)
  note ok = validateRoutes_ok [OF this(2)]
  have "Allowed allowed a" if r: "r \<in> set routes" "contains r a" for r a
  proof -
    from ok r(1) obtain c where "c \<in> set allowed" "covers (masked c) r" by blast
    moreover from this r(2) have "contains (masked c) a"
      using contains_nested unfolding covers_def by blast
    ultimately show ?thesis
      using assms(2) by (auto simp: Allowed_def list_ex_iff list_all_iff contains_masked)
  qed
  moreover have "routes \<noteq> []" using ok ne by auto
  ultimately show ?thesis using ok by (auto simp: Allowed_def list_ex_iff)
qed

theorem ValidateAcceptedRoutes_sound_witness:
  "ValidateAcceptedRoutes [''fd12::1/16''] [fd00_8] = Inr [fd12_16] \<and>
   Allowed [fd00_8] (V6 0xfd120000000000000000000000000007 [])"
proof -
  have "ValidateAcceptedRoutes [''fd12::1/16''] [fd00_8] = Inr [fd12_16]"
    and "wf_list [fd00_8]" and "Allowed [fd12_16] (V6 0xfd120000000000000000000000000007 [])"
    by code_simp+
  then show ?thesis using ValidateAcceptedRoutes_sound by blast
qed

section \<open>Lemmas: the static registry\<close>

text \<open>What one accepted registry entry satisfies.\<close>

definition target_ok :: "ConnectorTarget \<Rightarrow> bool" where
  "target_ok t \<longleftrightarrow> validName (ct_ConnectorID t) \<and>
     0 \<le> ct_Slot t \<and> ct_Slot t \<le> 31 \<and>
     slash16 (ct_VirtualPrefix t) \<and> masked (ct_VirtualPrefix t) = ct_VirtualPrefix t \<and>
     contains fd20_11 (pfx_addr (ct_VirtualPrefix t)) \<and>
     uint (as16 (pfx_addr (ct_VirtualPrefix t)) ! 1 - 0x20) = ct_Slot t \<and>
     slash16 (ct_RealPrefix t) \<and> masked (ct_RealPrefix t) = ct_RealPrefix t \<and>
     has_suffix (ct_DNSSuffix t) ''.railway.internal''"

lemma ipv6Prefix16_Inr: "ipv6Prefix16 n raw = Inr p \<Longrightarrow> slash16 p \<and> masked p = p"
  by (auto simp: ipv6Prefix16_def slash16_def split: option.splits if_splits)

lemma dnsSuffixValue_Inr: "dnsSuffixValue n raw = Inr x \<Longrightarrow> has_suffix x ''.railway.internal''"
  by (auto simp: dnsSuffixValue_def Let_def split: if_splits)

lemma connectorTarget_ok: "connectorTarget v = Inr t \<Longrightarrow> target_ok t"
  by (auto simp: connectorTarget_def target_ok_def split: if_splits sum.splits
      dest: ipv6Prefix16_Inr dnsSuffixValue_Inr)

lemma connectorLoop_ok:
  "connectorLoop ids slots pfxs vs = Inr ts \<Longrightarrow>
     length ts = length vs \<and> list_all target_ok ts \<and>
     distinct (map ct_ConnectorID ts) \<and> ct_ConnectorID ` set ts \<inter> ids = {} \<and>
     distinct (map ct_Slot ts) \<and> ct_Slot ` set ts \<inter> slots = {}"
proof (induction ids slots pfxs vs arbitrary: ts rule: connectorLoop.induct)
  case (2 ids slots pfxs v vs)
  from "2.prems" obtain t tl where t: "connectorTarget v = Inr t" and ts: "ts = t # tl"
    and new: "ct_ConnectorID t \<notin> ids" "ct_Slot t \<notin> slots" "ct_VirtualPrefix t \<notin> pfxs"
    and tl: "connectorLoop (insert (ct_ConnectorID t) ids) (insert (ct_Slot t) slots)
               (insert (ct_VirtualPrefix t) pfxs) vs = Inr tl"
    by (auto split: sum.splits if_splits)
  from "2.IH" [OF t new tl] connectorTarget_ok [OF t] new show ?case
    by (auto simp: ts)
qed simp

lemma target_disjoint:
  assumes "target_ok s" and "target_ok t" and "ct_Slot s \<noteq> ct_Slot t"
  shows "\<not> (contains (ct_VirtualPrefix s) a \<and> contains (ct_VirtualPrefix t) a)"
proof
  assume "contains (ct_VirtualPrefix s) a \<and> contains (ct_VirtualPrefix t) a"
  with assms(1,2) have "take 2 (as16 (pfx_addr (ct_VirtualPrefix s))) = take 2 (as16 a)"
    "take 2 (as16 (pfx_addr (ct_VirtualPrefix t))) = take 2 (as16 a)"
    unfolding target_ok_def by (metis contains_slash16)+
  then have "as16 (pfx_addr (ct_VirtualPrefix s)) ! 1 = as16 (pfx_addr (ct_VirtualPrefix t)) ! 1"
    by (simp add: take2_nth)
  with assms show False by (simp add: target_ok_def)
qed

text \<open>
  A static connector registry that decodes has between one and 32 entries with distinct
  connector IDs and slots; every entry is a canonical /16 inside \<^verbatim>\<open>fd20::/11\<close> whose second byte
  is the slot, and no address belongs to the virtual prefixes of two entries.
\<close>

theorem connectorTargets_disjoint:
  assumes "connectorTargets b64 json encoded = Inr ts"
  shows "1 \<le> length ts \<and> length ts \<le> 32 \<and> list_all target_ok ts \<and>
    distinct (map ct_ConnectorID ts) \<and> distinct (map ct_Slot ts) \<and>
    (\<forall>i < length ts. \<forall>j < length ts. i \<noteq> j \<longrightarrow>
       \<not> (contains (ct_VirtualPrefix (ts ! i)) a \<and> contains (ct_VirtualPrefix (ts ! j)) a))"
proof -
  from assms obtain vs where "1 \<le> length vs" "length vs \<le> 32" "connectorLoop {} {} {} vs = Inr ts"
    by (auto simp: connectorTargets_def not_less Suc_le_eq split: if_splits option.splits)
  note ok = this connectorLoop_ok [OF this(3)]
  have "\<not> (contains (ct_VirtualPrefix (ts ! i)) a \<and> contains (ct_VirtualPrefix (ts ! j)) a)"
    if "i < length ts" "j < length ts" "i \<noteq> j" for i j
    using ok that by (intro target_disjoint) (auto simp: list_all_length distinct_conv_nth)
  with ok show ?thesis by auto
qed

definition sample_target :: "string \<Rightarrow> int \<Rightarrow> string \<Rightarrow> connectorTargetJSON" where
  "sample_target cid slot virt =
     \<lparr>cj_ConnectorID = cid, cj_ProjectID = ''p'', cj_Environment = ''production'',
      cj_EnvironmentName = [], cj_Slot = slot, cj_VirtualPrefix = virt,
      cj_RealPrefix = ''fd12::/16'', cj_DNSSuffix = ''one.railway.internal''\<rparr>"

definition sample_result :: "string \<Rightarrow> int \<Rightarrow> prefix \<Rightarrow> ConnectorTarget" where
  "sample_result cid slot virt =
     \<lparr>ct_ConnectorID = cid, ct_ProjectID = ''p'', ct_Environment = ''production'',
      ct_EnvironmentName = ''production'', ct_Slot = slot, ct_VirtualPrefix = virt,
      ct_RealPrefix = fd12_16, ct_DNSSuffix = ''one.railway.internal''\<rparr>"

lemma sample_target_eval:
  assumes "validName cid" and "0 \<le> slot" "slot \<le> 31"
    and "ipv6Prefix16 ''virtualPrefix'' virt = Inr p" and "contains fd20_11 (pfx_addr p)"
    and "uint (as16 (pfx_addr p) ! 1 - 0x20) = slot"
  shows "connectorTarget (sample_target cid slot virt) = Inr (sample_result cid slot p)"
proof -
  have "validName ''production''" "ipv6Prefix16 ''realPrefix'' ''fd12::/16'' = Inr fd12_16"
    "dnsSuffixValue ''dnsSuffix'' ''one.railway.internal'' = Inr ''one.railway.internal''"
    by code_simp+
  with assms show ?thesis by (simp add: connectorTarget_def sample_target_def sample_result_def)
qed

theorem connectorTargets_disjoint_witness:
  "\<exists>ts. connectorTargets (\<lambda>s. Some []) (\<lambda>bs. Some ([sample_target ''a'' 0 ''fd20::/16'',
       sample_target ''b'' 1 ''fd21::/16''], False)) ''W10='' = Inr ts
     \<and> length ts = 2 \<and> distinct (map ct_Slot ts)"
proof -
  let ?r = "connectorTargets (\<lambda>s. Some []) (\<lambda>bs. Some ([sample_target ''a'' 0 ''fd20::/16'',
       sample_target ''b'' 1 ''fd21::/16''], False)) ''W10=''"
  let ?p = "Prefix (V6 0xfd200000000000000000000000000000 []) 16"
  let ?q = "Prefix (V6 0xfd210000000000000000000000000000 []) 16"
  have "connectorTarget (sample_target ''a'' 0 ''fd20::/16'') = Inr (sample_result ''a'' 0 ?p)"
    by (rule sample_target_eval) code_simp+
  moreover have "connectorTarget (sample_target ''b'' 1 ''fd21::/16'') = Inr (sample_result ''b'' 1 ?q)"
    by (rule sample_target_eval) code_simp+
  ultimately have "?r = Inr [sample_result ''a'' 0 ?p, sample_result ''b'' 1 ?q]"
    by (simp add: connectorTargets_def sample_result_def)
  with connectorTargets_disjoint [OF this] show ?thesis by simp
qed

end
