(* ===== verification/Strconv.thy ===== *)
theory Strconv
  imports Prelude
begin

text \<open>
  What the sources use of Go's \<^verbatim>\<open>strconv\<close>, \<^verbatim>\<open>net.SplitHostPort\<close>, \<^verbatim>\<open>time.ParseDuration\<close> and
  \<^verbatim>\<open>base64.StdEncoding\<close>. Strings are byte strings; durations are nanoseconds. The fraction of a duration is rounded
  down exactly, where Go multiplies \<^verbatim>\<open>float64\<close> values.
\<close>

section \<open>Numbers\<close>

definition parse_uint :: "nat \<Rightarrow> string \<Rightarrow> nat option" where
  "parse_uint bits s =
     (if s = [] \<or> \<not> list_all is_digit s then None
      else if dec_val s \<ge> 2 ^ bits then None else Some (dec_val s))"

definition parse_int64 :: "string \<Rightarrow> int option" where
  "parse_int64 s =
     (let neg = (s \<noteq> [] \<and> hd s = CHR ''-'');
          body = (if s \<noteq> [] \<and> (hd s = CHR ''-'' \<or> hd s = CHR ''+'') then tl s else s)
      in case parse_uint 64 body of
           None \<Rightarrow> None
         | Some n \<Rightarrow> if neg then (if n > 2 ^ 63 then None else Some (- int n))
                     else if n \<ge> 2 ^ 63 then None else Some (int n))"

text \<open>Wrap-around of the 64-bit signed integers.\<close>

definition wrap64 :: "int \<Rightarrow> int" where
  "wrap64 x = (x + 2 ^ 63) mod 2 ^ 64 - 2 ^ 63"

definition parse_bool :: "string \<Rightarrow> bool option" where
  "parse_bool s =
     (if s \<in> {''1'', ''t'', ''T'', ''true'', ''TRUE'', ''True''} then Some True
      else if s \<in> {''0'', ''f'', ''F'', ''false'', ''FALSE'', ''False''} then Some False else None)"

section \<open>Durations\<close>

definition duration_unit :: "string \<Rightarrow> nat option" where
  "duration_unit u = map_of
     [(''ns'', 1), (''us'', 10 ^ 3), ([CHR 0xC2, CHR 0xB5, CHR ''s''], 10 ^ 3), ([CHR 0xCE, CHR 0xBC, CHR ''s''], 10 ^ 3),
      (''ms'', 10 ^ 6), (''s'', 10 ^ 9), (''m'', 60 * 10 ^ 9), (''h'', 3600 * 10 ^ 9)] u"

definition in_unit :: "char \<Rightarrow> bool" where
  "in_unit c \<longleftrightarrow> \<not> (c = CHR ''.'' \<or> is_digit c)"

text \<open>One number with its unit, and the rest of the text.\<close>

definition duration_item :: "string \<Rightarrow> (nat \<times> string) option" where
  "duration_item s =
     (let whole = takeWhile is_digit s; s1 = dropWhile is_digit s;
          dot = (s1 \<noteq> [] \<and> hd s1 = CHR ''.'');
          frac = (if dot then takeWhile is_digit (tl s1) else []);
          s2 = (if dot then dropWhile is_digit (tl s1) else s1);
          u = takeWhile in_unit s2; rest = dropWhile in_unit s2
      in if whole = [] \<and> frac = [] then None
         else case duration_unit u of
             None \<Rightarrow> None
           | Some n \<Rightarrow>
               (let v = dec_val whole * n + dec_val frac * n div 10 ^ length frac
                in if v > 2 ^ 63 then None else Some (v, rest)))"

lemma length_dropWhile_less: "takeWhile P s \<noteq> [] \<Longrightarrow> length (dropWhile P s) < length s"
  by (metis length_append length_greater_0_conv less_add_same_cancel2 takeWhile_dropWhile_id)

lemma duration_item_rest: "duration_item s = Some (v, rest) \<Longrightarrow> length rest < length s"
proof -
  assume item: "duration_item s = Some (v, rest)"
  define s1 where "s1 = dropWhile is_digit s"
  define s2 where "s2 = (if s1 \<noteq> [] \<and> hd s1 = CHR ''.'' then dropWhile is_digit (tl s1) else s1)"
  have len: "length s2 \<le> length s"
  proof -
    have "length (dropWhile is_digit (tl s1)) \<le> length s1"
      using length_dropWhile_le[of is_digit "tl s1"] by simp
    then show ?thesis
      using length_dropWhile_le[of is_digit s] unfolding s2_def s1_def[symmetric] by (auto split: if_splits)
  qed
  have "rest = dropWhile in_unit s2" "duration_unit (takeWhile in_unit s2) \<noteq> None"
    using item by (auto simp: duration_item_def Let_def s1_def[symmetric] s2_def split: if_splits option.splits)
  moreover from this(2) have "takeWhile in_unit s2 \<noteq> []" by (auto simp: duration_unit_def)
  ultimately show ?thesis using length_dropWhile_less[of in_unit s2] len by simp
qed

function duration_items :: "nat \<Rightarrow> string \<Rightarrow> nat option" where
  "duration_items d s =
     (if s = [] then Some d
      else case duration_item s of
          None \<Rightarrow> None
        | Some (v, rest) \<Rightarrow> if d + v > 2 ^ 63 then None else duration_items (d + v) rest)"
  by pat_completeness auto
termination
  by (relation "measure (length \<circ> snd)") (auto dest: duration_item_rest)

declare duration_items.simps [simp del]

definition parse_duration :: "string \<Rightarrow> duration option" where
  "parse_duration s =
     (let neg = (s \<noteq> [] \<and> hd s = CHR ''-'');
          body = (if s \<noteq> [] \<and> (hd s = CHR ''-'' \<or> hd s = CHR ''+'') then tl s else s)
      in if body = ''0'' then Some 0
         else if body = [] then None
         else case duration_items 0 body of
             None \<Rightarrow> None
           | Some d \<Rightarrow> if neg then Some (- int d) else if d \<ge> 2 ^ 63 then None else Some (int d))"

section \<open>Host and port\<close>

definition split_host_port :: "string \<Rightarrow> (string \<times> string) option" where
  "split_host_port s =
     (case cut_last CHR '':'' s of
        None \<Rightarrow> None
      | Some (front, port) \<Rightarrow>
          if hd s = CHR ''['' then
            (let inside = takeWhile (\<lambda>c. c \<noteq> CHR '']'') (tl s); rest = dropWhile (\<lambda>c. c \<noteq> CHR '']'') (tl s)
             in if rest = [] then None
                else if tl rest = CHR '':'' # port \<and> CHR ''['' \<notin> set (tl s) \<and> CHR '']'' \<notin> set port
                then Some (inside, port) else None)
          else if CHR '':'' \<in> set front \<or> CHR ''['' \<in> set s \<or> CHR '']'' \<in> set s then None
          else Some (front, port))"

section \<open>Base64\<close>

definition b64_val :: "char \<Rightarrow> nat option" where
  "b64_val c =
     (if between CHR ''A'' CHR ''Z'' c then Some (of_char c - 65)
      else if between CHR ''a'' CHR ''z'' c then Some (of_char c - 71)
      else if is_digit c then Some (of_char c + 4)
      else if c = CHR ''+'' then Some 62 else if c = CHR ''/'' then Some 63 else None)"

definition b64_bytes :: "nat list \<Rightarrow> bytes" where
  "b64_bytes ds =
     (let n = foldl (\<lambda>a d. a * 64 + d) 0 (ds @ replicate (4 - length ds) 0)
      in take (length ds - 1) [word_of_nat (n div 65536), word_of_nat (n div 256), word_of_nat n])"

fun b64_groups :: "string \<Rightarrow> bytes option" where
  "b64_groups [] = Some []"
| "b64_groups (a # b # c # d # rest) =
     (case (b64_val a, b64_val b, b64_val c, b64_val d) of
        (Some w, Some x, Some y, Some z) \<Rightarrow> map_option (\<lambda>r. b64_bytes [w, x, y, z] @ r) (b64_groups rest)
      | (Some w, Some x, Some y, None) \<Rightarrow> if d = CHR ''='' \<and> rest = [] then Some (b64_bytes [w, x, y]) else None
      | (Some w, Some x, None, None) \<Rightarrow>
          if c = CHR ''='' \<and> d = CHR ''='' \<and> rest = [] then Some (b64_bytes [w, x]) else None
      | _ \<Rightarrow> None)"
| "b64_groups _ = None"

text \<open>Line breaks are ignored.\<close>

definition b64_decode :: "string \<Rightarrow> bytes option" where
  "b64_decode s = b64_groups (filter (\<lambda>c. c \<noteq> CHR 0x0A \<and> c \<noteq> CHR 0x0D) s)"

section \<open>Bounds\<close>

lemma parse_uint_bound: "parse_uint bits s = Some n \<Longrightarrow> n < 2 ^ bits"
  by (auto simp: parse_uint_def split: if_splits)

lemma split_host_port_join:
  "CHR '':'' \<notin> set host \<Longrightarrow> CHR ''['' \<notin> set host \<Longrightarrow> CHR '']'' \<notin> set host \<Longrightarrow>
   CHR '':'' \<notin> set port \<Longrightarrow> CHR ''['' \<notin> set port \<Longrightarrow> CHR '']'' \<notin> set port \<Longrightarrow>
   split_host_port (host @ CHR '':'' # port) = Some (host, port)"
proof -
  assume h: "CHR '':'' \<notin> set host" "CHR ''['' \<notin> set host" "CHR '']'' \<notin> set host"
    and p: "CHR '':'' \<notin> set port" "CHR ''['' \<notin> set port" "CHR '']'' \<notin> set port"
  have none: "cut_last c xs = None" if "c \<notin> set xs" for c xs
    using that by (induction xs) auto
  have "cut_last CHR '':'' (host @ CHR '':'' # port) = Some (host, port)"
    using h p none by (induction host) auto
  moreover have "hd (host @ CHR '':'' # port) \<noteq> CHR ''[''" using h by (cases host) auto
  ultimately show ?thesis using h p by (simp add: split_host_port_def)
qed

end
