(* ===== verification/Config_Load.thy ===== *)
theory Config_Load
  imports Config Strconv
begin

text \<open>
  Package \<^verbatim>\<open>internal/config\<close>, the loaders: the configuration of the edge and of the connector as a function of
  the process environment. \<open>os\<close> is \<^verbatim>\<open>os.Getenv\<close> (an unset variable is empty), \<open>targets\<close> and \<open>strings\<close> decode the
  first JSON value of a payload and tell whether anything follows it, \<open>missing\<close> tells whether \<^verbatim>\<open>os.Stat\<close> finds no
  \<^verbatim>\<open>registration.json\<close> in a directory. Address tables are checked in the order in which the source lists them (Go visits them in an
  arbitrary order, which only decides which of several errors is reported).
\<close>

section \<open>Data\<close>

record Common =
  co_EdgeID :: string
  co_ConnectorID :: string
  co_Environment :: string
  co_CABundle :: bytes
  co_Certificate :: bytes
  co_PrivateKey :: bytes
  co_AdminAddr :: string
  co_LogLevel :: string

record Edge =
  ed_Common :: Common
  ed_Connectors :: "ConnectorTarget list"
  ed_RegistrationMode :: string
  ed_QUICListenAddr :: string
  ed_RegistrationListenAddr :: string
  ed_ApprovalListenAddr :: string
  ed_DNSListenAddr :: string
  ed_RegistryPath :: string
  ed_VirtualNetwork :: prefix
  ed_ExcludedPrefixes :: "prefix list"
  ed_RegistrationFrozen :: bool
  ed_NewProjectsFrozen :: bool
  ed_AllowedProjectIDs :: "string list"
  ed_OIDCPolicies :: bytes
  ed_IntermediateCertificate :: bytes
  ed_IntermediatePrivateKey :: bytes
  ed_ApprovalTailscaleTags :: "string list"
  ed_PreviewLease :: duration
  ed_PersistentLease :: duration
  ed_SlotQuarantine :: duration
  ed_PersistentEnvironments :: "string list"
  ed_ReconcileInterval :: duration
  ed_TCPListenAddr :: string
  ed_UDPListenAddr :: string
  ed_AllowedRoutes :: "prefix list"
  ed_MaxTCPFlows :: int
  ed_MaxUDPFlows :: int
  ed_UDPIdleTimeout :: duration
  ed_ManageTailscale :: bool

record ConnectorConfig =
  cc_Common :: Common
  cc_RegistrationMode :: string
  cc_RegistrationEndpoint :: string
  cc_IdentityDir :: string
  cc_EnrollmentNonce :: string
  cc_ProjectID :: string
  cc_EnvironmentID :: string
  cc_EnvironmentName :: string
  cc_DeploymentID :: string
  cc_ProjectAlias :: string
  cc_EnvironmentAlias :: string
  cc_IdentityKeyID :: string
  cc_EdgeEndpoint :: string
  cc_VirtualPrefix :: prefix
  cc_RealPrefix :: prefix
  cc_DNSSuffix :: string
  cc_AllowedDestinations :: "prefix list"
  cc_MaxTCPFlows :: int
  cc_MaxUDPFlows :: int
  cc_DialTimeout :: duration
  cc_ReconnectMin :: duration
  cc_ReconnectMax :: duration
  cc_UDPIdleTimeout :: duration

type_synonym environment = "string \<Rightarrow> string"

section \<open>Reading one variable\<close>

definition required :: "environment \<Rightarrow> string \<Rightarrow> string" where
  "required os name = trim_space (os name)"

definition value_or :: "environment \<Rightarrow> string \<Rightarrow> string \<Rightarrow> string" where
  "value_or os name fallback = (if required os name \<noteq> [] then required os name else fallback)"

definition decoded :: "environment \<Rightarrow> string \<Rightarrow> config_error + bytes" where
  "decoded os name =
     (if required os name = [] then Inl (Required name)
      else case b64_decode (required os name) of None \<Rightarrow> Inl (NotBase64 name) | Some data \<Rightarrow> Inr data)"

definition durationValue :: "environment \<Rightarrow> string \<Rightarrow> duration \<Rightarrow> config_error + duration" where
  "durationValue os name fallback =
     (if os name = [] then Inr fallback
      else case parse_duration (os name) of
          None \<Rightarrow> Inl (Invalid name)
        | Some d \<Rightarrow> if d \<le> 0 then Inl (Invalid name) else Inr d)"

definition int64Value :: "environment \<Rightarrow> string \<Rightarrow> int \<Rightarrow> config_error + int" where
  "int64Value os name fallback =
     (if os name = [] then Inr fallback
      else case parse_int64 (os name) of
          None \<Rightarrow> Inl (Invalid name)
        | Some n \<Rightarrow> if n < 1 \<or> n > 1000000 then Inl (Invalid name) else Inr n)"

definition boolValue :: "environment \<Rightarrow> string \<Rightarrow> bool \<Rightarrow> config_error + bool" where
  "boolValue os name fallback =
     (if os name = [] then Inr fallback
      else case parse_bool (os name) of None \<Rightarrow> Inl (Invalid name) | Some b \<Rightarrow> Inr b)"

definition is_control :: "char \<Rightarrow> bool" where
  "is_control c \<longleftrightarrow> c < CHR '' '' \<or> c = CHR 0x7F"

definition validateAddress :: "string \<Rightarrow> string \<Rightarrow> bool \<Rightarrow> config_error + unit" where
  "validateAddress name address requireHost =
     (if list_ex (\<lambda>c. is_space c \<or> is_control c) address then Inl (Invalid name)
      else case split_host_port address of
          None \<Rightarrow> Inl (Invalid name)
        | Some (host, port) \<Rightarrow>
            if requireHost \<and> trim_space host = [] then Inl (Invalid name)
            else case parse_uint 16 port of
                None \<Rightarrow> Inl (Invalid name)
              | Some n \<Rightarrow> if n = 0 then Inl (Invalid name) else Inr ())"

definition validateAddresses :: "bool \<Rightarrow> (string \<times> string) list \<Rightarrow> config_error + unit" where
  "validateAddresses requireHost pairs =
     foldr (\<lambda>(name, address) rest. and_then (validateAddress name address requireHost) (\<lambda>_. rest)) pairs (Inr ())"

definition decodedStringList ::
    "(bytes \<Rightarrow> (string list \<times> bool) option) \<Rightarrow> environment \<Rightarrow> string \<Rightarrow> config_error + string list" where
  "decodedStringList strings os name =
     (let raw = required os name in
      if raw = [] then Inr []
      else case b64_decode raw of
          None \<Rightarrow> Inl (NotBase64 name)
        | Some payload \<Rightarrow>
            (case strings payload of
               None \<Rightarrow> Inl (NotJSON name)
             | Some (items, trailing) \<Rightarrow>
                 if trailing then Inl (TrailingData name)
                 else if list_ex (\<lambda>item. trim_space item = []) items then Inl (Invalid name)
                 else Inr items))"

section \<open>The shared part\<close>

definition validateCommon :: "Common \<Rightarrow> bool \<Rightarrow> config_error + unit" where
  "validateCommon c requireConnector =
     (if co_EdgeID c = [] then Inl (Required ''TB_EDGE_ID'')
      else if \<not> validName (co_EdgeID c) then Inl (Invalid ''TB_EDGE_ID'')
      else if requireConnector \<and> (co_ConnectorID c = [] \<or> co_Environment c = []) then Inl (Required ''TB_CONNECTOR_ID'')
      else if co_ConnectorID c \<noteq> [] \<and> \<not> validName (co_ConnectorID c) then Inl (Invalid ''TB_CONNECTOR_ID'')
      else if co_Environment c \<noteq> [] \<and> \<not> validName (co_Environment c) then Inl (Invalid ''TB_ENVIRONMENT'')
      else if co_LogLevel c \<notin> {''debug'', ''info'', ''warn'', ''error''} then Inl (Invalid ''TB_LOG_LEVEL'')
      else Inr ())"

definition loadCommon :: "environment \<Rightarrow> string \<Rightarrow> bool \<Rightarrow> config_error + Common" where
  "loadCommon os defaultAdmin requireConnector =
     and_then (decoded os ''TB_MTLS_CA_B64'') (\<lambda>ca.
     and_then (decoded os ''TB_MTLS_CERT_B64'') (\<lambda>cert.
     and_then (decoded os ''TB_MTLS_KEY_B64'') (\<lambda>key.
     let c = \<lparr>co_EdgeID = required os ''TB_EDGE_ID'', co_ConnectorID = required os ''TB_CONNECTOR_ID'',
              co_Environment = required os ''TB_ENVIRONMENT'', co_CABundle = ca, co_Certificate = cert,
              co_PrivateKey = key, co_AdminAddr = value_or os ''TB_ADMIN_LISTEN_ADDR'' defaultAdmin,
              co_LogLevel = value_or os ''TB_LOG_LEVEL'' ''info''\<rparr>
     in and_then (validateCommon c requireConnector) (\<lambda>_. Inr c))))"

definition connectorAdminAddress :: "environment \<Rightarrow> config_error + string" where
  "connectorAdminAddress os =
     (let port = required os ''PORT'' in
      if port \<noteq> [] \<and> required os ''TB_ADMIN_LISTEN_ADDR'' = [] then
        (case parse_uint 16 port of
           None \<Rightarrow> Inl (Invalid ''PORT'')
         | Some n \<Rightarrow> if n = 0 then Inl (Invalid ''PORT'') else Inr (''[::]:'' @ port))
      else Inr ''[::]:9002'')"

section \<open>The edge\<close>

definition edgeConnectors ::
    "(bytes \<Rightarrow> (connectorTargetJSON list \<times> bool) option) \<Rightarrow> environment \<Rightarrow> string
     \<Rightarrow> config_error + ConnectorTarget list" where
  "edgeConnectors targets os mode =
     (if required os ''TB_CONNECTORS_B64'' \<noteq> []
      then connectorTargets b64_decode targets (required os ''TB_CONNECTORS_B64'')
      else if mode = ''static'' then Inl (Required ''TB_CONNECTORS_B64'') else Inr [])"

definition checkExcluded :: "prefix \<Rightarrow> prefix list \<Rightarrow> config_error + unit" where
  "checkExcluded network excluded =
     (if list_ex (\<lambda>p. contains network (pfx_addr p) \<or> contains p (pfx_addr network)) excluded
      then Inl (Invalid ''TB_VIRTUAL_NETWORK'') else Inr ())"

text \<open>The registration secrets are read in the dynamic and the migration mode.\<close>

definition edgeSecrets :: "environment \<Rightarrow> string \<Rightarrow> config_error + bytes \<times> bytes \<times> bytes" where
  "edgeSecrets os mode =
     (if mode = ''static'' then Inr ([], [], [])
      else and_then (decoded os ''TB_OIDC_POLICIES_B64'') (\<lambda>policies.
           and_then (decoded os ''TB_INTERMEDIATE_CERT_B64'') (\<lambda>cert.
           and_then (decoded os ''TB_INTERMEDIATE_KEY_B64'') (\<lambda>key. Inr (policies, cert, key)))))"

definition edgeAddresses :: "Edge \<Rightarrow> (string \<times> string) list" where
  "edgeAddresses e =
     [(''TB_ADMIN_LISTEN_ADDR'', co_AdminAddr (ed_Common e)), (''TB_QUIC_LISTEN_ADDR'', ed_QUICListenAddr e),
      (''TB_TCP_LISTEN_ADDR'', ed_TCPListenAddr e), (''TB_UDP_LISTEN_ADDR'', ed_UDPListenAddr e),
      (''TB_REGISTRATION_LISTEN_ADDR'', ed_RegistrationListenAddr e)]"

definition LoadEdge ::
    "(bytes \<Rightarrow> (connectorTargetJSON list \<times> bool) option) \<Rightarrow> (bytes \<Rightarrow> (string list \<times> bool) option)
     \<Rightarrow> environment \<Rightarrow> config_error + Edge" where
  "LoadEdge targets strings os =
     and_then (loadCommon os ''127.0.0.1:9090'' False) (\<lambda>c.
     let mode = value_or os ''TB_REGISTRATION_MODE'' ''static'' in
     if mode \<notin> {''static'', ''dynamic'', ''migration''} then Inl (Invalid ''TB_REGISTRATION_MODE'')
     else
     and_then (edgeConnectors targets os mode) (\<lambda>connectors.
     and_then (int64Value os ''TB_MAX_TCP_FLOWS'' 4096) (\<lambda>maxFlows.
     and_then (int64Value os ''TB_MAX_UDP_FLOWS'' 4096) (\<lambda>maxUDPFlows.
     and_then (durationValue os ''TB_UDP_IDLE_TIMEOUT'' (seconds 30)) (\<lambda>udpIdle.
     and_then (boolValue os ''TB_MANAGE_TAILSCALE'' True) (\<lambda>manageTailscale.
     and_then (virtualNetworkValue (value_or os ''TB_VIRTUAL_NETWORK'' ''fd40::/10'')) (\<lambda>virtualNetwork.
     and_then (prefixes (value_or os ''TB_EXCLUDED_PREFIXES'' ''fd12::/16'')) (\<lambda>excludedPrefixes.
     and_then (checkExcluded virtualNetwork excludedPrefixes) (\<lambda>_.
     and_then (boolValue os ''TB_REGISTRATION_FROZEN'' False) (\<lambda>registrationFrozen.
     and_then (boolValue os ''TB_NEW_PROJECTS_FROZEN'' True) (\<lambda>newProjectsFrozen.
     and_then (durationValue os ''TB_PREVIEW_LEASE'' (hours 24)) (\<lambda>previewLease.
     and_then (durationValue os ''TB_PERSISTENT_LEASE'' (hours (30 * 24))) (\<lambda>persistentLease.
     and_then (durationValue os ''TB_SLOT_QUARANTINE'' (hours 24)) (\<lambda>quarantine.
     and_then (durationValue os ''TB_RECONCILE_INTERVAL'' (seconds 60)) (\<lambda>reconcileInterval.
     and_then (edgeSecrets os mode) (\<lambda>(oidcPolicies, intermediateCertificate, intermediatePrivateKey).
     and_then (decodedStringList strings os ''TB_ALLOWED_PROJECT_IDS_B64'') (\<lambda>allowedProjectIDs.
     let e = \<lparr>ed_Common = c, ed_Connectors = connectors, ed_RegistrationMode = mode,
              ed_QUICListenAddr = value_or os ''TB_QUIC_LISTEN_ADDR'' '':4433'',
              ed_RegistrationListenAddr = value_or os ''TB_REGISTRATION_LISTEN_ADDR'' '':4434'',
              ed_ApprovalListenAddr = value_or os ''TB_APPROVAL_LISTEN_ADDR'' ''tailscale0:9443'',
              ed_DNSListenAddr = value_or os ''TB_DNS_LISTEN_ADDR'' ''tailscale0:53'',
              ed_RegistryPath = value_or os ''TB_REGISTRY_PATH'' ''/var/lib/tailbridge/registry/tailbridge.db'',
              ed_VirtualNetwork = virtualNetwork, ed_ExcludedPrefixes = excludedPrefixes,
              ed_RegistrationFrozen = registrationFrozen, ed_NewProjectsFrozen = newProjectsFrozen,
              ed_AllowedProjectIDs = allowedProjectIDs, ed_OIDCPolicies = oidcPolicies,
              ed_IntermediateCertificate = intermediateCertificate,
              ed_IntermediatePrivateKey = intermediatePrivateKey,
              ed_ApprovalTailscaleTags = commaValues (value_or os ''TB_APPROVAL_TAILSCALE_TAGS'' ''tag:tailbridge-ci''),
              ed_PreviewLease = previewLease, ed_PersistentLease = persistentLease, ed_SlotQuarantine = quarantine,
              ed_PersistentEnvironments =
                commaValues (value_or os ''TB_PERSISTENT_ENVIRONMENTS'' ''production,staging,development''),
              ed_ReconcileInterval = reconcileInterval,
              ed_TCPListenAddr = value_or os ''TB_TCP_LISTEN_ADDR'' ''[::]:15001'',
              ed_UDPListenAddr = value_or os ''TB_UDP_LISTEN_ADDR'' ''[::]:15002'',
              ed_AllowedRoutes = map ct_RealPrefix connectors, ed_MaxTCPFlows = maxFlows,
              ed_MaxUDPFlows = maxUDPFlows, ed_UDPIdleTimeout = udpIdle, ed_ManageTailscale = manageTailscale\<rparr>
     in and_then (validateAddresses False (edgeAddresses e)) (\<lambda>_. Inr e))))))))))))))))))"

section \<open>The connector\<close>

definition loadStaticConnector :: "environment \<Rightarrow> config_error + ConnectorConfig" where
  "loadStaticConnector os =
     and_then (connectorAdminAddress os) (\<lambda>adminAddress.
     and_then (loadCommon os adminAddress True) (\<lambda>c.
     and_then (prefixes (required os ''TB_ALLOWED_DESTINATIONS'')) (\<lambda>destinations.
     and_then (ipv6Prefix16 ''TB_VIRTUAL_PREFIX'' (required os ''TB_VIRTUAL_PREFIX'')) (\<lambda>virtualPrefix.
     if \<not> contains fd20_11 (pfx_addr virtualPrefix) then Inl (Invalid ''TB_VIRTUAL_PREFIX'')
     else
     and_then (ipv6Prefix16 ''TB_REAL_PREFIX'' (value_or os ''TB_REAL_PREFIX'' ''fd12::/16'')) (\<lambda>realPrefix.
     and_then (dnsSuffixValue ''TB_DNS_SUFFIX'' (required os ''TB_DNS_SUFFIX'')) (\<lambda>dnsSuffix.
     and_then (durationValue os ''TB_TCP_DIAL_TIMEOUT'' (seconds 10)) (\<lambda>dialTimeout.
     and_then (durationValue os ''TB_RECONNECT_MIN_DELAY'' 250000000) (\<lambda>minDelay.
     and_then (durationValue os ''TB_RECONNECT_MAX_DELAY'' (seconds 15)) (\<lambda>maxDelay.
     if minDelay > maxDelay then Inl (Invalid ''TB_RECONNECT_MIN_DELAY'')
     else
     and_then (durationValue os ''TB_UDP_IDLE_TIMEOUT'' (seconds 30)) (\<lambda>udpIdle.
     and_then (int64Value os ''TB_MAX_TCP_FLOWS'' 4096) (\<lambda>maxFlows.
     and_then (int64Value os ''TB_MAX_UDP_FLOWS'' 4096) (\<lambda>maxUDPFlows.
     let edgeEndpoint = required os ''TB_EDGE_ENDPOINT'' in
     if edgeEndpoint = [] then Inl (Required ''TB_EDGE_ENDPOINT'')
     else
     and_then (validateAddress ''TB_EDGE_ENDPOINT'' edgeEndpoint True) (\<lambda>_.
     and_then (validateAddress ''TB_ADMIN_LISTEN_ADDR'' (co_AdminAddr c) False) (\<lambda>_.
     Inr \<lparr>cc_Common = c, cc_RegistrationMode = ''static'', cc_RegistrationEndpoint = [], cc_IdentityDir = [],
          cc_EnrollmentNonce = [], cc_ProjectID = [], cc_EnvironmentID = [], cc_EnvironmentName = [],
          cc_DeploymentID = [], cc_ProjectAlias = [], cc_EnvironmentAlias = [], cc_IdentityKeyID = [],
          cc_EdgeEndpoint = edgeEndpoint, cc_VirtualPrefix = virtualPrefix, cc_RealPrefix = realPrefix,
          cc_DNSSuffix = dnsSuffix, cc_AllowedDestinations = destinations, cc_MaxTCPFlows = maxFlows,
          cc_MaxUDPFlows = maxUDPFlows, cc_DialTimeout = dialTimeout, cc_ReconnectMin = minDelay,
          cc_ReconnectMax = maxDelay, cc_UDPIdleTimeout = udpIdle\<rparr>))))))))))))))"

definition requiredInDynamic :: "ConnectorConfig \<Rightarrow> (string \<times> string) list" where
  "requiredInDynamic r =
     [(''TB_EDGE_ENDPOINT'', cc_EdgeEndpoint r), (''TB_REGISTRATION_ENDPOINT'', cc_RegistrationEndpoint r),
      (''RAILWAY_PROJECT_ID'', cc_ProjectID r), (''RAILWAY_ENVIRONMENT_ID'', cc_EnvironmentID r),
      (''RAILWAY_ENVIRONMENT_NAME'', cc_EnvironmentName r), (''TB_DNS_PROJECT_ALIAS'', cc_ProjectAlias r),
      (''TB_DNS_ENVIRONMENT_ALIAS'', cc_EnvironmentAlias r)]"

definition validateDynamic :: "(string \<Rightarrow> bool) \<Rightarrow> ConnectorConfig \<Rightarrow> config_error + unit" where
  "validateDynamic missing r =
     and_then (validateCommon (cc_Common r) False) (\<lambda>_.
     case find (\<lambda>(_, candidate). candidate = []) (requiredInDynamic r) of
       Some (name, _) \<Rightarrow> Inl (Required name)
     | None \<Rightarrow>
         if \<not> validDNSLabel (cc_ProjectAlias r) \<or> \<not> validDNSLabel (cc_EnvironmentAlias r)
         then Inl (Invalid ''TB_DNS_PROJECT_ALIAS'')
         else if cc_EnrollmentNonce r = [] \<and> missing (cc_IdentityDir r)
         then Inl (Required ''TB_ENROLLMENT_NONCE'')
         else
         and_then (validateAddress ''TB_EDGE_ENDPOINT'' (cc_EdgeEndpoint r) True) (\<lambda>_.
         and_then (validateAddress ''TB_REGISTRATION_ENDPOINT'' (cc_RegistrationEndpoint r) True) (\<lambda>_.
         validateAddress ''TB_ADMIN_LISTEN_ADDR'' (co_AdminAddr (cc_Common r)) False)))"

definition loadDynamicConnector :: "(string \<Rightarrow> bool) \<Rightarrow> environment \<Rightarrow> config_error + ConnectorConfig" where
  "loadDynamicConnector missing os =
     and_then (connectorAdminAddress os) (\<lambda>adminAddress.
     and_then (decoded os ''TB_TRUST_BUNDLE_B64'') (\<lambda>trust.
     and_then (prefixes (value_or os ''TB_ALLOWED_DESTINATIONS'' ''fd12::/16'')) (\<lambda>destinations.
     and_then (ipv6Prefix16 ''TB_REAL_PREFIX'' (value_or os ''TB_REAL_PREFIX'' ''fd12::/16'')) (\<lambda>realPrefix.
     and_then (int64Value os ''TB_MAX_TCP_FLOWS'' 4096) (\<lambda>maxTCP.
     and_then (int64Value os ''TB_MAX_UDP_FLOWS'' 4096) (\<lambda>maxUDP.
     and_then (durationValue os ''TB_TCP_DIAL_TIMEOUT'' (seconds 10)) (\<lambda>dialTimeout.
     and_then (durationValue os ''TB_RECONNECT_MIN_DELAY'' (seconds 1)) (\<lambda>reconnectMin.
     and_then (durationValue os ''TB_RECONNECT_MAX_DELAY'' (seconds 30)) (\<lambda>reconnectMax.
     and_then (durationValue os ''TB_UDP_IDLE_TIMEOUT'' (seconds 30)) (\<lambda>udpIdle.
     let result =
       \<lparr>cc_Common = \<lparr>co_EdgeID = required os ''TB_EDGE_ID'', co_ConnectorID = [], co_Environment = [],
                     co_CABundle = trust, co_Certificate = [], co_PrivateKey = [],
                     co_AdminAddr = value_or os ''TB_ADMIN_LISTEN_ADDR'' adminAddress,
                     co_LogLevel = value_or os ''TB_LOG_LEVEL'' ''info''\<rparr>,
        cc_RegistrationMode = ''dynamic'', cc_RegistrationEndpoint = required os ''TB_REGISTRATION_ENDPOINT'',
        cc_IdentityDir = value_or os ''TB_IDENTITY_DIR'' ''/var/lib/tailbridge'',
        cc_EnrollmentNonce = required os ''TB_ENROLLMENT_NONCE'', cc_ProjectID = required os ''RAILWAY_PROJECT_ID'',
        cc_EnvironmentID = required os ''RAILWAY_ENVIRONMENT_ID'',
        cc_EnvironmentName = required os ''RAILWAY_ENVIRONMENT_NAME'',
        cc_DeploymentID = required os ''RAILWAY_DEPLOYMENT_ID'', cc_ProjectAlias = required os ''TB_DNS_PROJECT_ALIAS'',
        cc_EnvironmentAlias = required os ''TB_DNS_ENVIRONMENT_ALIAS'', cc_IdentityKeyID = [],
        cc_EdgeEndpoint = required os ''TB_EDGE_ENDPOINT'', cc_VirtualPrefix = zero_prefix, cc_RealPrefix = realPrefix,
        cc_DNSSuffix = [], cc_AllowedDestinations = destinations, cc_MaxTCPFlows = maxTCP, cc_MaxUDPFlows = maxUDP,
        cc_DialTimeout = dialTimeout, cc_ReconnectMin = reconnectMin, cc_ReconnectMax = reconnectMax,
        cc_UDPIdleTimeout = udpIdle\<rparr>
     in and_then (validateDynamic missing result) (\<lambda>_. Inr result)))))))))))"

definition LoadConnector :: "(string \<Rightarrow> bool) \<Rightarrow> environment \<Rightarrow> config_error + ConnectorConfig" where
  "LoadConnector missing os =
     (let mode = value_or os ''TB_REGISTRATION_MODE'' ''static'' in
      if mode = ''dynamic'' then loadDynamicConnector missing os
      else if mode \<noteq> ''static'' then Inl (Invalid ''TB_REGISTRATION_MODE'')
      else loadStaticConnector os)"

section \<open>What a loaded configuration satisfies\<close>

lemma and_then_Inr [simp]: "and_then x f = Inr y \<longleftrightarrow> (\<exists>a. x = Inr a \<and> f a = Inr y)"
  by (cases x) auto

lemma and_then_elim: "and_then x f = Inr y \<Longrightarrow> (\<And>a. x = Inr a \<Longrightarrow> f a = Inr y \<Longrightarrow> P) \<Longrightarrow> P"
  by auto

lemma let_elim: "Let x f = Inr y \<Longrightarrow> (\<And>a. a = x \<Longrightarrow> f a = Inr y \<Longrightarrow> P) \<Longrightarrow> P"
  by simp

lemma guard_elim: "(if b then Inl e else x) = Inr y \<Longrightarrow> (\<not> b \<Longrightarrow> x = Inr y \<Longrightarrow> P) \<Longrightarrow> P"
  by (simp split: if_splits)

lemma split_elim: "(case p of (a, b) \<Rightarrow> f a b) = Inr y \<Longrightarrow> (\<And>a b. p = (a, b) \<Longrightarrow> f a b = Inr y \<Longrightarrow> P) \<Longrightarrow> P"
  by (cases p) simp

lemma return_elim: "Inr x = Inr y \<Longrightarrow> (y = x \<Longrightarrow> P) \<Longrightarrow> P"
  by simp

lemmas load_elims = let_elim guard_elim split_elim and_then_elim return_elim

lemma int64Value_bounds:
  "int64Value os name d = Inr n \<Longrightarrow> 1 \<le> d \<Longrightarrow> d \<le> 1000000 \<Longrightarrow> 1 \<le> n \<and> n \<le> 1000000"
  by (auto simp: int64Value_def split: if_splits option.splits)

lemma durationValue_pos: "durationValue os name d = Inr t \<Longrightarrow> 0 < d \<Longrightarrow> 0 < t"
  by (auto simp: durationValue_def split: if_splits option.splits)

text \<open>An address with a host and a port from 1 through 65535.\<close>

definition address_ok :: "bool \<Rightarrow> string \<Rightarrow> bool" where
  "address_ok requireHost address \<longleftrightarrow>
     (\<exists>host port n. split_host_port address = Some (host, port) \<and> parse_uint 16 port = Some n \<and> 1 \<le> n \<and> n \<le> 65535
        \<and> (requireHost \<longrightarrow> trim_space host \<noteq> []))"

lemma validateAddress_ok: "validateAddress name address r = Inr u \<Longrightarrow> address_ok r address"
  using parse_uint_bound[of 16]
  by (fastforce simp: validateAddress_def address_ok_def split: if_splits option.splits)

lemma validateAddresses_ok:
  "validateAddresses r pairs = Inr u \<Longrightarrow> (name, address) \<in> set pairs \<Longrightarrow> address_ok r address"
  unfolding validateAddresses_def
  by (induction pairs) (auto intro: validateAddress_ok)

lemma validateDynamic_ok:
  "validateDynamic missing r = Inr u \<Longrightarrow>
   validDNSLabel (cc_ProjectAlias r) \<and> validDNSLabel (cc_EnvironmentAlias r)
   \<and> (cc_EnrollmentNonce r \<noteq> [] \<or> \<not> missing (cc_IdentityDir r))
   \<and> address_ok True (cc_EdgeEndpoint r) \<and> address_ok True (cc_RegistrationEndpoint r)
   \<and> address_ok False (co_AdminAddr (cc_Common r))"
  by (auto simp: validateDynamic_def split: option.splits if_splits dest!: validateAddress_ok)

lemma connectorTargets_ok:
  "connectorTargets b64 json enc = Inr ts \<Longrightarrow>
   ts \<noteq> [] \<and> length ts \<le> 32 \<and> list_all target_ok ts \<and> distinct (map ct_ConnectorID ts) \<and> distinct (map ct_Slot ts)"
  by (auto simp: connectorTargets_def split: if_splits option.splits dest!: connectorLoop_ok)

lemma edgeConnectors_ok:
  "edgeConnectors targets os mode = Inr ts \<Longrightarrow>
   (mode = ''static'' \<longrightarrow> ts \<noteq> []) \<and> length ts \<le> 32 \<and> list_all target_ok ts \<and> distinct (map ct_ConnectorID ts)
   \<and> distinct (map ct_Slot ts)"
  by (auto simp: edgeConnectors_def split: if_splits dest!: connectorTargets_ok)

lemma virtualNetworkValue_ok:
  "virtualNetworkValue raw = Inr p \<Longrightarrow>
   is6 (pfx_addr p) \<and> 10 \<le> pfx_bits p \<and> pfx_bits p \<le> 16 \<and> masked p = p \<and> contains fd00_8 (pfx_addr p)"
  by (auto simp: virtualNetworkValue_def split: option.splits if_splits)

lemma prefixes_wf: "prefixes raw = Inr ps \<Longrightarrow> wf_list ps"
proof -
  have "map_result (\<lambda>part. case parse_prefix (trim_space part) of None \<Rightarrow> Inl (e part) | Some p \<Rightarrow> Inr (masked p)) xs
          = Inr ps \<Longrightarrow> wf_list ps" for xs ps and e :: "string \<Rightarrow> config_error"
    by (induction xs arbitrary: ps) (auto split: sum.splits option.splits)
  then show "prefixes raw = Inr ps \<Longrightarrow> wf_list ps"
    by (auto simp: prefixes_def split: if_splits)
qed

text \<open>The two containment tests of the loader are a complete overlap test.\<close>

lemma checkExcluded_disjoint:
  assumes "checkExcluded network excluded = Inr u" "prefix_wf network" "wf_list excluded" "p \<in> set excluded"
  shows "\<not> (contains network a \<and> contains p a)"
proof
  assume both: "contains network a \<and> contains p a"
  have wf: "prefix_wf p" using assms(3,4) by (auto simp: list_all_iff)
  have "overlaps network p" using both assms(2) wf common_address_overlaps by blast
  moreover have "bit_len (pfx_addr network) = bit_len (pfx_addr p)" using both by (metis contains_bit_len)
  ultimately have "contains network (pfx_addr p) \<or> contains p (pfx_addr network)"
    using overlaps_iff[OF assms(2) wf] both contains_valid by (metis (full_types))
  with assms(1,4) show False by (auto simp: checkExcluded_def list_ex_iff split: if_splits)
qed

text \<open>
  The edge relies on this: known mode, bounded flow limits, positive durations, a canonical unique-local virtual
  network that shares no address with an excluded prefix, well-formed connector targets with distinct identities and
  disjoint virtual prefixes, and listen addresses with a port.
\<close>

definition edge_valid :: "Edge \<Rightarrow> bool" where
  "edge_valid e \<longleftrightarrow>
     ed_RegistrationMode e \<in> {''static'', ''dynamic'', ''migration''}
     \<and> validName (co_EdgeID (ed_Common e))
     \<and> 1 \<le> ed_MaxTCPFlows e \<and> ed_MaxTCPFlows e \<le> 1000000 \<and> 1 \<le> ed_MaxUDPFlows e \<and> ed_MaxUDPFlows e \<le> 1000000
     \<and> 0 < ed_UDPIdleTimeout e \<and> 0 < ed_PreviewLease e \<and> 0 < ed_PersistentLease e \<and> 0 < ed_SlotQuarantine e
     \<and> 0 < ed_ReconcileInterval e
     \<and> is6 (pfx_addr (ed_VirtualNetwork e)) \<and> 10 \<le> pfx_bits (ed_VirtualNetwork e)
     \<and> pfx_bits (ed_VirtualNetwork e) \<le> 16 \<and> masked (ed_VirtualNetwork e) = ed_VirtualNetwork e
     \<and> (\<forall>p\<in>set (ed_ExcludedPrefixes e). \<forall>a. \<not> (contains (ed_VirtualNetwork e) a \<and> contains p a))
     \<and> (ed_RegistrationMode e = ''static'' \<longrightarrow> ed_Connectors e \<noteq> [])
     \<and> length (ed_Connectors e) \<le> 32 \<and> list_all target_ok (ed_Connectors e)
     \<and> distinct (map ct_ConnectorID (ed_Connectors e)) \<and> distinct (map ct_Slot (ed_Connectors e))
     \<and> ed_AllowedRoutes e = map ct_RealPrefix (ed_Connectors e)
     \<and> (\<forall>(name, address)\<in>set (edgeAddresses e). address_ok False address)"

lemma loadCommon_edgeID: "loadCommon os adm r = Inr c \<Longrightarrow> validName (co_EdgeID c)"
  by (auto simp: loadCommon_def Let_def validateCommon_def split: if_splits)

text \<open>
  Whatever the process environment holds, a configuration that the edge loads is valid: the mode is known, the
  flow limits lie between 1 and 1000000, every duration is positive, the virtual network is a canonical IPv6 prefix
  from /10 through /16 that shares no address with an excluded prefix, the static targets have distinct identities and
  slots (and there is one in static mode), and every listen address has a port from 1 through 65535.
\<close>

theorem LoadEdge_valid:
  assumes "LoadEdge targets strings os = Inr e"
  shows "edge_valid e"
proof -
  from assms obtain c connectors u v raw where c: "loadCommon os ''127.0.0.1:9090'' False = Inr c" and ec: "ed_Common e = c"
    and cs: "edgeConnectors targets os (ed_RegistrationMode e) = Inr connectors" "ed_Connectors e = connectors"
      "ed_AllowedRoutes e = map ct_RealPrefix connectors"
    and mode: "ed_RegistrationMode e \<in> {''static'', ''dynamic'', ''migration''}"
    and limits: "int64Value os ''TB_MAX_TCP_FLOWS'' 4096 = Inr (ed_MaxTCPFlows e)"
      "int64Value os ''TB_MAX_UDP_FLOWS'' 4096 = Inr (ed_MaxUDPFlows e)"
    and times: "durationValue os ''TB_UDP_IDLE_TIMEOUT'' (seconds 30) = Inr (ed_UDPIdleTimeout e)"
      "durationValue os ''TB_PREVIEW_LEASE'' (hours 24) = Inr (ed_PreviewLease e)"
      "durationValue os ''TB_PERSISTENT_LEASE'' (hours (30 * 24)) = Inr (ed_PersistentLease e)"
      "durationValue os ''TB_SLOT_QUARANTINE'' (hours 24) = Inr (ed_SlotQuarantine e)"
      "durationValue os ''TB_RECONCILE_INTERVAL'' (seconds 60) = Inr (ed_ReconcileInterval e)"
    and net: "virtualNetworkValue (value_or os ''TB_VIRTUAL_NETWORK'' ''fd40::/10'') = Inr (ed_VirtualNetwork e)"
    and excl: "prefixes raw = Inr (ed_ExcludedPrefixes e)"
      "checkExcluded (ed_VirtualNetwork e) (ed_ExcludedPrefixes e) = Inr u"
    and addrs: "validateAddresses False (edgeAddresses e) = Inr v"
    unfolding LoadEdge_def by (elim load_elims) simp
  note netok = virtualNetworkValue_ok[OF net]
  have wf: "prefix_wf (ed_VirtualNetwork e)" using netok by (metis prefix_wf_masked)
  have "\<forall>p\<in>set (ed_ExcludedPrefixes e). \<forall>a. \<not> (contains (ed_VirtualNetwork e) a \<and> contains p a)"
    using checkExcluded_disjoint[OF excl(2) wf prefixes_wf[OF excl(1)]] by blast
  moreover have "\<forall>(name, address)\<in>set (edgeAddresses e). address_ok False address"
    using validateAddresses_ok[OF addrs] by blast
  moreover have "validName (co_EdgeID (ed_Common e))" using loadCommon_edgeID[OF c] ec by simp
  moreover note durationValue_pos[OF times(1)] durationValue_pos[OF times(2)] durationValue_pos[OF times(3)]
    durationValue_pos[OF times(4)] durationValue_pos[OF times(5)]
    int64Value_bounds[OF limits(1)] int64Value_bounds[OF limits(2)] edgeConnectors_ok[OF cs(1)] netok
  ultimately show ?thesis unfolding edge_valid_def using mode cs by (simp del: map_map)
qed


section \<open>Concrete environments\<close>

definition environment_of :: "(string \<times> string) list \<Rightarrow> environment" where
  "environment_of vars name = (case map_of vars name of Some v \<Rightarrow> v | None \<Rightarrow> [])"

definition edgeVars :: "(string \<times> string) list" where
  "edgeVars =
     [(''TB_MTLS_CA_B64'', ''AAAA''), (''TB_MTLS_CERT_B64'', ''AAAA''), (''TB_MTLS_KEY_B64'', ''AAAA''),
      (''TB_EDGE_ID'', ''edge''), (''TB_REGISTRATION_MODE'', ''dynamic''), (''TB_OIDC_POLICIES_B64'', ''AAAA''),
      (''TB_INTERMEDIATE_CERT_B64'', ''AAAA''), (''TB_INTERMEDIATE_KEY_B64'', ''AAAA'')]"

definition connectorVars :: "(string \<times> string) list" where
  "connectorVars =
     [(''TB_REGISTRATION_MODE'', ''dynamic''), (''TB_TRUST_BUNDLE_B64'', ''AAAA''), (''TB_EDGE_ID'', ''edge''),
      (''TB_EDGE_ENDPOINT'', ''edge:4433''), (''TB_REGISTRATION_ENDPOINT'', ''edge:4434''),
      (''RAILWAY_PROJECT_ID'', ''p''), (''RAILWAY_ENVIRONMENT_ID'', ''e''), (''RAILWAY_ENVIRONMENT_NAME'', ''prod''),
      (''TB_DNS_PROJECT_ALIAS'', ''p''), (''TB_DNS_ENVIRONMENT_ALIAS'', ''prod''),
      (''TB_RECONNECT_MIN_DELAY'', ''2m'')]"

text \<open>The default of the virtual network.\<close>

definition fd40_10 :: prefix where
  "fd40_10 = Prefix (V6 0xfd400000000000000000000000000000 []) 10"

lemma edge_loads:
  "\<exists>e. LoadEdge (\<lambda>_. None) (\<lambda>_. None) (environment_of edgeVars) = Inr e \<and> ed_MaxUDPFlows e = 4096
     \<and> ed_RegistrationMode e = ''dynamic'' \<and> co_EdgeID (ed_Common e) = ''edge'' \<and> ed_VirtualNetwork e = fd40_10 \<and> ed_Connectors e = []"
proof -
  let ?r = "LoadEdge (\<lambda>_. None) (\<lambda>_. None) (environment_of edgeVars)"
  have "(case ?r of Inl _ \<Rightarrow> False | Inr e \<Rightarrow> ed_MaxUDPFlows e = 4096
     \<and> ed_RegistrationMode e = ''dynamic'' \<and> co_EdgeID (ed_Common e) = ''edge'' \<and> ed_VirtualNetwork e = fd40_10 \<and> ed_Connectors e = [])"
    by code_simp
  then show ?thesis by (cases ?r) auto
qed

lemma connector_loads:
  "\<exists>c. LoadConnector (\<lambda>_. False) (environment_of connectorVars) = Inr c \<and> cc_RegistrationMode c = ''dynamic''
     \<and> cc_ReconnectMin c = seconds 120 \<and> cc_ReconnectMax c = seconds 30"
proof -
  let ?r = "LoadConnector (\<lambda>_. False) (environment_of connectorVars)"
  have "(case ?r of Inl _ \<Rightarrow> False | Inr c \<Rightarrow> cc_RegistrationMode c = ''dynamic'' \<and>
           cc_ReconnectMin c = seconds 120 \<and> cc_ReconnectMax c = seconds 30)" by code_simp
  then show ?thesis by (cases ?r) auto
qed

theorem LoadEdge_valid_witness:
  "\<exists>e. LoadEdge (\<lambda>_. None) (\<lambda>_. None) (environment_of edgeVars) = Inr e \<and> ed_MaxUDPFlows e = 4096 \<and> edge_valid e"
  using edge_loads LoadEdge_valid by blast


text \<open>
  The ordering of the reconnect delays is checked in static mode only: a dynamic connector loads with a smallest
  reconnect delay of two minutes and a largest one of thirty seconds.
\<close>

theorem dynamic_delays_unchecked:
  "\<exists>c. LoadConnector (\<lambda>_. False) (environment_of connectorVars) = Inr c \<and> cc_ReconnectMax c < cc_ReconnectMin c"
proof -
  obtain c where "LoadConnector (\<lambda>_. False) (environment_of connectorVars) = Inr c"
      "cc_ReconnectMin c = seconds 120" "cc_ReconnectMax c = seconds 30"
    using connector_loads by blast
  then show ?thesis by (intro exI[of _ c]) simp
qed

end
