(* ===== verification/Registry.thy ===== *)
theory Registry
  imports Netip
begin

text \<open>
  Package \<^verbatim>\<open>internal/registry\<close>: the SQLite store of registrations, pending requests, identity keys,
  certificates, leases, virtual prefix allocations, route generations, replay records and
  audit events. Each table is the list of its rows in row-id order; each method is a function of
  the current time and the database. An operation returns \<open>Inl\<close> of its error, which stands for
  the deferred \<^verbatim>\<open>tx.Rollback()\<close> and leaves the database as it was, or \<open>Inr\<close> of its result with the
  committed database. \<open>sha\<close> is \<^verbatim>\<open>crypto/sha256.Sum256\<close>. Timestamps compare as instants.
\<close>

section \<open>Calendar arithmetic (time.AddDate)\<close>

definition days_from_civil :: "int \<Rightarrow> int \<Rightarrow> int \<Rightarrow> int" where
  "days_from_civil y m d =
     (let y' = (if m \<le> 2 then y - 1 else y); era = y' div 400; yoe = y' - era * 400;
          doy = (153 * (if m > 2 then m - 3 else m + 9) + 2) div 5 + d - 1
      in era * 146097 + yoe * 365 + yoe div 4 - yoe div 100 + doy - 719468)"

definition civil_from_days :: "int \<Rightarrow> int \<times> int \<times> int" where
  "civil_from_days z0 =
     (let z = z0 + 719468; era = z div 146097; doe = z - era * 146097;
          yoe = (doe - doe div 1460 + doe div 36524 - doe div 146096) div 365;
          doy = doe - (365 * yoe + yoe div 4 - yoe div 100); mp = (5 * doy + 2) div 153;
          d = doy - (153 * mp + 2) div 5 + 1; m = (if mp < 10 then mp + 3 else mp - 9)
      in (yoe + era * 400 + (if m \<le> 2 then 1 else 0), m, d))"

definition add_years :: "int \<Rightarrow> time \<Rightarrow> time" where
  "add_years n t =
     (let day = t div hours 24; (y, m, d) = civil_from_days day
      in days_from_civil (y + n) m d * hours 24 + t mod hours 24)"

section \<open>Errors\<close>

datatype registry_error =
    ErrIdentityConflict | ErrPoolExhausted | ErrRequestExpired | ErrReplay | ErrNotFound | ErrRateLimited
  | RequestNotValid | ReplayNotValid | StaticNotValid | PrefixTaken | NetworkNotValid
  | StoredPrefixNotValid | UniqueConstraint

section \<open>Rows\<close>

datatype reg_state = Approved | Ready | Revoked | LeaseExpired
datatype identity_type = StaticV2 | DynamicV3
datatype request_state = Pending | RequestApproved | RequestExpired
datatype key_state = KeyActive | KeyOverlap | KeyRetired
datatype cert_state = CertActive | CertSuperseded | CertRevoked | CertExpired
datatype alloc_state = Free | Allocated | Quarantined
datatype gen_state = GenPending | GenApplied | GenSuperseded

record PendingRequest =
  pr_ID :: string
  pr_Kind :: string
  pr_ProjectID :: string
  pr_EnvironmentID :: string
  pr_EnvironmentName :: string
  pr_ProjectAlias :: string
  pr_EnvironmentAlias :: string
  pr_IdentityKey :: bytes
  pr_IdentityKeyID :: string
  pr_TransportKey :: bytes
  pr_Proof :: bytes
  pr_SourceAddress :: string
  pr_CreatedAt :: time
  pr_ExpiresAt :: time
  pr_State :: request_state

text \<open>A row of \<^verbatim>\<open>registrations\<close>; the two prefixes are stored as text.\<close>

record reg_row =
  r_id :: int
  r_project_id :: string
  r_environment_id :: string
  r_environment_name :: string
  r_project_alias :: string
  r_environment_alias :: string
  r_state :: reg_state
  r_identity_type :: identity_type
  r_lease_class :: string
  r_lease_expires_at :: time
  r_virtual_prefix :: string
  r_real_prefix :: string
  r_created_at :: time
  r_updated_at :: time

record Registration =
  rg_ID :: int
  rg_ProjectID :: string
  rg_EnvironmentID :: string
  rg_EnvironmentName :: string
  rg_ProjectAlias :: string
  rg_EnvironmentAlias :: string
  rg_State :: reg_state
  rg_IdentityType :: identity_type
  rg_LeaseClass :: string
  rg_LeaseExpiresAt :: time
  rg_VirtualPrefix :: prefix
  rg_RealPrefix :: prefix
  rg_CreatedAt :: time
  rg_UpdatedAt :: time

record key_row =
  k_registration_id :: int
  k_key_id :: string
  k_public_key :: bytes
  k_state :: key_state
  k_created_at :: time
  k_rotate_after :: time
  k_overlap_until :: "time option"

record cert_row =
  c_id :: string
  c_registration_id :: int
  c_identity_key_id :: string
  c_certificate_pem :: bytes
  c_state :: cert_state
  c_not_after :: time
  c_created_at :: time

record lease_row =
  l_registration_id :: int
  l_lease_class :: string
  l_starts_at :: time
  l_expires_at :: time
  l_renewed_at :: time
  l_source :: string

record alloc_row =
  a_prefix :: string
  a_state :: alloc_state
  a_registration_id :: "int option"
  a_quarantine_until :: "time option"

record gen_row =
  g_id :: int
  g_desired_routes :: string
  g_state :: gen_state
  g_created_at :: time
  g_applied_at :: "time option"
  g_last_error :: string

record replay_row =
  o_provider_id :: string
  o_jti_hash :: bytes
  o_expires_at :: time

record audit_row =
  e_event_type :: string
  e_request_id :: "string option"
  e_registration_id :: "int option"
  e_occurred_at :: time
  e_data_json :: string

record db =
  registrations :: "reg_row list"
  pending_requests :: "PendingRequest list"
  identity_keys :: "key_row list"
  certificates :: "cert_row list"
  leases :: "lease_row list"
  route_allocations :: "alloc_row list"
  route_generations :: "gen_row list"
  oidc_replays :: "replay_row list"
  audit_events :: "audit_row list"

text \<open>The empty database that \<^verbatim>\<open>initialize\<close> leaves after it ran the schema on a new file.\<close>

definition empty_db :: db where
  "empty_db = \<lparr>registrations = [], pending_requests = [], identity_keys = [], certificates = [],
     leases = [], route_allocations = [], route_generations = [], oidc_replays = [],
     audit_events = []\<rparr>"

section \<open>Arguments and results\<close>

record Approval =
  ap_RequestID :: string
  ap_ProviderID :: string
  ap_JTI :: string
  ap_JTIExpiresAt :: time
  ap_LeaseClass :: string
  ap_LeaseDuration :: duration
  ap_RealPrefix :: prefix
  ap_CertificatePEM :: bytes
  ap_CertificateID :: string
  ap_CertificateEnd :: time
  ap_AuditJSON :: string

record RouteGeneration =
  rgn_ID :: int
  rgn_DesiredRoutes :: "prefix list"
  rgn_State :: gen_state
  rgn_LastError :: string
  rgn_CreatedAt :: time

record Credential =
  cr_CertificatePEM :: bytes
  cr_NotAfter :: time
  cr_IdentityKeyID :: string

record Stats =
  st_Registrations :: nat
  st_Active :: nat
  st_Allocated :: nat
  st_Available :: nat
  st_Quarantined :: nat
  st_Pending :: nat
  st_RoutesPending :: nat
  st_CertificatesSoon :: nat
  st_LeasesSoon :: nat
  st_RegistrationState :: "(reg_state \<times> string) \<rightharpoonup> nat"

record StaticRegistration =
  sr_ProjectID :: string
  sr_EnvironmentID :: string
  sr_EnvironmentName :: string
  sr_ConnectorID :: string
  sr_VirtualPrefix :: prefix
  sr_RealPrefix :: prefix

section \<open>SQL\<close>

text \<open>\<^verbatim>\<open>UPDATE ... SET f WHERE P\<close>, \<^verbatim>\<open>COUNT(*)\<close>, and the next \<^verbatim>\<open>INTEGER PRIMARY KEY\<close>.\<close>

definition update_where :: "('r \<Rightarrow> bool) \<Rightarrow> ('r \<Rightarrow> 'r) \<Rightarrow> 'r list \<Rightarrow> 'r list" where
  "update_where P f rows = map (\<lambda>r. if P r then f r else r) rows"

definition count_where :: "('r \<Rightarrow> bool) \<Rightarrow> 'r list \<Rightarrow> nat" where
  "count_where P rows = length (filter P rows)"

definition next_id :: "int list \<Rightarrow> int" where
  "next_id ids = foldr max ids 0 + 1"

text \<open>The three \<^verbatim>\<open>UNIQUE\<close> constraints of \<^verbatim>\<open>registrations\<close>, checked after every write to the table.\<close>

abbreviation r_identity :: "reg_row \<Rightarrow> string \<times> string" where
  "r_identity r \<equiv> (r_project_id r, r_environment_id r)"

abbreviation r_alias :: "reg_row \<Rightarrow> string \<times> string" where
  "r_alias r \<equiv> (r_project_alias r, r_environment_alias r)"

definition unique_regs :: "reg_row list \<Rightarrow> bool" where
  "unique_regs rows \<longleftrightarrow>
     distinct (map r_virtual_prefix rows) \<and> distinct (map r_identity rows) \<and> distinct (map r_alias rows)"

definition set_registrations :: "db \<Rightarrow> reg_row list \<Rightarrow> registry_error + db" where
  "set_registrations d rows =
     (if unique_regs rows then Inr (d\<lparr>registrations := rows\<rparr>) else Inl UniqueConstraint)"

text \<open>\<^verbatim>\<open>state IN ('approved', 'ready')\<close>, and the same with an unexpired lease.\<close>

definition in_service :: "reg_row \<Rightarrow> bool" where
  "in_service r \<longleftrightarrow> r_state r \<in> {Approved, Ready}"

definition live :: "time \<Rightarrow> reg_row \<Rightarrow> bool" where
  "live now r \<longleftrightarrow> in_service r \<and> r_lease_expires_at r > now"

definition nul :: char where "nul = CHR 0x00"

definition text_bytes :: "string \<Rightarrow> bytes" where
  "text_bytes s = map (\<lambda>c. word_of_nat (of_char c)) s"

definition jti_hash :: "(bytes \<Rightarrow> bytes) \<Rightarrow> string \<Rightarrow> string \<Rightarrow> bytes" where
  "jti_hash sha provider jti = sha (text_bytes (provider @ [nul] @ jti))"

definition hex_encode :: "bytes \<Rightarrow> string" where
  "hex_encode bs = concat (map (\<lambda>b. [hex_digit (unat b div 16), hex_digit (unat b mod 16)]) bs)"

definition Fingerprint :: "(bytes \<Rightarrow> bytes) \<Rightarrow> bytes \<Rightarrow> string" where
  "Fingerprint sha key = hex_encode (sha key)"

section \<open>Queries\<close>

definition scanRegistration :: "reg_row option \<Rightarrow> registry_error + Registration" where
  "scanRegistration row =
     (case row of
        None \<Rightarrow> Inl ErrNotFound
      | Some r \<Rightarrow>
          (case (parse_prefix (r_virtual_prefix r), parse_prefix (r_real_prefix r)) of
             (Some virt, Some real) \<Rightarrow>
               Inr \<lparr>rg_ID = r_id r, rg_ProjectID = r_project_id r, rg_EnvironmentID = r_environment_id r,
                    rg_EnvironmentName = r_environment_name r, rg_ProjectAlias = r_project_alias r,
                    rg_EnvironmentAlias = r_environment_alias r, rg_State = r_state r,
                    rg_IdentityType = r_identity_type r, rg_LeaseClass = r_lease_class r,
                    rg_LeaseExpiresAt = r_lease_expires_at r, rg_VirtualPrefix = virt,
                    rg_RealPrefix = real, rg_CreatedAt = r_created_at r, rg_UpdatedAt = r_updated_at r\<rparr>
           | _ \<Rightarrow> Inl StoredPrefixNotValid))"

definition pendingTx :: "db \<Rightarrow> string \<Rightarrow> registry_error + PendingRequest" where
  "pendingTx d i = (case List.find (\<lambda>p. pr_ID p = i) (pending_requests d) of
                      None \<Rightarrow> Inl ErrNotFound | Some p \<Rightarrow> Inr p)"

definition PendingRow :: "db \<Rightarrow> string \<Rightarrow> registry_error + PendingRequest" where
  "PendingRow d i = (case List.find (\<lambda>p. pr_ID p = i) (pending_requests d) of
                      None \<Rightarrow> Inl ErrNotFound | Some p \<Rightarrow> Inr p)"

definition identity_row :: "db \<Rightarrow> string \<Rightarrow> string \<Rightarrow> reg_row option" where
  "identity_row d project env = List.find (\<lambda>r. r_identity r = (project, env)) (registrations d)"

definition registrationByIdentityTx :: "db \<Rightarrow> string \<Rightarrow> string \<Rightarrow> registry_error + Registration" where
  "registrationByIdentityTx d project env = scanRegistration (identity_row d project env)"

definition registrationByIDTx :: "db \<Rightarrow> int \<Rightarrow> registry_error + Registration" where
  "registrationByIDTx d i = scanRegistration (List.find (\<lambda>r. r_id r = i) (registrations d))"

definition Registration_of :: "db \<Rightarrow> string \<Rightarrow> string \<Rightarrow> registry_error + Registration" where
  "Registration_of d project env = scanRegistration (identity_row d project env)"

definition RegistrationByAlias :: "time \<Rightarrow> db \<Rightarrow> string \<Rightarrow> string \<Rightarrow> registry_error + Registration" where
  "RegistrationByAlias now d pa ea =
     scanRegistration (List.find (\<lambda>r. r_alias r = (pa, ea) \<and> live now r) (registrations d))"

definition ProjectKnown :: "db \<Rightarrow> string \<Rightarrow> bool" where
  "ProjectKnown d project = list_ex (\<lambda>r. r_project_id r = project) (registrations d)"

definition pending_of :: "db \<Rightarrow> string \<Rightarrow> string \<Rightarrow> PendingRequest list" where
  "pending_of d project env =
     filter (\<lambda>p. pr_ProjectID p = project \<and> pr_EnvironmentID p = env \<and> pr_State p = Pending)
       (pending_requests d)"

definition PendingForIdentity :: "db \<Rightarrow> string \<Rightarrow> string \<Rightarrow> PendingRequest list" where
  "PendingForIdentity d project env = sort_key pr_CreatedAt (pending_of d project env)"

text \<open>The newest active certificate of a registration: by \<^verbatim>\<open>created_at\<close>, then by row id.\<close>

definition CredentialOf :: "db \<Rightarrow> int \<Rightarrow> registry_error + Credential" where
  "CredentialOf d reg =
     (case sort_key c_created_at
             (filter (\<lambda>c. c_registration_id c = reg \<and> c_state c = CertActive) (certificates d)) of
        [] \<Rightarrow> Inl ErrNotFound
      | cs \<Rightarrow> let c = last cs in
              Inr \<lparr>cr_CertificatePEM = c_certificate_pem c, cr_NotAfter = c_not_after c,
                   cr_IdentityKeyID = c_identity_key_id c\<rparr>)"

definition key_usable :: "time \<Rightarrow> key_row \<Rightarrow> bool" where
  "key_usable now k \<longleftrightarrow>
     k_state k = KeyActive
     \<or> k_state k = KeyOverlap \<and> (case k_overlap_until k of None \<Rightarrow> False | Some u \<Rightarrow> u > now)"

definition ActiveIdentityKey :: "time \<Rightarrow> db \<Rightarrow> int \<Rightarrow> string \<Rightarrow> registry_error + bytes" where
  "ActiveIdentityKey now d reg key =
     (case List.find (\<lambda>k. k_registration_id k = reg \<and> k_key_id k = key \<and> key_usable now k)
             (identity_keys d) of
        None \<Rightarrow> Inl ErrNotFound | Some k \<Rightarrow> Inr (k_public_key k))"

definition ActiveRegistrations :: "time \<Rightarrow> db \<Rightarrow> registry_error + Registration list" where
  "ActiveRegistrations now d =
     map_result (\<lambda>r. scanRegistration (Some r))
       (sort_key r_virtual_prefix (filter (live now) (registrations d)))"

definition StatsOf :: "time \<Rightarrow> db \<Rightarrow> Stats" where
  "StatsOf now d =
     (let soon = now + hours (7 * 24) in
      \<lparr>st_Registrations = length (registrations d),
       st_Active = count_where (live now) (registrations d),
       st_Allocated = count_where (\<lambda>a. a_state a = Allocated) (route_allocations d),
       st_Available = count_where (\<lambda>a. a_state a = Free) (route_allocations d),
       st_Quarantined = count_where (\<lambda>a. a_state a = Quarantined) (route_allocations d),
       st_Pending = count_where (\<lambda>p. pr_State p = Pending \<and> pr_ExpiresAt p > now) (pending_requests d),
       st_RoutesPending = count_where (\<lambda>g. g_state g = GenPending) (route_generations d),
       st_CertificatesSoon = count_where (\<lambda>c. c_state c = CertActive \<and> c_not_after c > now
                                            \<and> c_not_after c \<le> soon) (certificates d),
       st_LeasesSoon = count_where (\<lambda>r. live now r \<and> r_lease_expires_at r \<le> soon) (registrations d),
       st_RegistrationState =
         (\<lambda>(s, l). let n = count_where (\<lambda>r. r_state r = s \<and> r_lease_class r = l) (registrations d)
                   in if n = 0 then None else Some n)\<rparr>)"

section \<open>Pending requests\<close>

definition request_valid :: "PendingRequest \<Rightarrow> bool" where
  "request_valid q \<longleftrightarrow>
     \<not> (pr_ID q = [] \<or> pr_ProjectID q = [] \<or> pr_EnvironmentID q = []
        \<or> length (pr_IdentityKey q) \<noteq> 32 \<or> length (pr_Proof q) \<noteq> 32)"

text \<open>The fields that \<^verbatim>\<open>CreatePending\<close> fills in before it opens the transaction.\<close>

definition fill_request :: "(bytes \<Rightarrow> bytes) \<Rightarrow> time \<Rightarrow> PendingRequest \<Rightarrow> PendingRequest" where
  "fill_request sha now q =
     q\<lparr>pr_IdentityKeyID := Fingerprint sha (pr_IdentityKey q),
       pr_CreatedAt := (if pr_CreatedAt q = zero_time then now else pr_CreatedAt q),
       pr_ExpiresAt := (if pr_ExpiresAt q = zero_time then now + minutes 30 else pr_ExpiresAt q),
       pr_State := Pending\<rparr>"

text \<open>The check against a registration in service with a different identity key.\<close>

definition identity_conflict :: "db \<Rightarrow> PendingRequest \<Rightarrow> bool" where
  "identity_conflict d q =
     (case List.find (\<lambda>r. r_identity r = (pr_ProjectID q, pr_EnvironmentID q) \<and> in_service r)
             (registrations d) of
        None \<Rightarrow> False
      | Some r \<Rightarrow>
          \<not> list_ex (\<lambda>k. k_registration_id k = r_id r \<and> k_key_id k = pr_IdentityKeyID q
                         \<and> k_state k \<in> {KeyActive, KeyOverlap}) (identity_keys d)
          \<and> pr_Kind q \<noteq> ''rotate'' \<and> r_identity_type r \<noteq> StaticV2)"

definition newest_pending :: "db \<Rightarrow> string \<Rightarrow> string \<Rightarrow> PendingRequest option" where
  "newest_pending d project env =
     (case sort_key (\<lambda>p. - pr_CreatedAt p) (pending_of d project env) of [] \<Rightarrow> None | p # _ \<Rightarrow> Some p)"

definition unexpired_pending :: "time \<Rightarrow> (PendingRequest \<Rightarrow> bool) \<Rightarrow> PendingRequest list \<Rightarrow> nat" where
  "unexpired_pending now P rows =
     count_where (\<lambda>p. P p \<and> pr_State p = Pending \<and> pr_ExpiresAt p > now) rows"

text \<open>The two limits and the insertion, on the request table left by the earlier statements.\<close>

definition insert_pending ::
    "time \<Rightarrow> db \<Rightarrow> PendingRequest \<Rightarrow> registry_error + db \<times> PendingRequest \<times> bool" where
  "insert_pending now d q =
     (let rows = pending_requests d in
      if unexpired_pending now (\<lambda>p. pr_ProjectID p = pr_ProjectID q) rows \<ge> 10
         \<or> unexpired_pending now (\<lambda>p. pr_SourceAddress p = pr_SourceAddress q) rows \<ge> 30
      then Inl ErrRateLimited
      else if pr_ID q \<in> pr_ID ` set rows then Inl UniqueConstraint
      else Inr (d\<lparr>pending_requests := rows @ [q]\<rparr>, q, True))"

definition expire_request :: "string \<Rightarrow> db \<Rightarrow> db" where
  "expire_request i d =
     d\<lparr>pending_requests :=
         update_where (\<lambda>p. pr_ID p = i) (\<lambda>p. p\<lparr>pr_State := RequestExpired\<rparr>) (pending_requests d)\<rparr>"

definition CreatePending ::
    "(bytes \<Rightarrow> bytes) \<Rightarrow> time \<Rightarrow> db \<Rightarrow> PendingRequest
     \<Rightarrow> registry_error + db \<times> PendingRequest \<times> bool" where
  "CreatePending sha now d request =
     (if \<not> request_valid request then Inl RequestNotValid
      else let q = fill_request sha now request in
        if identity_conflict d q then Inl ErrIdentityConflict
        else case newest_pending d (pr_ProjectID q) (pr_EnvironmentID q) of
            None \<Rightarrow> insert_pending now d q
          | Some existing \<Rightarrow>
              if pr_IdentityKeyID existing \<noteq> pr_IdentityKeyID q then Inl ErrIdentityConflict
              else if pr_ExpiresAt existing > now then Inr (d, existing, False)
              else insert_pending now (expire_request (pr_ID existing) d) q)"

section \<open>Allocation and route generations\<close>

definition release_quarantine :: "time \<Rightarrow> db \<Rightarrow> db" where
  "release_quarantine now d =
     d\<lparr>route_allocations :=
         update_where
           (\<lambda>a. a_state a = Quarantined
                \<and> (case a_quarantine_until a of None \<Rightarrow> False | Some u \<Rightarrow> u \<le> now))
           (\<lambda>a. a\<lparr>a_state := Free, a_registration_id := None, a_quarantine_until := None\<rparr>)
           (route_allocations d)\<rparr>"

definition allocatePrefixTx :: "time \<Rightarrow> db \<Rightarrow> registry_error + db \<times> prefix" where
  "allocatePrefixTx now d0 =
     (let d = release_quarantine now d0 in
      case sort (map a_prefix (filter (\<lambda>a. a_state a = Free) (route_allocations d))) of
        [] \<Rightarrow> Inl ErrPoolExhausted
      | raw # _ \<Rightarrow>
          (let free = (\<lambda>a. a_prefix a = raw \<and> a_state a = Free) in
           if count_where free (route_allocations d) \<noteq> 1 then Inl ErrPoolExhausted
           else case parse_prefix raw of
               None \<Rightarrow> Inl StoredPrefixNotValid
             | Some p \<Rightarrow>
                 Inr (d\<lparr>route_allocations :=
                          update_where free (\<lambda>a. a\<lparr>a_state := Allocated\<rparr>) (route_allocations d)\<rparr>, p)))"

definition createRouteGenerationTx :: "time \<Rightarrow> db \<Rightarrow> db" where
  "createRouteGenerationTx now d =
     (let routes = sort (map r_virtual_prefix (filter (live now) (registrations d)));
          gens = update_where (\<lambda>g. g_state g = GenPending) (\<lambda>g. g\<lparr>g_state := GenSuperseded\<rparr>)
                   (route_generations d)
      in d\<lparr>route_generations :=
             gens @ [\<lparr>g_id = next_id (map g_id gens), g_desired_routes = join_with '','' routes,
                      g_state = GenPending, g_created_at = now, g_applied_at = None,
                      g_last_error = []\<rparr>]\<rparr>)"

fun splitRoutes_from :: "string \<Rightarrow> string \<Rightarrow> string list" where
  "splitRoutes_from part [] = [rev part]"
| "splitRoutes_from part (c # cs) =
     (if c = CHR '','' then rev part # splitRoutes_from [] cs else splitRoutes_from (c # part) cs)"

definition splitRoutes :: "string \<Rightarrow> string list" where
  "splitRoutes v = (if v = [] then [] else splitRoutes_from [] v)"

definition PendingRouteGeneration :: "db \<Rightarrow> registry_error + RouteGeneration" where
  "PendingRouteGeneration d =
     (case sort_key g_id (filter (\<lambda>g. g_state g = GenPending) (route_generations d)) of
        [] \<Rightarrow> Inl ErrNotFound
      | g # _ \<Rightarrow>
          (case map_result (\<lambda>v. case parse_prefix v of None \<Rightarrow> Inl StoredPrefixNotValid | Some p \<Rightarrow> Inr p)
                  (splitRoutes (g_desired_routes g)) of
             Inl e \<Rightarrow> Inl e
           | Inr routes \<Rightarrow>
               Inr \<lparr>rgn_ID = g_id g, rgn_DesiredRoutes = routes, rgn_State = g_state g,
                    rgn_LastError = g_last_error g, rgn_CreatedAt = g_created_at g\<rparr>))"

text \<open>The second argument is the reconcile error's message, or \<open>None\<close> for success.\<close>

definition CompleteRouteGeneration :: "time \<Rightarrow> db \<Rightarrow> int \<Rightarrow> string option \<Rightarrow> db" where
  "CompleteRouteGeneration now d i failure =
     d\<lparr>route_generations :=
         update_where (\<lambda>g. g_id g = i)
           (\<lambda>g. case failure of
                  None \<Rightarrow> g\<lparr>g_state := GenApplied, g_last_error := [], g_applied_at := Some now\<rparr>
                | Some message \<Rightarrow> g\<lparr>g_state := GenPending, g_last_error := message\<rparr>)
           (route_generations d)\<rparr>"

definition prefixesOverlap :: "prefix \<Rightarrow> prefix \<Rightarrow> bool" where
  "prefixesOverlap left right \<longleftrightarrow> contains left (pfx_addr right) \<or> contains right (pfx_addr left)"

text \<open>The prefix of one slot of the pool: byte 1 of the base plus the slot, modulo 256.\<close>

definition slotPrefix :: "addr \<Rightarrow> nat \<Rightarrow> prefix" where
  "slotPrefix base slot =
     (let bs = as16 base in masked (prefix_from (addr_from16 (bs[1 := bs ! 1 + word_of_nat slot])) 16))"

definition pool_network :: "prefix \<Rightarrow> bool" where
  "pool_network n \<longleftrightarrow>
     \<not> (\<not> is6 (pfx_addr n) \<or> pfx_bits n < 10 \<or> pfx_bits n > 16 \<or> n \<noteq> masked n)
     \<and> contains (Prefix (V6 0xfd000000000000000000000000000000 []) 8) (pfx_addr n)"

definition insert_free :: "db \<Rightarrow> prefix \<Rightarrow> db" where
  "insert_free d p =
     (if prefix_string p \<in> a_prefix ` set (route_allocations d) then d
      else d\<lparr>route_allocations := route_allocations d @
               [\<lparr>a_prefix = prefix_string p, a_state = Free, a_registration_id = None,
                 a_quarantine_until = None\<rparr>]\<rparr>)"

definition InitializePool :: "db \<Rightarrow> prefix \<Rightarrow> prefix list \<Rightarrow> registry_error + db" where
  "InitializePool d network excluded =
     (if \<not> pool_network network then Inl NetworkNotValid
      else Inr (foldl (\<lambda>d slot. let p = slotPrefix (pfx_addr network) slot in
                  if list_ex (prefixesOverlap p) excluded then d else insert_free d p)
                d [0 ..< 2 ^ nat (16 - pfx_bits network)]))"

section \<open>Replay records\<close>

definition insert_replay :: "db \<Rightarrow> string \<Rightarrow> bytes \<Rightarrow> time \<Rightarrow> registry_error + db" where
  "insert_replay d provider h expires =
     (if list_ex (\<lambda>o'. o_provider_id o' = provider \<and> o_jti_hash o' = h) (oidc_replays d)
      then Inl ErrReplay
      else Inr (d\<lparr>oidc_replays := oidc_replays d @
                    [\<lparr>o_provider_id = provider, o_jti_hash = h, o_expires_at = expires\<rparr>]\<rparr>))"

definition ConsumeReplay ::
    "(bytes \<Rightarrow> bytes) \<Rightarrow> time \<Rightarrow> db \<Rightarrow> string \<Rightarrow> string \<Rightarrow> time \<Rightarrow> registry_error + db" where
  "ConsumeReplay sha now d provider jti expires =
     (if provider = [] \<or> jti = [] \<or> \<not> expires > now then Inl ReplayNotValid
      else insert_replay d provider (jti_hash sha provider jti) expires)"

section \<open>Approval\<close>

text \<open>The branch of \<^verbatim>\<open>Approve\<close> that creates a registration for a new identity.\<close>

definition new_registration ::
    "time \<Rightarrow> PendingRequest \<Rightarrow> Approval \<Rightarrow> prefix \<Rightarrow> int \<Rightarrow> reg_row" where
  "new_registration now q a p i =
     \<lparr>r_id = i, r_project_id = pr_ProjectID q, r_environment_id = pr_EnvironmentID q,
      r_environment_name = pr_EnvironmentName q, r_project_alias = pr_ProjectAlias q,
      r_environment_alias = pr_EnvironmentAlias q, r_state = Approved,
      r_identity_type = DynamicV3, r_lease_class = ap_LeaseClass a,
      r_lease_expires_at = now + ap_LeaseDuration a, r_virtual_prefix = prefix_string p,
      r_real_prefix = prefix_string (ap_RealPrefix a), r_created_at = now, r_updated_at = now\<rparr>"

definition assign_route :: "prefix \<Rightarrow> int \<Rightarrow> db \<Rightarrow> db" where
  "assign_route p i d =
     d\<lparr>route_allocations := update_where (\<lambda>x. a_prefix x = prefix_string p)
                              (\<lambda>x. x\<lparr>a_registration_id := Some i\<rparr>) (route_allocations d)\<rparr>"

definition create_registration ::
    "time \<Rightarrow> db \<Rightarrow> PendingRequest \<Rightarrow> Approval \<Rightarrow> registry_error + db \<times> int" where
  "create_registration now d q a =
     and_then (allocatePrefixTx now d) (\<lambda>(d1, p).
       let i = next_id (map r_id (registrations d1)) in
       and_then (set_registrations d1 (registrations d1 @ [new_registration now q a p i])) (\<lambda>d2.
         and_then (registrationByIDTx (assign_route p i d2) i)
           (\<lambda>registration. Inr (assign_route p i d2, rg_ID registration))))"

text \<open>The registration to activate, whether it was created, and the database so far.\<close>

definition find_or_create ::
    "time \<Rightarrow> db \<Rightarrow> PendingRequest \<Rightarrow> Approval \<Rightarrow> registry_error + db \<times> int \<times> bool" where
  "find_or_create now d q a =
     (case registrationByIdentityTx d (pr_ProjectID q) (pr_EnvironmentID q) of
        Inr registration \<Rightarrow> Inr (d, rg_ID registration, False)
      | Inl ErrNotFound \<Rightarrow> and_then (create_registration now d q a) (\<lambda>(d', i). Inr (d', i, True))
      | Inl e \<Rightarrow> Inl e)"

definition activate_registration ::
    "time \<Rightarrow> db \<Rightarrow> int \<Rightarrow> PendingRequest \<Rightarrow> Approval \<Rightarrow> registry_error + db" where
  "activate_registration now d i q a =
     set_registrations d
       (update_where (\<lambda>r. r_id r = i)
          (\<lambda>r. r\<lparr>r_environment_name := pr_EnvironmentName q, r_project_alias := pr_ProjectAlias q,
                 r_environment_alias := pr_EnvironmentAlias q, r_state := Approved,
                 r_identity_type := DynamicV3, r_lease_class := ap_LeaseClass a,
                 r_lease_expires_at := now + ap_LeaseDuration a,
                 r_real_prefix := prefix_string (ap_RealPrefix a), r_updated_at := now\<rparr>)
          (registrations d))"

definition activate_key :: "time \<Rightarrow> db \<Rightarrow> int \<Rightarrow> PendingRequest \<Rightarrow> db" where
  "activate_key now d i q =
     (let same = (\<lambda>k. k_registration_id k = i \<and> k_key_id k = pr_IdentityKeyID q) in
      d\<lparr>identity_keys :=
          (if list_ex same (identity_keys d)
           then update_where same (\<lambda>k. k\<lparr>k_state := KeyActive\<rparr>) (identity_keys d)
           else identity_keys d @
             [\<lparr>k_registration_id = i, k_key_id = pr_IdentityKeyID q, k_public_key = pr_IdentityKey q,
               k_state = KeyActive, k_created_at = now, k_rotate_after = add_years 1 now,
               k_overlap_until = None\<rparr>])\<rparr>)"

text \<open>\<^verbatim>\<open>UPDATE certificates SET state = s WHERE registration_id = i AND state = 'active'\<close>.\<close>

definition retire_certificates :: "cert_state \<Rightarrow> int \<Rightarrow> db \<Rightarrow> db" where
  "retire_certificates s i d =
     d\<lparr>certificates := update_where (\<lambda>c. c_registration_id c = i \<and> c_state c = CertActive)
                          (\<lambda>c. c\<lparr>c_state := s\<rparr>) (certificates d)\<rparr>"

definition new_certificate ::
    "time \<Rightarrow> int \<Rightarrow> string \<Rightarrow> string \<Rightarrow> bytes \<Rightarrow> time \<Rightarrow> cert_row" where
  "new_certificate now i key cid pem until =
     \<lparr>c_id = cid, c_registration_id = i, c_identity_key_id = key, c_certificate_pem = pem,
      c_state = CertActive, c_not_after = until, c_created_at = now\<rparr>"

definition store_certificate :: "time \<Rightarrow> db \<Rightarrow> int \<Rightarrow> PendingRequest \<Rightarrow> Approval \<Rightarrow> db" where
  "store_certificate now d i q a =
     (if ap_CertificatePEM a = [] then d
      else let d' = retire_certificates CertSuperseded i d in
        if ap_CertificateID a \<in> c_id ` set (certificates d') then d'
        else d'\<lparr>certificates := certificates d' @
               [new_certificate now i (pr_IdentityKeyID q) (ap_CertificateID a) (ap_CertificatePEM a)
                  (ap_CertificateEnd a)]\<rparr>)"

definition add_lease :: "time \<Rightarrow> int \<Rightarrow> string \<Rightarrow> time \<Rightarrow> string \<Rightarrow> db \<Rightarrow> db" where
  "add_lease now i cls expires source d =
     d\<lparr>leases := leases d @ [\<lparr>l_registration_id = i, l_lease_class = cls, l_starts_at = now,
                              l_expires_at = expires, l_renewed_at = now, l_source = source\<rparr>]\<rparr>"

definition add_audit :: "time \<Rightarrow> string \<Rightarrow> string option \<Rightarrow> int \<Rightarrow> string \<Rightarrow> db \<Rightarrow> db" where
  "add_audit now event request i json d =
     d\<lparr>audit_events := audit_events d @ [\<lparr>e_event_type = event, e_request_id = request,
                              e_registration_id = Some i, e_occurred_at = now, e_data_json = json\<rparr>]\<rparr>"

definition approve_request :: "string \<Rightarrow> db \<Rightarrow> db" where
  "approve_request i d =
     d\<lparr>pending_requests :=
         update_where (\<lambda>p. pr_ID p = i) (\<lambda>p. p\<lparr>pr_State := RequestApproved\<rparr>) (pending_requests d)\<rparr>"

text \<open>The statements after the registration is active, up to the commit.\<close>

definition finish_approval :: "time \<Rightarrow> int \<Rightarrow> PendingRequest \<Rightarrow> Approval \<Rightarrow> db \<Rightarrow> db" where
  "finish_approval now i q a d =
     add_audit now ''registration.approved'' (Some (pr_ID q)) i (ap_AuditJSON a)
       (createRouteGenerationTx now
         (approve_request (pr_ID q)
           (add_lease now i (ap_LeaseClass a) (now + ap_LeaseDuration a) ''approval''
             (store_certificate now (activate_key now d i q) i q a))))"

text \<open>
  \<^verbatim>\<open>Approve\<close>. The result carries the registration as read back after the commit, so an error of
  that last read is a result on the committed database.
\<close>

definition Approve ::
    "(bytes \<Rightarrow> bytes) \<Rightarrow> time \<Rightarrow> db \<Rightarrow> Approval
     \<Rightarrow> registry_error + db \<times> (registry_error + Registration) \<times> bool" where
  "Approve sha now d a =
     and_then (pendingTx d (ap_RequestID a)) (\<lambda>q.
       if pr_State q = RequestApproved
       then and_then (registrationByIdentityTx d (pr_ProjectID q) (pr_EnvironmentID q))
              (\<lambda>registration. Inr (d, Inr registration, False))
       else if pr_State q \<noteq> Pending \<or> \<not> pr_ExpiresAt q > now then Inl ErrRequestExpired
       else if ap_JTI a = [] \<or> \<not> ap_JTIExpiresAt a > now then Inl ReplayNotValid
       else and_then (insert_replay d (ap_ProviderID a) (jti_hash sha (ap_ProviderID a) (ap_JTI a))
                        (ap_JTIExpiresAt a)) (\<lambda>d1.
            and_then (find_or_create now d1 q a) (\<lambda>(d2, i, created).
            and_then (activate_registration now d2 i q a) (\<lambda>d3.
              let d4 = finish_approval now i q a d3 in
              Inr (d4, Registration_of d4 (pr_ProjectID q) (pr_EnvironmentID q), created)))))"

section \<open>Rotation, renewal and readiness\<close>

definition CompleteIdentityRotation ::
    "time \<Rightarrow> db \<Rightarrow> int \<Rightarrow> string \<Rightarrow> duration \<Rightarrow> registry_error + db" where
  "CompleteIdentityRotation now d i key overlap =
     (if \<not> list_ex (\<lambda>k. k_registration_id k = i \<and> k_key_id k = key \<and> k_state k = KeyActive)
              (identity_keys d)
      then Inl ErrNotFound
      else Inr (add_audit now ''identity.rotation.completed'' None i ''{}''
             (d\<lparr>identity_keys :=
                  update_where (\<lambda>k. k_registration_id k = i \<and> k_key_id k \<noteq> key \<and> k_state k = KeyActive)
                    (\<lambda>k. k\<lparr>k_state := KeyOverlap, k_overlap_until := Some (now + overlap)\<rparr>)
                    (identity_keys d)\<rparr>)))"

definition extend_lease :: "time \<Rightarrow> int \<Rightarrow> time \<Rightarrow> db \<Rightarrow> registry_error + db" where
  "extend_lease now i lease_end d =
     (let hit = (\<lambda>r. r_id r = i \<and> live now r) in
      if count_where hit (registrations d) \<noteq> 1 then Inl ErrRequestExpired
      else Inr (d\<lparr>registrations :=
             update_where hit (\<lambda>r. r\<lparr>r_lease_expires_at := lease_end, r_updated_at := now\<rparr>)
               (registrations d)\<rparr>))"

definition Renew ::
    "time \<Rightarrow> db \<Rightarrow> Registration \<Rightarrow> string \<Rightarrow> bytes \<Rightarrow> string \<Rightarrow> time \<Rightarrow> duration
     \<Rightarrow> registry_error + db \<times> (registry_error + Registration)" where
  "Renew now d reg key pem cid cert_end duration =
     (case registrationByIdentityTx d (rg_ProjectID reg) (rg_EnvironmentID reg) of
        Inl e \<Rightarrow> Inl ErrRequestExpired
      | Inr current \<Rightarrow>
          if rg_ID current \<noteq> rg_ID reg \<or> rg_State current \<noteq> Approved \<and> rg_State current \<noteq> Ready
             \<or> \<not> rg_LeaseExpiresAt current > now
          then Inl ErrRequestExpired
          else if \<not> list_ex (\<lambda>k. k_registration_id k = rg_ID reg \<and> k_key_id k = key \<and> key_usable now k)
                     (identity_keys d)
          then Inl ErrNotFound
          else and_then (extend_lease now (rg_ID reg) (now + duration) d) (\<lambda>d1.
            let d2 = retire_certificates CertSuperseded (rg_ID reg) d1 in
            if cid \<in> c_id ` set (certificates d2) then Inl UniqueConstraint
            else let d3 = d2\<lparr>certificates := certificates d2 @
                               [new_certificate now (rg_ID reg) key cid pem cert_end]\<rparr>;
                     d4 = add_audit now ''certificate.renewed'' None (rg_ID reg) ''{}''
                            (add_lease now (rg_ID reg) (rg_LeaseClass reg) (now + duration)
                               ''certificate-renewal'' d3)
                 in Inr (d4, Registration_of d4 (rg_ProjectID reg) (rg_EnvironmentID reg))))"

definition MarkReady :: "time \<Rightarrow> db \<Rightarrow> string \<Rightarrow> string \<Rightarrow> registry_error + db" where
  "MarkReady now d project env =
     (let hit = (\<lambda>r. r_identity r = (project, env) \<and> r_state r = Approved) in
      if count_where hit (registrations d) = 0 then Inl ErrNotFound
      else Inr (d\<lparr>registrations :=
             update_where hit (\<lambda>r. r\<lparr>r_state := Ready, r_updated_at := now\<rparr>) (registrations d)\<rparr>))"

section \<open>Revocation and expiry\<close>

definition set_reg_state :: "time \<Rightarrow> int \<Rightarrow> reg_state \<Rightarrow> db \<Rightarrow> db" where
  "set_reg_state now i s d =
     d\<lparr>registrations := update_where (\<lambda>r. r_id r = i) (\<lambda>r. r\<lparr>r_state := s, r_updated_at := now\<rparr>)
                          (registrations d)\<rparr>"

definition retire_keys :: "int \<Rightarrow> db \<Rightarrow> db" where
  "retire_keys i d =
     d\<lparr>identity_keys := update_where (\<lambda>k. k_registration_id k = i \<and> k_state k \<in> {KeyActive, KeyOverlap})
                          (\<lambda>k. k\<lparr>k_state := KeyRetired\<rparr>) (identity_keys d)\<rparr>"

definition quarantine_routes :: "int \<Rightarrow> time \<Rightarrow> db \<Rightarrow> db" where
  "quarantine_routes i until d =
     d\<lparr>route_allocations := update_where (\<lambda>a. a_registration_id a = Some i)
                              (\<lambda>a. a\<lparr>a_state := Quarantined, a_quarantine_until := Some until\<rparr>)
                              (route_allocations d)\<rparr>"

definition Revoke :: "time \<Rightarrow> db \<Rightarrow> string \<Rightarrow> string \<Rightarrow> duration \<Rightarrow> string \<Rightarrow> registry_error + db" where
  "Revoke now d project env quarantine json =
     and_then (registrationByIdentityTx d project env) (\<lambda>registration.
       let i = rg_ID registration in
       Inr (add_audit now ''registration.revoked'' None i json
             (createRouteGenerationTx now
               (quarantine_routes i (now + quarantine)
                 (retire_keys i
                   (retire_certificates CertRevoked i
                     (set_reg_state now i Revoked d)))))))"

definition expire_one :: "time \<Rightarrow> duration \<Rightarrow> db \<Rightarrow> Registration \<Rightarrow> db" where
  "expire_one now quarantine d registration =
     (let i = rg_ID registration in
      add_audit now ''lease.expired'' None i ''{}''
        (retire_keys i
          (retire_certificates CertExpired i
            (quarantine_routes i (now + quarantine)
              (set_reg_state now i LeaseExpired d)))))"

definition purge :: "time \<Rightarrow> db \<Rightarrow> db" where
  "purge now d =
     (let d1 = release_quarantine now d;
          d2 = d1\<lparr>oidc_replays := filter (\<lambda>o'. \<not> o_expires_at o' \<le> now) (oidc_replays d1)\<rparr>
      in d2\<lparr>identity_keys :=
              update_where (\<lambda>k. k_state k = KeyOverlap
                                \<and> (case k_overlap_until k of None \<Rightarrow> False | Some u \<Rightarrow> u \<le> now))
                (\<lambda>k. k\<lparr>k_state := KeyRetired\<rparr>) (identity_keys d2)\<rparr>)"

definition Expire :: "time \<Rightarrow> db \<Rightarrow> duration \<Rightarrow> registry_error + db \<times> Registration list" where
  "Expire now d quarantine =
     and_then (map_result (\<lambda>r. scanRegistration (Some r))
                 (filter (\<lambda>r. in_service r \<and> r_lease_expires_at r \<le> now) (registrations d)))
       (\<lambda>expired.
          let d1 = foldl (expire_one now quarantine) d expired;
              d2 = (if expired = [] then d1 else createRouteGenerationTx now d1)
          in Inr (purge now d2, expired))"

section \<open>Import of static registrations\<close>

definition upsert_static :: "time \<Rightarrow> db \<Rightarrow> StaticRegistration \<Rightarrow> registry_error + db" where
  "upsert_static now d s =
     (let same = (\<lambda>r. r_identity r = (sr_ProjectID s, sr_EnvironmentID s)) in
      set_registrations d
        (if list_ex same (registrations d)
         then update_where (\<lambda>r. same r \<and> r_identity_type r = StaticV2)
                (\<lambda>r. r\<lparr>r_environment_name := sr_EnvironmentName s, r_project_alias := sr_ConnectorID s,
                       r_virtual_prefix := prefix_string (sr_VirtualPrefix s),
                       r_real_prefix := prefix_string (sr_RealPrefix s), r_updated_at := now\<rparr>)
                (registrations d)
         else registrations d @
           [\<lparr>r_id = next_id (map r_id (registrations d)), r_project_id = sr_ProjectID s,
             r_environment_id = sr_EnvironmentID s, r_environment_name = sr_EnvironmentName s,
             r_project_alias = sr_ConnectorID s, r_environment_alias = ''legacy'', r_state = Ready,
             r_identity_type = StaticV2, r_lease_class = ''persistent'',
             r_lease_expires_at = add_years 10 now,
             r_virtual_prefix = prefix_string (sr_VirtualPrefix s),
             r_real_prefix = prefix_string (sr_RealPrefix s), r_created_at = now, r_updated_at = now\<rparr>]))"

definition reserve_static :: "db \<Rightarrow> string \<Rightarrow> int \<Rightarrow> registry_error + db" where
  "reserve_static d p i =
     (if p \<in> a_prefix ` set (route_allocations d)
      then if list_ex (\<lambda>a. a_prefix a = p \<and> (a_registration_id a = None \<or> a_registration_id a = Some i))
                (route_allocations d)
           then Inr (d\<lparr>route_allocations :=
                  update_where (\<lambda>a. a_prefix a = p)
                    (\<lambda>a. a\<lparr>a_state := Allocated, a_registration_id := Some i, a_quarantine_until := None\<rparr>)
                    (route_allocations d)\<rparr>)
           else Inl PrefixTaken
      else Inr (d\<lparr>route_allocations := route_allocations d @
                    [\<lparr>a_prefix = p, a_state = Allocated, a_registration_id = Some i,
                      a_quarantine_until = None\<rparr>]\<rparr>))"

definition import_one :: "time \<Rightarrow> db \<Rightarrow> StaticRegistration \<Rightarrow> registry_error + db" where
  "import_one now d s =
     (if sr_ProjectID s = [] \<or> sr_EnvironmentID s = [] \<or> sr_ConnectorID s = []
         \<or> \<not> prefix_valid (sr_VirtualPrefix s) \<or> \<not> prefix_valid (sr_RealPrefix s)
      then Inl StaticNotValid
      else and_then (upsert_static now d s) (\<lambda>d1.
        case identity_row d1 (sr_ProjectID s) (sr_EnvironmentID s) of
          None \<Rightarrow> Inl ErrNotFound
        | Some r \<Rightarrow> reserve_static d1 (prefix_string (sr_VirtualPrefix s)) (r_id r)))"

fun ImportStatic :: "time \<Rightarrow> db \<Rightarrow> StaticRegistration list \<Rightarrow> registry_error + db" where
  "ImportStatic now d [] = Inr d"
| "ImportStatic now d (s # ss) = and_then (import_one now d s) (\<lambda>d'. ImportStatic now d' ss)"

end
