(* ===== verification/Netip_Text.thy ===== *)
theory Netip_Text
  imports Netip_Codec
begin

text \<open>
  The text form of canonical /16 prefixes, in which the registry stores virtual networks: printing
  and parsing are inverse, so distinct texts are distinct prefixes, and no text holds a comma.
\<close>

definition canonical16 :: "prefix \<Rightarrow> bool" where
  "canonical16 p \<longleftrightarrow> slash16 p \<and> masked p = p"

section \<open>Hexadecimal digits\<close>

lemma hex_digit_16:
  assumes "n < 16"
  shows "hex_val (hex_digit n) = Some n"
    and "hex_digit n \<notin> {CHR ''.'', CHR '':'', CHR ''%'', CHR ''/'', CHR '',''}"
proof -
  have "list_all (\<lambda>n. hex_val (hex_digit n) = Some n
      \<and> hex_digit n \<notin> {CHR ''.'', CHR '':'', CHR ''%'', CHR ''/'', CHR '',''}) [0..<16]"
    by code_simp
  then show "hex_val (hex_digit n) = Some n"
    and "hex_digit n \<notin> {CHR ''.'', CHR '':'', CHR ''%'', CHR ''/'', CHR '',''}"
    using assms by (auto simp: list_all_iff)
qed

lemma hex_string_not_Nil [simp]: "hex_string n \<noteq> []"
  by (subst hex_string.simps) simp

lemma hex_string_chars:
  "c \<in> set (hex_string n) \<Longrightarrow> c \<notin> {CHR ''.'', CHR '':'', CHR ''%'', CHR ''/'', CHR '',''}"
proof (induction n rule: hex_string.induct)
  case (1 n)
  show ?case
  proof (cases "n < 16")
    case True
    with "1.prems" have "c = hex_digit n" by (subst (asm) hex_string.simps) simp
    then show ?thesis using hex_digit_16(2) [OF True] by simp
  next
    case False
    with "1.prems" have "c \<in> set (hex_string (n div 16)) \<or> c = hex_digit (n mod 16)"
      by (subst (asm) hex_string.simps) auto
    then show ?thesis using "1.IH" [OF False] hex_digit_16(2) [of "n mod 16"] by auto
  qed
qed

lemma scan_hex_string:
  "scan_hex acc off (hex_string n @ s) =
     scan_hex (acc * 16 ^ length (hex_string n) + n) (off + length (hex_string n)) s"
proof (induction n arbitrary: s rule: hex_string.induct)
  case (1 n)
  show ?case
  proof (cases "n < 16")
    case True
    then show ?thesis by (subst hex_string.simps, subst (2 3) hex_string.simps) (simp add: hex_digit_16)
  next
    case False
    have n: "hex_string n = hex_string (n div 16) @ [hex_digit (n mod 16)]"
      using False by (subst hex_string.simps) simp
    show ?thesis unfolding n using "1.IH" [OF False]
      by (simp add: hex_digit_16 algebra_simps)
  qed
qed

lemma length_hex_string: "n < 16 ^ Suc k \<Longrightarrow> length (hex_string n) \<le> Suc k"
proof (induction k arbitrary: n)
  case 0 then show ?case by (subst hex_string.simps) simp
next
  case (Suc k)
  from Suc.prems have "n div 16 < 16 ^ Suc k" by (simp add: less_mult_imp_div_less)
  from Suc.IH [OF this] show ?case by (subst hex_string.simps) simp
qed

section \<open>The groups of a /16 base address\<close>

text \<open>\<open>base16 h\<close> is the address whose first group is \<open>h\<close> and whose other groups are zero.\<close>

definition base16 :: "nat \<Rightarrow> 128 word" where
  "base16 h = word_of_nat (h * 2 ^ 112)"

lemma unat_base16: "h < 65536 \<Longrightarrow> unat (base16 h) = h * 2 ^ 112"
  unfolding base16_def by (subst unat_of_nat) (simp only: mod_less len_bit0 len_num1, simp)

lemma groups16_base16: "h < 65536 \<Longrightarrow> groups16 (base16 h) = [h, 0, 0, 0, 0, 0, 0, 0]"
  by (simp add: groups16_def unat_base16 upt_rec)

lemma zero_span_base16: "zero_span [h, 0, 0, 0, 0, 0, 0, 0] = (if h = 0 then (0, 8) else (1, 8))"
  by (simp add: zero_span_def upt_rec numeral_2_eq_2)

lemma string6_base16:
  "h < 65536 \<Longrightarrow> string6 (base16 h) = (if h = 0 then [] else hex_string h) @ ''::''"
  by (simp add: string6_def groups16_base16 zero_span_base16)

lemma unat_drop_bit: "unat (drop_bit n w) = unat (w :: 128 word) div 2 ^ n"
  by (subst unsigned_drop_bit_eq) (simp only: take_bit_word_eq_self drop_bit_eq_div
      unsigned_take_bit_eq order_refl take_bit_nat_eq_self unsigned_less)

lemma is4in6_base16: "h < 65536 \<Longrightarrow> \<not> is4in6 (V6 (base16 h) z)"
proof
  assume h: "h < 65536" and "is4in6 (V6 (base16 h) z)"
  then have "unat (drop_bit 32 (base16 h)) = unat (0xffff :: 128 word)" by simp
  then have "h * 2 ^ 80 = 65535" by (simp add: unat_drop_bit unat_base16 h)
  then have "(h * 2 ^ 80) mod 65536 = 65535" by simp
  then show False by (simp add: mod_mult_right_eq [symmetric])
qed

text \<open>Every canonical /16 is such a base.\<close>

lemma canonical16_base:
  assumes "canonical16 p"
  obtains h where "h < 65536" and "p = Prefix (V6 (base16 h) []) 16"
proof -
  from assms obtain w where p: "p = Prefix (V6 w []) 16" and w: "w AND NOT (mask 112) = w"
    by (cases p; cases "pfx_addr p") (auto simp: canonical16_def slash16_def masked_def)
  let ?h = "unat w div 2 ^ 112"
  have "?h < 65536"
    using unsigned_less [of w, where 'a = nat] by (simp add: less_mult_imp_div_less)
  moreover have "w = push_bit 112 (drop_bit 112 w)"
    by (subst w [symmetric]) (simp add: bit_eq_iff bit_simps, auto)
  then have "w = word_of_nat (unat (drop_bit 112 w)) * 2 ^ 112"
    by (simp only: push_bit_eq_mult word_of_nat_eq_iff unsigned_word_eqI) simp
  then have "w = base16 ?h" by (simp only: unat_drop_bit base16_def of_nat_mult of_nat_power of_nat_numeral)
  ultimately show ?thesis using p that by blast
qed

section \<open>The round trip\<close>

lemma from_be_zeros: "from_be (bs @ replicate n 0) = from_be bs * 256 ^ n"
  by (induction n) (simp_all add: replicate_append_same [symmetric] append_assoc [symmetric] del: append_assoc)

lemma be_word_base16: "h < 65536 \<Longrightarrow> be_word (to_be 2 h @ replicate 14 0) = base16 h"
  by (simp add: be_word_def base16_def from_be_zeros from_be_to_be)

lemma hex_val_colon: "hex_val CHR '':'' = None"
  by code_simp

lemma parse_ipv6_base16:
  assumes "h < 65536" and "h \<noteq> 0"
  shows "parse_ipv6 (hex_string h @ ''::'') = Some (V6 (base16 h) [])"
proof -
  let ?s = "hex_string h @ ''::''"
  have pc: "\<forall>c \<in> set ?s. c \<noteq> CHR ''%''" using hex_string_chars [of _ h] by auto
  have body: "takeWhile (\<lambda>c. c \<noteq> CHR ''%'') ?s = ?s" using pc by (simp only: takeWhile_eq_all_conv)
  have hd: "hd (hex_string h) \<noteq> CHR '':''" using hex_string_chars [of "hd (hex_string h)" h] by simp
  have np: "\<not> has_prefix ?s ''::''"
    using hd by (cases "hex_string h") (auto simp: has_prefix_def)
  have scan: "scan_hex 0 0 ?s = (h, length (hex_string h), ''::'')"
    using scan_hex_string [of 0 0 h "''::''"] by (simp add: hex_val_colon)
  have len: "length (hex_string h) \<le> 4" using assms length_hex_string [of h 3] by simp
  have "ipv6_groups (Suc 7) [] None ?s = Some (to_be 2 h, Some 2, [])"
    using len by (simp only: ipv6_groups.simps scan) simp
  then have groups: "ipv6_groups 8 [] None ?s = Some (to_be 2 h, Some 2, [])"
    by (simp only: numeral_eq_Suc pred_numeral_simps) simp
  show ?thesis
    using groups be_word_base16 [OF assms(1)]
    by (simp add: parse_ipv6_def Let_def body np ipv6_finish_def)
qed

lemma parse_addr_base16:
  assumes "h < 65536"
  shows "parse_addr (string6 (base16 h)) = Some (V6 (base16 h) [])"
proof (cases "h = 0")
  case True
  have "parse_addr ''::'' = Some (V6 0 [])" by code_simp
  moreover have "string6 (base16 h) = ''::''" "base16 h = 0"
    using True string6_base16 [of h] by (simp_all add: base16_def)
  ultimately show ?thesis by simp
next
  case False
  have "filter (\<lambda>c. c \<in> {CHR ''.'', CHR '':'', CHR ''%''}) (hex_string h) = []"
    using hex_string_chars [of _ h] by (auto simp: filter_empty_conv)
  then show ?thesis
    using parse_ipv6_base16 [OF assms False] string6_base16 [OF assms] False by (simp add: parse_addr_def)
qed

lemma dec_string_16: "dec_string 16 = ''16''"
  by code_simp

lemma prefix_string_base16:
  "h < 65536 \<Longrightarrow> prefix_string (Prefix (V6 (base16 h) []) 16) = string6 (base16 h) @ ''/16''"
  using is4in6_base16 [of h "[]"]
  by (simp add: prefix_string_def prefix_valid_def zone_suffix_def dec_string_16)

lemma parse_prefix_string [codec_simps]:
  assumes "canonical16 p"
  shows "parse_prefix (prefix_string p) = Some p"
proof -
  obtain h where h: "h < 65536" and p: "p = Prefix (V6 (base16 h) []) 16"
    using assms by (rule canonical16_base)
  have cut: "cut_last CHR ''/'' (string6 (base16 h) @ ''/16'') = Some (string6 (base16 h), ''16'')"
    using cut_last_append [of "CHR ''/''" "''16''" "string6 (base16 h)"] by simp
  have d: "is_digit CHR ''1''" "is_digit CHR ''6''" "dec_val ''16'' = 16" by code_simp+
  show ?thesis
    using h by (simp add: p prefix_string_base16 parse_prefix_def cut parse_addr_base16 d prefix_from_def)
qed

lemma prefix_string_inj:
  "canonical16 p \<Longrightarrow> canonical16 q \<Longrightarrow> prefix_string p = prefix_string q \<longleftrightarrow> p = q"
  by (metis parse_prefix_string option.inject)

lemma prefix_string_no_comma: "canonical16 p \<Longrightarrow> CHR '','' \<notin> set (prefix_string p)"
  by (erule canonical16_base) (auto simp: prefix_string_base16 string6_base16 dest: hex_string_chars)

text \<open>Two different canonical /16 prefixes have no address in common.\<close>

lemma canonical16_disjoint:
  assumes "canonical16 p" and "canonical16 q" and "contains p a" and "contains q a"
  shows "p = q"
proof -
  from assms(1,2) obtain v w where p: "p = Prefix (V6 v []) 16" "v AND NOT (mask 112) = v"
    and q: "q = Prefix (V6 w []) 16" "w AND NOT (mask 112) = w"
    by (cases p; cases q; cases "pfx_addr p"; cases "pfx_addr q")
      (auto simp: canonical16_def slash16_def masked_def)
  from assms(3,4) have "drop_bit 112 v = drop_bit 112 w"
    by (auto simp: p q contains16_iff simp flip: take2_eq_iff)
  with p(2) q(2) have "v = w" by (metis high_bits_eq_iff)
  then show ?thesis by (simp add: p q)
qed

section \<open>Bytes of a base address\<close>

lemma to_be_shift: "to_be n (x * 256 ^ n) = replicate n 0"
proof (induction n arbitrary: x)
  case (Suc n)
  have "x * 256 ^ Suc n div 256 = x * 256 ^ n" "x * 256 ^ Suc n mod 256 = 0" by simp_all
  with Suc.IH show ?case by (simp add: replicate_append_same)
qed simp

lemma as16_base16:
  assumes "h < 65536"
  shows "as16 (V6 (base16 h) z) = to_be 2 h @ replicate 14 0"
proof -
  have "to_be 16 (h * 256 ^ 14) = to_be 2 (h * 256 ^ 14 div 256 ^ 14) @ to_be 14 (h * 256 ^ 14)"
    using to_be_append [of 2 14 "h * 256 ^ 14"] by simp
  then show ?thesis using assms to_be_shift [of 14 h] by (simp add: be_bytes_def unat_base16)
qed

lemma base16_masked: "base16 h AND NOT (mask 112) = base16 h"
proof -
  have "base16 h = push_bit 112 (word_of_nat h)" by (simp add: base16_def push_bit_eq_mult)
  then show ?thesis by (auto simp: bit_eq_iff bit_simps)
qed

lemma canonical16_base16 [simp]: "canonical16 (Prefix (V6 (base16 h) []) 16)"
  by (simp add: canonical16_def slash16_def masked_def base16_masked)

end
