(* ===== verification/Registry_Inv.thy ===== *)
theory Registry_Inv
  imports Registry Netip_Text
begin

text \<open>
  The consistency of the registry: what the tables satisfy beyond the declared constraints, and that
  every operation keeps it. Only registrations in service have usable identity keys or an active
  certificate, each at most one active certificate and one open request; a prefix row is free exactly
  when it belongs to nobody; every reference names an existing registration.
\<close>

section \<open>The invariant\<close>

definition reg_ids :: "db \<Rightarrow> int set" where
  "reg_ids d = r_id ` set (registrations d)"

definition serving :: "db \<Rightarrow> int set" where
  "serving d = r_id ` {r \<in> set (registrations d). in_service r}"

definition text16 :: "string \<Rightarrow> bool" where
  "text16 s \<longleftrightarrow> (\<exists>p. canonical16 p \<and> s = prefix_string p)"

definition regs_ok :: "db \<Rightarrow> bool" where
  "regs_ok d \<longleftrightarrow> unique_regs (registrations d) \<and> distinct (map r_id (registrations d))
     \<and> (\<forall>r \<in> set (registrations d). text16 (r_virtual_prefix r))"

definition is_open :: "PendingRequest \<Rightarrow> bool" where
  "is_open p \<longleftrightarrow> pr_State p = Pending"

abbreviation pr_identity :: "PendingRequest \<Rightarrow> string \<times> string" where
  "pr_identity p \<equiv> (pr_ProjectID p, pr_EnvironmentID p)"

definition requests_ok :: "db \<Rightarrow> bool" where
  "requests_ok d \<longleftrightarrow> distinct (map pr_ID (pending_requests d))
     \<and> distinct (map pr_identity (filter is_open (pending_requests d)))"

definition keys_ok :: "db \<Rightarrow> bool" where
  "keys_ok d \<longleftrightarrow> distinct (map (\<lambda>k. (k_registration_id k, k_key_id k)) (identity_keys d))
     \<and> (\<forall>k \<in> set (identity_keys d). k_registration_id k \<in> reg_ids d
          \<and> (k_state k \<noteq> KeyRetired \<longrightarrow> k_registration_id k \<in> serving d))"

definition cert_live :: "cert_row \<Rightarrow> bool" where
  "cert_live c \<longleftrightarrow> c_state c = CertActive"

definition certs_ok :: "db \<Rightarrow> bool" where
  "certs_ok d \<longleftrightarrow> distinct (map c_id (certificates d))
     \<and> distinct (map c_registration_id (filter cert_live (certificates d)))
     \<and> (\<forall>c \<in> set (certificates d). c_registration_id c \<in> reg_ids d
          \<and> (cert_live c \<longrightarrow> c_registration_id c \<in> serving d))"

definition alloc_ok :: "int set \<Rightarrow> alloc_row \<Rightarrow> bool" where
  "alloc_ok ids a \<longleftrightarrow> text16 (a_prefix a)
     \<and> (a_state a = Free \<longleftrightarrow> a_registration_id a = None)
     \<and> (a_state a = Quarantined \<longleftrightarrow> a_quarantine_until a \<noteq> None)
     \<and> (\<forall>i. a_registration_id a = Some i \<longrightarrow> i \<in> ids)"

definition allocs_ok :: "db \<Rightarrow> bool" where
  "allocs_ok d \<longleftrightarrow> distinct (map a_prefix (route_allocations d))
     \<and> (\<forall>a \<in> set (route_allocations d). alloc_ok (reg_ids d) a)"

definition history_ok :: "db \<Rightarrow> bool" where
  "history_ok d \<longleftrightarrow> (\<forall>l \<in> set (leases d). l_registration_id l \<in> reg_ids d)
     \<and> (\<forall>e \<in> set (audit_events d). \<forall>i. e_registration_id e = Some i \<longrightarrow> i \<in> reg_ids d)
     \<and> distinct (map g_id (route_generations d))
     \<and> distinct (map (\<lambda>x. (o_provider_id x, o_jti_hash x)) (oidc_replays d))"

definition registry_inv :: "db \<Rightarrow> bool" where
  "registry_inv d \<longleftrightarrow>
     regs_ok d \<and> requests_ok d \<and> keys_ok d \<and> certs_ok d \<and> allocs_ok d \<and> history_ok d"

lemmas inv_defs = regs_ok_def requests_ok_def keys_ok_def certs_ok_def allocs_ok_def history_ok_def

section \<open>SQL lemmas\<close>

lemma set_update_where [simp]:
  "set (update_where P f rows) = (\<lambda>r. if P r then f r else r) ` set rows"
  by (auto simp: update_where_def)

lemma map_update_where: "(\<And>r. g (f r) = g r) \<Longrightarrow> map g (update_where P f rows) = map g rows"
  by (simp add: update_where_def)

lemma in_update_where:
  "x \<in> set (update_where P f rows) \<longleftrightarrow> (\<exists>r \<in> set rows. x = (if P r then f r else r))"
  by (auto simp: update_where_def)

lemma image_update_where: "(\<And>r. g (f r) = g r) \<Longrightarrow> g ` set (update_where P f rows) = g ` set rows"
  by (metis map_update_where set_map)

lemma filter_update_where:
  "(\<And>r. P r \<Longrightarrow> \<not> Q (f r)) \<Longrightarrow> filter Q (update_where P f rows) = filter (\<lambda>r. Q r \<and> \<not> P r) rows"
  by (induction rows) (auto simp: update_where_def)

lemma distinct_map_sub: "distinct (map f (filter P xs)) \<Longrightarrow> distinct (map f (filter (\<lambda>x. P x \<and> Q x) xs))"
  by (metis distinct_map_filter filter_filter)

lemma next_id_gt: "i \<in> set ids \<Longrightarrow> i < next_id ids"
proof -
  have "i \<in> set ids \<Longrightarrow> i \<le> foldr max ids 0" by (induction ids) auto
  then show "i \<in> set ids \<Longrightarrow> i < next_id ids" by (simp add: next_id_def)
qed

lemma next_id_fresh: "next_id ids \<notin> set ids"
  using next_id_gt by blast

lemma next_id_reg: "next_id (map r_id (registrations d)) \<notin> reg_ids d"
  using next_id_fresh [of "map r_id (registrations d)"] by (simp add: reg_ids_def)

lemma identity_row_in:
  "identity_row d p e = Some r \<Longrightarrow> r \<in> set (registrations d) \<and> r_identity r = (p, e)"
  unfolding identity_row_def by (drule find_Some_in) simp

lemma scan_Inr:
  "scanRegistration row = Inr g \<Longrightarrow>
     \<exists>r. row = Some r \<and> rg_ID g = r_id r \<and> rg_ProjectID g = r_project_id r
       \<and> rg_EnvironmentID g = r_environment_id r \<and> rg_State g = r_state r
       \<and> rg_LeaseExpiresAt g = r_lease_expires_at r
       \<and> parse_prefix (r_virtual_prefix r) = Some (rg_VirtualPrefix g)"
  by (auto simp: scanRegistration_def split: option.splits)

lemma by_identity_in:
  assumes "registrationByIdentityTx d p e = Inr g"
  obtains r where "r \<in> set (registrations d)" "r_identity r = (p, e)" "rg_ID g = r_id r"
    "rg_State g = r_state r" "rg_LeaseExpiresAt g = r_lease_expires_at r"
  using assms scan_Inr identity_row_in unfolding registrationByIdentityTx_def by metis

lemma set_registrations_Inr:
  "set_registrations d rows = Inr d' \<longleftrightarrow> unique_regs rows \<and> d' = d\<lparr>registrations := rows\<rparr>"
  by (auto simp: set_registrations_def)

text \<open>Rows are found by their id.\<close>

lemma reg_unique:
  "distinct (map r_id rows) \<Longrightarrow> r \<in> set rows \<Longrightarrow> s \<in> set rows \<Longrightarrow> r_id r = r_id s \<Longrightarrow> r = s"
  by (simp add: distinct_map inj_on_def)

section \<open>Frames\<close>

text \<open>
  A statement that writes one table keeps the parts of the invariant about the others, as long as
  the registrations it reads keep their identifiers and states.
\<close>

lemma reg_frame:
  "registrations d' = registrations d \<Longrightarrow> reg_ids d' = reg_ids d"
  "registrations d' = registrations d \<Longrightarrow> serving d' = serving d"
  by (simp_all add: reg_ids_def serving_def)

lemma serving_sub: "serving d \<subseteq> reg_ids d"
  by (auto simp: serving_def reg_ids_def)

lemma inv_empty: "registry_inv empty_db"
  by (simp add: registry_inv_def inv_defs empty_db_def unique_regs_def)

lemma inv_requests:
  "registry_inv d \<Longrightarrow> requests_ok (d\<lparr>pending_requests := rows\<rparr>) \<Longrightarrow>
     registry_inv (d\<lparr>pending_requests := rows\<rparr>)"
  by (auto simp: registry_inv_def inv_defs reg_ids_def serving_def)

lemma inv_keys:
  "registry_inv d \<Longrightarrow> keys_ok (d\<lparr>identity_keys := rows\<rparr>) \<Longrightarrow> registry_inv (d\<lparr>identity_keys := rows\<rparr>)"
  by (auto simp: registry_inv_def inv_defs reg_ids_def serving_def)

lemma inv_certs:
  "registry_inv d \<Longrightarrow> certs_ok (d\<lparr>certificates := rows\<rparr>) \<Longrightarrow> registry_inv (d\<lparr>certificates := rows\<rparr>)"
  by (auto simp: registry_inv_def inv_defs reg_ids_def serving_def)

lemma inv_allocs:
  "registry_inv d \<Longrightarrow> allocs_ok (d\<lparr>route_allocations := rows\<rparr>) \<Longrightarrow>
     registry_inv (d\<lparr>route_allocations := rows\<rparr>)"
  by (auto simp: registry_inv_def inv_defs reg_ids_def serving_def)

lemma inv_generations:
  "registry_inv d \<Longrightarrow> distinct (map g_id rows) \<Longrightarrow> registry_inv (d\<lparr>route_generations := rows\<rparr>)"
  by (auto simp: registry_inv_def inv_defs reg_ids_def serving_def)

lemma inv_replays:
  "registry_inv d \<Longrightarrow> distinct (map (\<lambda>x. (o_provider_id x, o_jti_hash x)) rows) \<Longrightarrow>
     registry_inv (d\<lparr>oidc_replays := rows\<rparr>)"
  by (auto simp: registry_inv_def inv_defs reg_ids_def serving_def)

lemma inv_lease: "registry_inv d \<Longrightarrow> i \<in> reg_ids d \<Longrightarrow> registry_inv (add_lease now i c x s d)"
  by (auto simp: registry_inv_def inv_defs add_lease_def reg_ids_def serving_def)

lemma inv_audit: "registry_inv d \<Longrightarrow> i \<in> reg_ids d \<Longrightarrow> registry_inv (add_audit now e q i j d)"
  by (auto simp: registry_inv_def inv_defs add_audit_def reg_ids_def serving_def)

text \<open>Replacing the registrations by rows with at least the same ids in service.\<close>

lemma inv_registrations:
  assumes "registry_inv d" and "regs_ok (d\<lparr>registrations := rows\<rparr>)"
    and "serving d \<subseteq> serving (d\<lparr>registrations := rows\<rparr>)"
    and "reg_ids d \<subseteq> reg_ids (d\<lparr>registrations := rows\<rparr>)"
  shows "registry_inv (d\<lparr>registrations := rows\<rparr>)"
proof -
  let ?d = "d\<lparr>registrations := rows\<rparr>"
  note sub = subsetD [OF assms(3)] subsetD [OF assms(4)]
  from assms(1) have "keys_ok d" "certs_ok d" "allocs_ok d" "history_ok d" "requests_ok d"
    by (simp_all add: registry_inv_def)
  then have "keys_ok ?d" "certs_ok ?d" "allocs_ok ?d" "history_ok ?d" "requests_ok ?d"
    unfolding keys_ok_def certs_ok_def allocs_ok_def alloc_ok_def history_ok_def requests_ok_def
    using sub by simp_all
  with assms(2) show ?thesis by (simp add: registry_inv_def)
qed

section \<open>Requests\<close>

lemma requests_append:
  assumes "requests_ok d" and "pr_ID q \<notin> pr_ID ` set (pending_requests d)"
    and "\<And>p. p \<in> set (pending_requests d) \<Longrightarrow> is_open p \<Longrightarrow> pr_identity p \<noteq> pr_identity q"
  shows "requests_ok (d\<lparr>pending_requests := pending_requests d @ [q]\<rparr>)"
  using assms by (fastforce simp: requests_ok_def)

lemma filter_close:
  "s \<noteq> Pending \<Longrightarrow>
     filter is_open (update_where (\<lambda>p. pr_ID p = i) (\<lambda>p. p\<lparr>pr_State := s\<rparr>) rows) =
     filter (\<lambda>p. is_open p \<and> pr_ID p \<noteq> i) rows"
  by (subst filter_update_where) (simp_all add: is_open_def)

lemma requests_close:
  assumes "requests_ok d" and "s \<noteq> Pending"
  shows "requests_ok (d\<lparr>pending_requests :=
    update_where (\<lambda>p. pr_ID p = i) (\<lambda>p. p\<lparr>pr_State := s\<rparr>) (pending_requests d)\<rparr>)"
  using assms by (simp add: requests_ok_def map_update_where filter_close distinct_map_sub)

lemma inv_expire_request: "registry_inv d \<Longrightarrow> registry_inv (expire_request i d)"
  unfolding expire_request_def
  by (rule inv_requests) (auto simp: registry_inv_def intro: requests_close)

lemma inv_approve_request: "registry_inv d \<Longrightarrow> registry_inv (approve_request i d)"
  unfolding approve_request_def
  by (rule inv_requests) (auto simp: registry_inv_def intro: requests_close)

lemma pending_of_open:
  "p \<in> set (pending_of d pj e) \<longleftrightarrow> p \<in> set (pending_requests d) \<and> is_open p \<and> pr_identity p = (pj, e)"
  by (auto simp: pending_of_def is_open_def)

lemma newest_None:
  assumes "newest_pending d pj e = None"
  shows "pending_of d pj e = []"
proof -
  have "sort_key (\<lambda>p. - pr_CreatedAt p) (pending_of d pj e) = []"
    using assms by (auto simp: newest_pending_def split: list.splits)
  then show ?thesis by (metis length_0_conv length_sort)
qed

lemma newest_in: "newest_pending d pj e = Some x \<Longrightarrow> x \<in> set (pending_of d pj e)"
  unfolding newest_pending_def
  by (cases "sort_key (\<lambda>p. - pr_CreatedAt p) (pending_of d pj e)")
    (auto dest: arg_cong [of _ _ set])

text \<open>An identity has at most one open request, so the newest one is the only one.\<close>

lemma newest_only:
  assumes "requests_ok d" and "newest_pending d pj e = Some x"
    and "p \<in> set (pending_requests d)" "is_open p" "pr_identity p = (pj, e)"
  shows "p = x"
proof -
  have x: "x \<in> set (filter is_open (pending_requests d))" "pr_identity x = (pj, e)"
    using newest_in [OF assms(2)] by (simp_all add: pending_of_open)
  from assms(1) have "inj_on pr_identity (set (filter is_open (pending_requests d)))"
    by (simp add: requests_ok_def distinct_map)
  then show ?thesis using x assms(3-5) unfolding inj_on_def by simp
qed

lemma insert_pending_Inr:
  "insert_pending now d q = Inr (d', x, b) \<Longrightarrow>
     pr_ID q \<notin> pr_ID ` set (pending_requests d) \<and> x = q \<and> b
     \<and> d' = d\<lparr>pending_requests := pending_requests d @ [q]\<rparr>
     \<and> unexpired_pending now (\<lambda>p. pr_ProjectID p = pr_ProjectID q) (pending_requests d) < 10
     \<and> unexpired_pending now (\<lambda>p. pr_SourceAddress p = pr_SourceAddress q) (pending_requests d) < 30"
  by (auto simp: insert_pending_def Let_def not_le split: if_splits)

lemma inv_insert_pending:
  assumes "registry_inv d" and "insert_pending now d q = Inr (d', x, b)"
    and "\<And>p. p \<in> set (pending_requests d) \<Longrightarrow> is_open p \<Longrightarrow> pr_identity p \<noteq> pr_identity q"
  shows "registry_inv d'"
proof -
  note ins = insert_pending_Inr [OF assms(2)]
  have "requests_ok (d\<lparr>pending_requests := pending_requests d @ [q]\<rparr>)"
    by (rule requests_append) (use ins assms in \<open>auto simp: registry_inv_def\<close>)
  then show ?thesis using ins inv_requests [OF assms(1)] by blast
qed

text \<open>The three ways in which \<^verbatim>\<open>CreatePending\<close> succeeds.\<close>

lemma CreatePending_cases:
  assumes "CreatePending sha now d request = Inr (d', x, created)"
  obtains (fresh) q where "q = fill_request sha now request" "insert_pending now d q = Inr (d', x, created)"
      "newest_pending d (pr_ProjectID q) (pr_EnvironmentID q) = None"
  | (reused) q where "q = fill_request sha now request" "d' = d" "\<not> created"
      "newest_pending d (pr_ProjectID q) (pr_EnvironmentID q) = Some x" "pr_ExpiresAt x > now"
      "pr_IdentityKeyID x = pr_IdentityKeyID q"
  | (replaced) q old where "q = fill_request sha now request"
      "newest_pending d (pr_ProjectID q) (pr_EnvironmentID q) = Some old" "pr_ExpiresAt old \<le> now"
      "insert_pending now (expire_request (pr_ID old) d) q = Inr (d', x, created)"
  using assms unfolding CreatePending_def Let_def
  by (auto split: if_splits option.splits)

lemma inv_CreatePending:
  assumes "registry_inv d" and "CreatePending sha now d request = Inr (d', x, created)"
  shows "registry_inv d'"
  using assms(2)
proof (cases rule: CreatePending_cases)
  case (fresh q)
  have "pr_identity p \<noteq> pr_identity q" if "p \<in> set (pending_requests d)" "is_open p" for p
    using that newest_None [OF fresh(3)] pending_of_open [of p d "pr_ProjectID q" "pr_EnvironmentID q"] by auto
  with assms(1) fresh(2) show ?thesis by (rule inv_insert_pending)
next
  case (replaced q old)
  have r: "requests_ok d" using assms(1) by (simp add: registry_inv_def)
  have "pr_identity p \<noteq> pr_identity q"
    if p: "p \<in> set (pending_requests (expire_request (pr_ID old) d))" "is_open p" for p
  proof -
    from p have "p \<in> set (filter (\<lambda>p. is_open p \<and> pr_ID p \<noteq> pr_ID old) (pending_requests d))"
      by (subst filter_close [where s = RequestExpired, symmetric]) (auto simp: expire_request_def)
    then show ?thesis using newest_only [OF r replaced(2)] by auto
  qed
  with inv_expire_request [OF assms(1)] replaced(4) show ?thesis by (rule inv_insert_pending)
qed (use assms in simp)

section \<open>Allocations and generations\<close>

lemma inv_createRouteGenerationTx: "registry_inv d \<Longrightarrow> registry_inv (createRouteGenerationTx now d)"
proof -
  assume i: "registry_inv d"
  let ?gens = "update_where (\<lambda>g. g_state g = GenPending) (\<lambda>g. g\<lparr>g_state := GenSuperseded\<rparr>) (route_generations d)"
  have "distinct (map g_id ?gens)"
    using i by (simp add: map_update_where registry_inv_def history_ok_def)
  with next_id_fresh [of "map g_id ?gens"] show ?thesis
    unfolding createRouteGenerationTx_def Let_def by (intro inv_generations [OF i]) simp
qed

lemma alloc_ok_mono: "alloc_ok A a \<Longrightarrow> A \<subseteq> B \<Longrightarrow> alloc_ok B a"
  by (auto simp: alloc_ok_def)

lemma allocs_update:
  assumes "allocs_ok d" and "\<And>a. a_prefix (f a) = a_prefix a"
    and "\<And>a. a \<in> set (route_allocations d) \<Longrightarrow> P a \<Longrightarrow> alloc_ok (reg_ids d) (f a)"
  shows "allocs_ok (d\<lparr>route_allocations := update_where P f (route_allocations d)\<rparr>)"
  using assms by (auto simp: allocs_ok_def map_update_where reg_ids_def)

lemma inv_release_quarantine: "registry_inv d \<Longrightarrow> registry_inv (release_quarantine now d)"
  unfolding release_quarantine_def
  by (rule inv_allocs, assumption, rule allocs_update)
    (auto simp: registry_inv_def allocs_ok_def alloc_ok_def)

lemma inv_quarantine_routes: "registry_inv d \<Longrightarrow> registry_inv (quarantine_routes i until d)"
  unfolding quarantine_routes_def
  by (rule inv_allocs, assumption, rule allocs_update)
    (auto simp: registry_inv_def allocs_ok_def alloc_ok_def)

text \<open>What \<^verbatim>\<open>allocatePrefixTx\<close> hands out: a free prefix, whose row it marks allocated.\<close>

lemma allocatePrefixTx_Inr:
  assumes "allocs_ok d" and "allocatePrefixTx now d = Inr (d', p)"
  obtains a where "a \<in> set (route_allocations (release_quarantine now d))" "a_state a = Free"
    "a_prefix a = prefix_string p" "canonical16 p"
    "d' = (release_quarantine now d)\<lparr>route_allocations :=
       update_where (\<lambda>a. a_prefix a = prefix_string p \<and> a_state a = Free) (\<lambda>a. a\<lparr>a_state := Allocated\<rparr>)
         (route_allocations (release_quarantine now d))\<rparr>"
proof -
  let ?r = "release_quarantine now d"
  let ?free = "map a_prefix (filter (\<lambda>a. a_state a = Free) (route_allocations ?r))"
  from assms(2) obtain raw rest where raw: "sort ?free = raw # rest" and p: "parse_prefix raw = Some p"
    and d': "d' = ?r\<lparr>route_allocations := update_where (\<lambda>a. a_prefix a = raw \<and> a_state a = Free)
       (\<lambda>a. a\<lparr>a_state := Allocated\<rparr>) (route_allocations ?r)\<rparr>"
    by (auto simp: allocatePrefixTx_def Let_def split: list.splits if_splits option.splits)
  have "raw \<in> set ?free" using raw by (metis list.set_intros(1) set_sort)
  then obtain a where a: "a \<in> set (route_allocations ?r)" "a_state a = Free" "a_prefix a = raw" by auto
  from assms(1) a(1,3) have "text16 raw"
    by (auto simp: allocs_ok_def alloc_ok_def release_quarantine_def split: if_splits)
  then obtain q where "canonical16 q" "raw = prefix_string q" by (auto simp: text16_def)
  with p have "canonical16 p" "raw = prefix_string p" by (simp_all add: parse_prefix_string)
  then show thesis using that [OF a(1,2)] a(3) d' by simp
qed

lemma regs_append:
  assumes "regs_ok d" and "r_id row \<notin> reg_ids d" and "text16 (r_virtual_prefix row)"
    and "unique_regs (registrations d @ [row])"
  shows "regs_ok (d\<lparr>registrations := registrations d @ [row]\<rparr>)"
  using assms by (auto simp: regs_ok_def reg_ids_def)

lemma inv_append_registration:
  assumes "registry_inv d" and "r_id row \<notin> reg_ids d" and "text16 (r_virtual_prefix row)"
    and "unique_regs (registrations d @ [row])"
  shows "registry_inv (d\<lparr>registrations := registrations d @ [row]\<rparr>)"
  using assms
  by (intro inv_registrations regs_append) (auto simp: registry_inv_def serving_def reg_ids_def)

lemma alloc_prefix_unique:
  assumes "allocs_ok d" and "a \<in> set (route_allocations d)" "b \<in> set (route_allocations d)"
    and "a_prefix a = a_prefix b"
  shows "a = b"
  using assms by (simp add: allocs_ok_def distinct_map inj_on_def)

lemma inv_create_registration:
  assumes inv: "registry_inv d" and "create_registration now d q ap = Inr (d', i)"
  shows "registry_inv d' \<and> i \<in> reg_ids d'"
proof -
  let ?r = "release_quarantine now d"
  from assms(2) obtain d1 p d2 g where al: "allocatePrefixTx now d = Inr (d1, p)"
    and d2': "set_registrations d1 (registrations d1 @
        [new_registration now q ap p (next_id (map r_id (registrations d1)))]) = Inr d2"
    and d'': "d' = assign_route p (next_id (map r_id (registrations d1))) d2"
    and i': "registrationByIDTx d' (next_id (map r_id (registrations d1))) = Inr g" "i = rg_ID g"
    unfolding create_registration_def Let_def by (fastforce simp: and_then_Inr_iff)
  define row where "row = new_registration now q ap p (next_id (map r_id (registrations d1)))"
  have row: "r_id row = next_id (map r_id (registrations d1))" "r_virtual_prefix row = prefix_string p"
    by (simp_all add: row_def new_registration_def)
  note d2 = d2' [folded row_def] and d' = d'' [folded row(1)] and i = i' [folded row(1)]
  from inv have "allocs_ok d" by (simp add: registry_inv_def)
  from this al obtain a where a: "a \<in> set (route_allocations ?r)" "a_state a = Free"
    "a_prefix a = prefix_string p" "canonical16 p"
    and d1: "d1 = ?r\<lparr>route_allocations := update_where (\<lambda>a. a_prefix a = prefix_string p \<and> a_state a = Free)
       (\<lambda>a. a\<lparr>a_state := Allocated\<rparr>) (route_allocations ?r)\<rparr>"
    by (rule allocatePrefixTx_Inr)
  have r: "registry_inv ?r" using inv by (rule inv_release_quarantine)
  have regs1: "registrations d1 = registrations ?r" by (simp add: d1)
  define e where "e = ?r\<lparr>registrations := registrations ?r @ [row]\<rparr>"
  have e: "registry_inv e" unfolding e_def
  proof (rule inv_append_registration [OF r])
    show "r_id row \<notin> reg_ids ?r" using row(1) next_id_reg [of ?r] by (simp add: regs1)
    show "text16 (r_virtual_prefix row)" using row(2) a(4) by (auto simp: text16_def)
    show "unique_regs (registrations ?r @ [row])"
      using d2 by (simp add: set_registrations_Inr regs1)
  qed
  have mem: "r_id row \<in> reg_ids e" by (simp add: e_def reg_ids_def)
  have all: "b = a" if "b \<in> set (route_allocations ?r)" "a_prefix b = prefix_string p" for b
    using that a r by (intro alloc_prefix_unique [of ?r]) (auto simp: registry_inv_def)
  let ?f = "\<lambda>x. x\<lparr>a_state := Allocated, a_registration_id := Some (r_id row)\<rparr>"
  have "d' = e\<lparr>route_allocations := update_where (\<lambda>x. a_prefix x = prefix_string p) ?f (route_allocations e)\<rparr>"
  proof -
    have "update_where (\<lambda>x. a_prefix x = prefix_string p) (\<lambda>x. x\<lparr>a_registration_id := Some (r_id row)\<rparr>)
        (route_allocations d1) =
      update_where (\<lambda>x. a_prefix x = prefix_string p) ?f (route_allocations ?r)"
      using all a(2) by (auto simp: d1 update_where_def)
    moreover have "d2 = d1\<lparr>registrations := registrations ?r @ [row]\<rparr>"
      using d2 by (simp add: set_registrations_Inr regs1)
    ultimately show ?thesis by (simp add: d' assign_route_def e_def d1)
  qed
  moreover have "registry_inv \<dots>"
    using e all a(2) mem
    by (intro inv_allocs allocs_update)
      (auto simp: registry_inv_def allocs_ok_def alloc_ok_def e_def)
  moreover have "i = r_id row"
    using i scan_Inr [of "List.find (\<lambda>r. r_id r = r_id row) (registrations d')" g]
    by (auto simp: registrationByIDTx_def dest: find_Some_in)
  ultimately show ?thesis using mem by (simp add: e_def reg_ids_def)
qed

section \<open>Updates of registrations\<close>

lemma inv_update_registrations:
  assumes inv: "registry_inv d" and id: "\<And>r. r_id (f r) = r_id r"
    and vp: "\<And>r. P r \<Longrightarrow> text16 (r_virtual_prefix r) \<Longrightarrow> text16 (r_virtual_prefix (f r))"
    and keep: "\<And>r. P r \<Longrightarrow> in_service r \<Longrightarrow> in_service (f r)"
    and uniq: "unique_regs (update_where P f (registrations d))"
  shows "registry_inv (d\<lparr>registrations := update_where P f (registrations d)\<rparr>)"
proof (rule inv_registrations [OF inv])
  show "regs_ok (d\<lparr>registrations := update_where P f (registrations d)\<rparr>)"
    using inv uniq by (auto simp: registry_inv_def regs_ok_def map_update_where id vp)
  show "reg_ids d \<subseteq> reg_ids (d\<lparr>registrations := update_where P f (registrations d)\<rparr>)"
    using map_update_where [of r_id f P "registrations d", OF id]
    by (simp add: reg_ids_def del: set_update_where flip: set_map)
  show "serving d \<subseteq> serving (d\<lparr>registrations := update_where P f (registrations d)\<rparr>)"
  proof
    fix i assume "i \<in> serving d"
    then obtain r where r: "r \<in> set (registrations d)" "in_service r" "r_id r = i" by (auto simp: serving_def)
    then have "in_service (if P r then f r else r)" "r_id (if P r then f r else r) = i"
      by (auto simp: id keep)
    moreover have "(if P r then f r else r) \<in> set (update_where P f (registrations d))"
      unfolding set_update_where using r(1) by (rule imageI)
    ultimately show "i \<in> serving (d\<lparr>registrations := update_where P f (registrations d)\<rparr>)"
      unfolding serving_def by (intro image_eqI [where x = "if P r then f r else r"]) simp_all
  qed
qed

lemma unique_update:
  assumes "unique_regs rows" and "\<And>r. r_virtual_prefix (f r) = r_virtual_prefix r"
    and "\<And>r. r_identity (f r) = r_identity r" and "\<And>r. r_alias (f r) = r_alias r"
  shows "unique_regs (update_where P f rows)"
  using assms by (simp add: unique_regs_def map_update_where)

lemma inv_unique: "registry_inv d \<Longrightarrow> unique_regs (registrations d)"
  by (simp add: registry_inv_def regs_ok_def)

section \<open>Approval\<close>

lemma find_or_create_inv:
  assumes "registry_inv d" and "find_or_create now d q a = Inr (d', i, created)"
  shows "registry_inv d' \<and> i \<in> reg_ids d'"
proof -
  consider g where "registrationByIdentityTx d (pr_ProjectID q) (pr_EnvironmentID q) = Inr g" "d' = d" "i = rg_ID g"
    | "create_registration now d q a = Inr (d', i)"
    using assms(2)
    by (auto simp: find_or_create_def and_then_Inr_iff split: sum.splits registry_error.splits)
  then show ?thesis
  proof cases
    case 1
    from 1(1) obtain r where "r \<in> set (registrations d)" "rg_ID g = r_id r" by (rule by_identity_in)
    with 1 assms(1) show ?thesis by (auto simp: reg_ids_def)
  next
    case 2 with assms(1) show ?thesis by (rule inv_create_registration)
  qed
qed

lemma activate_registration_inv:
  assumes "registry_inv d" and "i \<in> reg_ids d" and "activate_registration now d i q a = Inr d'"
  shows "registry_inv d' \<and> i \<in> serving d'"
proof -
  let ?f = "\<lambda>r. r\<lparr>r_environment_name := pr_EnvironmentName q, r_project_alias := pr_ProjectAlias q,
                 r_environment_alias := pr_EnvironmentAlias q, r_state := Approved,
                 r_identity_type := DynamicV3, r_lease_class := ap_LeaseClass a,
                 r_lease_expires_at := now + ap_LeaseDuration a,
                 r_real_prefix := prefix_string (ap_RealPrefix a), r_updated_at := now\<rparr>"
  from assms(3) have u: "unique_regs (update_where (\<lambda>r. r_id r = i) ?f (registrations d))"
    and d': "d' = d\<lparr>registrations := update_where (\<lambda>r. r_id r = i) ?f (registrations d)\<rparr>"
    by (simp_all add: activate_registration_def set_registrations_Inr)
  have "registry_inv d'" unfolding d'
    by (rule inv_update_registrations [OF assms(1) _ _ _ u]) (simp_all add: in_service_def)
  moreover from assms(2) obtain r where "r \<in> set (registrations d)" "r_id r = i" by (auto simp: reg_ids_def)
  then have "?f r \<in> set (registrations d')" "in_service (?f r)" "r_id (?f r) = i"
    by (auto simp: d' in_service_def)
  then have "i \<in> serving d'" unfolding serving_def by blast
  ultimately show ?thesis by simp
qed

lemma inv_activate_key:
  assumes "registry_inv d" and "i \<in> serving d"
  shows "registry_inv (activate_key now d i q)"
  unfolding activate_key_def Let_def
proof (rule inv_keys [OF assms(1)])
  have k: "keys_ok d" and i: "i \<in> reg_ids d"
    using assms serving_sub by (auto simp: registry_inv_def)
  then show "keys_ok (d\<lparr>identity_keys :=
      (if list_ex (\<lambda>k. k_registration_id k = i \<and> k_key_id k = pr_IdentityKeyID q) (identity_keys d)
       then update_where (\<lambda>k. k_registration_id k = i \<and> k_key_id k = pr_IdentityKeyID q)
              (\<lambda>k. k\<lparr>k_state := KeyActive\<rparr>) (identity_keys d)
       else identity_keys d @
         [\<lparr>k_registration_id = i, k_key_id = pr_IdentityKeyID q, k_public_key = pr_IdentityKey q,
           k_state = KeyActive, k_created_at = now, k_rotate_after = add_years 1 now,
           k_overlap_until = None\<rparr>])\<rparr>)"
    using assms(2)
    by (auto simp: keys_ok_def map_update_where list_ex_iff reg_ids_def serving_def)
qed

lemma filter_retire:
  "s \<noteq> CertActive \<Longrightarrow>
     filter cert_live (certificates (retire_certificates s i d)) =
     filter (\<lambda>c. cert_live c \<and> c_registration_id c \<noteq> i) (certificates d)"
  unfolding retire_certificates_def
  by (simp, subst filter_update_where) (auto simp: cert_live_def intro: filter_cong)

lemma retire_certificates_ids: "map c_id (certificates (retire_certificates s i d)) = map c_id (certificates d)"
  by (simp add: retire_certificates_def map_update_where)

lemma inv_retire_certificates:
  assumes "registry_inv d" and "s \<noteq> CertActive"
  shows "registry_inv (retire_certificates s i d)"
proof -
  have c: "certs_ok d" using assms(1) by (simp add: registry_inv_def)
  have "\<forall>c \<in> set (certificates (retire_certificates s i d)).
      c_registration_id c \<in> reg_ids d \<and> (cert_live c \<longrightarrow> c_registration_id c \<in> serving d)"
    using c assms(2) by (auto simp: certs_ok_def retire_certificates_def cert_live_def)
  moreover have "registrations (retire_certificates s i d) = registrations d"
    by (simp add: retire_certificates_def)
  ultimately have "certs_ok (retire_certificates s i d)"
    using c filter_retire [OF assms(2), of i d]
    by (simp add: certs_ok_def retire_certificates_ids distinct_map_sub reg_ids_def serving_def)
  then show ?thesis
    using inv_certs [OF assms(1)] by (simp add: retire_certificates_def)
qed

lemma inv_add_certificate:
  assumes "registry_inv d" and "i \<in> serving d" and "cid \<notin> c_id ` set (certificates d)" and "s \<noteq> CertActive"
  shows "registry_inv ((retire_certificates s i d)\<lparr>certificates :=
    certificates (retire_certificates s i d) @ [new_certificate now i key cid pem until]\<rparr>)"
proof -
  let ?r = "retire_certificates s i d"
  have r: "registry_inv ?r" using assms by (intro inv_retire_certificates)
  have i: "i \<in> serving ?r" "i \<in> reg_ids ?r"
    using assms(2) by (auto simp: retire_certificates_def serving_def reg_ids_def)
  have "cid \<notin> c_id ` set (certificates ?r)"
    using assms(3) retire_certificates_ids [of s i d] by (metis set_map)
  moreover have "i \<notin> c_registration_id ` set (filter cert_live (certificates ?r))"
    using filter_retire [OF assms(4)] by auto
  ultimately have "certs_ok (?r\<lparr>certificates := certificates ?r @ [new_certificate now i key cid pem until]\<rparr>)"
    using r i by (auto simp: registry_inv_def certs_ok_def new_certificate_def cert_live_def reg_ids_def serving_def)
  then show ?thesis by (rule inv_certs [OF r])
qed

lemma inv_store_certificate:
  assumes "registry_inv d" and "i \<in> serving d"
  shows "registry_inv (store_certificate now d i q a)"
proof -
  have "c_id ` set (certificates (retire_certificates CertSuperseded i d)) = c_id ` set (certificates d)"
    using retire_certificates_ids [of CertSuperseded i d] by (metis set_map)
  then show ?thesis
    using assms by (auto simp: store_certificate_def Let_def intro: inv_retire_certificates inv_add_certificate)
qed

text \<open>Statements that leave the registrations alone.\<close>

lemma registrations_frame [simp]:
  "registrations (activate_key now d i q) = registrations d"
  "registrations (retire_certificates s i d) = registrations d"
  "registrations (store_certificate now d i q a) = registrations d"
  "registrations (add_lease now i c x src d) = registrations d"
  "registrations (add_audit now e rq i j d) = registrations d"
  "registrations (approve_request rid d) = registrations d"
  "registrations (createRouteGenerationTx now d) = registrations d"
  "registrations (retire_keys i d) = registrations d"
  "registrations (quarantine_routes i until d) = registrations d"
  "registrations (release_quarantine now d) = registrations d"
  by (simp_all add: activate_key_def retire_certificates_def store_certificate_def add_lease_def
      add_audit_def approve_request_def createRouteGenerationTx_def retire_keys_def
      quarantine_routes_def release_quarantine_def Let_def)

lemma inv_finish_approval:
  assumes "registry_inv d" and i: "i \<in> serving d"
  shows "registry_inv (finish_approval now i q a d)"
proof -
  have "registry_inv (store_certificate now (activate_key now d i q) i q a)"
    using assms by (intro inv_store_certificate inv_activate_key) (simp_all add: serving_def)
  moreover have "i \<in> reg_ids d" using i serving_sub by blast
  ultimately show ?thesis
    unfolding finish_approval_def
    by (intro inv_audit inv_createRouteGenerationTx inv_approve_request inv_lease)
      (simp_all add: reg_ids_def)
qed

lemma inv_insert_replay:
  "registry_inv d \<Longrightarrow> insert_replay d p h x = Inr d' \<Longrightarrow> registry_inv d'"
proof -
  assume i: "registry_inv d" and "insert_replay d p h x = Inr d'"
  then have new: "\<not> (\<exists>y \<in> set (oidc_replays d). o_provider_id y = p \<and> o_jti_hash y = h)"
    and d': "d' = d\<lparr>oidc_replays := oidc_replays d @ [\<lparr>o_provider_id = p, o_jti_hash = h, o_expires_at = x\<rparr>]\<rparr>"
    by (auto simp: insert_replay_def list_ex_iff split: if_splits)
  from i have "distinct (map (\<lambda>x. (o_provider_id x, o_jti_hash x)) (oidc_replays d))"
    by (simp add: registry_inv_def history_ok_def)
  then show ?thesis unfolding d' using new by (intro inv_replays [OF i]) auto
qed

text \<open>What a successful approval did.\<close>

lemma Approve_cases:
  assumes "Approve sha now d a = Inr (d', res, created)"
  obtains (again) q where "pendingTx d (ap_RequestID a) = Inr q" "pr_State q = RequestApproved" "d' = d"
      "\<not> created"
  | (approved) q d1 d2 d3 i where "pendingTx d (ap_RequestID a) = Inr q" "pr_State q = Pending"
      "pr_ExpiresAt q > now" "ap_JTI a \<noteq> []" "ap_JTIExpiresAt a > now"
      "insert_replay d (ap_ProviderID a) (jti_hash sha (ap_ProviderID a) (ap_JTI a)) (ap_JTIExpiresAt a) = Inr d1"
      "find_or_create now d1 q a = Inr (d2, i, created)" "activate_registration now d2 i q a = Inr d3"
      "d' = finish_approval now i q a d3"
      "res = Registration_of d' (pr_ProjectID q) (pr_EnvironmentID q)"
proof -
  from assms obtain q where q: "pendingTx d (ap_RequestID a) = Inr q" by (auto simp: Approve_def and_then_Inr_iff)
  show thesis
  proof (cases "pr_State q = RequestApproved")
    case True
    with assms q again show thesis by (auto simp: Approve_def and_then_Inr_iff)
  next
    case False
    from assms q False have g: "pr_State q = Pending" "pr_ExpiresAt q > now" "ap_JTI a \<noteq> []" "ap_JTIExpiresAt a > now"
      by (simp_all add: Approve_def split: if_splits)
    then show thesis
      using assms q False approved [OF q] by (auto simp: Approve_def and_then_Inr_iff Let_def)
  qed
qed

lemma inv_Approve:
  assumes "registry_inv d" and "Approve sha now d a = Inr (d', res, created)"
  shows "registry_inv d'"
  using assms(2)
proof (cases rule: Approve_cases)
  case (approved q d1 d2 d3 i)
  have "registry_inv d1" using assms(1) approved(6) by (rule inv_insert_replay)
  then have "registry_inv d2" "i \<in> reg_ids d2" using approved(7) by (auto dest: find_or_create_inv)
  then have "registry_inv d3" "i \<in> serving d3" using approved(8) by (auto dest: activate_registration_inv)
  then show ?thesis unfolding approved(9) by (rule inv_finish_approval)
qed (use assms in simp)

section \<open>Rotation, renewal and readiness\<close>

lemma keys_update:
  assumes "keys_ok d" and "\<And>k. k_registration_id (f k) = k_registration_id k"
    and "\<And>k. k_key_id (f k) = k_key_id k"
    and "\<And>k. P k \<Longrightarrow> k_state (f k) \<noteq> KeyRetired \<Longrightarrow> k_state k \<noteq> KeyRetired"
  shows "keys_ok (d\<lparr>identity_keys := update_where P f (identity_keys d)\<rparr>)"
  using assms unfolding keys_ok_def
  by (simp add: map_update_where reg_ids_def serving_def ball_Un)

lemma inv_update_keys:
  assumes "registry_inv d" and "\<And>k. k_registration_id (f k) = k_registration_id k"
    and "\<And>k. k_key_id (f k) = k_key_id k"
    and "\<And>k. P k \<Longrightarrow> k_state (f k) \<noteq> KeyRetired \<Longrightarrow> k_state k \<noteq> KeyRetired"
  shows "registry_inv (d\<lparr>identity_keys := update_where P f (identity_keys d)\<rparr>)"
  using assms by (intro inv_keys keys_update) (simp_all add: registry_inv_def)

lemma inv_CompleteIdentityRotation:
  assumes "registry_inv d" and "CompleteIdentityRotation now d i key overlap = Inr d'"
  shows "registry_inv d'"
proof -
  let ?u = "update_where (\<lambda>k. k_registration_id k = i \<and> k_key_id k \<noteq> key \<and> k_state k = KeyActive)
              (\<lambda>k. k\<lparr>k_state := KeyOverlap, k_overlap_until := Some (now + overlap)\<rparr>) (identity_keys d)"
  from assms(2) obtain k where k: "k \<in> set (identity_keys d)" "k_registration_id k = i"
    and d': "d' = add_audit now ''identity.rotation.completed'' None i ''{}'' (d\<lparr>identity_keys := ?u\<rparr>)"
    by (auto simp: CompleteIdentityRotation_def list_ex_iff split: if_splits)
  have "i \<in> reg_ids d" using assms(1) k by (auto simp: registry_inv_def keys_ok_def)
  moreover have "registry_inv (d\<lparr>identity_keys := ?u\<rparr>)"
    by (rule inv_update_keys [OF assms(1)]) simp_all
  ultimately show ?thesis unfolding d' by (intro inv_audit) (simp_all add: reg_ids_def)
qed

lemma inv_extend_lease:
  assumes "registry_inv d" and "extend_lease now i until d = Inr d'"
  shows "registry_inv d' \<and> i \<in> serving d'"
proof -
  let ?P = "\<lambda>r. r_id r = i \<and> live now r"
  let ?f = "\<lambda>r. r\<lparr>r_lease_expires_at := until, r_updated_at := now\<rparr>"
  from assms(2) have one: "count_where ?P (registrations d) = 1"
    and d': "d' = d\<lparr>registrations := update_where ?P ?f (registrations d)\<rparr>"
    by (auto simp: extend_lease_def Let_def split: if_splits)
  have u: "unique_regs (update_where ?P ?f (registrations d))"
    using inv_unique [OF assms(1)] by (rule unique_update) simp_all
  have "registry_inv d'" unfolding d'
    by (rule inv_update_registrations [OF assms(1) _ _ _ u]) (simp_all add: in_service_def)
  moreover have "filter ?P (registrations d) \<noteq> []" using one by (auto simp: count_where_def)
  then obtain r where r: "r \<in> set (registrations d)" "?P r" by (auto simp: filter_empty_conv)
  then have "?f r \<in> set (registrations d')" "in_service (?f r)" "r_id (?f r) = i"
    by (auto simp: d' in_service_def live_def)
  then have "i \<in> serving d'" unfolding serving_def by blast
  ultimately show ?thesis by simp
qed

lemma Renew_cases:
  assumes "Renew now d reg key pem cid cert_end duration = Inr (d', res)"
  obtains current d1 where
    "registrationByIdentityTx d (rg_ProjectID reg) (rg_EnvironmentID reg) = Inr current"
    "rg_ID current = rg_ID reg" "rg_State current \<in> {Approved, Ready}" "rg_LeaseExpiresAt current > now"
    "\<exists>k \<in> set (identity_keys d). k_registration_id k = rg_ID reg \<and> k_key_id k = key \<and> key_usable now k"
    "extend_lease now (rg_ID reg) (now + duration) d = Inr d1"
    "cid \<notin> c_id ` set (certificates d1)"
    "d' = add_audit now ''certificate.renewed'' None (rg_ID reg) ''{}''
            (add_lease now (rg_ID reg) (rg_LeaseClass reg) (now + duration) ''certificate-renewal''
              ((retire_certificates CertSuperseded (rg_ID reg) d1)\<lparr>certificates :=
                 certificates (retire_certificates CertSuperseded (rg_ID reg) d1) @
                   [new_certificate now (rg_ID reg) key cid pem cert_end]\<rparr>))"
    "res = Registration_of d' (rg_ProjectID reg) (rg_EnvironmentID reg)"
proof -
  have ids: "c_id ` set (certificates (retire_certificates CertSuperseded i e)) = c_id ` set (certificates e)" for i e
    using retire_certificates_ids [of CertSuperseded i e] by (metis set_map)
  show thesis using assms that unfolding Renew_def
    by (auto simp: and_then_Inr_iff Let_def list_ex_iff ids split: if_splits sum.splits)
qed

lemma inv_Renew:
  assumes "registry_inv d" and "Renew now d reg key pem cid cert_end duration = Inr (d', res)"
  shows "registry_inv d'"
  using assms(2)
proof (cases rule: Renew_cases)
  case (1 current d1)
  have d1: "registry_inv d1" "rg_ID reg \<in> serving d1" using inv_extend_lease [OF assms(1) 1(6)] by auto
  then have "rg_ID reg \<in> reg_ids d1" using serving_sub by blast
  with d1 1(7) show ?thesis unfolding 1(8)
    by (intro inv_audit inv_lease inv_add_certificate) (simp_all add: reg_ids_def add_lease_def)
qed

lemma inv_MarkReady:
  assumes "registry_inv d" and "MarkReady now d p e = Inr d'"
  shows "registry_inv d'"
proof -
  from assms(2) have d': "d' = d\<lparr>registrations := update_where (\<lambda>r. r_identity r = (p, e) \<and> r_state r = Approved)
      (\<lambda>r. r\<lparr>r_state := Ready, r_updated_at := now\<rparr>) (registrations d)\<rparr>"
    by (auto simp: MarkReady_def Let_def split: if_splits)
  show ?thesis unfolding d'
    by (rule inv_update_registrations [OF assms(1)], simp_all add: in_service_def)
      (rule unique_update [OF inv_unique [OF assms(1)]], simp_all)
qed

section \<open>Revocation and expiry\<close>

text \<open>Taking a registration out of service with its keys and certificates.\<close>

definition withdraw :: "time \<Rightarrow> int \<Rightarrow> reg_state \<Rightarrow> cert_state \<Rightarrow> db \<Rightarrow> db" where
  "withdraw now i s c d = retire_keys i (retire_certificates c i (set_reg_state now i s d))"

lemma serving_update:
  assumes "\<And>r. r_id (f r) = r_id r"
  shows "serving (d\<lparr>registrations := update_where P f (registrations d)\<rparr>) =
    r_id ` {r \<in> set (registrations d). in_service (if P r then f r else r)}"
proof -
  define g where "g = (\<lambda>r. if P r then f r else r)"
  have rows: "set (update_where P f (registrations d)) = g ` set (registrations d)"
    unfolding set_update_where g_def ..
  have "{x \<in> g ` set (registrations d). in_service x} = g ` {r \<in> set (registrations d). in_service (g r)}"
    by blast
  moreover have "r_id (g r) = r_id r" for r by (simp add: assms g_def)
  ultimately have "serving (d\<lparr>registrations := update_where P f (registrations d)\<rparr>) =
      r_id ` {r \<in> set (registrations d). in_service (g r)}"
    by (simp add: serving_def image_image rows del: set_update_where)
  then show ?thesis by (simp only: g_def)
qed

lemma serving_withdrawn:
  assumes "s \<notin> {Approved, Ready}"
  shows "serving (set_reg_state now i s d) = serving d - {i}"
  unfolding set_reg_state_def using assms
  by (subst serving_update) (auto simp: serving_def in_service_def)

lemma reg_ids_set_state [simp]: "reg_ids (set_reg_state now i s d) = reg_ids d"
  by (simp add: reg_ids_def set_reg_state_def image_update_where del: set_update_where)

lemma inv_withdraw:
  assumes inv: "registry_inv d" and s: "s \<notin> {Approved, Ready}" and c: "c \<noteq> CertActive"
  shows "registry_inv (withdraw now i s c d)"
proof -
  let ?d = "withdraw now i s c d" and ?r = "retire_keys i (retire_certificates c i d)"
  have r: "registry_inv ?r" unfolding retire_keys_def
    by (rule inv_update_keys) (use inv c in \<open>auto intro: inv_retire_certificates\<close>)
  have out: "k_registration_id k \<noteq> i" if k: "k \<in> set (identity_keys ?r)" "k_state k \<noteq> KeyRetired" for k
  proof -
    from k(1) obtain x where "k = (if k_registration_id x = i \<and> k_state x \<in> {KeyActive, KeyOverlap}
        then x\<lparr>k_state := KeyRetired\<rparr> else x)"
      unfolding retire_keys_def by (auto simp del: set_update_where simp: in_update_where)
    with k(2) show ?thesis by (cases "k_state x") (auto split: if_splits)
  qed
  have outc: "c_registration_id x \<noteq> i" if x: "x \<in> set (certificates ?r)" "cert_live x" for x
  proof -
    have "x \<in> set (filter cert_live (certificates (retire_certificates c i d)))"
      using x by (simp add: retire_keys_def)
    then show ?thesis unfolding filter_retire [OF c] by simp
  qed
  have tables: "?d = ?r\<lparr>registrations := registrations (set_reg_state now i s d)\<rparr>"
    by (simp add: withdraw_def retire_keys_def retire_certificates_def set_reg_state_def)
  have ids: "reg_ids ?d = reg_ids ?r" "serving ?d = serving ?r - {i}"
    using serving_withdrawn [OF s, of now i d] reg_ids_set_state [of now i s d]
    by (simp_all add: withdraw_def reg_ids_def serving_def)
  have "unique_regs (registrations ?d)" unfolding withdraw_def set_reg_state_def
    using inv_unique [OF inv] by (simp, intro unique_update) simp_all
  moreover have "map r_id (registrations ?d) = map r_id (registrations d)"
    by (simp add: withdraw_def set_reg_state_def map_update_where)
  then have "distinct (map r_id (registrations ?d))" using inv by (simp add: registry_inv_def regs_ok_def)
  moreover have "r_virtual_prefix ` set (registrations ?d) = r_virtual_prefix ` set (registrations d)"
    by (simp add: withdraw_def set_reg_state_def image_update_where del: set_update_where)
  then have "\<forall>x \<in> set (registrations ?d). text16 (r_virtual_prefix x)"
    using inv unfolding registry_inv_def regs_ok_def by (metis imageE imageI)
  ultimately have "regs_ok ?d" by (simp add: regs_ok_def)
  moreover have "keys_ok ?d" "certs_ok ?d" "allocs_ok ?d" "history_ok ?d" "requests_ok ?d"
    using r out outc unfolding registry_inv_def keys_ok_def certs_ok_def allocs_ok_def history_ok_def requests_ok_def ids
    by (auto simp: tables)
  ultimately show ?thesis by (simp add: registry_inv_def)
qed

lemma withdraw_ids [simp]: "reg_ids (withdraw now i s c d) = reg_ids d"
  using reg_ids_set_state [of now i s d] by (simp add: withdraw_def reg_ids_def)

lemma Revoke_Inr:
  assumes "Revoke now d p e quarantine json = Inr d'"
  obtains g where "registrationByIdentityTx d p e = Inr g"
    "d' = add_audit now ''registration.revoked'' None (rg_ID g) json
            (createRouteGenerationTx now
              (quarantine_routes (rg_ID g) (now + quarantine) (withdraw now (rg_ID g) Revoked CertRevoked d)))"
  using assms by (auto simp: Revoke_def withdraw_def and_then_Inr_iff Let_def)

lemma inv_Revoke:
  assumes "registry_inv d" and "Revoke now d p e quarantine json = Inr d'"
  shows "registry_inv d'"
  using assms(2)
proof (rule Revoke_Inr)
  fix g assume g: "registrationByIdentityTx d p e = Inr g"
    and d': "d' = add_audit now ''registration.revoked'' None (rg_ID g) json
            (createRouteGenerationTx now
              (quarantine_routes (rg_ID g) (now + quarantine) (withdraw now (rg_ID g) Revoked CertRevoked d)))"
  from g obtain r where "r \<in> set (registrations d)" "rg_ID g = r_id r" by (rule by_identity_in)
  then have "rg_ID g \<in> reg_ids (withdraw now (rg_ID g) Revoked CertRevoked d)" by (simp add: reg_ids_def [of d])
  then show ?thesis unfolding d'
    by (intro inv_audit inv_createRouteGenerationTx inv_quarantine_routes inv_withdraw)
      (simp_all add: assms(1) reg_ids_def)
qed

lemma expire_one_withdraw:
  "expire_one now quarantine d g =
     add_audit now ''lease.expired'' None (rg_ID g) ''{}''
       (quarantine_routes (rg_ID g) (now + quarantine) (withdraw now (rg_ID g) LeaseExpired CertExpired d))"
  by (cases d) (simp add: expire_one_def withdraw_def Let_def retire_keys_def retire_certificates_def
      quarantine_routes_def set_reg_state_def)

lemma inv_expire_one:
  assumes "registry_inv d" and "rg_ID g \<in> reg_ids d"
  shows "registry_inv (expire_one now quarantine d g) \<and> reg_ids (expire_one now quarantine d g) = reg_ids d"
proof -
  let ?q = "quarantine_routes (rg_ID g) (now + quarantine) (withdraw now (rg_ID g) LeaseExpired CertExpired d)"
  have "reg_ids ?q = reg_ids (withdraw now (rg_ID g) LeaseExpired CertExpired d)"
    by (simp add: reg_ids_def)
  then have r: "reg_ids ?q = reg_ids d" by simp
  moreover have "registry_inv ?q"
    by (intro inv_quarantine_routes inv_withdraw [OF assms(1)]) simp_all
  ultimately show ?thesis
    unfolding expire_one_withdraw using assms(2) inv_audit [of ?q "rg_ID g"]
    by (simp add: reg_ids_def [of "add_audit _ _ _ _ _ _"] flip: reg_ids_def)
qed

lemma inv_expire_all:
  assumes "registry_inv d" and "\<forall>g \<in> set gs. rg_ID g \<in> reg_ids d"
  shows "registry_inv (foldl (expire_one now quarantine) d gs)"
  using assms by (induction gs arbitrary: d) (auto simp: inv_expire_one)

lemma inv_purge:
  assumes "registry_inv d"
  shows "registry_inv (purge now d)"
proof -
  let ?d1 = "release_quarantine now d"
  have d1: "registry_inv ?d1" using assms by (rule inv_release_quarantine)
  have "registry_inv (?d1\<lparr>oidc_replays := filter (\<lambda>o'. \<not> o_expires_at o' \<le> now) (oidc_replays ?d1)\<rparr>)"
    by (rule inv_replays [OF d1], rule distinct_map_filter)
      (use d1 in \<open>simp add: registry_inv_def history_ok_def\<close>)
  then show ?thesis unfolding purge_def Let_def by (rule inv_update_keys) simp_all
qed

lemma Expire_Inr:
  assumes "Expire now d quarantine = Inr (d', expired)"
  shows "map_result (\<lambda>r. scanRegistration (Some r))
      (filter (\<lambda>r. in_service r \<and> r_lease_expires_at r \<le> now) (registrations d)) = Inr expired
    \<and> d' = purge now (let d1 = foldl (expire_one now quarantine) d expired
                      in if expired = [] then d1 else createRouteGenerationTx now d1)"
  using assms by (auto simp: Expire_def and_then_Inr_iff Let_def)

lemma scan_ids:
  assumes "map_result (\<lambda>r. scanRegistration (Some r)) rows = Inr gs"
  shows "map rg_ID gs = map r_id rows"
  using assms
  by (induction rows arbitrary: gs) (auto split: sum.splits dest!: scan_Inr)

lemma inv_Expire:
  assumes "registry_inv d" and "Expire now d quarantine = Inr (d', expired)"
  shows "registry_inv d'"
proof -
  note ex = Expire_Inr [OF assms(2)]
  then have "map rg_ID expired = map r_id (filter (\<lambda>r. in_service r \<and> r_lease_expires_at r \<le> now) (registrations d))"
    by (simp add: scan_ids)
  then have "rg_ID ` set expired = r_id ` set (filter (\<lambda>r. in_service r \<and> r_lease_expires_at r \<le> now) (registrations d))"
    by (metis set_map)
  then have "rg_ID ` set expired \<subseteq> reg_ids d" unfolding reg_ids_def by auto
  then have "registry_inv (foldl (expire_one now quarantine) d expired)"
    using assms(1) by (intro inv_expire_all) auto
  then show ?thesis using ex by (auto simp: Let_def intro: inv_purge inv_createRouteGenerationTx)
qed

section \<open>The pool and the static import\<close>

lemma canonical16_slotPrefix [simp]: "canonical16 (slotPrefix base slot)"
  by (simp add: canonical16_def slotPrefix_def Let_def slash16_def prefix_from_def addr_from16_def masked_def)

text \<open>The slots of a pool are the consecutive /16 networks after its base.\<close>

lemma slotPrefix_base16:
  assumes "h < 65536" and "h mod 256 + s < 256"
  shows "slotPrefix (V6 (base16 h) []) s = Prefix (V6 (base16 (h + s)) []) 16"
proof -
  define a b where "a = h div 256" and "b = h mod 256"
  have e: "h = a * 256 + b" "a < 256" "b + s < 256"
    using assms by (simp_all add: a_def b_def less_mult_imp_div_less)
  have h: "(h + s) div 256 = h div 256" "(h + s) mod 256 = h mod 256 + s" "h + s < 65536"
    using e(2,3) unfolding e(1) add.assoc by (simp_all add: div_mult_self3)
  have "(to_be 2 h @ replicate 14 0)[1 := (to_be 2 h @ replicate 14 0) ! 1 + word_of_nat s] =
      to_be 2 (h + s) @ replicate 14 0"
    by (simp add: numeral_2_eq_2 h)
  then show ?thesis
    unfolding slotPrefix_def Let_def as16_base16 [OF assms(1)]
    using h(3) by (simp add: addr_from16_def be_word_base16 prefix_from_def masked_def base16_masked)
qed

lemma inv_insert_free:
  assumes "registry_inv d" and "canonical16 p"
  shows "registry_inv (insert_free d p)"
proof -
  have "allocs_ok (d\<lparr>route_allocations := route_allocations d @
      [\<lparr>a_prefix = prefix_string p, a_state = Free, a_registration_id = None, a_quarantine_until = None\<rparr>]\<rparr>)"
    if "prefix_string p \<notin> a_prefix ` set (route_allocations d)"
    using that assms by (auto simp: registry_inv_def allocs_ok_def alloc_ok_def text16_def reg_ids_def)
  then show ?thesis using inv_allocs [OF assms(1)] assms(1) by (auto simp: insert_free_def)
qed

lemma inv_InitializePool:
  assumes "registry_inv d" and "InitializePool d network excluded = Inr d'"
  shows "registry_inv d'"
proof -
  have "registry_inv (foldl (\<lambda>d slot. let p = slotPrefix (pfx_addr network) slot in
      if list_ex (prefixesOverlap p) excluded then d else insert_free d p) d slots)" for slots
    using assms(1) by (induction slots arbitrary: d) (auto simp: Let_def inv_insert_free)
  then show ?thesis using assms(2) by (auto simp: InitializePool_def split: if_splits)
qed

lemma inv_upsert_static:
  assumes inv: "registry_inv d" and "canonical16 (sr_VirtualPrefix s)" and "upsert_static now d s = Inr d'"
  shows "registry_inv d'"
proof -
  let ?same = "\<lambda>r. r_identity r = (sr_ProjectID s, sr_EnvironmentID s)"
  have t: "text16 (prefix_string (sr_VirtualPrefix s))" using assms(2) by (auto simp: text16_def)
  show ?thesis
  proof (cases "list_ex ?same (registrations d)")
    case True
    let ?f = "\<lambda>r. r\<lparr>r_environment_name := sr_EnvironmentName s, r_project_alias := sr_ConnectorID s,
                       r_virtual_prefix := prefix_string (sr_VirtualPrefix s),
                       r_real_prefix := prefix_string (sr_RealPrefix s), r_updated_at := now\<rparr>"
    from True assms(3) have u: "unique_regs (update_where (\<lambda>r. ?same r \<and> r_identity_type r = StaticV2) ?f (registrations d))"
      and d': "d' = d\<lparr>registrations := update_where (\<lambda>r. ?same r \<and> r_identity_type r = StaticV2) ?f (registrations d)\<rparr>"
      by (simp_all add: upsert_static_def Let_def set_registrations_Inr)
    show ?thesis unfolding d'
      by (rule inv_update_registrations [OF inv _ _ _ u]) (simp_all add: t in_service_def)
  next
    case False
    with assms(3) show ?thesis
      by (auto simp: upsert_static_def Let_def set_registrations_Inr t next_id_reg intro: inv_append_registration [OF inv])
  qed
qed

lemma inv_reserve_static:
  assumes inv: "registry_inv d" and "text16 p" and "i \<in> reg_ids d" and "reserve_static d p i = Inr d'"
  shows "registry_inv d'"
proof (cases "p \<in> a_prefix ` set (route_allocations d)")
  case True
  with assms(4) have d': "d' = d\<lparr>route_allocations := update_where (\<lambda>a. a_prefix a = p)
      (\<lambda>a. a\<lparr>a_state := Allocated, a_registration_id := Some i, a_quarantine_until := None\<rparr>) (route_allocations d)\<rparr>"
    by (auto simp: reserve_static_def split: if_splits)
  show ?thesis unfolding d'
    by (rule inv_allocs [OF inv], rule allocs_update)
      (use inv assms(2,3) in \<open>auto simp: registry_inv_def alloc_ok_def\<close>)
next
  case False
  with assms(4) have d': "d' = d\<lparr>route_allocations := route_allocations d @
      [\<lparr>a_prefix = p, a_state = Allocated, a_registration_id = Some i, a_quarantine_until = None\<rparr>]\<rparr>"
    by (auto simp: reserve_static_def split: if_splits)
  show ?thesis unfolding d'
    by (rule inv_allocs [OF inv])
      (use False inv assms(2,3) in \<open>auto simp: registry_inv_def allocs_ok_def alloc_ok_def reg_ids_def\<close>)
qed

lemma inv_ImportStatic:
  assumes "registry_inv d" and "\<forall>s \<in> set ss. canonical16 (sr_VirtualPrefix s)" and "ImportStatic now d ss = Inr d'"
  shows "registry_inv d'"
  using assms
proof (induction ss arbitrary: d)
  case (Cons s ss)
  from Cons.prems(3) obtain d1 d2 r where d1: "upsert_static now d s = Inr d1"
    and r: "identity_row d1 (sr_ProjectID s) (sr_EnvironmentID s) = Some r"
    and d2: "reserve_static d1 (prefix_string (sr_VirtualPrefix s)) (r_id r) = Inr d2"
    and rest: "ImportStatic now d2 ss = Inr d'"
    by (auto simp: and_then_Inr_iff import_one_def split: if_splits option.splits)
  have "registry_inv d1" using Cons.prems(1) _ d1 by (rule inv_upsert_static) (use Cons.prems(2) in simp)
  then have "registry_inv d2"
    using d2 Cons.prems(2) identity_row_in [OF r]
    by (intro inv_reserve_static [of d1 _ _ d2]) (auto simp: reg_ids_def text16_def)
  then show ?case using Cons.IH rest Cons.prems(2) by simp
qed simp

lemma inv_CompleteRouteGeneration:
  assumes "registry_inv d"
  shows "registry_inv (CompleteRouteGeneration now d i failure)"
  unfolding CompleteRouteGeneration_def
  by (rule inv_generations [OF assms], subst map_update_where)
    (use assms in \<open>auto simp: registry_inv_def history_ok_def split: option.splits\<close>)

lemma inv_ConsumeReplay: "registry_inv d \<Longrightarrow> ConsumeReplay sha now d p j x = Inr d' \<Longrightarrow> registry_inv d'"
  by (auto simp: ConsumeReplay_def split: if_splits intro: inv_insert_replay)

lemmas registry_preserved = inv_CreatePending inv_Approve inv_CompleteIdentityRotation inv_Renew
  inv_MarkReady inv_Revoke inv_Expire inv_InitializePool inv_ImportStatic inv_CompleteRouteGeneration
  inv_ConsumeReplay

end
