(* ===== verification/Machine.thy ===== *)
theory Machine
  imports Prelude
begin

text \<open>
  State machines: the contract of an inductive invariant of a step relation and its consequence for
  every state that the steps lead to. The registry and the session tables interpret it.
\<close>

locale machine =
  fixes step :: "'s \<Rightarrow> 's \<Rightarrow> bool" and inv :: "'s \<Rightarrow> bool"
  assumes step_inv: "inv s \<Longrightarrow> step s t \<Longrightarrow> inv t"
begin

lemma steps_inv: "step\<^sup>*\<^sup>* s t \<Longrightarrow> inv s \<Longrightarrow> inv t"
  by (induction rule: rtranclp_induct) (auto intro: step_inv)

end

text \<open>A second invariant may assume a first one that is already established.\<close>

locale layered_machine = machine step base for step :: "'s \<Rightarrow> 's \<Rightarrow> bool" and base :: "'s \<Rightarrow> bool" +
  fixes upper :: "'s \<Rightarrow> bool"
  assumes upper_step: "base s \<Longrightarrow> upper s \<Longrightarrow> step s t \<Longrightarrow> upper t"
begin

lemma steps_both: "step\<^sup>*\<^sup>* s t \<Longrightarrow> base s \<Longrightarrow> upper s \<Longrightarrow> base t \<and> upper t"
  by (induction rule: rtranclp_induct) (auto intro: step_inv upper_step)

end

end
