(* ===== verification/Registry_Run.thy ===== *)
theory Registry_Run
  imports Registry_Inv Machine
begin

text \<open>
  Runs of the registry: any sequence of its operations at non-decreasing times, each committed or
  rolled back. The invariant holds in every reachable state; a spent OIDC token is never accepted
  again; the limits on open requests hold at every moment.
\<close>

section \<open>Operations and steps\<close>

datatype operation =
    DoCreatePending PendingRequest
  | DoApprove Approval
  | DoConsumeReplay string string time
  | DoCompleteIdentityRotation int string duration
  | DoRenew Registration string bytes string time duration
  | DoMarkReady string string
  | DoRevoke string string duration string
  | DoExpire duration
  | DoInitializePool prefix "prefix list"
  | DoImportStatic "StaticRegistration list"
  | DoCompleteRouteGeneration int "string option"

fun perform :: "(bytes \<Rightarrow> bytes) \<Rightarrow> time \<Rightarrow> db \<Rightarrow> operation \<Rightarrow> registry_error + db" where
  "perform sha now d (DoCreatePending q) = and_then (CreatePending sha now d q) (\<lambda>(d', _). Inr d')"
| "perform sha now d (DoApprove a) = and_then (Approve sha now d a) (\<lambda>(d', _). Inr d')"
| "perform sha now d (DoConsumeReplay p j x) = ConsumeReplay sha now d p j x"
| "perform sha now d (DoCompleteIdentityRotation i k v) = CompleteIdentityRotation now d i k v"
| "perform sha now d (DoRenew g k pem cid u l) = and_then (Renew now d g k pem cid u l) (\<lambda>(d', _). Inr d')"
| "perform sha now d (DoMarkReady p e) = MarkReady now d p e"
| "perform sha now d (DoRevoke p e q j) = Revoke now d p e q j"
| "perform sha now d (DoExpire q) = and_then (Expire now d q) (\<lambda>(d', _). Inr d')"
| "perform sha now d (DoInitializePool n xs) = InitializePool d n xs"
| "perform sha now d (DoImportStatic ss) = ImportStatic now d ss"
| "perform sha now d (DoCompleteRouteGeneration i f) = Inr (CompleteRouteGeneration now d i f)"

text \<open>Imported static prefixes are canonical /16s, which the configuration checks.\<close>

fun admissible :: "operation \<Rightarrow> bool" where
  "admissible (DoImportStatic ss) \<longleftrightarrow> list_all (\<lambda>s. canonical16 (sr_VirtualPrefix s)) ss"
| "admissible _ \<longleftrightarrow> True"

inductive registry_step :: "(bytes \<Rightarrow> bytes) \<Rightarrow> time \<times> db \<Rightarrow> time \<times> db \<Rightarrow> bool" for sha where
  committed: "now \<le> now' \<Longrightarrow> admissible op \<Longrightarrow> perform sha now' d op = Inr d'
    \<Longrightarrow> registry_step sha (now, d) (now', d')"
| rolled_back: "now \<le> now' \<Longrightarrow> registry_step sha (now, d) (now', d)"

inductive_cases registry_stepE: "registry_step sha s t"

section \<open>The invariant in every run\<close>

lemma perform_inv:
  assumes "registry_inv d" and "admissible op" and "perform sha now d op = Inr d'"
  shows "registry_inv d'"
  using assms
  by (cases op) (auto simp: and_then_Inr_iff list_all_iff intro: registry_preserved)

interpretation reg_machine: machine "registry_step sha" "\<lambda>(now, d). registry_inv d" for sha
  by unfold_locales (auto elim!: registry_stepE intro: perform_inv)

text \<open>
  C4. In every state that operations, committed or rolled back, reach from an empty database the
  registry is consistent: unique identities, aliases and prefixes, one open request per identity, at
  most one active certificate per registration, usable keys and active certificates only for
  registrations in service, free prefixes exactly the unowned ones, no dangling reference.
\<close>

theorem registry_reachable_inv:
  assumes "(registry_step sha)\<^sup>*\<^sup>* (start, empty_db) (now, d)"
  shows "registry_inv d"
  using reg_machine.steps_inv [OF assms] inv_empty by simp

section \<open>Replay protection\<close>

lemma replays_frame [simp]:
  "oidc_replays (release_quarantine now d) = oidc_replays d"
  "oidc_replays (createRouteGenerationTx now d) = oidc_replays d"
  "oidc_replays (finish_approval now i q a d) = oidc_replays d"
  "oidc_replays (retire_certificates s i d) = oidc_replays d"
  "oidc_replays (expire_one now qd d g) = oidc_replays d"
  "oidc_replays (expire_request rid d) = oidc_replays d"
  "oidc_replays (insert_free d p) = oidc_replays d"
  by (simp_all add: release_quarantine_def createRouteGenerationTx_def finish_approval_def add_audit_def
      approve_request_def add_lease_def store_certificate_def activate_key_def retire_certificates_def
      expire_one_def retire_keys_def quarantine_routes_def set_reg_state_def expire_request_def
      insert_free_def Let_def)

lemma replays_set_registrations:
  "set_registrations d rows = Inr d' \<Longrightarrow> oidc_replays d' = oidc_replays d"
  by (auto simp: set_registrations_Inr)

lemma replays_find_or_create:
  "find_or_create now d q a = Inr (d', i, c) \<Longrightarrow> oidc_replays d' = oidc_replays d"
  by (auto simp: find_or_create_def create_registration_def allocatePrefixTx_def and_then_Inr_iff Let_def
      assign_route_def replays_set_registrations
      split: sum.splits registry_error.splits list.splits option.splits if_splits)

lemma replays_Approve:
  assumes "Approve sha now d a = Inr (d', res, c)"
  shows "set (oidc_replays d) \<subseteq> set (oidc_replays d')"
  using assms
proof (cases rule: Approve_cases)
  case (approved q d1 d2 d3 i)
  have "oidc_replays d' = oidc_replays d1"
    using approved(7,8) by (auto simp: approved(9) activate_registration_def
        dest!: replays_find_or_create replays_set_registrations)
  with approved(6) show ?thesis by (auto simp: insert_replay_def split: if_splits)
qed simp

lemma replays_ImportStatic: "ImportStatic now d ss = Inr d' \<Longrightarrow> oidc_replays d' = oidc_replays d"
  by (induction ss arbitrary: d)
    (auto simp: and_then_Inr_iff import_one_def upsert_static_def reserve_static_def Let_def
      dest!: replays_set_registrations split: if_splits option.splits)

lemma replays_pool:
  "oidc_replays (foldl (\<lambda>d slot. if list_ex (prefixesOverlap (f slot)) xs then d else insert_free d (f slot)) d slots) =
     oidc_replays d"
  by (induction slots arbitrary: d) simp_all

lemma replays_expire_all: "oidc_replays (foldl (expire_one now qd) d gs) = oidc_replays d"
  by (induction gs arbitrary: d) simp_all

lemma replays_Expire:
  "Expire now d qd = Inr (d', gs) \<Longrightarrow> set (oidc_replays d') = {r \<in> set (oidc_replays d). o_expires_at r > now}"
  by (drule Expire_Inr) (auto simp: Let_def purge_def replays_expire_all)

text \<open>Only expiry removes replay records, and only those that no longer matter.\<close>

lemma perform_keeps_replay:
  assumes "perform sha now d op = Inr d'" and "r \<in> set (oidc_replays d)" and "o_expires_at r > now"
  shows "r \<in> set (oidc_replays d')"
proof (cases op)
  case (DoCreatePending q)
  with assms show ?thesis
    by (auto simp: and_then_Inr_iff elim!: CreatePending_cases dest!: insert_pending_Inr)
next
  case (DoRenew g k pem cid u l)
  with assms show ?thesis
    by (auto simp: and_then_Inr_iff add_audit_def add_lease_def extend_lease_def Let_def
        elim!: Renew_cases split: if_splits)
next
  case (DoRevoke p e q j)
  with assms show ?thesis
    by (auto simp: add_audit_def quarantine_routes_def withdraw_def retire_keys_def set_reg_state_def elim!: Revoke_Inr)
next
  case (DoApprove a)
  with assms show ?thesis by (auto simp: and_then_Inr_iff dest!: replays_Approve)
qed (use assms replays_ImportStatic replays_Expire in
  \<open>auto simp: and_then_Inr_iff ConsumeReplay_def insert_replay_def CompleteIdentityRotation_def add_audit_def
     MarkReady_def Let_def InitializePool_def CompleteRouteGeneration_def replays_pool split: if_splits\<close>)

text \<open>The OIDC token an operation consumes: provider, token id and expiry.\<close>

fun consumed :: "db \<Rightarrow> operation \<Rightarrow> (string \<times> string \<times> time) option" where
  "consumed d (DoConsumeReplay p j x) = Some (p, j, x)"
| "consumed d (DoApprove a) =
     (case pendingTx d (ap_RequestID a) of
        Inr q \<Rightarrow> if pr_State q = Pending then Some (ap_ProviderID a, ap_JTI a, ap_JTIExpiresAt a) else None
      | Inl _ \<Rightarrow> None)"
| "consumed d _ = None"

definition spent :: "(bytes \<Rightarrow> bytes) \<Rightarrow> string \<times> string \<times> time \<Rightarrow> time \<times> db \<Rightarrow> bool" where
  "spent sha token s =
     (case (token, s) of ((p, j, x), (now, d)) \<Rightarrow>
        x \<le> now \<or> (\<exists>r \<in> set (oidc_replays d). o_provider_id r = p \<and> o_jti_hash r = jti_hash sha p j
                        \<and> o_expires_at r = x))"

lemma spent_step:
  assumes "spent sha token s" and "registry_step sha s t"
  shows "spent sha token t"
  using assms(2,1)
proof cases
  case (committed now now' op d d')
  with assms(1) perform_keeps_replay [OF committed(5)] show ?thesis
    by (fastforce simp: spent_def split: prod.splits)
qed (auto simp: spent_def split: prod.splits)

interpretation spent_machine: machine "registry_step sha" "spent sha token" for sha token
  by unfold_locales (rule spent_step)

text \<open>An operation that succeeds on a token finds it unspent and spends it.\<close>

lemma insert_replay_spends:
  assumes "insert_replay d p (jti_hash sha p j) x = Inr d'" and "x > now"
  shows "\<not> spent sha (p, j, x) (now, d) \<and> spent sha (p, j, x) (now, d')"
  using assms by (auto simp: insert_replay_def list_ex_iff spent_def split: if_splits)

lemma consumed_spends:
  assumes "perform sha now d op = Inr d'" and "consumed d op = Some (p, j, x)"
  shows "\<not> spent sha (p, j, x) (now, d) \<and> spent sha (p, j, x) (now, d')"
proof (cases op)
  case (DoConsumeReplay p' j' x')
  with assms show ?thesis
    by (auto simp: ConsumeReplay_def dest: insert_replay_spends split: if_splits)
next
  case (DoApprove a)
  with assms(2) obtain q where q: "pendingTx d (ap_RequestID a) = Inr q" "pr_State q = Pending"
    and t: "(p, j, x) = (ap_ProviderID a, ap_JTI a, ap_JTIExpiresAt a)"
    by (auto split: sum.splits if_splits)
  from assms(1) DoApprove obtain res c where "Approve sha now d a = Inr (d', res, c)" by (auto simp: and_then_Inr_iff)
  then show ?thesis
  proof (cases rule: Approve_cases)
    case (approved q' d1 d2 d3 i)
    have "oidc_replays d' = oidc_replays d1"
      using approved(7,8) by (auto simp: approved(9) activate_registration_def
          dest!: replays_find_or_create replays_set_registrations)
    with insert_replay_spends [OF approved(6,5)] t show ?thesis by (auto simp: spent_def)
  qed (use q in simp)
qed (use assms(2) in simp_all)

text \<open>
  C6. No OIDC token is accepted twice: once an operation that consumes a token has succeeded, no
  later operation that consumes the same token succeeds, whatever happens in between, expiry of
  replay records included, as long as the clock does not run backwards.
\<close>

theorem token_accepted_once:
  assumes "perform sha now d op = Inr d1" and "consumed d op = Some token"
    and "(registry_step sha)\<^sup>*\<^sup>* (now, d1) (later, d2)" and "later \<le> now2"
    and "consumed d2 op2 = Some token"
  shows "\<exists>e. perform sha now2 d2 op2 = Inl e"
proof (rule ccontr)
  assume "\<not> ?thesis"
  then obtain d3 where ok: "perform sha now2 d2 op2 = Inr d3"
    by (cases "perform sha now2 d2 op2") auto
  obtain p j x where t: "token = (p, j, x)" by (cases token)
  have "spent sha token (now, d1)" using consumed_spends assms(1,2) t by blast
  then have "spent sha token (later, d2)" by (rule spent_machine.steps_inv [OF assms(3)])
  then have "spent sha token (now2, d2)" using assms(4) by (auto simp: spent_def split: prod.splits)
  with consumed_spends [OF ok] assms(5) t show False by blast
qed

section \<open>Limits on open requests\<close>

definition limits_ok :: "time \<times> db \<Rightarrow> bool" where
  "limits_ok s = (case s of (now, d) \<Rightarrow>
     (\<forall>project. unexpired_pending now (\<lambda>p. pr_ProjectID p = project) (pending_requests d) \<le> 10) \<and>
     (\<forall>source. unexpired_pending now (\<lambda>p. pr_SourceAddress p = source) (pending_requests d) \<le> 30))"

lemma unexpired_append:
  "unexpired_pending now P (rows @ [q]) = unexpired_pending now P rows +
     (if P q \<and> pr_State q = Pending \<and> pr_ExpiresAt q > now then 1 else 0)"
  by (simp add: unexpired_pending_def count_where_def)

lemma count_mono: "(\<And>x. A x \<Longrightarrow> B x) \<Longrightarrow> count_where A xs \<le> count_where B xs"
  by (induction xs) (auto simp: count_where_def le_Suc_eq)

lemma count_update: "count_where A (update_where P f xs) = count_where (\<lambda>x. A (if P x then f x else x)) xs"
  by (simp add: count_where_def update_where_def filter_map comp_def)

lemma unexpired_later: "now \<le> now' \<Longrightarrow> unexpired_pending now' P rows \<le> unexpired_pending now P rows"
  unfolding unexpired_pending_def by (rule count_mono) auto

lemma unexpired_close:
  assumes "s \<noteq> Pending"
  shows "unexpired_pending now P (update_where (\<lambda>p. pr_ID p = i) (\<lambda>p. p\<lparr>pr_State := s\<rparr>) rows)
    \<le> unexpired_pending now P rows"
  unfolding unexpired_pending_def count_update using assms by (intro count_mono) (auto split: if_splits)

lemma limits_mono:
  assumes "limits_ok (now, d)"
    and "\<And>P. unexpired_pending now' P (pending_requests d') \<le> unexpired_pending now P (pending_requests d)"
  shows "limits_ok (now', d')"
  using assms(1) unfolding limits_ok_def prod.case
  by (elim conjE, intro conjI allI) (rule order_trans [OF assms(2)], erule spec)+

lemma limits_later: "limits_ok (now, d) \<Longrightarrow> now \<le> now' \<Longrightarrow> limits_ok (now', d)"
  by (erule limits_mono) (rule unexpired_later)

lemma limits_close:
  assumes "limits_ok (now, d)" and "s \<noteq> Pending"
  shows "limits_ok (now, d\<lparr>pending_requests :=
    update_where (\<lambda>p. pr_ID p = i) (\<lambda>p. p\<lparr>pr_State := s\<rparr>) (pending_requests d)\<rparr>)"
  using assms(1) by (rule limits_mono) (simp add: unexpired_close assms(2))

lemma limits_insert:
  assumes "limits_ok (now, d)" and "insert_pending now d q = Inr (d', x, b)"
  shows "limits_ok (now, d')"
  using assms insert_pending_Inr [OF assms(2)]
  by (auto simp: limits_ok_def unexpired_append Suc_le_eq)

lemma pending_frame [simp]:
  "pending_requests (release_quarantine now d) = pending_requests d"
  "pending_requests (createRouteGenerationTx now d) = pending_requests d"
  "pending_requests (retire_certificates s i d) = pending_requests d"
  "pending_requests (store_certificate now d i q a) = pending_requests d"
  "pending_requests (activate_key now d i q) = pending_requests d"
  "pending_requests (expire_one now qd d g) = pending_requests d"
  "pending_requests (insert_free d p) = pending_requests d"
  "pending_requests (add_lease now i c x src d) = pending_requests d"
  "pending_requests (add_audit now e rq i j d) = pending_requests d"
  by (simp_all add: release_quarantine_def createRouteGenerationTx_def add_audit_def
      add_lease_def store_certificate_def activate_key_def retire_certificates_def
      expire_one_def retire_keys_def quarantine_routes_def set_reg_state_def insert_free_def Let_def)

lemma pending_set_registrations:
  "set_registrations d rows = Inr d' \<Longrightarrow> pending_requests d' = pending_requests d"
  by (auto simp: set_registrations_Inr)

lemma pending_find_or_create:
  "find_or_create now d q a = Inr (d', i, c) \<Longrightarrow> pending_requests d' = pending_requests d"
  by (auto simp: find_or_create_def create_registration_def allocatePrefixTx_def and_then_Inr_iff Let_def
      assign_route_def pending_set_registrations
      split: sum.splits registry_error.splits list.splits option.splits if_splits)

lemma limits_Approve:
  assumes "limits_ok (now, d)" and "Approve sha now d a = Inr (d', res, c)"
  shows "limits_ok (now, d')"
  using assms(2)
proof (cases rule: Approve_cases)
  case (approved q d1 d2 d3 i)
  have "pending_requests d3 = pending_requests d"
    using approved(6-8) by (auto simp: activate_registration_def insert_replay_def
        dest!: pending_find_or_create pending_set_registrations split: if_splits)
  then have "pending_requests d' = pending_requests (approve_request (pr_ID q) d)"
    by (simp add: approved(9) finish_approval_def approve_request_def)
  with limits_close [OF assms(1), of RequestApproved] show ?thesis
    by (simp add: limits_ok_def approve_request_def)
qed (use assms in simp)

lemma pending_ImportStatic: "ImportStatic now d ss = Inr d' \<Longrightarrow> pending_requests d' = pending_requests d"
  by (induction ss arbitrary: d)
    (auto simp: and_then_Inr_iff import_one_def upsert_static_def reserve_static_def Let_def
      dest!: pending_set_registrations split: if_splits option.splits)

lemma pending_pool:
  "pending_requests (foldl (\<lambda>d slot. if list_ex (prefixesOverlap (f slot)) xs then d else insert_free d (f slot)) d slots) =
     pending_requests d"
  by (induction slots arbitrary: d) simp_all

lemma pending_expire_all: "pending_requests (foldl (expire_one now qd) d gs) = pending_requests d"
  by (induction gs arbitrary: d) simp_all

lemma pending_Expire: "Expire now d qd = Inr (d', gs) \<Longrightarrow> pending_requests d' = pending_requests d"
  by (drule Expire_Inr) (auto simp: Let_def purge_def pending_expire_all)

lemma perform_limits:
  assumes "limits_ok (now, d)" and "perform sha now d op = Inr d'"
  shows "limits_ok (now, d')"
proof (cases op)
  case (DoCreatePending q)
  with assms(2) obtain x b where "CreatePending sha now d q = Inr (d', x, b)" by (auto simp: and_then_Inr_iff)
  then show ?thesis
    by (cases rule: CreatePending_cases)
      (use assms(1) in \<open>auto simp: expire_request_def intro: limits_insert limits_close\<close>)
next
  case (DoApprove a)
  with assms show ?thesis by (auto simp: and_then_Inr_iff intro: limits_Approve)
next
  case (DoRenew g k pem cid u l)
  with assms(2) have "pending_requests d' = pending_requests d"
    by (auto simp: and_then_Inr_iff add_audit_def add_lease_def extend_lease_def Let_def
        elim!: Renew_cases split: if_splits)
  with assms(1) show ?thesis by (simp add: limits_ok_def)
next
  case (DoRevoke p e q j)
  with assms(2) have "pending_requests d' = pending_requests d"
    by (auto simp: add_audit_def quarantine_routes_def withdraw_def retire_keys_def set_reg_state_def elim!: Revoke_Inr)
  with assms(1) show ?thesis by (simp add: limits_ok_def)
qed (use assms pending_ImportStatic pending_Expire in
  \<open>auto simp: limits_ok_def and_then_Inr_iff ConsumeReplay_def insert_replay_def CompleteIdentityRotation_def
     MarkReady_def Let_def InitializePool_def CompleteRouteGeneration_def pending_pool split: if_splits\<close>)

interpretation limits_machine: machine "registry_step sha" limits_ok for sha
  by unfold_locales (auto elim!: registry_stepE intro: perform_limits limits_later)

text \<open>
  C31. At every moment of every run a project has at most 10 unexpired open requests and a source
  address at most 30.
\<close>

theorem pending_limits:
  assumes "(registry_step sha)\<^sup>*\<^sup>* (start, empty_db) (now, d)"
  shows "unexpired_pending now (\<lambda>p. pr_ProjectID p = project) (pending_requests d) \<le> 10
    \<and> unexpired_pending now (\<lambda>p. pr_SourceAddress p = source) (pending_requests d) \<le> 30"
proof -
  have "limits_ok (start, empty_db)"
    by (simp add: limits_ok_def empty_db_def unexpired_pending_def count_where_def)
  from limits_machine.steps_inv [OF assms this] show ?thesis by (simp add: limits_ok_def)
qed

end
