(* ===== verification/Registry_Props.thy ===== *)
theory Registry_Props
  imports Registry_Run
begin

text \<open>
  What the operations of the registry achieve: disjoint active prefixes, route generations that list
  exactly the live prefixes, expiry, revocation and renewal; and three situations in which the
  registry does not do what it is meant to do.
\<close>

section \<open>Active registrations\<close>

lemma scan_text:
  assumes "text16 (r_virtual_prefix r)" and "scanRegistration (Some r) = Inr g"
  shows "canonical16 (rg_VirtualPrefix g) \<and> r_virtual_prefix r = prefix_string (rg_VirtualPrefix g)"
  using assms scan_Inr [OF assms(2)] by (auto simp: text16_def parse_prefix_string)

lemma scan_texts:
  assumes "map_result (\<lambda>r. scanRegistration (Some r)) rows = Inr gs"
    and "\<forall>r \<in> set rows. text16 (r_virtual_prefix r)"
  shows "map r_virtual_prefix rows = map (\<lambda>g. prefix_string (rg_VirtualPrefix g)) gs
    \<and> (\<forall>g \<in> set gs. canonical16 (rg_VirtualPrefix g))"
  using assms
  by (induction rows arbitrary: gs) (auto split: sum.splits dest: scan_text)

definition pairwise_disjoint :: "prefix list \<Rightarrow> bool" where
  "pairwise_disjoint ps \<longleftrightarrow>
     (\<forall>i < length ps. \<forall>j < length ps. \<forall>a. i \<noteq> j \<longrightarrow> \<not> (contains (ps ! i) a \<and> contains (ps ! j) a))"

lemma canonical_pairwise_disjoint:
  assumes "\<forall>p \<in> set ps. canonical16 p" and "distinct ps"
  shows "pairwise_disjoint ps"
  unfolding pairwise_disjoint_def
  by (metis assms canonical16_disjoint distinct_conv_nth nth_mem)

lemma active_disjoint:
  assumes "registry_inv d" and "ActiveRegistrations now d = Inr regs"
  shows "pairwise_disjoint (map rg_VirtualPrefix regs)"
proof -
  let ?rows = "sort_key r_virtual_prefix (filter (live now) (registrations d))"
  have regs: "map_result (\<lambda>r. scanRegistration (Some r)) ?rows = Inr regs"
    using assms(2) by (simp add: ActiveRegistrations_def)
  have t: "\<forall>r \<in> set ?rows. text16 (r_virtual_prefix r)"
    using assms(1) by (auto simp: registry_inv_def regs_ok_def)
  note s = scan_texts [OF regs t]
  have "distinct (map r_virtual_prefix (filter (live now) (registrations d)))"
    using inv_unique [OF assms(1)] by (simp add: unique_regs_def distinct_map_filter)
  then have "distinct (map r_virtual_prefix ?rows)" by (simp add: distinct_map)
  with s have "distinct (map (\<lambda>g. prefix_string (rg_VirtualPrefix g)) regs)" by simp
  then have "distinct (map prefix_string (map rg_VirtualPrefix regs))" by (simp add: comp_def)
  then have "distinct (map rg_VirtualPrefix regs)" unfolding distinct_map [of prefix_string] by (rule conjunct1)
  with s show ?thesis by (intro canonical_pairwise_disjoint) auto
qed

text \<open>
  C12. In every reachable state no address belongs to the virtual prefixes of two active
  registrations, so the edge can route by address alone.
\<close>

theorem active_prefixes_disjoint:
  assumes "(registry_step sha)\<^sup>*\<^sup>* (start, empty_db) (t, d)" and "ActiveRegistrations now d = Inr regs"
  shows "pairwise_disjoint (map rg_VirtualPrefix regs)"
proof -
  have "registry_inv d" using reg_machine.steps_inv [OF assms(1)] inv_empty by simp
  then show ?thesis using assms(2) by (rule active_disjoint)
qed

section \<open>Route generations\<close>

definition live_routes :: "time \<Rightarrow> db \<Rightarrow> string list" where
  "live_routes now d = sort (map r_virtual_prefix (filter (live now) (registrations d)))"

lemma splitRoutes_from_split: "splitRoutes_from part s = (rev part @ hd (split_on CHR '','' s)) # tl (split_on CHR '','' s)"
  by (induction part s rule: splitRoutes_from.induct) (auto split: list.splits)

lemma split_on_no_sep: "c \<notin> set s \<Longrightarrow> split_on c s = [s]"
  by (induction s) auto

lemma split_on_append: "c \<notin> set s \<Longrightarrow> split_on c (s @ c # t) = s # split_on c t"
  by (induction s) auto

lemma split_on_join_with:
  "xs \<noteq> [] \<Longrightarrow> \<forall>x \<in> set xs. c \<notin> set x \<Longrightarrow> split_on c (join_with [c] xs) = xs"
proof (induction xs rule: induct_list012)
  case (3 x y ys)
  then show ?case using split_on_append [of c x "join_with [c] (y # ys)"] by simp
qed (auto simp: split_on_no_sep)

lemma splitRoutes_join:
  assumes "\<forall>x \<in> set xs. x \<noteq> [] \<and> CHR '','' \<notin> set x"
  shows "splitRoutes (join_with '','' xs) = xs"
proof (cases xs)
  case (Cons x ys)
  then have "join_with '','' xs \<noteq> []" using assms by (cases ys) auto
  moreover have "split_on CHR '','' (join_with '','' xs) = xs"
    using assms Cons by (intro split_on_join_with) auto
  ultimately show ?thesis by (simp add: splitRoutes_def splitRoutes_from_split Cons)
qed (simp add: splitRoutes_def)

lemma parse_texts:
  "\<forall>x \<in> set xs. text16 x \<Longrightarrow>
     \<exists>ps. map_result (\<lambda>v. case parse_prefix v of None \<Rightarrow> Inl e | Some p \<Rightarrow> Inr p) xs = Inr ps
        \<and> map prefix_string ps = xs"
  by (induction xs) (auto simp: text16_def parse_prefix_string)

lemma prefix_string_not_Nil: "canonical16 p \<Longrightarrow> prefix_string p \<noteq> []"
  by (auto simp: prefix_string_def canonical16_def slash16_def prefix_valid_def)

lemma text16_chars: "text16 x \<Longrightarrow> x \<noteq> [] \<and> CHR '','' \<notin> set x"
  unfolding text16_def by (elim exE conjE) (simp add: prefix_string_not_Nil prefix_string_no_comma)

lemma generation_created:
  assumes "registry_inv d"
  shows "\<exists>g. PendingRouteGeneration (createRouteGenerationTx now d) = Inr g
    \<and> map prefix_string (rgn_DesiredRoutes g) = live_routes now d"
proof -
  let ?gens = "update_where (\<lambda>g. g_state g = GenPending) (\<lambda>g. g\<lparr>g_state := GenSuperseded\<rparr>) (route_generations d)"
  have "filter (\<lambda>g. g_state g = GenPending) ?gens = []"
    by (subst filter_update_where) simp_all
  then have one: "filter (\<lambda>g. g_state g = GenPending) (route_generations (createRouteGenerationTx now d)) =
      [\<lparr>g_id = next_id (map g_id ?gens), g_desired_routes = join_with '','' (live_routes now d),
        g_state = GenPending, g_created_at = now, g_applied_at = None, g_last_error = []\<rparr>]"
    by (simp add: createRouteGenerationTx_def Let_def live_routes_def)
  have t: "\<forall>x \<in> set (live_routes now d). text16 x"
    using assms by (auto simp: live_routes_def registry_inv_def regs_ok_def)
  then have "splitRoutes (join_with '','' (live_routes now d)) = live_routes now d"
    by (intro splitRoutes_join ballI text16_chars) (rule bspec)
  with parse_texts [OF t, of StoredPrefixNotValid] one show ?thesis
    by (auto simp: PendingRouteGeneration_def)
qed

lemma generation_frame [simp]:
  "PendingRouteGeneration (add_audit now e rq i j d) = PendingRouteGeneration d"
  "live_routes t (add_audit now e rq i j d) = live_routes t d"
  "live_routes t (createRouteGenerationTx now d) = live_routes t d"
  by (simp_all add: PendingRouteGeneration_def live_routes_def add_audit_def createRouteGenerationTx_def Let_def)

lemma approve_generation:
  assumes "registry_inv d" and "Approve sha now d a = Inr (d', res, c)" and "consumed d (DoApprove a) \<noteq> None"
  shows "\<exists>g. PendingRouteGeneration d' = Inr g \<and> map prefix_string (rgn_DesiredRoutes g) = live_routes now d'"
  using assms(2)
proof (cases rule: Approve_cases)
  case (approved q d1 d2 d3 i)
  have "registry_inv d1" using assms(1) approved(6) by (rule inv_insert_replay)
  then have "registry_inv d2" "i \<in> reg_ids d2" using approved(7) by (auto dest: find_or_create_inv)
  then have d3: "registry_inv d3" "i \<in> serving d3" using approved(8) by (auto dest: activate_registration_inv)
  have "registry_inv (store_certificate now (activate_key now d3 i q) i q a)"
    using d3 by (intro inv_store_certificate inv_activate_key) (simp_all add: serving_def)
  moreover have "i \<in> reg_ids d3" using d3(2) serving_sub by blast
  ultimately have "registry_inv (approve_request (pr_ID q) (add_lease now i (ap_LeaseClass a)
      (now + ap_LeaseDuration a) ''approval'' (store_certificate now (activate_key now d3 i q) i q a)))"
    by (intro inv_approve_request inv_lease) (simp_all add: reg_ids_def)
  from generation_created [OF this, of now] show ?thesis by (simp add: approved(9) finish_approval_def)
qed (use assms(3) in simp)

lemma revoke_generation:
  assumes "registry_inv d" and "Revoke now d p e quarantine json = Inr d'"
  shows "\<exists>g. PendingRouteGeneration d' = Inr g \<and> map prefix_string (rgn_DesiredRoutes g) = live_routes now d'"
  using assms(2)
proof (rule Revoke_Inr)
  fix g assume d': "d' = add_audit now ''registration.revoked'' None (rg_ID g) json
            (createRouteGenerationTx now
              (quarantine_routes (rg_ID g) (now + quarantine) (withdraw now (rg_ID g) Revoked CertRevoked d)))"
  have "registry_inv (quarantine_routes (rg_ID g) (now + quarantine) (withdraw now (rg_ID g) Revoked CertRevoked d))"
    by (intro inv_quarantine_routes inv_withdraw) (simp_all add: assms(1))
  from generation_created [OF this, of now] show ?thesis by (simp add: d')
qed

text \<open>
  C32. Whenever a reachable registry approves a pending request or revokes a registration, the pending route
  generation read back afterwards lists exactly the prefixes of the registrations that are then live,
  in text order: the comma-separated encoding is decoded without loss.
\<close>

theorem generation_lists_live_routes:
  assumes "(registry_step sha)\<^sup>*\<^sup>* (start, empty_db) (t, d)" and "perform sha now d op = Inr d'"
    and "consumed d op \<noteq> None \<and> (\<exists>a. op = DoApprove a) \<or> (\<exists>p e q j. op = DoRevoke p e q j)"
  shows "\<exists>g. PendingRouteGeneration d' = Inr g \<and> map prefix_string (rgn_DesiredRoutes g) = live_routes now d'"
proof -
  have inv: "registry_inv d" using reg_machine.steps_inv [OF assms(1)] inv_empty by simp
  from assms(3) consider a where "op = DoApprove a" "consumed d op \<noteq> None" | p e q j where "op = DoRevoke p e q j"
    by blast
  then show ?thesis
  proof cases
    case 1
    with assms(2) obtain res c where "Approve sha now d a = Inr (d', res, c)" by (auto simp: and_then_Inr_iff)
    with inv 1 show ?thesis by (auto intro: approve_generation)
  next
    case 2 with assms(2) inv show ?thesis by (auto intro: revoke_generation)
  qed
qed

section \<open>Expiry\<close>

lemma expire_one_registrations:
  "registrations (expire_one now qd d g) =
     update_where (\<lambda>r. r_id r = rg_ID g) (\<lambda>r. r\<lparr>r_state := LeaseExpired, r_updated_at := now\<rparr>) (registrations d)"
  by (simp add: expire_one_def Let_def set_reg_state_def)

lemma expire_all_registrations:
  "registrations (foldl (expire_one now qd) d gs) =
     map (\<lambda>r. if r_id r \<in> rg_ID ` set gs then r\<lparr>r_state := LeaseExpired, r_updated_at := now\<rparr> else r)
       (registrations d)"
  by (induction gs arbitrary: d) (auto simp: expire_one_registrations update_where_def)

lemma Expire_registrations:
  assumes "distinct (map r_id (registrations d))" and "Expire now d qd = Inr (d', expired)"
  shows "registrations d' =
    map (\<lambda>r. if in_service r \<and> r_lease_expires_at r \<le> now
             then r\<lparr>r_state := LeaseExpired, r_updated_at := now\<rparr> else r) (registrations d)"
proof -
  note ex = Expire_Inr [OF assms(2)]
  let ?late = "filter (\<lambda>r. in_service r \<and> r_lease_expires_at r \<le> now) (registrations d)"
  have "map rg_ID expired = map r_id ?late" using ex by (simp add: scan_ids)
  then have ids: "rg_ID ` set expired = r_id ` set ?late" by (metis set_map)
  have "r_id r \<in> rg_ID ` set expired \<longleftrightarrow> in_service r \<and> r_lease_expires_at r \<le> now"
    if "r \<in> set (registrations d)" for r
    using that reg_unique [OF assms(1)] by (auto simp: ids)
  moreover have "registrations d' = registrations (foldl (expire_one now qd) d expired)"
    using ex by (simp add: Let_def purge_def)
  ultimately show ?thesis by (simp add: expire_all_registrations)
qed

lemma purge_quarantine:
  assumes "a \<in> set (route_allocations (purge now d))" and "a_state a = Quarantined" and "a_quarantine_until a = Some u"
  shows "u > now"
proof -
  let ?P = "\<lambda>a. a_state a = Quarantined \<and> (case a_quarantine_until a of None \<Rightarrow> False | Some u \<Rightarrow> u \<le> now)"
  from assms(1) obtain b where "a = (if ?P b then b\<lparr>a_state := Free, a_registration_id := None,
      a_quarantine_until := None\<rparr> else b)"
    by (auto simp: purge_def Let_def release_quarantine_def in_update_where simp del: set_update_where)
  then have "a = b" "\<not> ?P b" using assms(2) by (auto split: if_splits)
  with assms(2,3) show ?thesis by simp
qed

text \<open>
  C33. After an expiry run no registration in service has a lapsed lease, the live registrations are
  untouched, no replay record or quarantine that has lapsed remains, and every key that still counts as
  usable belongs to a live registration.
\<close>

theorem Expire_complete:
  assumes "(registry_step sha)\<^sup>*\<^sup>* (start, empty_db) (t, d)" and "Expire now d quarantine = Inr (d', expired)"
  shows "(\<forall>r \<in> set (registrations d'). in_service r \<longrightarrow> live now r)
    \<and> filter (live now) (registrations d') = filter (live now) (registrations d)
    \<and> (\<forall>x \<in> set (oidc_replays d'). o_expires_at x > now)
    \<and> (\<forall>a \<in> set (route_allocations d'). a_state a = Quarantined \<longrightarrow> (\<exists>u > now. a_quarantine_until a = Some u))
    \<and> (\<forall>k \<in> set (identity_keys d'). key_usable now k \<longrightarrow>
         (\<exists>r \<in> set (registrations d'). r_id r = k_registration_id k \<and> live now r))"
proof -
  have inv: "registry_inv d" using reg_machine.steps_inv [OF assms(1)] inv_empty by simp
  then have inv': "registry_inv d'" using assms(2) by (rule inv_Expire)
  have "distinct (map r_id (registrations d))" using inv by (simp add: registry_inv_def regs_ok_def)
  note regs = Expire_registrations [OF this assms(2)]
  have all: "\<forall>r \<in> set (registrations d'). in_service r \<longrightarrow> live now r"
    by (auto simp: regs in_service_def live_def)
  have "filter (live now) (map (\<lambda>r. if in_service r \<and> r_lease_expires_at r \<le> now
      then r\<lparr>r_state := LeaseExpired, r_updated_at := now\<rparr> else r) rows) = filter (live now) rows" for rows
    by (induction rows) (auto simp: live_def in_service_def)
  moreover have "\<exists>r \<in> set (registrations d'). r_id r = k_registration_id k \<and> live now r"
    if k: "k \<in> set (identity_keys d')" "key_usable now k" for k
  proof -
    have "k_registration_id k \<in> serving d'"
      using inv' k by (auto simp: registry_inv_def keys_ok_def key_usable_def)
    then show ?thesis using all by (auto simp: serving_def)
  qed
  moreover have "\<exists>u > now. a_quarantine_until a = Some u"
    if a: "a \<in> set (route_allocations d')" "a_state a = Quarantined" for a
  proof -
    obtain u where u: "a_quarantine_until a = Some u"
      using inv' a by (auto simp: registry_inv_def allocs_ok_def alloc_ok_def)
    moreover have "u > now" using a u Expire_Inr [OF assms(2)] by (auto intro: purge_quarantine)
    ultimately show ?thesis by blast
  qed
  ultimately show ?thesis using all replays_Expire [OF assms(2)] by (simp add: regs)
qed

section \<open>Revocation and renewal\<close>

text \<open>A registration out of service has no usable key and no credential.\<close>

lemma out_of_service:
  assumes "registry_inv d" and "i \<notin> serving d"
  shows "ActiveIdentityKey t d i key = Inl ErrNotFound" and "CredentialOf d i = Inl ErrNotFound"
proof -
  have "List.find (\<lambda>k. k_registration_id k = i \<and> k_key_id k = key \<and> key_usable t k) (identity_keys d) = None"
    using assms by (auto simp: find_None_iff registry_inv_def keys_ok_def key_usable_def)
  then show "ActiveIdentityKey t d i key = Inl ErrNotFound" by (simp add: ActiveIdentityKey_def)
  have "filter (\<lambda>c. c_registration_id c = i \<and> c_state c = CertActive) (certificates d) = []"
    using assms by (auto simp: registry_inv_def certs_ok_def cert_live_def filter_empty_conv)
  then show "CredentialOf d i = Inl ErrNotFound" by (simp add: CredentialOf_def)
qed

text \<open>
  C34. Revocation cuts an identity off at once: in a reachable registry, after \<^verbatim>\<open>Revoke\<close> no key of the
  registration is usable, it has no credential, and every renewal of it is refused.
\<close>

theorem Revoke_cuts_off:
  assumes "(registry_step sha)\<^sup>*\<^sup>* (start, empty_db) (t, d)"
    and "Registration_of d p e = Inr g" and "Revoke now d p e quarantine json = Inr d'"
  shows "ActiveIdentityKey t' d' (rg_ID g) key = Inl ErrNotFound \<and> CredentialOf d' (rg_ID g) = Inl ErrNotFound
    \<and> Renew t' d' g key pem cid cert_end lease = Inl ErrRequestExpired"
proof -
  have inv: "registry_inv d" using reg_machine.steps_inv [OF assms(1)] inv_empty by simp
  then have inv': "registry_inv d'" using assms(3) by (rule inv_Revoke)
  let ?w = "withdraw now (rg_ID g) Revoked CertRevoked d"
  have g: "registrationByIdentityTx d p e = Inr g"
    using assms(2) by (simp add: registrationByIdentityTx_def Registration_of_def)
  from assms(3) g have regs: "registrations d' = registrations (set_reg_state now (rg_ID g) Revoked d)"
    by (auto simp: withdraw_def elim!: Revoke_Inr)
  then have out: "rg_ID g \<notin> serving d'"
    using serving_withdrawn [of Revoked now "rg_ID g" d] by (simp add: serving_def)
  have "Renew t' d' g key pem cid cert_end lease = Inl ErrRequestExpired"
  proof (cases "registrationByIdentityTx d' (rg_ProjectID g) (rg_EnvironmentID g)")
    case (Inr c)
    then obtain r where "r \<in> set (registrations d')" "rg_ID c = r_id r" "rg_State c = r_state r"
      by (rule by_identity_in)
    then have "rg_ID c \<noteq> rg_ID g \<or> rg_State c \<noteq> Approved \<and> rg_State c \<noteq> Ready"
      using out unfolding serving_def in_service_def by (auto intro: rev_image_eqI)
    then show ?thesis by (auto simp: Renew_def Inr)
  qed (simp add: Renew_def)
  then show ?thesis using out_of_service [OF inv' out] by simp
qed

text \<open>
  A successful renewal happens only for a live registration with a usable key, and afterwards the
  credential of the registration is exactly the new certificate.
\<close>

theorem Renew_replaces_credential:
  assumes "Renew now d reg key pem cid cert_end lease = Inr (d', res)"
  shows "CredentialOf d' (rg_ID reg) =
      Inr \<lparr>cr_CertificatePEM = pem, cr_NotAfter = cert_end, cr_IdentityKeyID = key\<rparr>
    \<and> (\<exists>r \<in> set (registrations d). r_id r = rg_ID reg \<and> live now r)
    \<and> (\<exists>k \<in> set (identity_keys d). k_registration_id k = rg_ID reg \<and> k_key_id k = key \<and> key_usable now k)"
  using assms
proof (cases rule: Renew_cases)
  case (1 current d1)
  let ?i = "rg_ID reg"
  have "set (filter cert_live (certificates (retire_certificates CertSuperseded ?i d1))) \<subseteq> {c. c_registration_id c \<noteq> ?i}"
    by (subst filter_retire) auto
  then have "\<forall>c \<in> set (certificates (retire_certificates CertSuperseded ?i d1)). \<not> (c_registration_id c = ?i \<and> c_state c = CertActive)"
    by (auto simp: cert_live_def)
  then have "filter (\<lambda>c. c_registration_id c = ?i \<and> c_state c = CertActive) (certificates d') =
      [new_certificate now ?i key cid pem cert_end]"
    by (auto simp: 1(8) add_audit_def add_lease_def new_certificate_def filter_empty_conv)
  moreover obtain r where "r \<in> set (registrations d)" "rg_ID current = r_id r" "rg_State current = r_state r"
    "rg_LeaseExpiresAt current = r_lease_expires_at r"
    using 1(1) by (rule by_identity_in)
  ultimately show ?thesis
    using 1 by (auto simp: CredentialOf_def new_certificate_def live_def in_service_def)
qed

end
