(* ===== verification/Registry_Findings.thy ===== *)
theory Registry_Findings
  imports Registry_Props
begin

text \<open>
  A sample history of the registry, evaluated by the kernel, that instantiates the theorems about
  reachable states; and three situations in which the registry gets stuck or inconsistent: a prefix
  that is released from quarantine blocks every later approval of a new identity, a re-approved
  registration keeps its prefix in quarantine, and an expired request with another key is never
  replaced.
\<close>

section \<open>Histories\<close>

fun run_ops :: "(bytes \<Rightarrow> bytes) \<Rightarrow> db \<Rightarrow> (time \<times> operation) list \<Rightarrow> registry_error + db" where
  "run_ops sha d [] = Inr d"
| "run_ops sha d ((now, op) # ops) = and_then (perform sha now d op) (\<lambda>d'. run_ops sha d' ops)"

lemma run_ops_reach:
  assumes "run_ops sha d ops = Inr d'" and "sorted (now # map fst ops)" and "\<forall>(_, op) \<in> set ops. admissible op"
  shows "\<exists>t. (registry_step sha)\<^sup>*\<^sup>* (now, d) (t, d') \<and> t = last (now # map fst ops)"
  using assms
proof (induction ops arbitrary: d now)
  case (Cons x ops)
  obtain t op where x: "x = (t, op)" by (cases x)
  from Cons.prems(1) obtain d1 where d1: "perform sha t d op = Inr d1" "run_ops sha d1 ops = Inr d'"
    by (auto simp: x and_then_Inr_iff)
  have "registry_step sha (now, d) (t, d1)"
    using Cons.prems(2,3) d1(1) by (intro committed) (auto simp: x)
  moreover obtain u where "(registry_step sha)\<^sup>*\<^sup>* (t, d1) (u, d')" "u = last (t # map fst ops)"
    using Cons.IH [OF d1(2), of t] Cons.prems(2,3) by (auto simp: x)
  ultimately show ?case by (auto simp: x intro: converse_rtranclp_into_rtranclp)
qed auto

lemma run_ops_append: "run_ops sha d (xs @ ys) = and_then (run_ops sha d xs) (\<lambda>d'. run_ops sha d' ys)"
proof (induction xs arbitrary: d)
  case (Cons x xs)
  then show ?case by (cases x; cases "perform sha (fst x) d (snd x)") auto
qed simp

definition sample_request :: "string \<Rightarrow> string \<Rightarrow> string \<Rightarrow> byte \<Rightarrow> PendingRequest" where
  "sample_request i project env key =
     \<lparr>pr_ID = i, pr_Kind = ''enroll'', pr_ProjectID = project, pr_EnvironmentID = env,
      pr_EnvironmentName = env, pr_ProjectAlias = project, pr_EnvironmentAlias = env,
      pr_IdentityKey = replicate 32 key, pr_IdentityKeyID = [], pr_TransportKey = [],
      pr_Proof = replicate 32 0, pr_SourceAddress = ''fd7a::1'', pr_CreatedAt = zero_time,
      pr_ExpiresAt = zero_time, pr_State = Pending\<rparr>"

definition net16 :: "nat \<Rightarrow> prefix" where
  "net16 h = Prefix (V6 (base16 h) []) 16"

definition sample_approval :: "string \<Rightarrow> string \<Rightarrow> time \<Rightarrow> Approval" where
  "sample_approval request jti until =
     \<lparr>ap_RequestID = request, ap_ProviderID = ''github'', ap_JTI = jti, ap_JTIExpiresAt = until,
      ap_LeaseClass = ''preview'', ap_LeaseDuration = hours 72, ap_RealPrefix = net16 0xfd12,
      ap_CertificatePEM = [1], ap_CertificateID = jti, ap_CertificateEnd = hours 24, ap_AuditJSON = ''{}''\<rparr>"

lemma net16_text:
  "prefix_string (net16 0xfd20) = ''fd20::/16''" "prefix_string (net16 0xfd21) = ''fd21::/16''"
  "prefix_string (net16 0xfd12) = ''fd12::/16''"
proof -
  have "hex_string 0xfd20 = ''fd20''" "hex_string 0xfd21 = ''fd21''" "hex_string 0xfd12 = ''fd12''" by code_simp+
  then show "prefix_string (net16 0xfd20) = ''fd20::/16''" "prefix_string (net16 0xfd21) = ''fd21::/16''"
    "prefix_string (net16 0xfd12) = ''fd12::/16''"
    by (simp_all add: net16_def prefix_string_base16 string6_base16)
qed

lemma net16_parse:
  "parse_prefix ''fd20::/16'' = Some (net16 0xfd20)" "parse_prefix ''fd21::/16'' = Some (net16 0xfd21)"
  "parse_prefix ''fd12::/16'' = Some (net16 0xfd12)"
  using parse_prefix_string [of "net16 0xfd20"] parse_prefix_string [of "net16 0xfd21"]
    parse_prefix_string [of "net16 0xfd12"]
  by (simp_all only: net16_text) (simp_all add: net16_def)

lemma text_order: "''fd20::/16'' \<le> ''fd21::/16''"
  by code_simp

text \<open>A pool of two prefixes.\<close>

definition sample_pool :: db where
  "sample_pool = empty_db\<lparr>route_allocations :=
     [\<lparr>a_prefix = ''fd20::/16'', a_state = Free, a_registration_id = None, a_quarantine_until = None\<rparr>,
      \<lparr>a_prefix = ''fd21::/16'', a_state = Free, a_registration_id = None, a_quarantine_until = None\<rparr>]\<rparr>"

lemma sample_pool_step:
  "perform id 1 empty_db (DoInitializePool (Prefix (V6 (base16 0xfd20) []) 15) []) = Inr sample_pool"
proof -
  have n: "pool_network (Prefix (V6 (base16 0xfd20) []) 15)" by code_simp
  have s: "slotPrefix (V6 (base16 0xfd20) []) 0 = net16 0xfd20" "slotPrefix (V6 (base16 0xfd20) []) 1 = net16 0xfd21"
    using slotPrefix_base16 [of "0xfd20" 0] slotPrefix_base16 [of "0xfd20" 1] by (simp_all add: net16_def)
  show ?thesis
    using s by (simp add: InitializePool_def n insert_free_def sample_pool_def empty_db_def net16_text
        numeral_2_eq_2 upt_rec)
qed

text \<open>A project enrols and is approved.\<close>

definition sample_requested :: db where
  "sample_requested = sample_pool\<lparr>pending_requests := [fill_request id 2 (sample_request ''r1'' ''one'' ''main'' 1)]\<rparr>"

lemma sample_requested_step:
  "perform id 2 sample_pool (DoCreatePending (sample_request ''r1'' ''one'' ''main'' 1)) = Inr sample_requested"
  by (simp add: CreatePending_def request_valid_def sample_request_def fill_request_def Let_def
      identity_conflict_def sample_pool_def empty_db_def newest_pending_def pending_of_def
      insert_pending_def unexpired_pending_def count_where_def sample_requested_def)

definition sample_key :: string where
  "sample_key = Fingerprint id (replicate 32 1)"

definition sample_db :: db where
  "sample_db =
     \<lparr>registrations = [\<lparr>r_id = 1, r_project_id = ''one'', r_environment_id = ''main'',
        r_environment_name = ''main'', r_project_alias = ''one'', r_environment_alias = ''main'',
        r_state = Approved, r_identity_type = DynamicV3, r_lease_class = ''preview'',
        r_lease_expires_at = 3 + hours 72, r_virtual_prefix = ''fd20::/16'', r_real_prefix = ''fd12::/16'',
        r_created_at = 3, r_updated_at = 3\<rparr>],
      pending_requests = [(fill_request id 2 (sample_request ''r1'' ''one'' ''main'' 1))\<lparr>pr_State := RequestApproved\<rparr>],
      identity_keys = [\<lparr>k_registration_id = 1, k_key_id = sample_key, k_public_key = replicate 32 1,
        k_state = KeyActive, k_created_at = 3, k_rotate_after = add_years 1 3, k_overlap_until = None\<rparr>],
      certificates = [new_certificate 3 1 sample_key ''j1'' [1] (hours 24)],
      leases = [\<lparr>l_registration_id = 1, l_lease_class = ''preview'', l_starts_at = 3,
        l_expires_at = 3 + hours 72, l_renewed_at = 3, l_source = ''approval''\<rparr>],
      route_allocations =
        [\<lparr>a_prefix = ''fd20::/16'', a_state = Allocated, a_registration_id = Some 1, a_quarantine_until = None\<rparr>,
         \<lparr>a_prefix = ''fd21::/16'', a_state = Free, a_registration_id = None, a_quarantine_until = None\<rparr>],
      route_generations = [\<lparr>g_id = 1, g_desired_routes = ''fd20::/16'', g_state = GenPending,
        g_created_at = 3, g_applied_at = None, g_last_error = []\<rparr>],
      oidc_replays = [\<lparr>o_provider_id = ''github'', o_jti_hash = jti_hash id ''github'' ''j1'',
        o_expires_at = minutes 5\<rparr>],
      audit_events = [\<lparr>e_event_type = ''registration.approved'', e_request_id = Some ''r1'',
        e_registration_id = Some 1, e_occurred_at = 3, e_data_json = ''{}''\<rparr>]\<rparr>"

lemmas registry_eval = Approve_def pendingTx_def insert_replay_def find_or_create_def
  registrationByIdentityTx_def identity_row_def scanRegistration_def create_registration_def
  allocatePrefixTx_def release_quarantine_def update_where_def count_where_def Let_def
  set_registrations_def unique_regs_def new_registration_def assign_route_def registrationByIDTx_def
  activate_registration_def finish_approval_def activate_key_def store_certificate_def
  retire_certificates_def new_certificate_def add_lease_def add_audit_def approve_request_def
  createRouteGenerationTx_def next_id_def Registration_of_def live_def in_service_def

lemmas sample_eval = sample_approval_def sample_request_def fill_request_def net16_text net16_parse
  text_order zero_time_def sample_key_def

lemma sample_db_step:
  "perform id 3 sample_requested (DoApprove (sample_approval ''r1'' ''j1'' (minutes 5))) = Inr sample_db"
  by (simp add: registry_eval sample_eval sample_requested_def sample_pool_def empty_db_def sample_db_def)

lemma sample_reach_requested: "(registry_step id)\<^sup>*\<^sup>* (0, empty_db) (2, sample_requested)"
proof -
  have "registry_step id (0, empty_db) (1, sample_pool)"
    by (rule committed [OF _ _ sample_pool_step]) simp_all
  moreover have "registry_step id (1, sample_pool) (2, sample_requested)"
    by (rule committed [OF _ _ sample_requested_step]) simp_all
  ultimately show ?thesis by (meson converse_rtranclp_into_rtranclp rtranclp.rtrancl_refl)
qed

lemma sample_reach: "(registry_step id)\<^sup>*\<^sup>* (0, empty_db) (3, sample_db)"
proof -
  have "registry_step id (2, sample_requested) (3, sample_db)"
    by (rule committed [OF _ _ sample_db_step]) simp_all
  with sample_reach_requested show ?thesis by (rule rtranclp.rtrancl_into_rtrancl)
qed

text \<open>Half an hour later the registration is revoked.\<close>

definition sample_revoked :: db where
  "sample_revoked = projr (Revoke (minutes 30) sample_db ''one'' ''main'' (hours 24) ''{}'')"

lemmas revoke_eval = Revoke_def set_reg_state_def retire_keys_def quarantine_routes_def

lemma sample_revoked_step:
  "Revoke (minutes 30) sample_db ''one'' ''main'' (hours 24) ''{}'' = Inr sample_revoked"
  by (simp add: revoke_eval registry_eval sample_eval sample_db_def sample_revoked_def)

text \<open>When the quarantine is over, a second project and the first one, with a new key, ask again.\<close>

definition sample_asked :: "string \<Rightarrow> db" where
  "sample_asked project = sample_revoked\<lparr>pending_requests := pending_requests sample_revoked @
     [fill_request id (hours 25) (sample_request ''r2'' project ''main'' 2)]\<rparr>"

lemma sample_asked_step:
  assumes "project \<in> {''one'', ''two''}"
  shows "perform id (hours 25) sample_revoked (DoCreatePending (sample_request ''r2'' project ''main'' 2)) =
    Inr (sample_asked project)"
  using assms
  by (auto simp: sample_asked_def sample_revoked_def CreatePending_def request_valid_def identity_conflict_def newest_pending_def
      pending_of_def insert_pending_def unexpired_pending_def
      revoke_eval registry_eval sample_eval sample_db_def)

lemma sample_reach_asked:
  assumes "project \<in> {''one'', ''two''}"
  shows "(registry_step id)\<^sup>*\<^sup>* (0, empty_db) (hours 25, sample_asked project)"
proof -
  have "registry_step id (3, sample_db) (minutes 30, sample_revoked)"
    by (rule committed [where op = "DoRevoke ''one'' ''main'' (hours 24) ''{}''"])
      (use sample_revoked_step in simp_all)
  moreover have "registry_step id (minutes 30, sample_revoked) (hours 25, sample_asked project)"
    by (rule committed [OF _ _ sample_asked_step [OF assms]]) simp_all
  ultimately show ?thesis using sample_reach by (meson rtranclp.rtrancl_into_rtrancl)
qed

section \<open>A released prefix blocks approvals\<close>

lemma scan_None: "identity_row d p e = None \<Longrightarrow> registrationByIdentityTx d p e = Inl ErrNotFound"
  by (simp add: registrationByIdentityTx_def scanRegistration_def)

lemma filter_one:
  "distinct (map f xs) \<Longrightarrow> b \<in> set xs \<Longrightarrow> P b \<Longrightarrow> filter (\<lambda>a. f a = f b \<and> P a) xs = [b]"
  by (induction xs) (auto simp: filter_empty_conv rev_image_eqI)

lemma create_blocked:
  assumes inv: "registry_inv d"
    and free: "sort (map a_prefix (filter (\<lambda>a. a_state a = Free) (route_allocations (release_quarantine now d)))) = raw # rest"
    and used: "raw \<in> r_virtual_prefix ` set (registrations d)"
  shows "create_registration now d q a = Inl UniqueConstraint"
proof -
  let ?r = "release_quarantine now d"
  have r: "allocs_ok ?r" using inv_release_quarantine [OF inv] by (simp add: registry_inv_def)
  have "raw \<in> set (map a_prefix (filter (\<lambda>a. a_state a = Free) (route_allocations ?r)))"
    using free by (metis list.set_intros(1) set_sort)
  then obtain b where b: "b \<in> set (route_allocations ?r)" "a_state b = Free" "a_prefix b = raw" by auto
  have "distinct (map a_prefix (route_allocations ?r))" using r by (simp add: allocs_ok_def)
  then have "filter (\<lambda>a. a_prefix a = raw \<and> a_state a = Free) (route_allocations ?r) = [b]"
    using filter_one [of a_prefix "route_allocations ?r" b "\<lambda>a. a_state a = Free"] b by simp
  then have one: "count_where (\<lambda>a. a_prefix a = raw \<and> a_state a = Free) (route_allocations ?r) = 1"
    by (simp add: count_where_def)
  from r b obtain p where p: "canonical16 p" "raw = prefix_string p"
    by (auto simp: allocs_ok_def alloc_ok_def text16_def)
  have "\<not> unique_regs (registrations d @ [new_registration now q a p i])" for i
    using used p(2) by (auto simp: unique_regs_def new_registration_def)
  then show ?thesis
    using free one p by (simp add: create_registration_def allocatePrefixTx_def parse_prefix_string
        set_registrations_def Let_def)
qed

text \<open>
  C35. Finding: a prefix that has come back from quarantine stays recorded in the old registration's
  row, whose \<^verbatim>\<open>virtual_prefix\<close> column is \<^verbatim>\<open>UNIQUE\<close>. As soon as such a prefix is the first free one, the
  approval of any new identity fails on that constraint, however many other prefixes are free.
\<close>

theorem released_prefix_blocks_approval:
  assumes "(registry_step sha)\<^sup>*\<^sup>* (start, empty_db) (t, d)"
    and "pendingTx d (ap_RequestID a) = Inr q" and "pr_State q = Pending" and "pr_ExpiresAt q > now"
    and "ap_JTI a \<noteq> []" and "ap_JTIExpiresAt a > now"
    and "\<not> list_ex (\<lambda>x. o_provider_id x = ap_ProviderID a \<and> o_jti_hash x = jti_hash sha (ap_ProviderID a) (ap_JTI a))
           (oidc_replays d)"
    and "identity_row d (pr_ProjectID q) (pr_EnvironmentID q) = None"
    and "sort (map a_prefix (filter (\<lambda>a. a_state a = Free) (route_allocations (release_quarantine now d)))) = raw # rest"
    and "raw \<in> r_virtual_prefix ` set (registrations d)"
  shows "Approve sha now d a = Inl UniqueConstraint"
proof -
  define d1 where "d1 = d\<lparr>oidc_replays := oidc_replays d @ [\<lparr>o_provider_id = ap_ProviderID a,
      o_jti_hash = jti_hash sha (ap_ProviderID a) (ap_JTI a), o_expires_at = ap_JTIExpiresAt a\<rparr>]\<rparr>"
  have ins: "insert_replay d (ap_ProviderID a) (jti_hash sha (ap_ProviderID a) (ap_JTI a)) (ap_JTIExpiresAt a) = Inr d1"
    using assms(7) by (simp add: insert_replay_def d1_def)
  have "registry_inv d" using reg_machine.steps_inv [OF assms(1)] inv_empty by simp
  then have "registry_inv d1" using ins by (rule inv_insert_replay)
  moreover have "identity_row d1 (pr_ProjectID q) (pr_EnvironmentID q) = None"
    using assms(8) by (simp add: identity_row_def d1_def)
  ultimately have "find_or_create now d1 q a = Inl UniqueConstraint"
    using create_blocked [of d1 now raw rest q a] assms(9,10)
    by (simp add: find_or_create_def scan_None d1_def release_quarantine_def)
  then show ?thesis using assms(2-6) ins by (simp add: Approve_def)
qed

section \<open>A re-approved registration stays in quarantine\<close>

lemma allocations_frame:
  "route_allocations (finish_approval now i q a d) = route_allocations d"
  by (simp add: finish_approval_def add_audit_def createRouteGenerationTx_def approve_request_def
      add_lease_def store_certificate_def activate_key_def retire_certificates_def Let_def)

text \<open>
  Finding: approving an identity that already has a registration, revoked or expired, does not touch
  the prefix allocations. The registration is live again, while its prefix stays quarantined and is later
  released as free.
\<close>

theorem reapproval_keeps_quarantine:
  assumes "(registry_step sha)\<^sup>*\<^sup>* (start, empty_db) (t, d)"
    and "Approve sha now d a = Inr (d', res, False)" and "consumed d (DoApprove a) \<noteq> None"
    and "ap_LeaseDuration a > 0"
  shows "route_allocations d' = route_allocations d \<and>
    (\<exists>q r. pendingTx d (ap_RequestID a) = Inr q \<and> r \<in> set (registrations d') \<and>
       r_identity r = pr_identity q \<and> live now r)"
  using assms(2)
proof (cases rule: Approve_cases)
  case (approved q d1 d2 d3 i)
  have inv: "registry_inv d" using reg_machine.steps_inv [OF assms(1)] inv_empty by simp
  from approved(7) obtain g where g: "registrationByIdentityTx d1 (pr_ProjectID q) (pr_EnvironmentID q) = Inr g"
    and d2: "d2 = d1" "i = rg_ID g"
    by (auto simp: find_or_create_def and_then_Inr_iff split: sum.splits registry_error.splits)
  from approved(6) have tables: "registrations d1 = registrations d" "route_allocations d1 = route_allocations d"
    by (auto simp: insert_replay_def split: if_splits)
  from g obtain r where r: "r \<in> set (registrations d)" "r_identity r = pr_identity q" "rg_ID g = r_id r"
    by (rule by_identity_in) (use tables in auto)
  let ?r = "r\<lparr>r_environment_name := pr_EnvironmentName q, r_project_alias := pr_ProjectAlias q,
      r_environment_alias := pr_EnvironmentAlias q, r_state := Approved, r_identity_type := DynamicV3,
      r_lease_class := ap_LeaseClass a, r_lease_expires_at := now + ap_LeaseDuration a,
      r_real_prefix := prefix_string (ap_RealPrefix a), r_updated_at := now\<rparr>"
  have "?r \<in> set (registrations d3)" and al: "route_allocations d3 = route_allocations d"
    using approved(8) r tables by (auto simp: activate_registration_def set_registrations_Inr d2)
  then have "?r \<in> set (registrations d')" "r_identity ?r = pr_identity q" "live now ?r"
    using r assms(4) by (auto simp: approved(9) finish_approval_def live_def in_service_def)
  with al approved(1) show ?thesis by (metis approved(9) allocations_frame)
qed (use assms(3) in simp)

section \<open>An expired request is never replaced by another key\<close>

text \<open>
  Finding: an open request with another identity key makes \<^verbatim>\<open>CreatePending\<close> refuse the identity even
  after that request has expired: the key is compared before the expiry is looked at.
\<close>

theorem expired_request_blocks_other_key:
  assumes "request_valid request"
    and "newest_pending d (pr_ProjectID request) (pr_EnvironmentID request) = Some old"
    and "pr_ExpiresAt old \<le> now"
    and "pr_IdentityKeyID old \<noteq> Fingerprint sha (pr_IdentityKey request)"
  shows "CreatePending sha now d request = Inl ErrIdentityConflict"
  using assms by (auto simp: CreatePending_def fill_request_def Let_def)

section \<open>The theorems at the sample history\<close>

theorem registry_reachable_inv_witness: "registry_inv sample_db \<and> length (registrations sample_db) = 1"
  using registry_reachable_inv [OF sample_reach] by (simp add: sample_db_def)

theorem token_accepted_once_witness:
  "\<exists>e. perform id (minutes 1) sample_db (DoConsumeReplay ''github'' ''j1'' (minutes 5)) = Inl e"
proof (rule token_accepted_once [OF sample_db_step])
  show "consumed sample_requested (DoApprove (sample_approval ''r1'' ''j1'' (minutes 5))) =
      Some (''github'', ''j1'', minutes 5)"
    by (simp add: pendingTx_def sample_requested_def sample_eval)
  show "(registry_step id)\<^sup>*\<^sup>* (3, sample_db) (3, sample_db)" by simp
qed simp_all

theorem pending_limits_witness:
  "unexpired_pending 2 (\<lambda>p. pr_ProjectID p = ''one'') (pending_requests sample_requested) \<le> 10"
  using pending_limits [OF sample_reach_requested] by blast

theorem active_prefixes_disjoint_witness:
  "\<exists>regs. ActiveRegistrations 4 sample_db = Inr regs \<and> length regs = 1
     \<and> pairwise_disjoint (map rg_VirtualPrefix regs)"
proof -
  have "\<exists>regs. ActiveRegistrations 4 sample_db = Inr regs \<and> length regs = 1"
    by (simp add: ActiveRegistrations_def registry_eval sample_eval sample_db_def)
  with active_prefixes_disjoint [OF sample_reach] show ?thesis by blast
qed

theorem generation_lists_live_routes_witness:
  "\<exists>g. PendingRouteGeneration sample_db = Inr g \<and> map prefix_string (rgn_DesiredRoutes g) = live_routes 3 sample_db"
proof (rule generation_lists_live_routes [OF sample_reach_requested sample_db_step])
  show "consumed sample_requested (DoApprove (sample_approval ''r1'' ''j1'' (minutes 5))) \<noteq> None
      \<and> (\<exists>a. DoApprove (sample_approval ''r1'' ''j1'' (minutes 5)) = DoApprove a)
    \<or> (\<exists>p e q j. DoApprove (sample_approval ''r1'' ''j1'' (minutes 5)) = DoRevoke p e q j)"
    by (simp add: pendingTx_def sample_requested_def sample_eval)
qed

theorem Expire_complete_witness:
  "\<exists>d' expired. Expire (hours 73) sample_db (hours 24) = Inr (d', expired) \<and> length expired = 1
     \<and> filter (live (hours 73)) (registrations d') = filter (live (hours 73)) (registrations sample_db)"
proof -
  have "\<exists>d' expired. Expire (hours 73) sample_db (hours 24) = Inr (d', expired) \<and> length expired = 1"
    by (simp add: Expire_def registry_eval sample_eval sample_db_def)
  with Expire_complete [OF sample_reach] show ?thesis by blast
qed

theorem Revoke_cuts_off_witness:
  "\<exists>g. Registration_of sample_db ''one'' ''main'' = Inr g
     \<and> ActiveIdentityKey (hours 1) sample_revoked (rg_ID g) sample_key = Inl ErrNotFound
     \<and> Renew (hours 1) sample_revoked g sample_key [2] ''j3'' (hours 48) (hours 72) = Inl ErrRequestExpired"
proof -
  obtain g where g: "Registration_of sample_db ''one'' ''main'' = Inr g"
    by (simp add: registry_eval sample_eval sample_db_def)
  with Revoke_cuts_off [OF sample_reach g sample_revoked_step] show ?thesis by blast
qed

theorem Renew_replaces_credential_witness:
  "\<exists>g d' res. Registration_of sample_db ''one'' ''main'' = Inr g
     \<and> Renew (hours 1) sample_db g sample_key [2] ''j3'' (hours 48) (hours 72) = Inr (d', res)
     \<and> CredentialOf d' (rg_ID g) =
         Inr \<lparr>cr_CertificatePEM = [2], cr_NotAfter = hours 48, cr_IdentityKeyID = sample_key\<rparr>"
proof -
  have "\<exists>g d' res. Registration_of sample_db ''one'' ''main'' = Inr g
     \<and> Renew (hours 1) sample_db g sample_key [2] ''j3'' (hours 48) (hours 72) = Inr (d', res)"
    by (simp add: registry_eval Renew_def key_usable_def extend_lease_def sample_eval sample_db_def)
  with Renew_replaces_credential show ?thesis by blast
qed

theorem released_prefix_blocks_approval_witness:
  "Approve id (hours 25) (sample_asked ''two'') (sample_approval ''r2'' ''j2'' (hours 26)) = Inl UniqueConstraint
   \<and> count_where (\<lambda>a. a_state a = Free) (route_allocations (release_quarantine (hours 25) (sample_asked ''two''))) = 2"
proof -
  let ?q = "fill_request id (hours 25) (sample_request ''r2'' ''two'' ''main'' 2)"
  note tables = sample_asked_def sample_revoked_def revoke_eval registry_eval sample_eval sample_db_def
  have reach: "(registry_step id)\<^sup>*\<^sup>* (0, empty_db) (hours 25, sample_asked ''two'')"
    by (rule sample_reach_asked) simp
  have "Approve id (hours 25) (sample_asked ''two'') (sample_approval ''r2'' ''j2'' (hours 26)) = Inl UniqueConstraint"
  proof (rule released_prefix_blocks_approval [OF reach, where q = ?q and raw = "''fd20::/16''" and rest = "[''fd21::/16'']"])
    show "\<not> list_ex (\<lambda>x. o_provider_id x = ap_ProviderID (sample_approval ''r2'' ''j2'' (hours 26)) \<and>
        o_jti_hash x = jti_hash id (ap_ProviderID (sample_approval ''r2'' ''j2'' (hours 26)))
          (ap_JTI (sample_approval ''r2'' ''j2'' (hours 26)))) (oidc_replays (sample_asked ''two''))"
      by (simp add: tables jti_hash_def text_bytes_def nul_def)
  qed (simp_all add: tables)
  moreover have "count_where (\<lambda>a. a_state a = Free)
      (route_allocations (release_quarantine (hours 25) (sample_asked ''two''))) = 2"
    by (simp add: tables)
  ultimately show ?thesis by simp
qed

theorem reapproval_keeps_quarantine_witness:
  "\<exists>d' res. Approve id (hours 25) (sample_asked ''one'') (sample_approval ''r2'' ''j2'' (hours 26)) = Inr (d', res, False)
     \<and> route_allocations d' = route_allocations (sample_asked ''one'')
     \<and> list_ex (\<lambda>a. a_state a = Quarantined) (route_allocations (sample_asked ''one''))"
proof -
  note tables = sample_asked_def sample_revoked_def revoke_eval registry_eval sample_eval sample_db_def
  have h: "jti_hash id ''github'' ''j1'' \<noteq> jti_hash id ''github'' ''j2''"
    by (simp add: jti_hash_def text_bytes_def nul_def)
  have k: "Fingerprint id (replicate 32 1) \<noteq> Fingerprint id (replicate 32 2)" by code_simp
  obtain d' res where ok: "Approve id (hours 25) (sample_asked ''one'') (sample_approval ''r2'' ''j2'' (hours 26)) =
      Inr (d', res, False)"
    using h k by (simp add: tables)
  have reach: "(registry_step id)\<^sup>*\<^sup>* (0, empty_db) (hours 25, sample_asked ''one'')"
    by (rule sample_reach_asked) simp
  have c: "consumed (sample_asked ''one'') (DoApprove (sample_approval ''r2'' ''j2'' (hours 26))) \<noteq> None"
    "ap_LeaseDuration (sample_approval ''r2'' ''j2'' (hours 26)) > 0"
    by (simp_all add: tables)
  have "list_ex (\<lambda>a. a_state a = Quarantined) (route_allocations (sample_asked ''one''))"
    by (simp add: tables)
  with reapproval_keeps_quarantine [OF reach ok c] ok show ?thesis by blast
qed

theorem expired_request_blocks_other_key_witness:
  "CreatePending id (hours 1) sample_requested (sample_request ''r9'' ''one'' ''main'' 2) = Inl ErrIdentityConflict"
proof (rule expired_request_blocks_other_key)
  show "request_valid (sample_request ''r9'' ''one'' ''main'' 2)"
    by (simp add: request_valid_def sample_request_def)
  show "newest_pending sample_requested (pr_ProjectID (sample_request ''r9'' ''one'' ''main'' 2))
      (pr_EnvironmentID (sample_request ''r9'' ''one'' ''main'' 2)) =
    Some (fill_request id 2 (sample_request ''r1'' ''one'' ''main'' 1))"
    by (simp add: newest_pending_def pending_of_def sample_requested_def sample_eval)
  show "pr_ExpiresAt (fill_request id 2 (sample_request ''r1'' ''one'' ''main'' 1)) \<le> hours 1"
    by (simp add: sample_eval)
  have "Fingerprint id (replicate 32 1) \<noteq> Fingerprint id (replicate 32 2)" by code_simp
  then show "pr_IdentityKeyID (fill_request id 2 (sample_request ''r1'' ''one'' ''main'' 1)) \<noteq>
      Fingerprint id (pr_IdentityKey (sample_request ''r9'' ''one'' ''main'' 2))"
    by (simp add: sample_eval)
qed

end
