(* ===== verification/Status.thy ===== *)
theory Status
  imports Registry Machine "HOL-Library.AList"
begin

text \<open>
  Package \<^verbatim>\<open>internal/status\<close>: readiness of the configured connectors, session bookkeeping, QUIC
  observers, registry metrics, histograms and the admin HTTP handlers. The connector map is an
  association list with unique keys (Go visits it in an arbitrary order). Byte counters are 64-bit words;
  gauges are integers. Latencies are kept in nanoseconds, so the rounding of \<^verbatim>\<open>float64\<close> seconds is left out.
\<close>

section \<open>Data\<close>

record Connector =
  cn_ConnectorID :: string
  cn_Slot :: int
  cn_VirtualPrefix :: string
  cn_RealPrefix :: string
  cn_Ready :: bool
  cn_SessionID :: string
  cn_SessionAgeSeconds :: int
  cn_QUICSmoothedRTTMicroseconds :: int
  cn_QUICBytesSent :: u64
  cn_QUICBytesReceived :: u64
  cn_QUICBytesLost :: u64
  cn_sessionStartedAt :: time

record quicMetrics =
  qm_observer :: u64
  qm_rtt :: int
  qm_sent :: u64
  qm_received :: u64
  qm_lost :: u64
  qm_sendRate :: u64
  qm_receiveRate :: u64

record metricHistogram =
  mh_count :: nat
  mh_sum :: duration
  mh_buckets :: "nat list"

text \<open>What \<^verbatim>\<open>quic.Conn.ConnectionStats\<close> reports.\<close>

record ConnectionStats =
  cs_SmoothedRTT :: duration
  cs_BytesSent :: u64
  cs_BytesReceived :: u64
  cs_BytesLost :: u64

record Server =
  sv_healthy :: bool
  sv_ready :: bool
  sv_connectors :: "(string \<times> Connector) list"
  sv_active :: int
  sv_flows :: u64
  sv_udpActive :: int
  sv_udpFlows :: u64
  sv_udpDropped :: u64
  sv_denied :: u64
  sv_quic :: quicMetrics
  sv_connectorQUIC :: "(string \<times> quicMetrics) list"
  sv_registryStats :: Stats
  sv_registrationAttempts :: "((string \<times> string) \<times> nat) list"
  sv_oidcValidations :: "((string \<times> string) \<times> nat) list"
  sv_registrationLatency :: metricHistogram
  sv_routeReconcile :: metricHistogram
  sv_routeReconcileResults :: "(string \<times> nat) list"
  sv_version :: string

record Snapshot =
  sn_Version :: string
  sn_Healthy :: bool
  sn_Ready :: bool
  sn_ConfiguredConnectors :: nat
  sn_ReadyConnectors :: nat
  sn_Connectors :: "Connector list"

section \<open>Operations\<close>

definition noMetrics :: quicMetrics where
  "noMetrics = \<lparr>qm_observer = 0, qm_rtt = 0, qm_sent = 0, qm_received = 0, qm_lost = 0,
                qm_sendRate = 0, qm_receiveRate = 0\<rparr>"

definition noStats :: Stats where
  "noStats = \<lparr>st_Registrations = 0, st_Active = 0, st_Allocated = 0, st_Available = 0,
     st_Quarantined = 0, st_Pending = 0, st_RoutesPending = 0, st_CertificatesSoon = 0,
     st_LeasesSoon = 0, st_RegistrationState = Map.empty\<rparr>"

definition noHistogram :: metricHistogram where
  "noHistogram = \<lparr>mh_count = 0, mh_sum = 0, mh_buckets = replicate 8 0\<rparr>"

definition New :: "string \<Rightarrow> Server" where
  "New version =
     \<lparr>sv_healthy = True, sv_ready = False, sv_connectors = [], sv_active = 0, sv_flows = 0,
      sv_udpActive = 0, sv_udpFlows = 0, sv_udpDropped = 0, sv_denied = 0, sv_quic = noMetrics,
      sv_connectorQUIC = [], sv_registryStats = noStats, sv_registrationAttempts = [],
      sv_oidcValidations = [], sv_registrationLatency = noHistogram, sv_routeReconcile = noHistogram,
      sv_routeReconcileResults = [], sv_version = version\<rparr>"

definition SetHealthy :: "bool \<Rightarrow> Server \<Rightarrow> Server" where
  "SetHealthy v s = s\<lparr>sv_healthy := v\<rparr>"

definition SetReady :: "bool \<Rightarrow> Server \<Rightarrow> Server" where
  "SetReady v s = s\<lparr>sv_ready := v\<rparr>"

definition FlowStarted :: "Server \<Rightarrow> Server" where
  "FlowStarted s = s\<lparr>sv_active := sv_active s + 1, sv_flows := sv_flows s + 1\<rparr>"

definition FlowEnded :: "Server \<Rightarrow> Server" where
  "FlowEnded s = s\<lparr>sv_active := sv_active s - 1\<rparr>"

definition UDPFlowStarted :: "Server \<Rightarrow> Server" where
  "UDPFlowStarted s = s\<lparr>sv_udpActive := sv_udpActive s + 1, sv_udpFlows := sv_udpFlows s + 1\<rparr>"

definition UDPFlowEnded :: "Server \<Rightarrow> Server" where
  "UDPFlowEnded s = s\<lparr>sv_udpActive := sv_udpActive s - 1\<rparr>"

definition DatagramDropped :: "Server \<Rightarrow> Server" where
  "DatagramDropped s = s\<lparr>sv_udpDropped := sv_udpDropped s + 1\<rparr>"

definition Denied :: "Server \<Rightarrow> Server" where
  "Denied s = s\<lparr>sv_denied := sv_denied s + 1\<rparr>"

definition setConnectorReadinessLocked :: "Server \<Rightarrow> Server" where
  "setConnectorReadinessLocked s =
     (if sv_connectors s = [] then s\<lparr>sv_ready := False\<rparr>
      else if list_ex (\<lambda>(_, c). \<not> cn_Ready c) (sv_connectors s) then s\<lparr>sv_ready := False\<rparr>
      else s\<lparr>sv_ready := True\<rparr>)"

definition closedConnector :: "Connector \<Rightarrow> Connector" where
  "closedConnector c = c\<lparr>cn_Ready := False, cn_SessionID := [], cn_sessionStartedAt := zero_time\<rparr>"

definition ConfigureConnectors :: "Connector list \<Rightarrow> Server \<Rightarrow> Server" where
  "ConfigureConnectors cs s =
     (let s1 = setConnectorReadinessLocked
                 (s\<lparr>sv_connectors := foldl (\<lambda>m c. AList.update (cn_ConnectorID c) (closedConnector c) m) [] cs\<rparr>)
      in s1\<lparr>sv_connectorQUIC := foldl (\<lambda>m c. AList.update (cn_ConnectorID c) noMetrics m) [] cs\<rparr>)"

text \<open>The configured connector with the session state of the current one of the same identity.\<close>

definition carrySession :: "(string \<times> Connector) list \<Rightarrow> Connector \<Rightarrow> Connector" where
  "carrySession current c =
     (case map_of current (cn_ConnectorID c) of
        None \<Rightarrow> c
      | Some old \<Rightarrow> c\<lparr>cn_Ready := cn_Ready old, cn_SessionID := cn_SessionID old,
                      cn_sessionStartedAt := cn_sessionStartedAt old\<rparr>)"

definition ReconcileConnectors :: "Connector list \<Rightarrow> Server \<Rightarrow> Server" where
  "ReconcileConnectors cs s =
     (let s1 = setConnectorReadinessLocked
                 (s\<lparr>sv_connectors := foldl (\<lambda>m c. AList.update (cn_ConnectorID c)
                                               (carrySession (sv_connectors s) c) m) [] cs\<rparr>)
      in s1\<lparr>sv_connectorQUIC :=
             foldl (\<lambda>m c. AList.update (cn_ConnectorID c)
                       (case map_of (sv_connectorQUIC s1) (cn_ConnectorID c) of
                          Some q \<Rightarrow> q | None \<Rightarrow> noMetrics) m) [] cs\<rparr>)"

definition SetRegistryMetrics :: "Stats \<Rightarrow> Server \<Rightarrow> Server" where
  "SetRegistryMetrics stats s = s\<lparr>sv_registryStats := stats\<rparr>"

text \<open>The bounds of the buckets, in nanoseconds.\<close>

definition metricBuckets :: "duration list" where
  "metricBuckets = [10000000, 50000000, 100000000, 250000000, 500000000, seconds 1, seconds 5, seconds 30]"

definition observeHistogram :: "metricHistogram \<Rightarrow> duration \<Rightarrow> metricHistogram" where
  "observeHistogram h elapsed =
     h\<lparr>mh_count := mh_count h + 1, mh_sum := mh_sum h + elapsed,
       mh_buckets := map2 (\<lambda>n bound. if elapsed \<le> bound then n + 1 else n) (mh_buckets h) metricBuckets\<rparr>"

definition bump :: "'k \<Rightarrow> ('k \<times> nat) list \<Rightarrow> ('k \<times> nat) list" where
  "bump k m = AList.update k (case map_of m k of None \<Rightarrow> 1 | Some n \<Rightarrow> n + 1) m"

definition ObserveRegistration :: "string \<Rightarrow> string \<Rightarrow> duration \<Rightarrow> Server \<Rightarrow> Server" where
  "ObserveRegistration result reason elapsed s =
     s\<lparr>sv_registrationAttempts := bump (result, reason) (sv_registrationAttempts s),
       sv_registrationLatency := observeHistogram (sv_registrationLatency s) elapsed\<rparr>"

definition ObserveOIDC :: "string \<Rightarrow> string \<Rightarrow> Server \<Rightarrow> Server" where
  "ObserveOIDC result reason s = s\<lparr>sv_oidcValidations := bump (result, reason) (sv_oidcValidations s)\<rparr>"

definition ObserveRouteReconcile :: "string \<Rightarrow> duration \<Rightarrow> Server \<Rightarrow> Server" where
  "ObserveRouteReconcile result elapsed s =
     s\<lparr>sv_routeReconcileResults := bump result (sv_routeReconcileResults s),
       sv_routeReconcile := observeHistogram (sv_routeReconcile s) elapsed\<rparr>"

definition ConnectorReady :: "time \<Rightarrow> string \<Rightarrow> string \<Rightarrow> Server \<Rightarrow> Server" where
  "ConnectorReady now cid sid s =
     setConnectorReadinessLocked
       (case map_of (sv_connectors s) cid of
          None \<Rightarrow> s
        | Some c \<Rightarrow> s\<lparr>sv_connectors := AList.update cid
                        (c\<lparr>cn_Ready := True, cn_SessionID := sid, cn_sessionStartedAt := now\<rparr>) (sv_connectors s)\<rparr>)"

definition ConnectorClosed :: "string \<Rightarrow> string \<Rightarrow> Server \<Rightarrow> Server" where
  "ConnectorClosed cid sid s =
     setConnectorReadinessLocked
       (case map_of (sv_connectors s) cid of
          None \<Rightarrow> s
        | Some c \<Rightarrow> if cn_SessionID c = sid
                    then s\<lparr>sv_connectors := AList.update cid (closedConnector c) (sv_connectors s)\<rparr>
                    else s)"

definition snapshotConnector :: "time \<Rightarrow> Server \<Rightarrow> Connector \<Rightarrow> Connector" where
  "snapshotConnector now s c0 =
     (let c = (if cn_Ready c0 \<and> cn_sessionStartedAt c0 \<noteq> zero_time
               then c0\<lparr>cn_SessionAgeSeconds := max 0 ((now - cn_sessionStartedAt c0) div seconds 1)\<rparr> else c0)
      in case map_of (sv_connectorQUIC s) (cn_ConnectorID c) of
           None \<Rightarrow> c
         | Some q \<Rightarrow> c\<lparr>cn_QUICSmoothedRTTMicroseconds := qm_rtt q, cn_QUICBytesSent := qm_sent q,
                       cn_QUICBytesReceived := qm_received q, cn_QUICBytesLost := qm_lost q\<rparr>)"

definition SnapshotOf :: "time \<Rightarrow> Server \<Rightarrow> Snapshot" where
  "SnapshotOf now s =
     (let cs = map snd (sv_connectors s); n = length (filter cn_Ready cs)
      in \<lparr>sn_Version = sv_version s, sn_Healthy = sv_healthy s,
          sn_Ready = (if length cs > 0 then n = length cs else sv_ready s),
          sn_ConfiguredConnectors = length cs, sn_ReadyConnectors = n,
          sn_Connectors = sort_key cn_Slot (map (snapshotConnector now s) cs)\<rparr>)"

section \<open>QUIC observers\<close>

definition startQUICObserverLocked :: "string \<Rightarrow> Server \<Rightarrow> Server \<times> (u64 \<times> bool)" where
  "startQUICObserverLocked cid s =
     (if cid = [] then
        (let ob = qm_observer (sv_quic s) + 1 in (s\<lparr>sv_quic := noMetrics\<lparr>qm_observer := ob\<rparr>\<rparr>, ob, True))
      else case map_of (sv_connectorQUIC s) cid of
          None \<Rightarrow> (s, 0, False)
        | Some q \<Rightarrow>
            (let ob = qm_observer q + 1
             in (s\<lparr>sv_connectorQUIC := AList.update cid (noMetrics\<lparr>qm_observer := ob\<rparr>) (sv_connectorQUIC s)\<rparr>,
                 ob, True)))"

definition stopQUICObserverLocked :: "string \<Rightarrow> u64 \<Rightarrow> Server \<Rightarrow> Server" where
  "stopQUICObserverLocked cid ob s =
     (if cid = [] then
        (if qm_observer (sv_quic s) = ob then s\<lparr>sv_quic := noMetrics\<lparr>qm_observer := ob + 1\<rparr>\<rparr> else s)
      else case map_of (sv_connectorQUIC s) cid of
          None \<Rightarrow> s
        | Some q \<Rightarrow>
            if qm_observer q = ob
            then s\<lparr>sv_connectorQUIC := AList.update cid (noMetrics\<lparr>qm_observer := ob + 1\<rparr>) (sv_connectorQUIC s)\<rparr>
            else s)"

definition sampleMetrics :: "u64 \<Rightarrow> ConnectionStats \<Rightarrow> u64 \<Rightarrow> u64 \<Rightarrow> quicMetrics" where
  "sampleMetrics ob stats sendRate receiveRate =
     \<lparr>qm_observer = ob, qm_rtt = cs_SmoothedRTT stats div 1000, qm_sent = cs_BytesSent stats,
      qm_received = cs_BytesReceived stats, qm_lost = cs_BytesLost stats, qm_sendRate = sendRate,
      qm_receiveRate = receiveRate\<rparr>"

definition storeConnectorQUICSample ::
    "string \<Rightarrow> u64 \<Rightarrow> ConnectionStats \<Rightarrow> u64 \<Rightarrow> u64 \<Rightarrow> Server \<Rightarrow> Server \<times> bool" where
  "storeConnectorQUICSample cid ob stats sendRate receiveRate s =
     (if cid \<noteq> [] then
        (case map_of (sv_connectorQUIC s) cid of
           None \<Rightarrow> (s, False)
         | Some q \<Rightarrow>
             if qm_observer q \<noteq> ob then (s, False)
             else (s\<lparr>sv_connectorQUIC :=
                      AList.update cid (sampleMetrics ob stats sendRate receiveRate) (sv_connectorQUIC s)\<rparr>, True))
      else if qm_observer (sv_quic s) \<noteq> ob then (s, False)
      else (s\<lparr>sv_quic := sampleMetrics ob stats sendRate receiveRate\<rparr>, True))"

text \<open>The rate in bits per second, rounded down.\<close>

definition bitsPerSecond :: "u64 \<Rightarrow> u64 \<Rightarrow> duration \<Rightarrow> u64" where
  "bitsPerSecond current previous elapsed =
     (if current < previous \<or> elapsed \<le> 0 then 0
      else word_of_int (uint (current - previous) * 8 * seconds 1 div elapsed))"

text \<open>One tick of the observer loop: the new sample, and what the loop remembers, or \<open>None\<close> if it ends.\<close>

definition observeTick ::
    "string \<Rightarrow> u64 \<Rightarrow> time \<Rightarrow> ConnectionStats \<Rightarrow> (ConnectionStats \<times> time) option \<Rightarrow> Server
     \<Rightarrow> Server \<times> (ConnectionStats \<times> time) option" where
  "observeTick cid ob now stats previous s =
     (let rates = (case previous of
                     None \<Rightarrow> (0, 0)
                   | Some (p, at) \<Rightarrow> (bitsPerSecond (cs_BytesSent stats) (cs_BytesSent p) (now - at),
                                      bitsPerSecond (cs_BytesReceived stats) (cs_BytesReceived p) (now - at)));
          (s', ok) = storeConnectorQUICSample cid ob stats (fst rates) (snd rates) s
      in (s', if ok then Some (stats, now) else None))"

section \<open>Admin endpoints\<close>

datatype http_response = Response (rs_status: nat) (rs_body: string)

text \<open>\<^verbatim>\<open>getOnly\<close> around a handler.\<close>

definition getOnly :: "http_response \<Rightarrow> string \<Rightarrow> http_response" where
  "getOnly handler verb =
     (if verb \<noteq> ''GET'' \<and> verb \<noteq> ''HEAD'' then Response 405 ''This method is not allowed.'' else handler)"

definition healthz :: "Server \<Rightarrow> http_response" where
  "healthz s = (if \<not> sv_healthy s then Response 503 ''Tailbridge is not healthy.'' else Response 200 [])"

definition readyz :: "Server \<Rightarrow> http_response" where
  "readyz s = (if \<not> sv_ready s then Response 503 ''Tailbridge is not ready.'' else Response 200 [])"

text \<open>The sample lines of \<^verbatim>\<open>/metrics\<close>: name, labels and value; comment lines are left out.\<close>

type_synonym sample = "string \<times> (string \<times> string) list \<times> int"

definition plain :: "string \<Rightarrow> int \<Rightarrow> sample" where
  "plain name v = (name, [], v)"

definition writeConnectorMetrics :: "Connector list \<Rightarrow> sample list" where
  "writeConnectorMetrics cs =
     concat (map (\<lambda>(name, f). map (\<lambda>c. (name, [(''slot'', dec_string (nat (cn_Slot c)))], f c)) cs)
       [(''tailbridge_connector_ready'', \<lambda>c. if cn_Ready c then 1 else 0),
        (''tailbridge_connector_session_age_seconds'', \<lambda>c. max (cn_SessionAgeSeconds c) 0),
        (''tailbridge_connector_quic_smoothed_rtt_microseconds'', \<lambda>c. max (cn_QUICSmoothedRTTMicroseconds c) 0),
        (''tailbridge_connector_quic_bytes_sent'', \<lambda>c. uint (cn_QUICBytesSent c)),
        (''tailbridge_connector_quic_bytes_received'', \<lambda>c. uint (cn_QUICBytesReceived c)),
        (''tailbridge_connector_quic_bytes_lost'', \<lambda>c. uint (cn_QUICBytesLost c))])"

definition metricsCore :: "time \<Rightarrow> Server \<Rightarrow> sample list" where
  "metricsCore now s =
     (let sn = SnapshotOf now s; q = sv_quic s; r = sv_registryStats s in
      [plain ''tailbridge_ready'' (if sv_ready s then 1 else 0),
       plain ''tailbridge_connectors_configured'' (int (sn_ConfiguredConnectors sn)),
       plain ''tailbridge_connectors_ready'' (int (sn_ReadyConnectors sn)),
       plain ''tailbridge_tcp_flows_active'' (sv_active s),
       plain ''tailbridge_tcp_flows_total'' (uint (sv_flows s)),
       plain ''tailbridge_udp_flows_active'' (sv_udpActive s),
       plain ''tailbridge_udp_flows_total'' (uint (sv_udpFlows s)),
       plain ''tailbridge_udp_datagrams_dropped_total'' (uint (sv_udpDropped s)),
       plain ''tailbridge_policy_denials_total'' (uint (sv_denied s)),
       plain ''tailbridge_quic_smoothed_rtt_microseconds'' (qm_rtt q),
       plain ''tailbridge_quic_bytes_sent'' (uint (qm_sent q)),
       plain ''tailbridge_quic_bytes_received'' (uint (qm_received q)),
       plain ''tailbridge_quic_bytes_lost'' (uint (qm_lost q)),
       plain ''tailbridge_quic_send_bits_per_second'' (uint (qm_sendRate q)),
       plain ''tailbridge_quic_receive_bits_per_second'' (uint (qm_receiveRate q)),
       plain ''tailbridge_routes_active'' (int (st_Active r)),
       plain ''tailbridge_virtual_pool_allocated'' (int (st_Allocated r)),
       plain ''tailbridge_virtual_pool_available'' (int (st_Available r)),
       plain ''tailbridge_virtual_pool_quarantined'' (int (st_Quarantined r)),
       plain ''tailbridge_pending_requests'' (int (st_Pending r))])"

section \<open>Association lists built by a loop\<close>

lemma find_snoc:
  "List.find P (xs @ [y]) = (case List.find P xs of Some x \<Rightarrow> Some x | None \<Rightarrow> if P y then Some y else None)"
  by (induction xs) auto

lemma length_filter_all: "length (filter P xs) = length xs \<longleftrightarrow> list_all P xs"
  by (induction xs) (auto, metis Suc_n_not_le_n length_filter_le)

lemma foldl_update_map_of:
  "map_of (foldl (\<lambda>m c. AList.update (key c) (val c) m) acc cs) k =
     (case List.find (\<lambda>c. key c = k) (rev cs) of Some c \<Rightarrow> Some (val c) | None \<Rightarrow> map_of acc k)"
proof (induction cs arbitrary: acc)
  case (Cons c cs)
  show ?case by (simp add: Cons.IH find_snoc update_conv' split: option.splits)
qed simp

lemma foldl_update_keys:
  "fst ` set (foldl (\<lambda>m c. AList.update (key c) (val c) m) acc cs) = fst ` set acc \<union> key ` set cs"
  by (induction cs arbitrary: acc) (auto simp: dom_update [unfolded dom_map_of_conv_image_fst]
      dom_map_of_conv_image_fst [symmetric] update_conv')

section \<open>Readiness\<close>

definition ready_flag :: "Server \<Rightarrow> bool" where
  "ready_flag s \<longleftrightarrow> sv_ready s = (sv_connectors s \<noteq> [] \<and> list_all (\<lambda>(_, c). cn_Ready c) (sv_connectors s))"

lemma readiness_set [simp]: "ready_flag (setConnectorReadinessLocked s)"
  by (auto simp: ready_flag_def setConnectorReadinessLocked_def list_all_iff list_ex_iff)

lemma setConnectorReadiness_frame [simp]:
  "sv_connectors (setConnectorReadinessLocked s) = sv_connectors s"
  "sv_connectorQUIC (setConnectorReadinessLocked s) = sv_connectorQUIC s"
  by (simp_all add: setConnectorReadinessLocked_def)

lemma ready_flag_frame:
  "sv_ready s' = sv_ready s \<Longrightarrow> sv_connectors s' = sv_connectors s \<Longrightarrow> ready_flag s' = ready_flag s"
  by (simp add: ready_flag_def)

text \<open>The calls that the edge makes on its status server while it serves connectors.\<close>

inductive status_step :: "Server \<Rightarrow> Server \<Rightarrow> bool" where
  configure: "status_step s (ConfigureConnectors cs s)"
| reconcile: "status_step s (ReconcileConnectors cs s)"
| ready: "status_step s (ConnectorReady now cid sid s)"
| closed: "status_step s (ConnectorClosed cid sid s)"
| flow: "status_step s (FlowStarted s)"
| flow_end: "status_step s (FlowEnded s)"
| udp: "status_step s (UDPFlowStarted s)"
| udp_end: "status_step s (UDPFlowEnded s)"
| drop: "status_step s (DatagramDropped s)"
| deny: "status_step s (Denied s)"
| health: "status_step s (SetHealthy v s)"
| metrics: "status_step s (SetRegistryMetrics r s)"
| observe: "status_step s (fst (startQUICObserverLocked cid s))"
| sample: "status_step s (fst (storeConnectorQUICSample cid ob stats a b s))"
| stop: "status_step s (stopQUICObserverLocked cid ob s)"
| registration: "status_step s (ObserveRegistration x y e s)"
| oidc: "status_step s (ObserveOIDC x y s)"
| route: "status_step s (ObserveRouteReconcile x e s)"

inductive_cases status_stepE: "status_step s t"

lemma status_step_ready: "ready_flag s \<Longrightarrow> status_step s t \<Longrightarrow> ready_flag t"
  by (erule status_stepE)
    (auto simp: ConfigureConnectors_def ReconcileConnectors_def ConnectorReady_def ConnectorClosed_def
      FlowStarted_def FlowEnded_def UDPFlowStarted_def UDPFlowEnded_def DatagramDropped_def Denied_def
      SetHealthy_def SetRegistryMetrics_def startQUICObserverLocked_def storeConnectorQUICSample_def
      stopQUICObserverLocked_def ObserveRegistration_def ObserveOIDC_def ObserveRouteReconcile_def Let_def
      ready_flag_frame [of "_\<lparr>sv_connectorQUIC := _\<rparr>" "setConnectorReadinessLocked _"]
      intro: ready_flag_frame [THEN iffD2] split: option.splits)

interpretation status_machine: machine status_step ready_flag
  by unfold_locales (rule status_step_ready)



section \<open>Sessions\<close>

text \<open>
  What the bookkeeping is for: a board that says which session each known connector has. Marking a
  connector ready posts its session, closing a session removes it only if it is still the posted one,
  and a new configuration keeps the posts of the connectors that stay.
\<close>

locale session_board =
  fixes known :: "'s \<Rightarrow> 'k set" and board :: "'s \<Rightarrow> 'k \<Rightarrow> 'v option"
    and post :: "'k \<Rightarrow> 'v \<Rightarrow> 's \<Rightarrow> 's" and withdraw :: "'k \<Rightarrow> 'v \<Rightarrow> 's \<Rightarrow> 's"
  assumes known_post: "known (post k v s) = known s"
    and known_withdraw: "known (withdraw k v s) = known s"
    and board_post: "board (post k v s) = (if k \<in> known s then (board s)(k \<mapsto> v) else board s)"
    and board_withdraw: "board (withdraw k v s) = (if board s k = Some v then (board s)(k := None) else board s)"
begin

text \<open>A session that was replaced may be closed late: its successor stays posted.\<close>

lemma late_withdraw:
  assumes "k \<in> known s" and "v \<noteq> w"
  shows "board (withdraw k v (post k w s)) = board (post k w s)"
  using assms by (simp add: board_withdraw board_post)

lemma withdraw_idem: "board (withdraw k v (withdraw k v s)) = board (withdraw k v s)"
  by (simp add: board_withdraw)

lemma post_withdraw_other:
  "k \<noteq> l \<Longrightarrow> board (withdraw l v (post k w s)) k = board (post k w s) k"
  by (simp add: board_withdraw)

end

definition configured :: "Server \<Rightarrow> string set" where
  "configured s = fst ` set (sv_connectors s)"

definition sessions :: "Server \<Rightarrow> string \<Rightarrow> string option" where
  "sessions s cid =
     (case map_of (sv_connectors s) cid of
        None \<Rightarrow> None | Some c \<Rightarrow> if cn_Ready c then Some (cn_SessionID c) else None)"

lemma configured_iff: "cid \<in> configured s \<longleftrightarrow> map_of (sv_connectors s) cid \<noteq> None"
  by (simp add: configured_def map_of_eq_None_iff)

lemma sessions_cong: "sv_connectors s' = sv_connectors s \<Longrightarrow> sessions s' = sessions s"
  by (simp add: sessions_def fun_eq_iff)

lemma sessions_readiness [simp]: "sessions (setConnectorReadinessLocked s) = sessions s"
  by (rule sessions_cong) simp

lemma ready_sessions:
  "sessions (ConnectorReady now cid sid s) =
     (if cid \<in> configured s then (sessions s)(cid \<mapsto> sid) else sessions s)"
  by (auto simp: ConnectorReady_def configured_iff sessions_def fun_eq_iff update_conv' split: option.splits)

lemma closed_sessions:
  "sessions (ConnectorClosed cid sid s) =
     (if sessions s cid = Some sid then (sessions s)(cid := None) else sessions s)"
  by (auto simp: ConnectorClosed_def closedConnector_def sessions_def fun_eq_iff update_conv'
      split: option.splits if_splits)

lemma configured_ready [simp]: "configured (ConnectorReady now cid sid s) = configured s"
  by (auto simp: configured_iff ConnectorReady_def update_conv' set_eq_iff split: option.splits)

lemma configured_closed [simp]: "configured (ConnectorClosed cid sid s) = configured s"
  by (auto simp: configured_iff ConnectorClosed_def update_conv' set_eq_iff split: option.splits)

interpretation status_board: session_board configured sessions "\<lambda>k v. ConnectorReady now k v" ConnectorClosed for now
  by unfold_locales (simp_all add: ready_sessions closed_sessions)

lemma reconcile_sessions:
  assumes "list_all (\<lambda>c. \<not> cn_Ready c) cs"
  shows "sessions (ReconcileConnectors cs s) = sessions s |` (cn_ConnectorID ` set cs)"
proof
  fix k
  show "sessions (ReconcileConnectors cs s) k = (sessions s |` (cn_ConnectorID ` set cs)) k"
  proof (cases "List.find (\<lambda>c. cn_ConnectorID c = k) (rev cs)")
    case None
    then have "k \<notin> cn_ConnectorID ` set cs" by (auto simp: find_None_iff)
    with None show ?thesis
      by (simp add: ReconcileConnectors_def Let_def sessions_def foldl_update_map_of)
  next
    case (Some c)
    then have c: "c \<in> set cs" "cn_ConnectorID c = k" by (auto dest: find_Some_in)
    then have "\<not> cn_Ready c" "k \<in> cn_ConnectorID ` set cs" using assms by (auto simp: list_all_iff)
    with Some c(2) show ?thesis
      by (auto simp: ReconcileConnectors_def Let_def sessions_def foldl_update_map_of carrySession_def
          split: option.splits)
  qed
qed


definition sample_connector :: "string \<Rightarrow> int \<Rightarrow> Connector" where
  "sample_connector cid slot =
     \<lparr>cn_ConnectorID = cid, cn_Slot = slot, cn_VirtualPrefix = [], cn_RealPrefix = [], cn_Ready = False,
      cn_SessionID = [], cn_SessionAgeSeconds = 0, cn_QUICSmoothedRTTMicroseconds = 0, cn_QUICBytesSent = 0,
      cn_QUICBytesReceived = 0, cn_QUICBytesLost = 0, cn_sessionStartedAt = zero_time\<rparr>"


section \<open>QUIC observers\<close>

text \<open>The observer number of a connector, and who may still write its metrics.\<close>

definition observer_of :: "Server \<Rightarrow> string \<Rightarrow> u64 option" where
  "observer_of s cid =
     (if cid = [] then Some (qm_observer (sv_quic s)) else map_option qm_observer (map_of (sv_connectorQUIC s) cid))"

lemma start_observer:
  "startQUICObserverLocked cid s = (s', ob, True) \<Longrightarrow>
     observer_of s' cid = Some ob \<and> map_option (\<lambda>n. n + 1) (observer_of s cid) = Some ob"
  by (auto simp: startQUICObserverLocked_def observer_of_def noMetrics_def Let_def update_conv'
      split: if_splits option.splits)

lemma store_needs_observer:
  "snd (storeConnectorQUICSample cid ob stats a b s) \<longleftrightarrow> observer_of s cid = Some ob"
  by (auto simp: storeConnectorQUICSample_def observer_of_def split: option.splits)

lemma store_rejected:
  "\<not> snd (storeConnectorQUICSample cid ob stats a b s) \<Longrightarrow> fst (storeConnectorQUICSample cid ob stats a b s) = s"
  by (cases "cid = []"; cases "map_of (sv_connectorQUIC s) cid")
    (simp_all add: storeConnectorQUICSample_def split: if_split_asm)

text \<open>
  A new observer of a connection takes the metrics over: right after it starts, samples of the
  previous observer are refused without effect and the previous observer's stop does not reset them.
\<close>

theorem observer_takeover:
  assumes "observer_of s cid = Some old" and "startQUICObserverLocked cid s = (s', ob, True)"
  shows "storeConnectorQUICSample cid old stats a b s' = (s', False) \<and> stopQUICObserverLocked cid old s' = s'
    \<and> snd (storeConnectorQUICSample cid ob stats a b s')"
proof -
  from start_observer [OF assms(2)] assms(1) have o: "observer_of s' cid = Some ob" "ob = old + 1" by auto
  then have ne: "observer_of s' cid \<noteq> Some old" by simp
  then have "\<not> snd (storeConnectorQUICSample cid old stats a b s')" by (simp add: store_needs_observer)
  moreover from this have "fst (storeConnectorQUICSample cid old stats a b s') = s'" by (rule store_rejected)
  moreover have "stopQUICObserverLocked cid old s' = s'"
    using ne by (cases "cid = []"; cases "map_of (sv_connectorQUIC s') cid")
      (simp_all add: stopQUICObserverLocked_def observer_of_def)
  ultimately show ?thesis using o by (simp add: store_needs_observer prod_eq_iff)
qed

definition sample_stats :: ConnectionStats where
  "sample_stats = \<lparr>cs_SmoothedRTT = 1000, cs_BytesSent = 1, cs_BytesReceived = 2, cs_BytesLost = 0\<rparr>"

theorem observer_takeover_witness:
  "storeConnectorQUICSample [] 0 sample_stats 0 0 (fst (startQUICObserverLocked [] (New ''v''))) =
     (fst (startQUICObserverLocked [] (New ''v'')), False)"
proof -
  have "observer_of (New ''v'') [] = Some 0" by (simp add: observer_of_def New_def noMetrics_def)
  moreover have "startQUICObserverLocked [] (New ''v'') = (fst (startQUICObserverLocked [] (New ''v'')), 1, True)"
    by (simp add: startQUICObserverLocked_def New_def noMetrics_def Let_def)
  ultimately show ?thesis using observer_takeover by blast
qed

text \<open>
  Finding: a connector that is removed from the configuration and comes back starts counting its
  observers at zero again, so the first new observer gets the number of an old one and a sample of the old
  connection is accepted as its own.
\<close>

theorem observer_number_reused:
  assumes "cid \<noteq> []" and "cn_ConnectorID c = cid" and "observer_of s cid = Some 1"
  shows "let s' = fst (startQUICObserverLocked cid (ReconcileConnectors [c] (ReconcileConnectors [] s)))
    in snd (storeConnectorQUICSample cid 1 stats a b s')"
  using assms
  by (simp add: store_needs_observer Let_def startQUICObserverLocked_def ReconcileConnectors_def observer_of_def
      noMetrics_def)

theorem observer_number_reused_witness:
  "let s = fst (startQUICObserverLocked ''a'' (ConfigureConnectors [sample_connector ''a'' 0] (New ''v'')));
       s' = fst (startQUICObserverLocked ''a''
              (ReconcileConnectors [sample_connector ''a'' 0] (ReconcileConnectors [] s)))
   in snd (storeConnectorQUICSample ''a'' 1 sample_stats 0 0 s')"
proof -
  let ?s = "fst (startQUICObserverLocked ''a'' (ConfigureConnectors [sample_connector ''a'' 0] (New ''v'')))"
  have "observer_of ?s ''a'' = Some 1"
    by (simp add: observer_of_def startQUICObserverLocked_def ConfigureConnectors_def sample_connector_def
        noMetrics_def Let_def)
  with observer_number_reused [of "''a''" "sample_connector ''a'' 0" ?s sample_stats 0 0] show ?thesis
    by (simp add: sample_connector_def Let_def)
qed

section \<open>Histograms\<close>

lemma observe_counts:
  assumes "mh_buckets h = map (\<lambda>b. count_where (\<lambda>e. e \<le> b) es) metricBuckets"
  shows "mh_buckets (observeHistogram h e) = map (\<lambda>b. count_where (\<lambda>x. x \<le> b) (es @ [e])) metricBuckets"
  by (simp add: observeHistogram_def assms metricBuckets_def count_where_def)

text \<open>
  A histogram that observed a sequence of latencies counts, in each bucket, exactly the latencies up to
  the bucket's bound, so the buckets are cumulative and none exceeds the total count.
\<close>

theorem histogram_counts:
  "let h = foldl observeHistogram noHistogram es in
     mh_buckets h = map (\<lambda>b. count_where (\<lambda>e. e \<le> b) es) metricBuckets
     \<and> mh_count h = length es \<and> mh_sum h = sum_list es \<and> sorted (mh_buckets h)
     \<and> list_all (\<lambda>n. n \<le> mh_count h) (mh_buckets h)"
proof -
  let ?h = "\<lambda>es. foldl observeHistogram noHistogram es"
  have "mh_buckets (?h es) = map (\<lambda>b. count_where (\<lambda>e. e \<le> b) es) metricBuckets
      \<and> mh_count (?h es) = length es \<and> mh_sum (?h es) = sum_list es"
  proof (induction es rule: rev_induct)
    case Nil
    then show ?case by (simp add: noHistogram_def metricBuckets_def count_where_def numeral_eq_Suc)
  next
    case (snoc e es)
    then show ?case using observe_counts [of "?h es" es e] by (simp add: observeHistogram_def [of "?h es" e, THEN arg_cong [of _ _ mh_count]] observeHistogram_def [of "?h es" e, THEN arg_cong [of _ _ mh_sum]])
  qed
  moreover have "count_where (\<lambda>e. e \<le> b) es \<le> count_where (\<lambda>e. e \<le> c) es" if "b \<le> c" for b c :: int
    unfolding count_where_def using that by (induction es) auto
  then have "sorted (map (\<lambda>b. count_where (\<lambda>e. e \<le> b) es) metricBuckets)"
    by (simp add: metricBuckets_def)
  moreover have "count_where P es \<le> length es" for P
    by (simp add: count_where_def)
  ultimately show ?thesis by (simp add: Let_def list_all_iff)
qed

end
