(* ===== verification/Flow_Table.thy ===== *)
theory Flow_Table
  imports Machine
begin

text \<open>
  The contract that the flow tables of the edge and of the connector share: a list of live flow ids, a
  capacity, and the gauge of active flows that the status server reports. A table is sound if no id is listed
  twice, the capacity is respected and the gauge agrees with the table.
\<close>

definition table_sound :: "'i list \<Rightarrow> int \<Rightarrow> int \<Rightarrow> bool" where
  "table_sound ids gauge cap \<longleftrightarrow> distinct ids \<and> int (length ids) \<le> cap \<and> gauge = int (length ids)"

lemma filter_neq_id [simp]: "i \<notin> set xs \<Longrightarrow> filter (\<lambda>j. j \<noteq> i) xs = xs"
  by (induction xs) auto

lemma length_filter_delete:
  "distinct xs \<Longrightarrow> i \<in> set xs \<Longrightarrow> int (length (filter (\<lambda>j. j \<noteq> i) xs)) = int (length xs) - 1"
  by (induction xs) auto

lemma length_filter_delete_where:
  "distinct xs \<Longrightarrow> i \<in> set xs \<Longrightarrow>
   int (length (filter P (filter (\<lambda>j. j \<noteq> i) xs))) = int (length (filter P xs)) - (if P i then 1 else 0)"
  by (induction xs) (auto simp: filter_filter intro: arg_cong[where f = length] filter_cong)

locale flow_table =
  fixes live :: "'s \<Rightarrow> 'i list" and gauge :: "'s \<Rightarrow> int" and cap :: "'s \<Rightarrow> int"
    and ident :: "'f \<Rightarrow> 'i" and ins :: "'f \<Rightarrow> 's \<Rightarrow> 's" and del :: "'f \<Rightarrow> 's \<Rightarrow> 's"
  assumes live_ins: "live (ins f s) = live s @ [ident f]"
    and gauge_ins: "gauge (ins f s) = gauge s + 1"
    and cap_ins: "cap (ins f s) = cap s"
    and live_del: "live (del f s) = filter (\<lambda>j. j \<noteq> ident f) (live s)"
    and gauge_del: "gauge (del f s) = gauge s - 1"
    and cap_del: "cap (del f s) = cap s"
begin

lemma ins_sound:
  "table_sound (live s) (gauge s) (cap s) \<Longrightarrow> ident f \<notin> set (live s) \<Longrightarrow> int (length (live s)) < cap s
   \<Longrightarrow> table_sound (live (ins f s)) (gauge (ins f s)) (cap (ins f s))"
  by (simp add: table_sound_def live_ins gauge_ins cap_ins)

lemma del_sound:
  "table_sound (live s) (gauge s) (cap s) \<Longrightarrow> ident f \<in> set (live s)
   \<Longrightarrow> table_sound (live (del f s)) (gauge (del f s)) (cap (del f s))"
  by (simp add: table_sound_def live_del gauge_del cap_del length_filter_delete)

text \<open>Inserting a flow and deleting it again restores the table.\<close>

lemma del_ins:
  "ident f \<notin> set (live s) \<Longrightarrow> live (del f (ins f s)) = live s \<and> gauge (del f (ins f s)) = gauge s"
  by (auto simp: live_del live_ins gauge_del gauge_ins)

end

end
