(* ===== verification/Edge_Udp.thy ===== *)
theory Edge_Udp
  imports Protocol Status Flow_Table
begin

text \<open>
  The UDP side of package \<^verbatim>\<open>internal/edge\<close>: the table of UDP flows, indexed by key and by flow id. Flow
  objects live in a heap and both maps point to them by id, as the Go maps share pointers. \<open>eu_closed\<close> records
  which flows' own reply sockets have been closed. A session is named by a number that stands for its pointer.
\<close>

record edgeUDPFlow =
  fl_id :: u64
  fl_key :: string
  fl_session :: nat
  fl_source :: addr_port
  fl_destination :: addr_port
  fl_translated :: addr_port
  fl_lastUsed :: time
  fl_sharedReply :: bool

record edgeUDP =
  eu_flowID :: u64
  eu_heap :: "u64 \<rightharpoonup> edgeUDPFlow"
  eu_byKey :: "string \<rightharpoonup> u64"
  eu_byID :: "u64 list"
  eu_dnsFlows :: int
  eu_dnsFlowMax :: int
  eu_maxUDPFlows :: int
  eu_idleTimeout :: duration
  eu_closed :: "u64 list"
  eu_status :: Server

datatype udp_error = FlowLimitFull | DNSFlowLimitFull | OpenResponseFailed

section \<open>Operations\<close>

text \<open>The limits that \<^verbatim>\<open>New\<close> derives from the configuration.\<close>

definition newEdgeUDP :: "int \<Rightarrow> duration \<Rightarrow> Server \<Rightarrow> edgeUDP" where
  "newEdgeUDP maxUDPFlows idle st =
     \<lparr>eu_flowID = 0, eu_heap = Map.empty, eu_byKey = Map.empty, eu_byID = [], eu_dnsFlows = 0,
      eu_dnsFlowMax = min (max (maxUDPFlows div 8) 64) maxUDPFlows, eu_maxUDPFlows = maxUDPFlows,
      eu_idleTimeout = idle, eu_closed = [], eu_status = st\<rparr>"

definition touch :: "time \<Rightarrow> u64 \<Rightarrow> edgeUDP \<Rightarrow> edgeUDP" where
  "touch now i s =
     s\<lparr>eu_heap := (eu_heap s)(i := map_option (fl_lastUsed_update (\<lambda>_. now)) (eu_heap s i))\<rparr>"

definition newFlow ::
    "time \<Rightarrow> u64 \<Rightarrow> nat \<Rightarrow> string \<Rightarrow> addr_port \<Rightarrow> addr_port \<Rightarrow> addr_port \<Rightarrow> bool \<Rightarrow> edgeUDPFlow" where
  "newFlow now i active key source destination translated shared =
     \<lparr>fl_id = i, fl_key = key, fl_session = active, fl_source = source, fl_destination = destination,
      fl_translated = translated, fl_lastUsed = now, fl_sharedReply = shared\<rparr>"

definition addFlow :: "edgeUDPFlow \<Rightarrow> edgeUDP \<Rightarrow> edgeUDP" where
  "addFlow f s =
     s\<lparr>eu_flowID := fl_id f, eu_heap := (eu_heap s)(fl_id f \<mapsto> f),
       eu_byKey := (eu_byKey s)(fl_key f \<mapsto> fl_id f), eu_byID := eu_byID s @ [fl_id f],
       eu_dnsFlows := (if fl_sharedReply f then eu_dnsFlows s + 1 else eu_dnsFlows s),
       eu_status := UDPFlowStarted (eu_status s)\<rparr>"

text \<open>\<open>opened\<close> tells whether \<^verbatim>\<open>openUDPResponse\<close> succeeds, \<open>given\<close> whether the caller passes a socket.\<close>

definition edgeUDPFlowWithReply ::
    "time \<Rightarrow> bool \<Rightarrow> nat \<Rightarrow> string \<Rightarrow> addr_port \<Rightarrow> addr_port \<Rightarrow> addr_port \<Rightarrow> bool \<Rightarrow> bool \<Rightarrow> edgeUDP
     \<Rightarrow> edgeUDP \<times> (udp_error + u64)" where
  "edgeUDPFlowWithReply now opened active key source destination translated given shared s =
     (case eu_byKey s key of
        Some i \<Rightarrow> (touch now i s, Inr i)
      | None \<Rightarrow>
          if int (length (eu_byID s)) \<ge> eu_maxUDPFlows s then (s, Inl FlowLimitFull)
          else if shared \<and> eu_dnsFlows s \<ge> eu_dnsFlowMax s then (s, Inl DNSFlowLimitFull)
          else if \<not> given \<and> \<not> opened then (s, Inl OpenResponseFailed)
          else let f = newFlow now (eu_flowID s + 1) active key source destination translated shared
               in (addFlow f s, Inr (fl_id f)))"

text \<open>Removing one flow object from both maps, closing its socket unless it is shared.\<close>

definition removeFlow :: "edgeUDPFlow \<Rightarrow> edgeUDP \<Rightarrow> edgeUDP" where
  "removeFlow f s =
     s\<lparr>eu_byKey := (eu_byKey s)(fl_key f := None),
       eu_byID := filter (\<lambda>j. j \<noteq> fl_id f) (eu_byID s),
       eu_dnsFlows := (if fl_sharedReply f then eu_dnsFlows s - 1 else eu_dnsFlows s),
       eu_closed := (if fl_sharedReply f then eu_closed s else eu_closed s @ [fl_id f]),
       eu_status := UDPFlowEnded (eu_status s)\<rparr>"

text \<open>The object a live id points to.\<close>

definition liveFlow :: "edgeUDP \<Rightarrow> u64 \<Rightarrow> edgeUDPFlow option" where
  "liveFlow s i = (if i \<in> set (eu_byID s) then eu_heap s i else None)"

text \<open>One tick of the idle timer of a flow; the second result tells whether the timer goes on.\<close>

definition idleTick :: "time \<Rightarrow> u64 \<Rightarrow> edgeUDP \<Rightarrow> edgeUDP \<times> bool" where
  "idleTick now i s =
     (case liveFlow s i of
        None \<Rightarrow> (s, False)
      | Some f \<Rightarrow> if now - fl_lastUsed f \<ge> eu_idleTimeout s then (removeFlow f s, False) else (s, True))"

text \<open>
  One datagram from a connector session: the new table and, if it is accepted, the payload for the socket of
  the flow and the address it goes to. \<open>written\<close> tells whether the socket write succeeds.
\<close>

definition receiveUDP ::
    "time \<Rightarrow> bool \<Rightarrow> nat \<Rightarrow> bytes \<Rightarrow> edgeUDP \<Rightarrow> edgeUDP \<times> (u64 \<times> bytes \<times> addr_port) option" where
  "receiveUDP now written active data s =
     (let dropped = (\<lambda>s. s\<lparr>eu_status := DatagramDropped (eu_status s)\<rparr>) in
      case DecodeUDP data of
        Inl _ \<Rightarrow> (dropped s, None)
      | Inr packet \<Rightarrow>
          if \<not> ud_Response packet then (dropped s, None)
          else case liveFlow s (ud_FlowID packet) of
              None \<Rightarrow> (dropped s, None)
            | Some f \<Rightarrow>
                (let wantSource = (if addr_port_valid (fl_translated f) then fl_translated f else fl_destination f)
                 in if fl_session f = active \<and> ud_Source packet = wantSource \<and> ud_Destination packet = fl_source f
                    then (let s' = touch now (fl_id f) s in
                          (if written then s' else dropped s',
                           Some (fl_id f, ud_Payload packet, fl_source f)))
                    else (dropped s, None)))"

text \<open>One round of the loop over the table, and the loop.\<close>

definition closeSessionFlow :: "nat \<Rightarrow> u64 \<Rightarrow> edgeUDP \<Rightarrow> edgeUDP" where
  "closeSessionFlow active i s =
     (case liveFlow s i of
        None \<Rightarrow> s
      | Some f \<Rightarrow> if fl_session f \<noteq> active then s else removeFlow f s)"

definition closeUDPSession :: "nat \<Rightarrow> edgeUDP \<Rightarrow> edgeUDP" where
  "closeUDPSession active s = fold (closeSessionFlow active) (eu_byID s) s"

definition endFlow :: "u64 \<Rightarrow> edgeUDP \<Rightarrow> edgeUDP" where
  "endFlow i s =
     s\<lparr>eu_closed := (case eu_heap s i of
                       Some f \<Rightarrow> if fl_sharedReply f then eu_closed s else eu_closed s @ [i]
                     | None \<Rightarrow> eu_closed s),
       eu_status := UDPFlowEnded (eu_status s)\<rparr>"

definition closeUDPFlows :: "edgeUDP \<Rightarrow> edgeUDP" where
  "closeUDPFlows s = fold endFlow (eu_byID s) (s\<lparr>eu_byID := [], eu_byKey := Map.empty, eu_dnsFlows := 0\<rparr>)"

text \<open>The TCP side of the edge draws its flow ids from the same counter.\<close>

definition nextFlowID :: "edgeUDP \<Rightarrow> edgeUDP \<times> u64" where
  "nextFlowID s = (s\<lparr>eu_flowID := eu_flowID s + 1\<rparr>, eu_flowID s + 1)"

section \<open>The invariant\<close>

definition sharedFlow :: "edgeUDP \<Rightarrow> u64 \<Rightarrow> bool" where
  "sharedFlow s i \<longleftrightarrow> (case eu_heap s i of Some f \<Rightarrow> fl_sharedReply f | None \<Rightarrow> False)"

definition index_ok :: "edgeUDP \<Rightarrow> bool" where
  "index_ok s \<longleftrightarrow>
     (\<forall>i f. eu_heap s i = Some f \<longrightarrow> fl_id f = i \<and> i \<le> eu_flowID s)
     \<and> (\<forall>i\<in>set (eu_byID s). \<exists>f. eu_heap s i = Some f \<and> eu_byKey s (fl_key f) = Some i)
     \<and> (\<forall>k i. eu_byKey s k = Some i \<longrightarrow> i \<in> set (eu_byID s) \<and> (\<exists>f. eu_heap s i = Some f \<and> fl_key f = k))"

definition dns_ok :: "edgeUDP \<Rightarrow> bool" where
  "dns_ok s \<longleftrightarrow> eu_dnsFlows s = int (length (filter (sharedFlow s) (eu_byID s))) \<and> eu_dnsFlows s \<le> eu_dnsFlowMax s"

text \<open>A reply socket is closed at most once, and exactly when its flow has left the table.\<close>

definition sockets_ok :: "edgeUDP \<Rightarrow> bool" where
  "sockets_ok s \<longleftrightarrow> distinct (eu_closed s) \<and>
     (\<forall>i. i \<in> set (eu_closed s) \<longleftrightarrow> (eu_heap s i \<noteq> None \<and> \<not> sharedFlow s i \<and> i \<notin> set (eu_byID s)))"

abbreviation "udpGauge s \<equiv> sv_udpActive (eu_status s)"

definition udp_inv :: "edgeUDP \<Rightarrow> bool" where
  "udp_inv s \<longleftrightarrow> table_sound (eu_byID s) (udpGauge s) (eu_maxUDPFlows s) \<and> index_ok s \<and> dns_ok s \<and> sockets_ok s"

interpretation edge_table: flow_table eu_byID udpGauge eu_maxUDPFlows fl_id addFlow removeFlow
  by unfold_locales (simp_all add: addFlow_def removeFlow_def UDPFlowStarted_def UDPFlowEnded_def)

lemma udp_inv_new: "0 \<le> m \<Longrightarrow> udp_inv (newEdgeUDP m idle (New v))"
  by (auto simp: udp_inv_def newEdgeUDP_def table_sound_def index_ok_def dns_ok_def sockets_ok_def New_def)

lemma liveFlow_iff: "liveFlow s i = Some f \<longleftrightarrow> i \<in> set (eu_byID s) \<and> eu_heap s i = Some f"
  by (simp add: liveFlow_def)

lemma less_succ: "x \<noteq> -1 \<Longrightarrow> x < x + (1 :: 'a::len word)"
  using inc_less_eq_triv_imp not_le_imp_less by blast

lemma index_heap: "index_ok s \<Longrightarrow> eu_heap s i = Some f \<Longrightarrow> fl_id f = i \<and> i \<le> eu_flowID s"
  unfolding index_ok_def by blast

lemma index_live:
  assumes "index_ok s" "i \<in> set (eu_byID s)"
  obtains f where "eu_heap s i = Some f" "eu_byKey s (fl_key f) = Some i" "fl_id f = i"
  using assms unfolding index_ok_def by blast

lemma index_key:
  assumes "index_ok s" "eu_byKey s k = Some i"
  obtains f where "i \<in> set (eu_byID s)" "eu_heap s i = Some f" "fl_key f = k"
  using assms unfolding index_ok_def by blast

lemma udp_inv_addFlow:
  assumes inv: "udp_inv s" and room: "int (length (eu_byID s)) < eu_maxUDPFlows s"
    and dns: "fl_sharedReply f \<Longrightarrow> eu_dnsFlows s < eu_dnsFlowMax s"
    and key: "eu_byKey s (fl_key f) = None" and id: "fl_id f = eu_flowID s + 1" and room64: "eu_flowID s \<noteq> -1"
  shows "udp_inv (addFlow f s)"
proof -
  have lt: "eu_flowID s < fl_id f"
    using room64 id by (simp add: less_succ)
  have new: "eu_heap s (fl_id f) = None"
    using inv lt by (cases "eu_heap s (fl_id f)") (auto simp: udp_inv_def dest: index_heap)
  have out: "fl_id f \<notin> set (eu_byID s)"
    using inv new by (auto simp: udp_inv_def index_ok_def)
  have "table_sound (eu_byID (addFlow f s)) (udpGauge (addFlow f s)) (eu_maxUDPFlows (addFlow f s))"
    using inv out room by (intro edge_table.ins_sound) (auto simp: udp_inv_def)
  moreover have "index_ok (addFlow f s)"
    using inv lt new out key unfolding udp_inv_def index_ok_def addFlow_def
    by (auto simp: less_imp_le intro: order_trans split: if_splits) (metis less_imp_le order_trans option.distinct(1))+
  moreover have "filter (sharedFlow (addFlow f s)) (eu_byID s) = filter (sharedFlow s) (eu_byID s)"
    using out by (intro filter_cong) (auto simp: sharedFlow_def addFlow_def)
  then have "dns_ok (addFlow f s)"
    using inv dns by (auto simp: udp_inv_def dns_ok_def) (auto simp: addFlow_def sharedFlow_def)
  moreover have "sockets_ok (addFlow f s)"
    using inv new out by (auto simp: udp_inv_def sockets_ok_def addFlow_def sharedFlow_def)
  ultimately show ?thesis by (simp add: udp_inv_def)
qed

lemma udp_inv_removeFlow:
  assumes inv: "udp_inv s" and live: "liveFlow s i = Some f"
  shows "udp_inv (removeFlow f s)"
proof -
  have f: "fl_id f = i" "i \<in> set (eu_byID s)" "eu_heap s i = Some f" "eu_byKey s (fl_key f) = Some i"
    using inv live by (auto simp: udp_inv_def index_ok_def liveFlow_iff)
  have same: "sharedFlow (removeFlow f s) = sharedFlow s"
    by (simp add: sharedFlow_def removeFlow_def fun_eq_iff)
  have "table_sound (eu_byID (removeFlow f s)) (udpGauge (removeFlow f s)) (eu_maxUDPFlows (removeFlow f s))"
    using inv f by (intro edge_table.del_sound) (auto simp: udp_inv_def)
  moreover have "index_ok (removeFlow f s)"
    unfolding index_ok_def
  proof (intro conjI allI ballI impI)
    fix j g assume "eu_heap (removeFlow f s) j = Some g"
    then show "fl_id g = j" "j \<le> eu_flowID (removeFlow f s)"
      using inv by (auto simp: udp_inv_def index_ok_def removeFlow_def)
  next
    fix j assume j: "j \<in> set (eu_byID (removeFlow f s))"
    then obtain g where g: "eu_heap s j = Some g" "eu_byKey s (fl_key g) = Some j" "j \<noteq> i"
      using inv f by (auto simp: udp_inv_def index_ok_def removeFlow_def)
    then have "fl_key g \<noteq> fl_key f" using f by auto
    then show "\<exists>g. eu_heap (removeFlow f s) j = Some g \<and> eu_byKey (removeFlow f s) (fl_key g) = Some j"
      using g by (simp add: removeFlow_def)
  next
    fix k j assume "eu_byKey (removeFlow f s) k = Some j"
    then have k: "k \<noteq> fl_key f" "eu_byKey s k = Some j"
      by (auto simp: removeFlow_def split: if_splits)
    then obtain g where g: "eu_heap s j = Some g" "fl_key g = k" "j \<in> set (eu_byID s)"
      using inv by (auto simp: udp_inv_def elim: index_key)
    then have "j \<noteq> i" using f k by auto
    then show "j \<in> set (eu_byID (removeFlow f s))" "\<exists>g. eu_heap (removeFlow f s) j = Some g \<and> fl_key g = k"
      using f g by (auto simp: removeFlow_def)
  qed
  moreover have "dns_ok (removeFlow f s)"
    using inv f length_filter_delete_where[of "eu_byID s" i "sharedFlow s"]
    unfolding udp_inv_def dns_ok_def table_sound_def same by (auto simp: removeFlow_def sharedFlow_def)
  moreover have "sockets_ok (removeFlow f s)"
  proof -
    have ok: "sockets_ok s" and sh: "sharedFlow s i = fl_sharedReply f"
      using inv f by (auto simp: udp_inv_def sharedFlow_def)
    show ?thesis
      using ok sh f(1-3) unfolding sockets_ok_def same by (cases "fl_sharedReply f") (simp_all add: removeFlow_def, auto)
  qed
  ultimately show ?thesis by (simp add: udp_inv_def)
qed

lemma sharedFlow_touch [simp]: "sharedFlow (touch now i s) = sharedFlow s"
  by (auto simp: sharedFlow_def touch_def fun_eq_iff split: option.splits)

lemma udp_inv_touch: "udp_inv s \<Longrightarrow> udp_inv (touch now i s)"
  unfolding udp_inv_def
proof (elim conjE, intro conjI)
  assume ok: "index_ok s"
  define g where "g j f = (if j = i then f\<lparr>fl_lastUsed := now\<rparr> else f)" for j and f :: edgeUDPFlow
  have g: "fl_id (g j f) = fl_id f" "fl_key (g j f) = fl_key f" for j f
    by (simp_all add: g_def)
  have h: "eu_heap (touch now i s) j = map_option (g j) (eu_heap s j)"
      "eu_byID (touch now i s) = eu_byID s" "eu_byKey (touch now i s) = eu_byKey s"
      "eu_flowID (touch now i s) = eu_flowID s" for j
    by (cases "eu_heap s j"; auto simp: touch_def g_def)+
  show "index_ok (touch now i s)"
    unfolding index_ok_def h
  proof (intro conjI allI ballI impI)
    fix j f assume "map_option (g j) (eu_heap s j) = Some f"
    then show "fl_id f = j" "j \<le> eu_flowID s"
      using ok by (auto simp: g dest: index_heap)
  next
    fix j assume "j \<in> set (eu_byID s)"
    then show "\<exists>f. map_option (g j) (eu_heap s j) = Some f \<and> eu_byKey s (fl_key f) = Some j"
      using ok by (auto simp: g elim: index_live)
  next
    fix k j assume "eu_byKey s k = Some j"
    then show "j \<in> set (eu_byID s)" "\<exists>f. map_option (g j) (eu_heap s j) = Some f \<and> fl_key f = k"
      using ok by (auto simp: g elim: index_key)
  qed
next
  assume "sockets_ok s"
  then show "sockets_ok (touch now i s)"
    unfolding sockets_ok_def sharedFlow_touch by (auto simp: touch_def split: if_splits)
next
  assume "dns_ok s"
  then show "dns_ok (touch now i s)"
    unfolding dns_ok_def sharedFlow_touch by (simp add: touch_def)
qed (simp add: touch_def)

text \<open>A change of the status server that leaves the gauge alone leaves the table alone.\<close>

lemma udp_inv_status:
  "udp_inv s \<Longrightarrow> sv_udpActive st = udpGauge s \<Longrightarrow> udp_inv (s\<lparr>eu_status := st\<rparr>)"
  unfolding udp_inv_def index_ok_def dns_ok_def sockets_ok_def sharedFlow_def by simp

lemma udp_inv_dropped: "udp_inv s \<Longrightarrow> udp_inv (s\<lparr>eu_status := DatagramDropped (eu_status s)\<rparr>)"
  by (rule udp_inv_status) (simp_all add: DatagramDropped_def)

lemma udp_inv_flowID: "udp_inv s \<Longrightarrow> eu_flowID s \<noteq> -1 \<Longrightarrow> udp_inv (fst (nextFlowID s))"
  using less_succ[of "eu_flowID s"]
  unfolding udp_inv_def index_ok_def dns_ok_def sockets_ok_def sharedFlow_def nextFlowID_def
  by (simp, meson less_imp_le order_trans)

lemma udp_inv_edgeUDPFlowWithReply:
  assumes "udp_inv s" "eu_flowID s \<noteq> -1"
  shows "udp_inv (fst (edgeUDPFlowWithReply now opened active key src dst tr given shared s))"
  using assms
  by (auto simp: edgeUDPFlowWithReply_def Let_def newFlow_def udp_inv_touch split: option.split
           intro!: udp_inv_addFlow)

lemma udp_inv_idleTick: "udp_inv s \<Longrightarrow> udp_inv (fst (idleTick now i s))"
  by (auto simp: idleTick_def intro: udp_inv_removeFlow split: option.split)

lemma udp_inv_receiveUDP: "udp_inv s \<Longrightarrow> udp_inv (fst (receiveUDP now written active data s))"
  by (auto simp: receiveUDP_def Let_def udp_inv_dropped udp_inv_touch split: sum.split option.split)

lemma udp_inv_closeSessionFlow: "udp_inv s \<Longrightarrow> udp_inv (closeSessionFlow active i s)"
  by (auto simp: closeSessionFlow_def intro: udp_inv_removeFlow split: option.split)

lemma udp_inv_closeUDPSession: "udp_inv s \<Longrightarrow> udp_inv (closeUDPSession active s)"
proof -
  have "udp_inv t \<Longrightarrow> udp_inv (fold (closeSessionFlow active) ids t)" for t ids
    by (induction ids arbitrary: t) (auto simp: udp_inv_closeSessionFlow)
  then show "udp_inv s \<Longrightarrow> ?thesis" by (simp add: closeUDPSession_def)
qed

lemma fold_endFlow:
  "fold endFlow ids s =
     s\<lparr>eu_closed := eu_closed s @ filter (\<lambda>i. eu_heap s i \<noteq> None \<and> \<not> sharedFlow s i) ids,
       eu_status := (eu_status s)\<lparr>sv_udpActive := udpGauge s - int (length ids)\<rparr>\<rparr>"
proof (induction ids arbitrary: s)
  case (Cons i ids)
  show ?case unfolding fold_simps comp_apply Cons.IH
    by (auto simp: endFlow_def sharedFlow_def UDPFlowEnded_def split: option.split)
qed simp

lemma closeUDPFlows_eq:
  "closeUDPFlows s =
     s\<lparr>eu_byID := [], eu_byKey := Map.empty, eu_dnsFlows := 0,
       eu_closed := eu_closed s @ filter (\<lambda>i. eu_heap s i \<noteq> None \<and> \<not> sharedFlow s i) (eu_byID s),
       eu_status := (eu_status s)\<lparr>sv_udpActive := udpGauge s - int (length (eu_byID s))\<rparr>\<rparr>"
  by (simp add: closeUDPFlows_def fold_endFlow sharedFlow_def)

lemma udp_inv_closeUDPFlows:
  assumes "udp_inv s"
  shows "udp_inv (closeUDPFlows s)"
proof -
  have "table_sound (eu_byID s) (udpGauge s) (eu_maxUDPFlows s)" "index_ok s" "dns_ok s" and ok: "sockets_ok s"
    using assms by (auto simp: udp_inv_def)
  then have "table_sound (eu_byID (closeUDPFlows s)) (udpGauge (closeUDPFlows s)) (eu_maxUDPFlows (closeUDPFlows s))"
      "index_ok (closeUDPFlows s)" "dns_ok (closeUDPFlows s)" and d: "distinct (eu_byID s)"
    by (auto simp: table_sound_def index_ok_def dns_ok_def closeUDPFlows_eq)
  moreover have "sharedFlow (closeUDPFlows s) = sharedFlow s"
    by (simp add: sharedFlow_def closeUDPFlows_eq fun_eq_iff)
  then have "sockets_ok (closeUDPFlows s)"
    using ok d unfolding sockets_ok_def by (auto simp: closeUDPFlows_eq)
  ultimately show ?thesis by (simp add: udp_inv_def)
qed

section \<open>The table as a machine\<close>

text \<open>
  Every critical section of the table is one step. Flow ids are drawn from a 64-bit counter; a step that draws one
  needs a value left.
\<close>

inductive edge_udp_step :: "edgeUDP \<Rightarrow> edgeUDP \<Rightarrow> bool" where
  flow: "eu_flowID s \<noteq> -1 \<Longrightarrow>
    edge_udp_step s (fst (edgeUDPFlowWithReply now opened active key src dst tr given shared s))"
| tick: "edge_udp_step s (fst (idleTick now i s))"
| receive: "edge_udp_step s (fst (receiveUDP now written active data s))"
| close_session: "edge_udp_step s (closeUDPSession active s)"
| close_all: "edge_udp_step s (closeUDPFlows s)"
| tcp: "eu_flowID s \<noteq> -1 \<Longrightarrow> edge_udp_step s (fst (nextFlowID s))"
| other: "sv_udpActive st = udpGauge s \<Longrightarrow> edge_udp_step s (s\<lparr>eu_status := st\<rparr>)"

lemma edge_udp_step_inv: "edge_udp_step s t \<Longrightarrow> udp_inv s \<Longrightarrow> udp_inv t"
  by (induction rule: edge_udp_step.induct)
     (simp_all add: udp_inv_edgeUDPFlowWithReply udp_inv_idleTick udp_inv_receiveUDP udp_inv_closeUDPSession
        udp_inv_closeUDPFlows udp_inv_flowID udp_inv_status)

interpretation edge_udp: machine edge_udp_step udp_inv
  by unfold_locales (rule edge_udp_step_inv)

text \<open>The limits never change.\<close>

definition limits :: "edgeUDP \<Rightarrow> int \<times> int \<times> duration" where
  "limits s = (eu_maxUDPFlows s, eu_dnsFlowMax s, eu_idleTimeout s)"

lemma limits_closeUDPSession: "limits (closeUDPSession active s) = limits s"
proof -
  have "limits (fold (closeSessionFlow active) ids t) = limits t" for t ids
    by (induction ids arbitrary: t) (auto simp: closeSessionFlow_def limits_def removeFlow_def split: option.split)
  then show ?thesis by (simp add: closeUDPSession_def)
qed

lemma edge_udp_step_limits: "edge_udp_step s t \<Longrightarrow> limits t = limits s"
  by (induction rule: edge_udp_step.induct)
     (auto simp: limits_closeUDPSession,
      auto simp: limits_def edgeUDPFlowWithReply_def addFlow_def touch_def idleTick_def removeFlow_def receiveUDP_def
        closeUDPFlows_eq nextFlowID_def Let_def split: option.splits sum.splits)

interpretation edge_udp_limited: layered_machine edge_udp_step udp_inv "\<lambda>s. limits s = l" for l
  by unfold_locales (simp add: edge_udp_step_limits)

section \<open>Loops over the table\<close>

definition drop_where :: "('a \<Rightarrow> bool) \<Rightarrow> 'a option \<Rightarrow> 'a option" where
  "drop_where P x = (case x of Some f \<Rightarrow> if P f then None else Some f | None \<Rightarrow> None)"

lemma drop_where_idem [simp]: "drop_where P (drop_where P x) = drop_where P x"
  by (auto simp: drop_where_def split: option.split)

lemma liveFlow_removeFlow:
  assumes "udp_inv s" "liveFlow s i = Some f"
  shows "liveFlow (removeFlow f s) j = (if j = i then None else liveFlow s j)"
proof -
  have "fl_id f = i" using assms by (auto simp: liveFlow_iff udp_inv_def dest: index_heap)
  then show ?thesis by (simp add: liveFlow_def removeFlow_def)
qed

text \<open>A loop whose round drops the visited flow when it satisfies a condition.\<close>

lemma fold_drops:
  assumes round: "\<And>s i. I s \<Longrightarrow> I (st i s) \<and> (\<forall>j. liveFlow (st i s) j = (if j = i then drop_where P (liveFlow s i) else liveFlow s j))"
    and "I s"
  shows "I (fold st ids s) \<and> (\<forall>j. liveFlow (fold st ids s) j = (if j \<in> set ids then drop_where P (liveFlow s j) else liveFlow s j))"
  using assms(2)
proof (induction ids arbitrary: s)
  case (Cons i ids)
  then have "I (st i s)" using round by blast
  from Cons.IH[OF this] show ?case using round[OF Cons.prems, of i] by simp
qed simp

lemma liveFlow_outside: "i \<notin> set (eu_byID s) \<Longrightarrow> liveFlow s i = None"
  by (simp add: liveFlow_def)

lemma liveFlow_closeUDPSession:
  assumes "udp_inv s"
  shows "liveFlow (closeUDPSession active s) i = drop_where (\<lambda>f. fl_session f = active) (liveFlow s i)"
proof -
  have "udp_inv t \<Longrightarrow> udp_inv (closeSessionFlow active i t) \<and>
      (\<forall>j. liveFlow (closeSessionFlow active i t) j =
         (if j = i then drop_where (\<lambda>f. fl_session f = active) (liveFlow t i) else liveFlow t j))" for t i
    by (cases "liveFlow t i")
       (auto simp: closeSessionFlow_def drop_where_def liveFlow_removeFlow intro: udp_inv_removeFlow)
  from fold_drops[where I = udp_inv, OF this assms] show ?thesis
    by (auto simp: closeUDPSession_def liveFlow_outside drop_where_def)
qed

text \<open>Every flow's timer fires once.\<close>

definition idleRound :: "time \<Rightarrow> edgeUDP \<Rightarrow> edgeUDP" where
  "idleRound now s = fold (\<lambda>i t. fst (idleTick now i t)) (eu_byID s) s"

lemma liveFlow_idleRound:
  assumes "udp_inv s"
  shows "udp_inv (idleRound now s) \<and>
    liveFlow (idleRound now s) i = drop_where (\<lambda>f. now - fl_lastUsed f \<ge> eu_idleTimeout s) (liveFlow s i)"
proof -
  define T where "T = eu_idleTimeout s"
  have "udp_inv t \<and> eu_idleTimeout t = T \<Longrightarrow>
      (udp_inv (fst (idleTick now i t)) \<and> eu_idleTimeout (fst (idleTick now i t)) = T) \<and>
      (\<forall>j. liveFlow (fst (idleTick now i t)) j =
         (if j = i then drop_where (\<lambda>f. now - fl_lastUsed f \<ge> T) (liveFlow t i) else liveFlow t j))" for t i
    using udp_inv_idleTick[of t now i]
    by (cases "liveFlow t i") (auto simp: idleTick_def drop_where_def liveFlow_removeFlow, simp add: removeFlow_def)
  from fold_drops[where I = "\<lambda>t. udp_inv t \<and> eu_idleTimeout t = T", OF this] assms show ?thesis
    by (auto simp: idleRound_def liveFlow_outside drop_where_def T_def)
qed

lemma no_live_flow:
  assumes "udp_inv s" "\<And>i. liveFlow s i = None"
  shows "eu_byID s = [] \<and> udpGauge s = 0 \<and> eu_dnsFlows s = 0"
proof -
  have "i \<notin> set (eu_byID s)" for i
    using assms by (metis (full_types) index_live liveFlow_iff option.distinct(1) udp_inv_def)
  then have "eu_byID s = []" by (metis list.set_intros(1) neq_Nil_conv)
  then show ?thesis using assms(1) by (simp add: udp_inv_def table_sound_def dns_ok_def)
qed

section \<open>Properties\<close>

text \<open>
  C15. In every state that the edge reaches, with the UDP flow limit \<open>m\<close> and up to the wrap-around of the 64-bit flow
  counter, at most \<open>m\<close> flows are in the table, at most the derived DNS limit of them (and never more than \<open>m\<close>) are
  DNS flows, the active-flow gauge and the DNS counter agree with the table, no reply socket is closed twice, and a
  flow's own reply socket is closed exactly when the flow has left the table.
\<close>

theorem edge_udp_reachable:
  assumes "0 \<le> m" and "edge_udp_step\<^sup>*\<^sup>* (newEdgeUDP m idle (New v)) s"
  shows "int (length (eu_byID s)) \<le> m \<and> sv_udpActive (eu_status s) = int (length (eu_byID s))
    \<and> eu_dnsFlows s = int (length (filter (sharedFlow s) (eu_byID s))) \<and> eu_dnsFlows s \<le> min m (max 64 (m div 8))
    \<and> distinct (eu_closed s)
    \<and> (\<forall>i f. eu_heap s i = Some f \<longrightarrow> (i \<in> set (eu_closed s)) = (\<not> fl_sharedReply f \<and> i \<notin> set (eu_byID s)))"
proof -
  have "udp_inv s \<and> limits s = limits (newEdgeUDP m idle (New v))"
    using edge_udp_limited.steps_both[OF assms(2) udp_inv_new[OF assms(1)] refl] .
  then show ?thesis
    by (auto simp: udp_inv_def limits_def newEdgeUDP_def table_sound_def dns_ok_def sockets_ok_def sharedFlow_def)
qed

text \<open>
  When a session ends, exactly its flows leave the table: no flow of the session is left, every flow of another
  session is still there, and the key of a removed flow is free again.
\<close>

theorem closeUDPSession_exact:
  assumes "udp_inv s"
  shows "(\<forall>i f. liveFlow (closeUDPSession active s) i = Some f \<longleftrightarrow> liveFlow s i = Some f \<and> fl_session f \<noteq> active)
    \<and> (\<forall>i f. liveFlow s i = Some f \<and> fl_session f = active \<longrightarrow>
          eu_byKey (closeUDPSession active s) (fl_key f) = None)"
proof (intro conjI allI impI)
  fix i f
  show "liveFlow (closeUDPSession active s) i = Some f \<longleftrightarrow> liveFlow s i = Some f \<and> fl_session f \<noteq> active"
    by (auto simp: liveFlow_closeUDPSession[OF assms] drop_where_def split: option.splits if_splits)
next
  fix i f assume f: "liveFlow s i = Some f \<and> fl_session f = active"
  let ?t = "closeUDPSession active s"
  show "eu_byKey ?t (fl_key f) = None"
  proof (rule ccontr)
    assume "eu_byKey ?t (fl_key f) \<noteq> None"
    then obtain j g where g: "liveFlow ?t j = Some g" "fl_key g = fl_key f"
      using udp_inv_closeUDPSession[OF assms, of active] by (auto simp: udp_inv_def liveFlow_iff elim: index_key)
    then have h: "liveFlow s j = Some g" "fl_session g \<noteq> active"
      by (auto simp: liveFlow_closeUDPSession[OF assms] drop_where_def split: option.splits if_splits)
    have "eu_byKey s (fl_key f) = Some i" "eu_byKey s (fl_key g) = Some j"
      using assms f h(1) by (auto simp: udp_inv_def liveFlow_iff elim: index_live)
    then show False using g(2) f h by simp
  qed
qed

text \<open>
  C37. Idle flows do not stay: once no flow has been used for the idle timeout, one round of the flow timers empties
  the table, and the gauge and the DNS counter return to zero.
\<close>

theorem idle_flows_leave:
  assumes "udp_inv s" and "\<And>i f. liveFlow s i = Some f \<Longrightarrow> fl_lastUsed f + eu_idleTimeout s \<le> now"
  shows "eu_byID (idleRound now s) = [] \<and> sv_udpActive (eu_status (idleRound now s)) = 0
    \<and> eu_dnsFlows (idleRound now s) = 0"
proof (rule no_live_flow)
  show "udp_inv (idleRound now s)" using liveFlow_idleRound[OF assms(1)] by blast
next
  fix i
  have "now - fl_lastUsed f \<ge> eu_idleTimeout s" if "liveFlow s i = Some f" for f
    using assms(2)[OF that] by simp
  then show "liveFlow (idleRound now s) i = None"
    using liveFlow_idleRound[OF assms(1), of now i] by (auto simp: drop_where_def split: option.splits)
qed

section \<open>A concrete table\<close>

definition sampleClient :: addr_port where
  "sampleClient = \<lparr>ap_addr = V4 0x64400001, ap_port = 40000\<rparr>"

definition sampleService :: addr_port where
  "sampleService = \<lparr>ap_addr = V4 0x0A000002, ap_port = 53\<rparr>"

definition emptyTable :: edgeUDP where
  "emptyTable = newEdgeUDP 2 60 (New ''v1'')"

text \<open>One flow of session 7, opened at time 5.\<close>

definition oneFlow :: edgeUDP where
  "oneFlow = fst (edgeUDPFlowWithReply 5 True 7 ''k'' sampleClient sampleService sampleService False False emptyTable)"

lemmas table_eval = emptyTable_def oneFlow_def newEdgeUDP_def edgeUDPFlowWithReply_def newFlow_def addFlow_def
  removeFlow_def liveFlow_def New_def UDPFlowStarted_def UDPFlowEnded_def Let_def

lemma emptyTable_inv: "udp_inv emptyTable"
  unfolding emptyTable_def by (rule udp_inv_new) simp

lemma oneFlow_step: "edge_udp_step\<^sup>*\<^sup>* emptyTable oneFlow"
  unfolding oneFlow_def by (intro r_into_rtranclp edge_udp_step.flow) (simp add: table_eval)

lemma oneFlow_inv: "udp_inv oneFlow"
  using edge_udp.steps_inv[OF oneFlow_step emptyTable_inv] .

lemma oneFlow_fields:
  "eu_byID oneFlow = [1]" "eu_byKey oneFlow ''k'' = Some 1" "eu_idleTimeout oneFlow = 60" "eu_closed oneFlow = []"
  "eu_heap oneFlow = [1 \<mapsto> newFlow 5 1 7 ''k'' sampleClient sampleService sampleService False]"
  by (simp_all add: table_eval)

theorem edge_udp_reachable_witness:
  "edge_udp_step\<^sup>*\<^sup>* (newEdgeUDP 2 60 (New ''v1'')) oneFlow \<and> eu_byID oneFlow = [1]
   \<and> int (length (eu_byID oneFlow)) \<le> 2 \<and> sv_udpActive (eu_status oneFlow) = 1 \<and> 1 \<notin> set (eu_closed oneFlow)"
proof -
  have "edge_udp_step\<^sup>*\<^sup>* (newEdgeUDP 2 60 (New ''v1'')) oneFlow"
    using oneFlow_step by (simp add: emptyTable_def)
  with edge_udp_reachable[of 2, OF _ this] show ?thesis
    by (simp add: oneFlow_fields newFlow_def)
qed

theorem closeUDPSession_exact_witness:
  "liveFlow oneFlow 1 \<noteq> None \<and> liveFlow (closeUDPSession 7 oneFlow) 1 = None
   \<and> eu_byKey (closeUDPSession 7 oneFlow) ''k'' = None
   \<and> liveFlow (closeUDPSession 8 oneFlow) 1 = liveFlow oneFlow 1"
proof -
  let ?f = "newFlow 5 1 7 ''k'' sampleClient sampleService sampleService False"
  have f: "liveFlow oneFlow 1 = Some ?f" "fl_session ?f = 7" "fl_key ?f = ''k''"
    by (simp_all add: liveFlow_def oneFlow_fields newFlow_def)
  have gone: "liveFlow (closeUDPSession 7 oneFlow) 1 = None"
    using closeUDPSession_exact[OF oneFlow_inv, of 7] f by (cases "liveFlow (closeUDPSession 7 oneFlow) 1") auto
  have kept: "liveFlow (closeUDPSession 8 oneFlow) 1 = Some ?f"
    using closeUDPSession_exact[OF oneFlow_inv, of 8] f by simp
  have free: "eu_byKey (closeUDPSession 7 oneFlow) ''k'' = None"
    using closeUDPSession_exact[OF oneFlow_inv, of 7] f by metis
  show ?thesis using f gone kept free by simp
qed

theorem idle_flows_leave_witness:
  "eu_byID oneFlow = [1] \<and> eu_byID (idleRound 65 oneFlow) = [] \<and> sv_udpActive (eu_status (idleRound 65 oneFlow)) = 0"
proof -
  have "liveFlow oneFlow i = Some f \<Longrightarrow> fl_lastUsed f + eu_idleTimeout oneFlow \<le> 65" for i f
    by (auto simp: liveFlow_def oneFlow_fields newFlow_def split: if_splits)
  from idle_flows_leave[OF oneFlow_inv this] show ?thesis by (simp add: oneFlow_fields)
qed

end
