(* ===== verification/Identity.thy ===== *)
theory Identity
  imports Config_Load
begin

text \<open>
  Packages \<^verbatim>\<open>internal/pki\<close> (\<^verbatim>\<open>issuer.go\<close>, \<^verbatim>\<open>edge_manager.go\<close>) and \<^verbatim>\<open>internal/transport\<close> (\<^verbatim>\<open>tls.go\<close>): the identities that
  certificates carry, how they are issued and how a peer's identity is read and checked. A certificate is the template
  that the issuer signs. Chain verification and signing belong to Go's \<^verbatim>\<open>crypto/x509\<close>: \<open>verify\<close> tells whether a chain
  verifies for a key usage, \<open>create\<close> whether a template can be signed. The lemmas show that an issued certificate is
  read back as exactly the identity it was issued for and never as one of another kind.
\<close>

section \<open>URIs (net/url)\<close>

record URL =
  url_Scheme :: string
  url_Host :: string
  url_Path :: string
  url_RawPath :: string
  url_RawQuery :: string
  url_Fragment :: string

definition shouldEscape :: "char \<Rightarrow> bool" where
  "shouldEscape c \<longleftrightarrow> \<not> (asciiLetterOrDigit c \<or> c \<in> set ''-_.~$&+,/:;=@'')"

definition validEncoded :: "char \<Rightarrow> bool" where
  "validEncoded c \<longleftrightarrow> c \<in> set ''!$&'' \<or> c = CHR 0x27 \<or> c \<in> set ''()*+,;=:@[]%'' \<or> \<not> shouldEscape c"

definition upper_hex :: "nat \<Rightarrow> char" where
  "upper_hex n = (if n < 10 then char_of (48 + n) else char_of (55 + n))"

definition escape_path :: "string \<Rightarrow> string" where
  "escape_path s = concat (map (\<lambda>c. if shouldEscape c
      then [CHR ''%'', upper_hex (of_char c div 16), upper_hex (of_char c mod 16)] else [c]) s)"

definition escapedPath :: "URL \<Rightarrow> string" where
  "escapedPath u = (if url_RawPath u \<noteq> [] \<and> list_all validEncoded (url_RawPath u) then url_RawPath u
                    else escape_path (url_Path u))"

definition url_string :: "URL \<Rightarrow> string" where
  "url_string u = url_Scheme u @ ''://'' @ url_Host u @ escapedPath u
     @ (if url_RawQuery u = [] then [] else CHR ''?'' # url_RawQuery u)
     @ (if url_Fragment u = [] then [] else CHR ''#'' # url_Fragment u)"

text \<open>Parsing a text with the scheme and host of the system and a path without reserved characters.\<close>

definition parse_spiffe :: "string \<Rightarrow> URL option" where
  "parse_spiffe path =
     (if list_ex is_control path then None
      else Some \<lparr>url_Scheme = ''spiffe'', url_Host = ''tailbridge.local'', url_Path = path,
                 url_RawPath = (if escape_path path = path then [] else path), url_RawQuery = [], url_Fragment = []\<rparr>)"

section \<open>Certificates and their issue\<close>

datatype ext_key_usage = ExtKeyUsageClientAuth | ExtKeyUsageServerAuth

record certificate =
  ce_SerialNumber :: nat
  ce_CommonName :: string
  ce_NotBefore :: time
  ce_NotAfter :: time
  ce_ExtKeyUsage :: "ext_key_usage list"
  ce_URIs :: "URL list"

datatype issue_error = RequestNotValid | ReservedCharacter | IdentityNotValid | IntermediateNotValid | NoValidity | SigningFailed

definition reserved :: "string \<Rightarrow> bool" where
  "reserved s \<longleftrightarrow> list_ex (\<lambda>c. c \<in> set ''/?#%'') s"

definition newSerial :: "nat \<Rightarrow> nat" where
  "newSerial random = (let serial = random mod 2 ^ 128 in if serial = 0 then 1 else serial)"

text \<open>\<open>issuer\<close> is the intermediate certificate, \<open>random\<close> the number drawn for the serial, \<open>keySize\<close> the length of the key.\<close>

definition IssueConnector ::
    "(certificate \<Rightarrow> bool) \<Rightarrow> certificate \<Rightarrow> time \<Rightarrow> nat \<Rightarrow> string \<Rightarrow> string \<Rightarrow> string \<Rightarrow> nat \<Rightarrow> duration
     \<Rightarrow> issue_error + certificate \<times> nat \<times> time" where
  "IssueConnector create issuer now random projectID environmentID keyID keySize lifetime =
     (if keySize \<noteq> 32 \<or> projectID = [] \<or> environmentID = [] \<or> keyID = [] \<or> lifetime \<le> 0 then Inl RequestNotValid
      else if list_ex reserved [projectID, environmentID, keyID] then Inl ReservedCharacter
      else let serial = newSerial random in
      case parse_spiffe (''/connector/'' @ projectID @ ''/'' @ environmentID @ ''/'' @ keyID) of
        None \<Rightarrow> Inl IdentityNotValid
      | Some identity \<Rightarrow>
          if now < ce_NotBefore issuer \<or> ce_NotAfter issuer \<le> now then Inl IntermediateNotValid
          else let notAfter = (if ce_NotAfter issuer < now + lifetime then ce_NotAfter issuer else now + lifetime) in
          if notAfter \<le> now then Inl NoValidity
          else let template =
            \<lparr>ce_SerialNumber = serial, ce_CommonName = ''tailbridge-connector-'' @ environmentID,
             ce_NotBefore = now - minutes 1, ce_NotAfter = notAfter, ce_ExtKeyUsage = [ExtKeyUsageClientAuth],
             ce_URIs = [identity]\<rparr>
          in if create template then Inr (template, serial, notAfter) else Inl SigningFailed)"

definition IssueEdge ::
    "(certificate \<Rightarrow> bool) \<Rightarrow> certificate \<Rightarrow> time \<Rightarrow> nat \<Rightarrow> string \<Rightarrow> duration \<Rightarrow> issue_error + certificate \<times> time" where
  "IssueEdge create issuer now random edgeID lifetime =
     (if edgeID = [] \<or> reserved edgeID \<or> lifetime \<le> 0 then Inl RequestNotValid
      else if now < ce_NotBefore issuer \<or> ce_NotAfter issuer \<le> now then Inl IntermediateNotValid
      else let notAfter = (if ce_NotAfter issuer < now + lifetime then ce_NotAfter issuer else now + lifetime);
          identity = \<lparr>url_Scheme = ''spiffe'', url_Host = ''tailbridge.local'', url_Path = ''/edge/'' @ edgeID,
                      url_RawPath = [], url_RawQuery = [], url_Fragment = []\<rparr>;
          template =
            \<lparr>ce_SerialNumber = newSerial random, ce_CommonName = ''tailbridge-edge-'' @ edgeID,
             ce_NotBefore = now - minutes 1, ce_NotAfter = notAfter, ce_ExtKeyUsage = [ExtKeyUsageServerAuth],
             ce_URIs = [identity]\<rparr>
      in if create template then Inr (template, notAfter) else Inl SigningFailed)"

section \<open>The edge's own certificate\<close>

record EdgeManager =
  em_issuer :: certificate
  em_edgeID :: string
  em_value :: "certificate option"
  em_renewAfter :: duration

definition edgeCertificateLifetime :: duration where
  "edgeCertificateLifetime = hours 24"

definition edgeCertificateRenewal :: duration where
  "edgeCertificateRenewal = hours 12"

definition rotate :: "(certificate \<Rightarrow> bool) \<Rightarrow> time \<Rightarrow> nat \<Rightarrow> EdgeManager \<Rightarrow> EdgeManager \<times> issue_error option" where
  "rotate create now random m =
     (case IssueEdge create (em_issuer m) now random (em_edgeID m) edgeCertificateLifetime of
        Inl e \<Rightarrow> (m, Some e)
      | Inr (c, _) \<Rightarrow> (m\<lparr>em_value := Some c\<rparr>, None))"

definition NewEdgeManager ::
    "(certificate \<Rightarrow> bool) \<Rightarrow> time \<Rightarrow> nat \<Rightarrow> string \<Rightarrow> certificate \<Rightarrow> issue_error + EdgeManager" where
  "NewEdgeManager create now random edgeID issuer =
     (let m = \<lparr>em_issuer = issuer, em_edgeID = edgeID, em_value = None, em_renewAfter = edgeCertificateRenewal\<rparr>
      in case rotate create now random m of (m', None) \<Rightarrow> Inr m' | (_, Some e) \<Rightarrow> Inl e)"

definition GetCertificate :: "EdgeManager \<Rightarrow> certificate option" where
  "GetCertificate m = em_value m"

text \<open>One firing of the renewal timer: the new manager and the time until the next firing.\<close>

definition renewalTick :: "(certificate \<Rightarrow> bool) \<Rightarrow> time \<Rightarrow> nat \<Rightarrow> EdgeManager \<Rightarrow> EdgeManager \<times> duration" where
  "renewalTick create now random m =
     (case rotate create now random m of
        (m', Some _) \<Rightarrow> (m', minutes 1)
      | (m', None) \<Rightarrow> (m', em_renewAfter m'))"

section \<open>Reading a peer's identity\<close>

datatype identity_error =
    CertificateMissing | IdentityInvalid | NoIdentity | ManyIdentities | ChainNotTrusted | IdentityMismatch

text \<open>The leaf certificate comes first.\<close>

fun v3_scan :: "URL list \<Rightarrow> identity_error + string \<times> string \<times> string" where
  "v3_scan [] = Inl NoIdentity"
| "v3_scan (u # us) =
     (if url_Scheme u \<noteq> ''spiffe'' \<or> url_Host u \<noteq> ''tailbridge.local'' \<or> \<not> has_prefix (url_Path u) ''/connector/''
         \<or> url_RawQuery u \<noteq> [] \<or> url_Fragment u \<noteq> []
      then v3_scan us
      else case split_on CHR ''/'' (trim_prefix (url_Path u) ''/connector/'') of
          [p, e, k] \<Rightarrow> if p = [] \<or> e = [] \<or> k = [] then Inl IdentityInvalid else Inr (p, e, k)
        | _ \<Rightarrow> Inl IdentityInvalid)"

definition PeerConnectorIdentityV3 :: "certificate list \<Rightarrow> identity_error + string \<times> string \<times> string" where
  "PeerConnectorIdentityV3 chain =
     (case chain of [] \<Rightarrow> Inl CertificateMissing | leaf # _ \<Rightarrow> v3_scan (ce_URIs leaf))"

fun identity_scan :: "string \<Rightarrow> string \<Rightarrow> URL list \<Rightarrow> identity_error + string" where
  "identity_scan prefix identity [] = (if identity = [] then Inl NoIdentity else Inr identity)"
| "identity_scan prefix identity (u # us) =
     (let text = url_string u in
      if \<not> has_prefix text prefix then identity_scan prefix identity us
      else let i = trim_prefix text prefix in
        if i = [] \<or> CHR ''/'' \<in> set i \<or> url_RawQuery u \<noteq> [] \<or> url_Fragment u \<noteq> [] then Inl IdentityInvalid
        else if identity \<noteq> [] then Inl ManyIdentities
        else identity_scan prefix i us)"

definition PeerIdentity :: "certificate list \<Rightarrow> string \<Rightarrow> identity_error + string" where
  "PeerIdentity chain role =
     (case chain of
        [] \<Rightarrow> Inl CertificateMissing
      | leaf # _ \<Rightarrow> identity_scan (''spiffe://tailbridge.local/'' @ role @ ''/'') [] (ce_URIs leaf))"

type_synonym chain_check = "certificate list \<Rightarrow> ext_key_usage \<Rightarrow> bool"

definition verifyPeerCertificate :: "chain_check \<Rightarrow> certificate list \<Rightarrow> ext_key_usage \<Rightarrow> identity_error + unit" where
  "verifyPeerCertificate verify chain usage =
     (if chain = [] then Inl CertificateMissing
      else if verify chain usage then Inr () else Inl ChainNotTrusted)"

definition verifyIdentity ::
    "chain_check \<Rightarrow> string \<Rightarrow> string \<Rightarrow> ext_key_usage \<Rightarrow> certificate list \<Rightarrow> identity_error + unit" where
  "verifyIdentity verify role i usage chain =
     and_then (verifyPeerCertificate verify chain usage) (\<lambda>_.
     and_then (PeerIdentity chain role) (\<lambda>identity.
     if identity \<noteq> i then Inl IdentityMismatch else Inr ()))"

text \<open>What the edge's TLS configuration accepts; \<open>dynamic\<close> tells whether the third protocol version is negotiated.\<close>

definition serverVerifyConnection :: "chain_check \<Rightarrow> bool \<Rightarrow> certificate list \<Rightarrow> identity_error + unit" where
  "serverVerifyConnection verify dynamic chain =
     and_then (verifyPeerCertificate verify chain ExtKeyUsageClientAuth) (\<lambda>_.
     if dynamic then and_then (PeerConnectorIdentityV3 chain) (\<lambda>_. Inr ())
     else and_then (PeerIdentity chain ''connector'') (\<lambda>_. Inr ()))"

text \<open>The identity and the protocol that the connector's TLS configuration asks for.\<close>

definition clientTLS :: "Common \<Rightarrow> string \<times> bool" where
  "clientTLS c =
     (if co_EdgeID c = [] then co_ConnectorID c else co_EdgeID c,
      co_Environment c \<noteq> [] \<and> co_ConnectorID c \<noteq> [] \<and> CHR ''/'' \<in> set (co_ConnectorID c))"

section \<open>Lemmas\<close>

lemma split_on_part: "c \<notin> set xs \<Longrightarrow> split_on c (xs @ c # ys) = xs # split_on c ys"
  by (induction xs) auto

lemma split_on_one: "c \<notin> set xs \<Longrightarrow> split_on c xs = [xs]"
  by (induction xs) auto

lemma escape_append: "escape_path (a @ b) = escape_path a @ escape_path b"
  by (simp add: escape_path_def)

lemma escape_plain: "list_all (\<lambda>c. \<not> shouldEscape c) s \<Longrightarrow> escape_path s = s"
  by (induction s) (auto simp: escape_path_def)

lemma plain_literals:
  "list_all (\<lambda>c. \<not> shouldEscape c) ''/connector/''" "list_all (\<lambda>c. \<not> shouldEscape c) ''/edge/''"
  "\<not> shouldEscape CHR ''/''"
  by code_simp+

lemma reserved_slash: "\<not> reserved s \<Longrightarrow> CHR ''/'' \<notin> set s"
  by (auto simp: reserved_def list_ex_iff)

text \<open>The escaped path of a connector identity keeps its literal segment and its slashes.\<close>

lemma connector_text:
  assumes "parse_spiffe (''/connector/'' @ p @ ''/'' @ r) = Some u"
  obtains tail where "url_string u = ''spiffe://tailbridge.local/connector/'' @ tail" "CHR ''/'' \<in> set tail"
proof -
  have "escapedPath u = ''/connector/'' @ p @ ''/'' @ r \<or> escapedPath u = escape_path (''/connector/'' @ p @ ''/'' @ r)"
    using assms by (auto simp: parse_spiffe_def escapedPath_def split: if_splits)
  moreover have "escape_path (''/connector/'' @ p @ ''/'' @ r) = ''/connector/'' @ escape_path p @ ''/'' @ escape_path r"
    using escape_plain[OF plain_literals(1)] plain_literals(3)
    by (simp only: escape_append) (simp add: escape_path_def)
  ultimately obtain tail where t: "escapedPath u = ''/connector/'' @ tail" "CHR ''/'' \<in> set tail"
    by auto
  have "url_Scheme u = ''spiffe'' \<and> url_Host u = ''tailbridge.local'' \<and> url_RawQuery u = [] \<and> url_Fragment u = []"
    using assms by (auto simp: parse_spiffe_def split: if_splits)
  with t show ?thesis by (intro that[of tail]) (simp_all add: url_string_def)
qed

lemma IssueConnector_parts:
  assumes "IssueConnector create issuer now random p e k keySize lifetime = Inr (c, serial, notAfter)"
  obtains u where "parse_spiffe (''/connector/'' @ p @ ''/'' @ e @ ''/'' @ k) = Some u" "ce_URIs c = [u]"
    "\<not> reserved p" "\<not> reserved e" "\<not> reserved k" "p \<noteq> []" "e \<noteq> []" "k \<noteq> []"
    "ce_ExtKeyUsage c = [ExtKeyUsageClientAuth]" "ce_SerialNumber c = serial" "serial = newSerial random"
    "ce_NotBefore c < now" "now < ce_NotAfter c" "ce_NotAfter c \<le> now + lifetime"
    "ce_NotAfter c \<le> ce_NotAfter issuer" "ce_NotAfter c = notAfter"
proof -
  define path where "path = ''/connector/'' @ p @ ''/'' @ e @ ''/'' @ k"
  note issue = assms[unfolded IssueConnector_def Let_def, folded path_def]
  then obtain u where u: "parse_spiffe path = Some u"
    by (cases "parse_spiffe path") (simp_all split: if_splits)
  from issue show ?thesis
    by (simp add: u split: if_splits) (rule that[OF u[unfolded path_def]]; auto)+
qed

lemma connector_identity_read:
  assumes "IssueConnector create issuer now random p e k keySize lifetime = Inr (c, serial, notAfter)"
  shows "PeerConnectorIdentityV3 (c # rest) = Inr (p, e, k)"
proof -
  obtain u where u: "parse_spiffe (''/connector/'' @ p @ ''/'' @ e @ ''/'' @ k) = Some u" "ce_URIs c = [u]"
    and seg: "\<not> reserved p" "\<not> reserved e" "\<not> reserved k" "p \<noteq> []" "e \<noteq> []" "k \<noteq> []"
    by (rule IssueConnector_parts[OF assms])
  have path: "url_Path u = ''/connector/'' @ p @ ''/'' @ e @ ''/'' @ k" "url_Scheme u = ''spiffe''" "url_Host u = ''tailbridge.local''"
      "url_RawQuery u = []" "url_Fragment u = []"
    using u(1) by (auto simp: parse_spiffe_def split: if_splits)
  have "split_on CHR ''/'' (p @ ''/'' @ e @ ''/'' @ k) = [p, e, k]"
    using seg reserved_slash by (simp add: split_on_part split_on_one)
  then show ?thesis using seg path by (simp add: PeerConnectorIdentityV3_def u(2) has_prefix_def trim_prefix_def)
qed

lemma other_role_text: "\<not> has_prefix (''spiffe://tailbridge.local/connector/'' @ t) (''spiffe://tailbridge.local/'' @ ''edge'' @ ''/'')"
  by (simp add: has_prefix_def)

lemma edge_text:
  assumes "list_all (\<lambda>c. \<not> shouldEscape c) i"
  shows "url_string \<lparr>url_Scheme = ''spiffe'', url_Host = ''tailbridge.local'', url_Path = ''/edge/'' @ i,
           url_RawPath = [], url_RawQuery = [], url_Fragment = []\<rparr> = ''spiffe://tailbridge.local/edge/'' @ i"
  using escape_plain[OF assms] escape_plain[OF plain_literals(2)]
  by (simp only: url_string_def escapedPath_def URL.simps escape_append) simp

lemma validName_plain: "validName i \<Longrightarrow> list_all (\<lambda>c. \<not> shouldEscape c) i"
  by (cases i) (auto simp: validName_def shouldEscape_def list_all_iff)

lemma edge_identity_read:
  assumes "IssueEdge create issuer now random edgeID lifetime = Inr (c, notAfter)" and "validName edgeID"
  shows "PeerIdentity (c # rest) ''edge'' = Inr edgeID"
proof -
  let ?u = "\<lparr>url_Scheme = ''spiffe'', url_Host = ''tailbridge.local'', url_Path = ''/edge/'' @ edgeID,
             url_RawPath = [], url_RawQuery = [], url_Fragment = []\<rparr>"
  have c: "ce_URIs c = [?u]" "edgeID \<noteq> []" "CHR ''/'' \<notin> set edgeID"
    using assms(1) by (auto simp: IssueEdge_def Let_def reserved_slash split: if_splits)
  have "url_string ?u = ''spiffe://tailbridge.local/edge/'' @ edgeID" using edge_text[OF validName_plain[OF assms(2)]] .
  then show ?thesis using c by (simp add: PeerIdentity_def has_prefix_def trim_prefix_def)
qed

section \<open>Properties\<close>

text \<open>
  C39. A connector certificate is read back as exactly the project, environment and key it was issued for, whatever
  follows it in the chain; it never passes as a legacy connector or as an edge; it is for client authentication only,
  it is valid when it is issued, and it outlives neither the requested lifetime nor the intermediate.
\<close>

theorem connector_identity_roundtrip:
  assumes "IssueConnector create issuer now random p e k keySize lifetime = Inr (c, serial, notAfter)"
  shows "PeerConnectorIdentityV3 (c # rest) = Inr (p, e, k)
    \<and> (\<forall>i. PeerIdentity (c # rest) ''connector'' \<noteq> Inr i) \<and> (\<forall>i. PeerIdentity (c # rest) ''edge'' \<noteq> Inr i)
    \<and> ce_ExtKeyUsage c = [ExtKeyUsageClientAuth] \<and> ce_SerialNumber c = serial \<and> 1 \<le> serial \<and> serial < 2 ^ 128
    \<and> ce_NotBefore c < now \<and> now < ce_NotAfter c \<and> ce_NotAfter c \<le> now + lifetime
    \<and> ce_NotAfter c \<le> ce_NotAfter issuer \<and> ce_NotAfter c = notAfter"
proof -
  let ?path = "''/connector/'' @ p @ ''/'' @ e @ ''/'' @ k"
  obtain u where u: "parse_spiffe ?path = Some u" "ce_URIs c = [u]"
    and rest: "ce_ExtKeyUsage c = [ExtKeyUsageClientAuth]" "ce_SerialNumber c = serial" "serial = newSerial random"
      "ce_NotBefore c < now" "now < ce_NotAfter c" "ce_NotAfter c \<le> now + lifetime"
      "ce_NotAfter c \<le> ce_NotAfter issuer" "ce_NotAfter c = notAfter"
    by (rule IssueConnector_parts[OF assms])
  have "PeerConnectorIdentityV3 (c # rest) = Inr (p, e, k)" by (rule connector_identity_read[OF assms])
  moreover obtain tail where t: "url_string u = ''spiffe://tailbridge.local/connector/'' @ tail" "CHR ''/'' \<in> set tail"
    using connector_text[OF u(1)] .
  then have "PeerIdentity (c # rest) ''connector'' = Inl IdentityInvalid"
    by (simp add: PeerIdentity_def u(2) has_prefix_def trim_prefix_def)
  moreover have "PeerIdentity (c # rest) ''edge'' = Inl NoIdentity"
    using t other_role_text[of tail] by (simp add: PeerIdentity_def u(2))
  moreover have "1 \<le> newSerial random \<and> newSerial random < 2 ^ 128"
    by (auto simp: newSerial_def Let_def)
  ultimately show ?thesis using rest by simp
qed

text \<open>
  With a valid edge name, the certificate that the edge serves is accepted by a client that expects this edge
  whenever its chain verifies for server authentication, and by no client that expects another name; it is never read as a connector.
\<close>

theorem edge_identity_accepted:
  assumes "IssueEdge create issuer now random edgeID lifetime = Inr (c, notAfter)" and "validName edgeID"
  shows "(verifyIdentity verify ''edge'' i ExtKeyUsageServerAuth (c # rest) = Inr ()
      \<longleftrightarrow> verify (c # rest) ExtKeyUsageServerAuth \<and> i = edgeID)
    \<and> (\<forall>x. PeerConnectorIdentityV3 (c # rest) \<noteq> Inr x) \<and> (\<forall>x. PeerIdentity (c # rest) ''connector'' \<noteq> Inr x)"
proof (intro conjI)
  let ?u = "\<lparr>url_Scheme = ''spiffe'', url_Host = ''tailbridge.local'', url_Path = ''/edge/'' @ edgeID,
             url_RawPath = [], url_RawQuery = [], url_Fragment = []\<rparr>"
  have c: "ce_URIs c = [?u]" "edgeID \<noteq> []" "CHR ''/'' \<notin> set edgeID"
    using assms(1) by (auto simp: IssueEdge_def Let_def reserved_slash split: if_splits)
  have t: "url_string ?u = ''spiffe://tailbridge.local/edge/'' @ edgeID"
    using edge_text[OF validName_plain[OF assms(2)]] .
  have "PeerIdentity (c # rest) ''edge'' = Inr edgeID" by (rule edge_identity_read[OF assms])
  then show "verifyIdentity verify ''edge'' i ExtKeyUsageServerAuth (c # rest) = Inr ()
      \<longleftrightarrow> verify (c # rest) ExtKeyUsageServerAuth \<and> i = edgeID"
    by (auto simp: verifyIdentity_def verifyPeerCertificate_def)
  show "\<forall>x. PeerConnectorIdentityV3 (c # rest) \<noteq> Inr x"
    using c by (simp add: PeerConnectorIdentityV3_def has_prefix_def)
  show "\<forall>x. PeerIdentity (c # rest) ''connector'' \<noteq> Inr x"
    using c t by (simp add: PeerIdentity_def has_prefix_def)
qed

section \<open>Concrete certificates\<close>

definition sampleIntermediate :: certificate where
  "sampleIntermediate = \<lparr>ce_SerialNumber = 1, ce_CommonName = ''ca'', ce_NotBefore = 0, ce_NotAfter = hours 2000,
     ce_ExtKeyUsage = [], ce_URIs = []\<rparr>"

definition signs :: "certificate \<Rightarrow> bool" where
  "signs _ = True"

lemma sample_connector_issued:
  "\<exists>c n. IssueConnector signs sampleIntermediate (hours 1) 77 ''p1'' ''e1'' ''k1'' 32 (hours 24) = Inr (c, 77, n)"
proof -
  let ?r = "IssueConnector signs sampleIntermediate (hours 1) 77 ''p1'' ''e1'' ''k1'' 32 (hours 24)"
  have "(case ?r of Inl _ \<Rightarrow> False | Inr (c, s, n) \<Rightarrow> s = 77)" by code_simp
  then show ?thesis by (cases ?r) auto
qed

lemma sample_edge_issued:
  "\<exists>c n. IssueEdge signs sampleIntermediate (hours 1) 5 ''edge-1'' (hours 24) = Inr (c, n)"
proof -
  let ?r = "IssueEdge signs sampleIntermediate (hours 1) 5 ''edge-1'' (hours 24)"
  have "(case ?r of Inl _ \<Rightarrow> False | Inr _ \<Rightarrow> True)" by code_simp
  then show ?thesis by (cases ?r) auto
qed

theorem connector_identity_roundtrip_witness:
  "\<exists>c n. IssueConnector signs sampleIntermediate (hours 1) 77 ''p1'' ''e1'' ''k1'' 32 (hours 24) = Inr (c, 77, n)
     \<and> PeerConnectorIdentityV3 [c] = Inr (''p1'', ''e1'', ''k1'') \<and> ce_NotAfter c \<le> hours 2000"
proof -
  obtain c n where c: "IssueConnector signs sampleIntermediate (hours 1) 77 ''p1'' ''e1'' ''k1'' 32 (hours 24) = Inr (c, 77, n)"
    using sample_connector_issued by blast
  have "ce_NotAfter c \<le> ce_NotAfter sampleIntermediate" "PeerConnectorIdentityV3 [c] = Inr (''p1'', ''e1'', ''k1'')"
    using connector_identity_roundtrip[OF c, of "[]"] by blast+
  with c show ?thesis by (auto simp: sampleIntermediate_def)
qed

theorem edge_identity_accepted_witness:
  "\<exists>c n. IssueEdge signs sampleIntermediate (hours 1) 5 ''edge-1'' (hours 24) = Inr (c, n)
     \<and> verifyIdentity (\<lambda>_ _. True) ''edge'' ''edge-1'' ExtKeyUsageServerAuth [c] = Inr ()"
proof -
  obtain c n where c: "IssueEdge signs sampleIntermediate (hours 1) 5 ''edge-1'' (hours 24) = Inr (c, n)"
    using sample_edge_issued by blast
  have "validName ''edge-1''" by code_simp
  from edge_identity_accepted[OF c this, of "\<lambda>_ _. True" "''edge-1''" "[]"] c show ?thesis by blast
qed

end
