(* ===== verification/Edge_Server.thy ===== *)
theory Edge_Server
  imports Edge_Udp Identity
begin

text \<open>
  Package \<^verbatim>\<open>internal/edge\<close>, the connector sessions and the routing of flows (\<^verbatim>\<open>edge.go\<close>). Entries and sessions are heap
  objects, named by their position in \<open>es_entries\<close> and \<open>es_sessions\<close>; the registry and the route list point to entries
  and entries point to sessions, as the Go pointers do. \<^verbatim>\<open>authenticate\<close> is split where it takes and releases locks:
  the check of the hello, the commit under the entry's mutex, the report to the status server, the end of the drain
  period and the end of the connection. \<open>ss_closed\<close> tells whether the session's connection is done.
\<close>

section \<open>Data\<close>

record session =
  ss_id :: string
  ss_connectorID :: string
  ss_slot :: int
  ss_started :: int
  ss_closed :: bool
  ss_draining :: bool
  ss_routes :: "prefix list"
  ss_virtualPrefix :: prefix
  ss_realPrefix :: prefix

record connectorEntry =
  en_target :: ConnectorTarget
  en_active :: "nat option"
  en_draining :: "nat option"

record edgeServer =
  es_config :: Edge
  es_registry :: "(string \<times> nat) list"
  es_routes :: "nat list"
  es_entries :: "connectorEntry list"
  es_sessions :: "session list"
  es_session :: "nat option"
  es_limit :: int
  es_udp :: edgeUDP

abbreviation es_status :: "edgeServer \<Rightarrow> Server" where
  "es_status s \<equiv> eu_status (es_udp s)"

definition on_status :: "(Server \<Rightarrow> Server) \<Rightarrow> edgeServer \<Rightarrow> edgeServer" where
  "on_status f s = s\<lparr>es_udp := (es_udp s)\<lparr>eu_status := f (es_status s)\<rparr>\<rparr>"

definition on_session :: "nat \<Rightarrow> (session \<Rightarrow> session) \<Rightarrow> edgeServer \<Rightarrow> edgeServer" where
  "on_session n f s = s\<lparr>es_sessions := (es_sessions s)[n := f (es_sessions s ! n)]\<rparr>"

definition on_entry :: "nat \<Rightarrow> (connectorEntry \<Rightarrow> connectorEntry) \<Rightarrow> edgeServer \<Rightarrow> edgeServer" where
  "on_entry e f s = s\<lparr>es_entries := (es_entries s)[e := f (es_entries s ! e)]\<rparr>"

definition closeConnection :: "nat \<Rightarrow> edgeServer \<Rightarrow> edgeServer" where
  "closeConnection n = on_session n (ss_closed_update (\<lambda>_. True))"

text \<open>Closing the connection of a session if there is one.\<close>

definition closeActive :: "nat option \<Rightarrow> edgeServer \<Rightarrow> edgeServer" where
  "closeActive a s = (case a of None \<Rightarrow> s | Some n \<Rightarrow> closeConnection n s)"

section \<open>Construction and refresh\<close>

definition statusConnector :: "ConnectorTarget \<Rightarrow> Connector" where
  "statusConnector t =
     \<lparr>cn_ConnectorID = ct_ConnectorID t, cn_Slot = ct_Slot t, cn_VirtualPrefix = prefix_string (ct_VirtualPrefix t),
      cn_RealPrefix = prefix_string (ct_RealPrefix t), cn_Ready = False, cn_SessionID = [], cn_SessionAgeSeconds = 0,
      cn_QUICSmoothedRTTMicroseconds = 0, cn_QUICBytesSent = 0, cn_QUICBytesReceived = 0, cn_QUICBytesLost = 0,
      cn_sessionStartedAt = zero_time\<rparr>"

definition newEntry :: "ConnectorTarget \<Rightarrow> connectorEntry" where
  "newEntry t = \<lparr>en_target = t, en_active = None, en_draining = None\<rparr>"

definition NewEdge :: "Edge \<Rightarrow> Server \<Rightarrow> edgeServer" where
  "NewEdge cfg st =
     (let targets = ed_Connectors cfg in
      \<lparr>es_config = cfg,
       es_registry = foldl (\<lambda>m (i, t). AList.update (ct_ConnectorID t) i m) [] (enumerate 0 targets),
       es_routes = [0..<length targets], es_entries = map newEntry targets, es_sessions = [], es_session = None,
       es_limit = 0,
       es_udp = newEdgeUDP (ed_MaxUDPFlows cfg) (ed_UDPIdleTimeout cfg)
                  (ConfigureConnectors (map statusConnector targets) st)\<rparr>)"

definition registrationKey :: "Registration \<Rightarrow> string" where
  "registrationKey r = rg_ProjectID r @ ''/'' @ rg_EnvironmentID r"

definition dynamicTarget :: "Edge \<Rightarrow> Registration \<Rightarrow> ConnectorTarget" where
  "dynamicTarget cfg r =
     \<lparr>ct_ConnectorID = registrationKey r, ct_ProjectID = [], ct_Environment = rg_EnvironmentID r,
      ct_EnvironmentName = rg_EnvironmentName r,
      ct_Slot = uint (as16 (pfx_addr (rg_VirtualPrefix r)) ! 1 - as16 (pfx_addr (ed_VirtualNetwork cfg)) ! 1),
      ct_VirtualPrefix = rg_VirtualPrefix r, ct_RealPrefix = rg_RealPrefix r,
      ct_DNSSuffix = rg_ProjectAlias r @ ''.'' @ rg_EnvironmentAlias r @ ''.railway.internal''\<rparr>"

text \<open>One registration: the routes so far, the keys seen so far and the server.\<close>

definition refreshOne ::
    "Registration \<Rightarrow> nat list \<times> string list \<times> edgeServer \<Rightarrow> nat list \<times> string list \<times> edgeServer" where
  "refreshOne r x =
     (case x of (routes, keys, s) \<Rightarrow>
      if rg_IdentityType r \<noteq> DynamicV3 then x
      else
        let routes' = filter (\<lambda>e. ct_VirtualPrefix (en_target (es_entries s ! e)) \<noteq> rg_VirtualPrefix r) routes;
            key = registrationKey r; target = dynamicTarget (es_config s) r;
            found = map_of (es_registry s) key
        in case found of
             Some e \<Rightarrow>
               if en_target (es_entries s ! e) = target then (routes' @ [e], key # keys, s)
               else let s1 = closeActive (en_active (es_entries s ! e)) s; new = length (es_entries s1)
                    in (routes' @ [new], key # keys,
                        s1\<lparr>es_entries := es_entries s1 @ [newEntry target],
                           es_registry := AList.update key new (es_registry s1)\<rparr>)
           | None \<Rightarrow>
               let new = length (es_entries s)
               in (routes' @ [new], key # keys,
                   s\<lparr>es_entries := es_entries s @ [newEntry target],
                     es_registry := AList.update key new (es_registry s)\<rparr>))"

definition staticRoutes :: "edgeServer \<Rightarrow> nat list" where
  "staticRoutes s = List.map_filter (\<lambda>t. map_of (es_registry s) (ct_ConnectorID t)) (ed_Connectors (es_config s))"

definition dropInactive :: "string list \<Rightarrow> edgeServer \<Rightarrow> edgeServer" where
  "dropInactive keys s =
     (let gone = filter (\<lambda>(k, e). k \<notin> set keys) (es_registry s);
          s1 = foldl (\<lambda>s (k, e). closeActive (en_active (es_entries s ! e)) s) s gone
      in s1\<lparr>es_registry := filter (\<lambda>(k, e). k \<in> set keys) (es_registry s1)\<rparr>)"

text \<open>\<open>result\<close> is what the store answers: the active registrations and the statistics, or an error.\<close>

definition refreshDynamic :: "registry_error + Registration list \<times> Stats \<Rightarrow> edgeServer \<Rightarrow> edgeServer \<times> registry_error option" where
  "refreshDynamic result s =
     (case result of
        Inl e \<Rightarrow> (s, Some e)
      | Inr (regs, stats) \<Rightarrow>
          (let (routes, keys, s1) =
                 foldl (\<lambda>x r. refreshOne r x)
                   (staticRoutes s, map ct_ConnectorID (ed_Connectors (es_config s)), s) regs;
               s2 = (dropInactive keys s1)\<lparr>es_routes := routes\<rparr>
           in (on_status (\<lambda>st. SetRegistryMetrics stats (ReconcileConnectors
                 (map (\<lambda>e. statusConnector (en_target (es_entries s2 ! e))) routes) st)) s2, None)))"

text \<open>With the registry of the store; the edge calls it when a route generation is applied.\<close>

definition refreshFromStore :: "time \<Rightarrow> db \<Rightarrow> edgeServer \<Rightarrow> edgeServer \<times> registry_error option" where
  "refreshFromStore now d =
     refreshDynamic (and_then (ActiveRegistrations now d) (\<lambda>rs. Inr (rs, StatsOf now d)))"

section \<open>Authentication of a connector\<close>

text \<open>What the two versions of the hello have in common.\<close>

record helloInfo =
  hi_dynamic :: bool
  hi_validProtocol :: bool
  hi_connectorID :: string
  hi_environment :: string
  hi_identityKeyID :: string
  hi_started :: int
  hi_routes :: "string list"

definition helloV3 :: "ConnectorHelloV3 \<Rightarrow> helloInfo" where
  "helloV3 h = \<lparr>hi_dynamic = True, hi_validProtocol = (h3_ProtocolVersion h = ProtocolVersionV3),
     hi_connectorID = h3_ProjectID h @ ''/'' @ h3_EnvironmentID h, hi_environment = h3_EnvironmentID h,
     hi_identityKeyID = h3_IdentityKeyID h, hi_started = h3_StartedUnixNano h, hi_routes = h3_Routes h\<rparr>"

definition helloV2 :: "ConnectorHello \<Rightarrow> helloInfo" where
  "helloV2 h = \<lparr>hi_dynamic = False, hi_validProtocol = (h2_ProtocolVersion h = ProtocolVersion),
     hi_connectorID = h2_ConnectorID h, hi_environment = h2_Environment h,
     hi_identityKeyID = [], hi_started = h2_StartedUnixNano h, hi_routes = h2_Routes h\<rparr>"

definition firstIPv6Prefix :: "prefix list \<Rightarrow> prefix" where
  "firstIPv6Prefix ps = (case List.find (\<lambda>p. is6 (pfx_addr p)) ps of Some p \<Rightarrow> masked p | None \<Rightarrow> zero_prefix)"

definition legacyTarget :: "Edge \<Rightarrow> ConnectorTarget" where
  "legacyTarget cfg =
     (let realPrefix = firstIPv6Prefix (ed_AllowedRoutes cfg) in
      \<lparr>ct_ConnectorID = co_ConnectorID (ed_Common cfg), ct_ProjectID = [],
       ct_Environment = co_Environment (ed_Common cfg), ct_EnvironmentName = [], ct_Slot = 0,
       ct_VirtualPrefix = realPrefix, ct_RealPrefix = realPrefix, ct_DNSSuffix = []\<rparr>)"

text \<open>The identity check; \<open>store\<close> is the registry if there is one, \<open>chain\<close> the peer's certificates.\<close>

definition identityOk :: "time \<Rightarrow> db option \<Rightarrow> certificate list \<Rightarrow> helloInfo \<Rightarrow> bool" where
  "identityOk now store chain h =
     (if hi_dynamic h then
        (case PeerConnectorIdentityV3 chain of
           Inl _ \<Rightarrow> False
         | Inr (project, env, key) \<Rightarrow>
             hi_connectorID h = project @ ''/'' @ env \<and> key = hi_identityKeyID h
             \<and> (case store of
                  None \<Rightarrow> True
                | Some d \<Rightarrow>
                    (case Registration_of d project env of
                       Inl _ \<Rightarrow> False
                     | Inr r \<Rightarrow> (case ActiveIdentityKey now d (rg_ID r) (hi_identityKeyID h) of
                                   Inl _ \<Rightarrow> False | Inr _ \<Rightarrow> True))))
      else (case PeerIdentity chain ''connector'' of Inl _ \<Rightarrow> False | Inr i \<Rightarrow> hi_connectorID h = i))"

datatype auth_error =
    IdentityRejected | StartTimeNotValid | RoutesNotValid | NoSharedRoutes | NewerSessionActive | NoSessionID | ResponseFailed

text \<open>The application error code that the connection is closed with.\<close>

fun closeCode :: "auth_error \<Rightarrow> nat" where
  "closeCode NewerSessionActive = 5"
| "closeCode NoSessionID = 4"
| "closeCode ResponseFailed = 4"
| "closeCode _ = 3"

text \<open>
  An accepted hello: the entry (none stands for the entry that is made up when the registry is empty), the number of
  registry entries at that time, and the routes.
\<close>

record admission =
  ad_entry :: "nat option"
  ad_target :: ConnectorTarget
  ad_registryCount :: nat
  ad_routes :: "prefix list"
  ad_hello :: helloInfo

definition checkHello :: "time \<Rightarrow> db option \<Rightarrow> certificate list \<Rightarrow> helloInfo \<Rightarrow> edgeServer \<Rightarrow> auth_error + admission" where
  "checkHello now store chain h s =
     (let found = map_of (es_registry s) (hi_connectorID h); count = length (es_registry s);
          target = (case found of
                      Some e \<Rightarrow> Some (en_target (es_entries s ! e))
                    | None \<Rightarrow> if count = 0 \<and> hi_connectorID h = co_ConnectorID (ed_Common (es_config s))
                              then Some (legacyTarget (es_config s)) else None)
      in case target of
           None \<Rightarrow> Inl IdentityRejected
         | Some t \<Rightarrow>
             if \<not> hi_validProtocol h \<or> \<not> identityOk now store chain h \<or> hi_environment h \<noteq> ct_Environment t
             then Inl IdentityRejected
             else if hi_started h \<le> 0 \<or> hi_started h > now + minutes 5 then Inl StartTimeNotValid
             else case map_result (\<lambda>raw. case parse_prefix raw of None \<Rightarrow> Inl RoutesNotValid | Some p \<Rightarrow> Inr (masked p))
                         (hi_routes h) of
                 Inl e \<Rightarrow> Inl e
               | Inr advertised \<Rightarrow>
                   (let accepted = IntersectPrefixes
                          (if count = 0 then ed_AllowedRoutes (es_config s) else [ct_RealPrefix t]) advertised
                    in if accepted = [] then Inl NoSharedRoutes
                       else Inr \<lparr>ad_entry = found, ad_target = t, ad_registryCount = count, ad_routes = accepted,
                                 ad_hello = h\<rparr>))"

text \<open>The entry that the admission names, allocated if it is made up.\<close>

definition admitEntry :: "admission \<Rightarrow> edgeServer \<Rightarrow> nat \<times> edgeServer" where
  "admitEntry a s =
     (case ad_entry a of
        Some e \<Rightarrow> (e, s)
      | None \<Rightarrow> (length (es_entries s), s\<lparr>es_entries := es_entries s @ [newEntry (ad_target a)]\<rparr>))"

definition previousSession :: "admission \<Rightarrow> nat \<Rightarrow> edgeServer \<Rightarrow> nat option" where
  "previousSession a e s =
     (case en_active (es_entries s ! e) of
        Some p \<Rightarrow> Some p
      | None \<Rightarrow> if ad_registryCount a = 0 then es_session s else None)"

definition superseded :: "admission \<Rightarrow> nat option \<Rightarrow> edgeServer \<Rightarrow> bool" where
  "superseded a previous s =
     (case previous of
        None \<Rightarrow> False
      | Some p \<Rightarrow> \<not> ss_closed (es_sessions s ! p) \<and> hi_started (ad_hello a) \<le> ss_started (es_sessions s ! p))"

definition newSession :: "string \<Rightarrow> admission \<Rightarrow> session" where
  "newSession sid a =
     \<lparr>ss_id = sid, ss_connectorID = ct_ConnectorID (ad_target a), ss_slot = ct_Slot (ad_target a),
      ss_started = hi_started (ad_hello a), ss_closed = False, ss_draining = False, ss_routes = ad_routes a,
      ss_virtualPrefix = ct_VirtualPrefix (ad_target a), ss_realPrefix = ct_RealPrefix (ad_target a)\<rparr>"

text \<open>
  The part of \<^verbatim>\<open>authenticate\<close> between taking and releasing the entry's mutex, and the closing of a stale draining session
  after it: the new server, and the session, its entry and its predecessor. \<open>sid\<close> is the drawn session identifier,
  \<open>written\<close> tells whether the response could be sent.
\<close>

definition commitSession ::
    "string option \<Rightarrow> bool \<Rightarrow> admission \<Rightarrow> edgeServer \<Rightarrow> edgeServer \<times> (auth_error + nat \<times> nat \<times> nat option)" where
  "commitSession drawn written a s0 =
     (case drawn of
        None \<Rightarrow> (s0, Inl NoSessionID)
      | Some sid \<Rightarrow>
          (let (e, s) = admitEntry a s0; previous = previousSession a e s; n = length (es_sessions s);
               stale = en_draining (es_entries s ! e)
           in if superseded a previous s then (s, Inl NewerSessionActive)
              else if \<not> written then (s, Inl ResponseFailed)
              else
                let s1 = on_entry e (en_active_update (\<lambda>_. Some n))
                           (s\<lparr>es_sessions := es_sessions s @ [newSession sid a]\<rparr>);
                    s2 = (case previous of
                            None \<Rightarrow> s1
                          | Some p \<Rightarrow> on_entry e (en_draining_update (\<lambda>_. Some p))
                                       (on_session p (ss_draining_update (\<lambda>_. True)) s1));
                    s3 = (if ad_registryCount a \<le> 1 then s2\<lparr>es_session := Some n\<rparr> else s2);
                    s4 = (if stale \<noteq> previous then closeActive stale s3 else s3)
                in (s4, Inr (n, e, previous))))"

text \<open>The message that the connector receives.\<close>

definition acceptedMessage :: "string \<Rightarrow> admission \<Rightarrow> edgeServer \<Rightarrow> ConnectorAccepted" where
  "acceptedMessage sid a s =
     \<lparr>ca_SessionID = sid, ca_ConnectorID = hi_connectorID (ad_hello a), ca_Slot = ct_Slot (ad_target a),
      ca_VirtualPrefix = prefix_string (ct_VirtualPrefix (ad_target a)),
      ca_RealPrefix = prefix_string (ct_RealPrefix (ad_target a)), ca_Routes = map prefix_string (ad_routes a),
      ca_MaxTCPFlows = ed_MaxTCPFlows (es_config s)\<rparr>"

definition reportReady :: "time \<Rightarrow> admission \<Rightarrow> nat \<Rightarrow> edgeServer \<Rightarrow> edgeServer" where
  "reportReady now a n s =
     (let s1 = on_status (ConnectorReady now (hi_connectorID (ad_hello a)) (ss_id (es_sessions s ! n))) s
      in if ad_registryCount a = 0 then on_status (SetReady True) s1 else s1)"

text \<open>The effect on the store: the registration is ready and its key rotation complete.\<close>

definition storeReady :: "time \<Rightarrow> helloInfo \<Rightarrow> db \<Rightarrow> db" where
  "storeReady now h d =
     (if \<not> hi_dynamic h then d
      else let project = hd (split_on CHR ''/'' (hi_connectorID h));
               d1 = (case MarkReady now d project (hi_environment h) of Inl _ \<Rightarrow> d | Inr d' \<Rightarrow> d')
           in case Registration_of d1 project (hi_environment h) of
                Inl _ \<Rightarrow> d1
              | Inr r \<Rightarrow> (case CompleteIdentityRotation now d1 (rg_ID r) (hi_identityKeyID h) (hours 24) of
                            Inl _ \<Rightarrow> d1 | Inr d2 \<Rightarrow> d2))"

text \<open>The end of the drain period; \<open>expired\<close> tells whether the timer fired (and not the shutdown).\<close>

definition drainEnds :: "bool \<Rightarrow> nat \<Rightarrow> nat \<Rightarrow> edgeServer \<Rightarrow> edgeServer" where
  "drainEnds expired e p s =
     (let s1 = (if expired then closeConnection p s else s)
      in if en_draining (es_entries s1 ! e) = Some p then on_entry e (en_draining_update (\<lambda>_. None)) s1 else s1)"

definition sessionEnds :: "admission \<Rightarrow> nat \<Rightarrow> nat \<Rightarrow> edgeServer \<Rightarrow> edgeServer" where
  "sessionEnds a e n s =
     (if en_active (es_entries s ! e) = Some n then
        let s1 = on_entry e (en_active_update (\<lambda>_. None)) s;
            s2 = (if es_session s1 = Some n then s1\<lparr>es_session := None\<rparr> else s1);
            s3 = on_status (ConnectorClosed (hi_connectorID (ad_hello a)) (ss_id (es_sessions s2 ! n))) s2
        in if ad_registryCount a = 0 then on_status (SetReady False) s3 else s3
      else s)"

section \<open>Routing\<close>

definition route :: "addr_port \<Rightarrow> edgeServer \<Rightarrow> (nat \<times> addr_port) option" where
  "route destination s =
     (case List.find (\<lambda>e. contains (ct_VirtualPrefix (en_target (es_entries s ! e))) (unmap (ap_addr destination)))
             (es_routes s) of
        Some e \<Rightarrow>
          (case en_active (es_entries s ! e) of
             None \<Rightarrow> None
           | Some n \<Rightarrow>
               if ss_draining (es_sessions s ! n) then None
               else case translateAddrPort destination (ct_VirtualPrefix (en_target (es_entries s ! e)))
                           (ct_RealPrefix (en_target (es_entries s ! e))) of
                   Inl _ \<Rightarrow> None
                 | Inr translated \<Rightarrow>
                     if \<not> Allowed (ss_routes (es_sessions s ! n)) (ap_addr translated) then None
                     else Some (n, translated))
      | None \<Rightarrow>
          if es_routes s \<noteq> [] then None
          else case es_session s of
              None \<Rightarrow> None
            | Some n \<Rightarrow>
                if ss_draining (es_sessions s ! n)
                   \<or> \<not> Allowed (ss_routes (es_sessions s ! n)) (unmap (ap_addr destination)) then None
                else Some (n, destination))"

section \<open>UDP datagrams from the tailnet\<close>

text \<open>A socket control message, as \<^verbatim>\<open>unix.ParseSocketControlMessage\<close> returns it.\<close>

record cmsg =
  cm_Level :: int
  cm_Type :: int
  cm_Data :: bytes

fun originalUDPDestination :: "cmsg list \<Rightarrow> addr_port option" where
  "originalUDPDestination [] = None"
| "originalUDPDestination (m # ms) =
     (if cm_Level m = 0 \<and> cm_Type m = 20 \<and> length (cm_Data m) \<ge> 8 then
        Some \<lparr>ap_addr = addr_from4 (take 4 (drop 4 (cm_Data m))), ap_port = be_word (take 2 (drop 2 (cm_Data m)))\<rparr>
      else if cm_Level m = 41 \<and> cm_Type m = 74 \<and> length (cm_Data m) \<ge> 24 then
        Some \<lparr>ap_addr = addr_from16 (take 16 (drop 8 (cm_Data m))), ap_port = be_word (take 2 (drop 2 (cm_Data m)))\<rparr>
      else originalUDPDestination ms)"

definition on_udp :: "(edgeUDP \<Rightarrow> edgeUDP \<times> 'r) \<Rightarrow> edgeServer \<Rightarrow> edgeServer \<times> 'r" where
  "on_udp f s = (let (u, r) = f (es_udp s) in (s\<lparr>es_udp := u\<rparr>, r))"

text \<open>
  One datagram: the new server and, if it is forwarded, the session and the encoded datagram. \<open>control\<close> is none if the
  control messages cannot be parsed, \<open>opened\<close> and \<open>sent\<close> tell whether the reply socket opens and the send succeeds.
\<close>

definition acceptUDP ::
    "time \<Rightarrow> bool \<Rightarrow> bool \<Rightarrow> cmsg list option \<Rightarrow> addr_port \<Rightarrow> bytes \<Rightarrow> edgeServer \<Rightarrow> edgeServer \<times> (nat \<times> bytes) option" where
  "acceptUDP now opened sent control source payload s =
     (let refused = (on_status (\<lambda>st. DatagramDropped (Denied st)) s, None) in
      case control of
        None \<Rightarrow> refused
      | Some messages \<Rightarrow>
          (case originalUDPDestination messages of
             None \<Rightarrow> refused
           | Some destination \<Rightarrow>
               (case route destination s of
                  None \<Rightarrow> refused
                | Some (n, translated) \<Rightarrow>
                    (let key = ss_id (es_sessions s ! n) @ ''|'' @ addr_port_string source @ ''|''
                               @ addr_port_string destination;
                         (s1, flow) = on_udp (edgeUDPFlowWithReply now opened n key source destination translated False False) s
                     in case flow of
                          Inl _ \<Rightarrow> (on_status DatagramDropped s1, None)
                        | Inr i \<Rightarrow>
                            (case EncodeUDP \<lparr>ud_FlowID = i, ud_Response = False, ud_Source = source,
                                             ud_Destination = translated, ud_Payload = payload\<rparr> of
                               Inl _ \<Rightarrow> (on_status DatagramDropped s1, None)
                             | Inr packet \<Rightarrow>
                                 if sent then (s1, Some (n, packet)) else (on_status DatagramDropped s1, None))))))"

section \<open>DNS queries from the tailnet\<close>

datatype rcode = NameError | ServerFailure

text \<open>What happens to a query: it is ignored, answered with an error, or forwarded to a session.\<close>

datatype dns_outcome = Ignored | Answered rcode | Forwarded nat bytes

text \<open>
  \<open>labels\<close> are the labels of the first question, none if the message cannot be unpacked or has no question
  (\<^verbatim>\<open>github.com/miekg/dns\<close>); \<open>lookup\<close> is \<^verbatim>\<open>RegistrationByAlias\<close>.
\<close>

definition dnsAddressOf :: "prefix \<Rightarrow> addr_port" where
  "dnsAddressOf p = \<lparr>ap_addr = addr_from16 ((as16 (pfx_addr p))[15 := 0x10]), ap_port = 53\<rparr>"

definition forwardDNS ::
    "time \<Rightarrow> bool \<Rightarrow> string list option \<Rightarrow> db \<Rightarrow> addr_port \<Rightarrow> bytes \<Rightarrow> edgeServer \<Rightarrow> edgeServer \<times> dns_outcome" where
  "forwardDNS now sent question d source payload s =
     (case question of
        None \<Rightarrow> (s, Ignored)
      | Some labels \<Rightarrow>
          (let k = length labels in
           if k < 5 \<or> to_lower (labels ! (k - 2)) \<noteq> ''railway'' \<or> to_lower (labels ! (k - 1)) \<noteq> ''internal''
           then (s, Answered NameError)
           else case RegistrationByAlias now d (to_lower (labels ! (k - 4))) (to_lower (labels ! (k - 3))) of
               Inl e \<Rightarrow> (s, Answered (if e = ErrNotFound then NameError else ServerFailure))
             | Inr r \<Rightarrow>
                 (let destination = dnsAddressOf (rg_VirtualPrefix r) in
                  case route destination s of
                    None \<Rightarrow> (s, Answered ServerFailure)
                  | Some (n, translated) \<Rightarrow>
                      (let key = ss_id (es_sessions s ! n) @ ''|dns|'' @ addr_port_string source @ ''|''
                                 @ addr_port_string destination;
                           (s1, flow) = on_udp (edgeUDPFlowWithReply now True n key source destination translated True True) s
                       in case flow of
                            Inl _ \<Rightarrow> (s1, Answered ServerFailure)
                          | Inr i \<Rightarrow>
                              (case EncodeUDP \<lparr>ud_FlowID = i, ud_Response = False, ud_Source = source,
                                               ud_Destination = translated, ud_Payload = payload\<rparr> of
                                 Inl _ \<Rightarrow> (s1, Answered ServerFailure)
                               | Inr packet \<Rightarrow>
                                   if sent then (s1, Forwarded n packet) else (s1, Answered ServerFailure))))))"

section \<open>TCP flows from the tailnet\<close>

text \<open>The flow semaphore: a connection above the limit is denied.\<close>

definition acceptTCP :: "edgeServer \<Rightarrow> edgeServer \<times> bool" where
  "acceptTCP s =
     (if es_limit s < ed_MaxTCPFlows (es_config s) then (s\<lparr>es_limit := es_limit s + 1\<rparr>, True)
      else (on_status Denied s, False))"

definition releaseTCP :: "edgeServer \<Rightarrow> edgeServer" where
  "releaseTCP s = s\<lparr>es_limit := es_limit s - 1\<rparr>"

text \<open>
  Opening one flow: the server, the request that is sent with its session, and the error code (empty if the flow is
  open). \<open>stream\<close> and \<open>written\<close> tell whether the stream opens and the request can be written, \<open>answer\<close> is the result frame.
\<close>

definition openTCP ::
    "time \<Rightarrow> bool \<Rightarrow> bool \<Rightarrow> OpenTCPResult option \<Rightarrow> string \<times> string \<Rightarrow> string \<Rightarrow> string \<Rightarrow> edgeServer
     \<Rightarrow> edgeServer \<times> (nat \<times> OpenTCP) option \<times> string" where
  "openTCP now stream written answer trace source destination s0 =
     (let (s, flowID) = on_udp nextFlowID s0 in
      case parse_addr_port destination of
        None \<Rightarrow> (on_status Denied s, None, ''DESTINATION_DENIED'')
      | Some ap \<Rightarrow>
          (case route ap s of
             None \<Rightarrow> (on_status Denied s, None, ''SESSION_UNAVAILABLE'')
           | Some (n, translated) \<Rightarrow>
               if \<not> stream then (s, None, ''STREAM_UNAVAILABLE'')
               else
                 (let request = \<lparr>ot_FlowID = flowID, ot_Source = source, ot_Destination = addr_port_string translated,
                                 ot_DeadlineUnixMS = (now + seconds 10) div 1000000, ot_TraceParent = fst trace,
                                 ot_TraceState = snd trace\<rparr>
                  in if \<not> written then (s, None, ''CONTROL_WRITE_FAILED'')
                     else case answer of
                         None \<Rightarrow> (s, Some (n, request), ''CONTROL_READ_FAILED'')
                       | Some r \<Rightarrow>
                           if \<not> or_Accepted r
                           then (s, Some (n, request), if or_Code r \<noteq> [] then or_Code r else ''CONTROL_READ_FAILED'')
                           else (on_status FlowStarted s, Some (n, request), []))))"

text \<open>The end of an open flow.\<close>

definition finishTCP :: "bool \<Rightarrow> edgeServer \<Rightarrow> edgeServer \<times> string" where
  "finishTCP copied s = (on_status FlowEnded s, if copied then [] else ''COPY_FAILED'')"

end
