(* ===== verification/Edge_Sessions.thy ===== *)
theory Edge_Sessions
  imports Edge_Server
begin

text \<open>
  The sessions of the edge as a machine: hellos are checked, admitted connectors commit their session later (the
  registry may have been refreshed in between), sessions are superseded, drained and closed. \<open>er_admitted\<close> holds the
  admissions that are in flight, \<open>er_owner\<close> gives for every session its entry and its admission. The invariant says who
  owns a session and that of the sessions of one entry at most two are open.
\<close>

record edgeRun =
  er_server :: edgeServer
  er_admitted :: "admission set"
  er_owner :: "(nat \<times> admission) list"

abbreviation ent :: "edgeServer \<Rightarrow> nat \<Rightarrow> connectorEntry" where
  "ent s e \<equiv> es_entries s ! e"

abbreviation sess :: "edgeServer \<Rightarrow> nat \<Rightarrow> session" where
  "sess s n \<equiv> es_sessions s ! n"

text \<open>What never changes in a session.\<close>

definition ss_fixed :: "session \<Rightarrow> string \<times> string \<times> int \<times> prefix list \<times> prefix \<times> prefix" where
  "ss_fixed x = (ss_id x, ss_connectorID x, ss_started x, ss_routes x, ss_virtualPrefix x, ss_realPrefix x)"

section \<open>Frames\<close>

lemma nth_update_at: "xs[n := v] ! m = (if m = n \<and> n < length xs then v else xs ! m)"
  by (cases "n < length xs") (auto simp: nth_list_update list_update_beyond)

lemma on_status_simps [simp]:
  "es_config (on_status f s) = es_config s" "es_registry (on_status f s) = es_registry s"
  "es_routes (on_status f s) = es_routes s" "es_entries (on_status f s) = es_entries s"
  "es_sessions (on_status f s) = es_sessions s" "es_session (on_status f s) = es_session s"
  by (simp_all add: on_status_def)

lemma closeConnection_simps [simp]:
  "es_config (closeConnection n s) = es_config s" "es_registry (closeConnection n s) = es_registry s"
  "es_routes (closeConnection n s) = es_routes s" "es_entries (closeConnection n s) = es_entries s"
  "es_udp (closeConnection n s) = es_udp s"
  "length (es_sessions (closeConnection n s)) = length (es_sessions s)"
  by (simp_all add: closeConnection_def on_session_def)

lemma closeActive_simps [simp]:
  "es_config (closeActive a s) = es_config s" "es_registry (closeActive a s) = es_registry s"
  "es_routes (closeActive a s) = es_routes s" "es_entries (closeActive a s) = es_entries s"
  "es_udp (closeActive a s) = es_udp s"
  "length (es_sessions (closeActive a s)) = length (es_sessions s)"
  by (simp_all add: closeActive_def split: option.split)

lemma closeConnection_sess:
  "ss_fixed (sess (closeConnection n s) m) = ss_fixed (sess s m)"
  "ss_draining (sess (closeConnection n s) m) = ss_draining (sess s m)"
  "m < length (es_sessions s) \<Longrightarrow> ss_closed (sess (closeConnection n s) m) = (ss_closed (sess s m) \<or> m = n)"
  by (simp_all add: closeConnection_def on_session_def ss_fixed_def nth_update_at)

lemma closeActive_sess:
  "ss_fixed (sess (closeActive a s) m) = ss_fixed (sess s m)"
  "ss_draining (sess (closeActive a s) m) = ss_draining (sess s m)"
  "m < length (es_sessions s) \<Longrightarrow> ss_closed (sess (closeActive a s) m) = (ss_closed (sess s m) \<or> a = Some m)"
  by (auto simp: closeActive_def closeConnection_sess split: option.split)

section \<open>The invariant\<close>

text \<open>The addresses that a hello advertises.\<close>

definition advertises :: "helloInfo \<Rightarrow> addr \<Rightarrow> bool" where
  "advertises h x \<longleftrightarrow> (\<exists>raw\<in>set (hi_routes h). \<exists>p. parse_prefix raw = Some p \<and> contains (masked p) x)"

text \<open>
  An admission names an entry of the heap, with its target; its routes allow only advertised addresses inside the real
  prefix.
\<close>

definition admission_ok :: "edgeServer \<Rightarrow> admission \<Rightarrow> bool" where
  "admission_ok s a \<longleftrightarrow>
     (\<exists>e. ad_entry a = Some e \<and> e < length (es_entries s) \<and> en_target (ent s e) = ad_target a)
     \<and> 1 \<le> ad_registryCount a
     \<and> (\<forall>x. Allowed (ad_routes a) x \<longrightarrow> contains (masked (ct_RealPrefix (ad_target a))) x \<and> advertises (ad_hello a) x)"

text \<open>Every static connector has its entry, and the registry and the route list point into the heap.\<close>

definition registry_ok :: "edgeServer \<Rightarrow> bool" where
  "registry_ok s \<longleftrightarrow>
     (\<forall>(k, e)\<in>set (es_registry s). e < length (es_entries s) \<and> ct_ConnectorID (en_target (ent s e)) = k)
     \<and> (\<forall>e\<in>set (es_routes s). e < length (es_entries s))
     \<and> ct_ConnectorID ` set (ed_Connectors (es_config s)) \<subseteq> fst ` set (es_registry s)
     \<and> ed_AllowedRoutes (es_config s) = map ct_RealPrefix (ed_Connectors (es_config s))"

definition sessions_ok :: "edgeServer \<Rightarrow> (nat \<times> admission) list \<Rightarrow> bool" where
  "sessions_ok s owner \<longleftrightarrow>
     length owner = length (es_sessions s)
     \<and> (\<forall>n<length owner. admission_ok s (snd (owner ! n)) \<and> ad_entry (snd (owner ! n)) = Some (fst (owner ! n))
          \<and> ss_fixed (sess s n) = ss_fixed (newSession (ss_id (sess s n)) (snd (owner ! n))))
     \<and> (\<forall>e n. e < length (es_entries s) \<longrightarrow> en_active (ent s e) = Some n \<longrightarrow>
          n < length owner \<and> fst (owner ! n) = e \<and> \<not> ss_draining (sess s n))
     \<and> (\<forall>e n. e < length (es_entries s) \<longrightarrow> en_draining (ent s e) = Some n \<longrightarrow>
          n < length owner \<and> fst (owner ! n) = e \<and> ss_draining (sess s n))
     \<and> (\<forall>n<length owner. \<not> ss_closed (sess s n) \<longrightarrow>
          en_active (ent s (fst (owner ! n))) = Some n \<or> en_draining (ent s (fst (owner ! n))) = Some n)
     \<and> (\<forall>n. es_session s = Some n \<longrightarrow> n < length owner)"

definition run_inv :: "edgeRun \<Rightarrow> bool" where
  "run_inv r \<longleftrightarrow> registry_ok (er_server r) \<and> sessions_ok (er_server r) (er_owner r)
     \<and> (\<forall>a\<in>er_admitted r. admission_ok (er_server r) a)"

section \<open>Steps\<close>

inductive edge_step :: "edgeRun \<Rightarrow> edgeRun \<Rightarrow> bool" where
  check: "checkHello now store chain h (er_server r) = Inr a \<Longrightarrow>
    edge_step r (r\<lparr>er_admitted := insert a (er_admitted r)\<rparr>)"
| denied: "edge_step r (r\<lparr>er_server := on_status Denied (er_server r)\<rparr>)"
| commit: "a \<in> er_admitted r \<Longrightarrow> commitSession drawn written a (er_server r) = (s, Inr (n, e, p)) \<Longrightarrow>
    edge_step r (r\<lparr>er_server := s, er_owner := er_owner r @ [(e, a)]\<rparr>)"
| ready: "n < length (er_owner r) \<Longrightarrow>
    edge_step r (r\<lparr>er_server := reportReady now (snd (er_owner r ! n)) n (er_server r)\<rparr>)"
| drained: "n < length (er_owner r) \<Longrightarrow>
    edge_step r (r\<lparr>er_server := drainEnds True (fst (er_owner r ! n)) n (er_server r)\<rparr>)"
| closed: "edge_step r (r\<lparr>er_server := closeConnection n (er_server r)\<rparr>)"
| ended: "n < length (er_owner r) \<Longrightarrow> ss_closed (sess (er_server r) n) \<Longrightarrow>
    edge_step r (r\<lparr>er_server := sessionEnds (snd (er_owner r ! n)) (fst (er_owner r ! n)) n (er_server r)\<rparr>)"
| refresh: "edge_step r (r\<lparr>er_server := fst (refreshDynamic result (er_server r))\<rparr>)"
| udp: "edge_udp_step (es_udp (er_server r)) u \<Longrightarrow> edge_step r (r\<lparr>er_server := (er_server r)\<lparr>es_udp := u\<rparr>\<rparr>)"
| accept: "edge_step r (r\<lparr>er_server := fst (acceptTCP (er_server r))\<rparr>)"
| release: "edge_step r (r\<lparr>er_server := releaseTCP (er_server r)\<rparr>)"

text \<open>A step that keeps the entries, the sessions, the registry and the routes keeps the invariant.\<close>

lemma frame_inv:
  assumes "registry_ok s \<and> sessions_ok s owner \<and> (\<forall>a\<in>A. admission_ok s a)"
    and "es_entries t = es_entries s" "es_sessions t = es_sessions s" "es_registry t = es_registry s"
    and "es_routes t = es_routes s" "es_config t = es_config s" "es_session t = es_session s"
  shows "registry_ok t \<and> sessions_ok t owner \<and> (\<forall>a\<in>A. admission_ok t a)"
  using assms(1) unfolding registry_ok_def sessions_ok_def admission_ok_def assms(2-7) .

lemma fold_intersect_Allowed:
  "wf_list acc \<Longrightarrow> Allowed (foldl (\<lambda>acc right. intersectPair acc (masked l) (masked right)) acc rs) x
     \<longleftrightarrow> Allowed acc x \<or> contains (masked l) x \<and> (\<exists>r\<in>set rs. contains (masked r) x)"
  by (induction rs arbitrary: acc) (auto simp: intersectPair_wf intersectPair_Allowed)

lemma advertised_routes:
  assumes "map_result (\<lambda>raw. case parse_prefix raw of None \<Rightarrow> Inl e | Some p \<Rightarrow> Inr (masked p)) raws = Inr ps"
    and "p \<in> set ps"
  shows "\<exists>raw\<in>set raws. \<exists>q. parse_prefix raw = Some q \<and> p = masked q"
  using assms by (induction raws arbitrary: ps) (auto split: sum.splits option.splits)

lemma checkHello_Inr:
  assumes "checkHello now store chain h s = Inr a"
  obtains t advertised where
    "a = \<lparr>ad_entry = map_of (es_registry s) (hi_connectorID h), ad_target = t,
       ad_registryCount = length (es_registry s),
       ad_routes = IntersectPrefixes (if length (es_registry s) = 0 then ed_AllowedRoutes (es_config s)
                                      else [ct_RealPrefix t]) advertised, ad_hello = h\<rparr>"
    "ad_routes a \<noteq> []"
    "case map_of (es_registry s) (hi_connectorID h) of Some e \<Rightarrow> t = en_target (ent s e) | None \<Rightarrow> es_registry s = []"
    "map_result (\<lambda>raw. case parse_prefix raw of None \<Rightarrow> Inl RoutesNotValid | Some p \<Rightarrow> Inr (masked p)) (hi_routes h)
       = Inr advertised"
    "0 < hi_started h" "hi_started h \<le> now + minutes 5" "identityOk now store chain h"
    "hi_validProtocol h" "hi_environment h = ct_Environment t"
  using assms unfolding checkHello_def Let_def
  by (auto split: option.splits if_splits sum.splits)

lemma checkHello_ok:
  assumes "registry_ok s" "checkHello now store chain h s = Inr a"
  shows "admission_ok s a"
  using assms(2)
proof (rule checkHello_Inr)
  fix t advertised
  assume a: "a = \<lparr>ad_entry = map_of (es_registry s) (hi_connectorID h), ad_target = t,
       ad_registryCount = length (es_registry s),
       ad_routes = IntersectPrefixes (if length (es_registry s) = 0 then ed_AllowedRoutes (es_config s)
                                      else [ct_RealPrefix t]) advertised, ad_hello = h\<rparr>"
    and ne: "ad_routes a \<noteq> []"
    and t: "case map_of (es_registry s) (hi_connectorID h) of Some e \<Rightarrow> t = en_target (ent s e) | None \<Rightarrow> es_registry s = []"
    and adv: "map_result (\<lambda>raw. case parse_prefix raw of None \<Rightarrow> Inl RoutesNotValid | Some p \<Rightarrow> Inr (masked p)) (hi_routes h)
       = Inr advertised"
  have nonempty: "es_registry s \<noteq> []"
  proof
    assume empty: "es_registry s = []"
    then have "ed_AllowedRoutes (es_config s) = []" using assms(1) by (auto simp: registry_ok_def)
    then show False using ne empty by (simp add: a IntersectPrefixes_def)
  qed
  then obtain e where e: "map_of (es_registry s) (hi_connectorID h) = Some e" "t = en_target (ent s e)"
    using t by (auto split: option.splits)
  then have "e < length (es_entries s)"
    using assms(1) by (auto simp: registry_ok_def dest!: map_of_SomeD)
  moreover have "contains (masked (ct_RealPrefix t)) x \<and> advertises h x"
    if "Allowed (IntersectPrefixes [ct_RealPrefix t] advertised) x" for x
    using that advertised_routes[OF adv]
    by (fastforce simp: IntersectPrefixes_def fold_intersect_Allowed advertises_def)
  ultimately show ?thesis using e nonempty by (auto simp: admission_ok_def a Suc_le_eq)
qed

section \<open>Effects of the operations\<close>

lemma admission_ok_mono:
  assumes "admission_ok s a"
    and "\<And>e. e < length (es_entries s) \<Longrightarrow> e < length (es_entries t) \<and> en_target (ent t e) = en_target (ent s e)"
  shows "admission_ok t a"
  using assms unfolding admission_ok_def by auto

definition commits :: "string \<Rightarrow> admission \<Rightarrow> nat \<Rightarrow> edgeServer \<Rightarrow> edgeServer \<Rightarrow> bool" where
  "commits sid a e s t \<longleftrightarrow>
     (let n = length (es_sessions s); p = en_active (ent s e) in
      es_config t = es_config s \<and> es_registry t = es_registry s \<and> es_routes t = es_routes s \<and> es_udp t = es_udp s
      \<and> length (es_entries t) = length (es_entries s) \<and> (\<forall>f. en_target (ent t f) = en_target (ent s f))
      \<and> (\<forall>f. en_active (ent t f) = (if f = e then Some n else en_active (ent s f)))
      \<and> (\<forall>f. en_draining (ent t f) = (if f = e \<and> p \<noteq> None then p else en_draining (ent s f)))
      \<and> length (es_sessions t) = Suc n \<and> sess t n = newSession sid a
      \<and> (\<forall>m<n. ss_fixed (sess t m) = ss_fixed (sess s m)
            \<and> ss_draining (sess t m) = (ss_draining (sess s m) \<or> p = Some m)
            \<and> ss_closed (sess t m) = (ss_closed (sess s m) \<or> en_draining (ent s e) = Some m \<and> p \<noteq> Some m))
      \<and> es_session t = (if ad_registryCount a \<le> 1 then Some n else es_session s))"

text \<open>The server before the stale draining session is closed.\<close>

definition committed :: "string \<Rightarrow> admission \<Rightarrow> nat \<Rightarrow> edgeServer \<Rightarrow> edgeServer" where
  "committed sid a e s =
     (let n = length (es_sessions s); p = en_active (ent s e);
          s1 = on_entry e (en_active_update (\<lambda>_. Some n)) (s\<lparr>es_sessions := es_sessions s @ [newSession sid a]\<rparr>);
          s2 = (case p of None \<Rightarrow> s1 | Some q \<Rightarrow> on_entry e (en_draining_update (\<lambda>_. Some q))
                                                   (on_session q (ss_draining_update (\<lambda>_. True)) s1))
      in if ad_registryCount a \<le> 1 then s2\<lparr>es_session := Some n\<rparr> else s2)"

lemma commitSession_eq:
  assumes "ad_entry a = Some e" "1 \<le> ad_registryCount a"
  shows "commitSession (Some sid) written a s =
    (if superseded a (en_active (ent s e)) s then (s, Inl NewerSessionActive)
     else if \<not> written then (s, Inl ResponseFailed)
     else (if en_draining (ent s e) \<noteq> en_active (ent s e)
           then closeActive (en_draining (ent s e)) (committed sid a e s) else committed sid a e s,
           Inr (length (es_sessions s), e, en_active (ent s e))))"
proof -
  have prev: "previousSession a e s = en_active (ent s e)"
    using assms(2) by (simp add: previousSession_def split: option.split)
  show ?thesis
    unfolding commitSession_def admitEntry_def assms(1) option.case Let_def prod.case prev committed_def by (rule refl)
qed

lemma committed_sessions:
  assumes "\<And>q. en_active (ent s e) = Some q \<Longrightarrow> q < length (es_sessions s)"
  shows "length (es_sessions (committed sid a e s)) = Suc (length (es_sessions s))"
    "sess (committed sid a e s) (length (es_sessions s)) = newSession sid a"
    "m < length (es_sessions s) \<Longrightarrow> ss_fixed (sess (committed sid a e s) m) = ss_fixed (sess s m)"
    "m < length (es_sessions s) \<Longrightarrow>
       ss_draining (sess (committed sid a e s) m) = (ss_draining (sess s m) \<or> en_active (ent s e) = Some m)"
    "m < length (es_sessions s) \<Longrightarrow> ss_closed (sess (committed sid a e s) m) = ss_closed (sess s m)"
  using assms
  by (cases "en_active (ent s e)";
      simp add: committed_def Let_def on_entry_def on_session_def nth_update_at nth_append ss_fixed_def)+

lemma committed_entries:
  assumes "e < length (es_entries s)"
  shows "length (es_entries (committed sid a e s)) = length (es_entries s)"
    "en_target (ent (committed sid a e s) f) = en_target (ent s f)"
    "en_active (ent (committed sid a e s) f) = (if f = e then Some (length (es_sessions s)) else en_active (ent s f))"
    "en_draining (ent (committed sid a e s) f) =
       (if f = e \<and> en_active (ent s e) \<noteq> None then en_active (ent s e) else en_draining (ent s f))"
    "es_config (committed sid a e s) = es_config s" "es_registry (committed sid a e s) = es_registry s"
    "es_routes (committed sid a e s) = es_routes s" "es_udp (committed sid a e s) = es_udp s"
    "es_session (committed sid a e s) = (if ad_registryCount a \<le> 1 then Some (length (es_sessions s)) else es_session s)"
  using assms
  by (cases "en_active (ent s e)"; simp add: committed_def Let_def on_entry_def on_session_def nth_update_at)+

lemma closeActive_session [simp]: "es_session (closeActive a s) = es_session s"
  by (simp add: closeActive_def closeConnection_def on_session_def split: option.split)

lemma commit_effect:
  assumes "commitSession drawn written a s = (t, Inr (n, e', p))" "admission_ok s a" "ad_entry a = Some e"
    and "sessions_ok s owner"
  shows "e' = e \<and> n = length (es_sessions s) \<and> p = en_active (ent s e) \<and> \<not> superseded a p s
    \<and> (\<exists>sid. commits sid a e s t)"
proof -
  have e: "e < length (es_entries s)" "1 \<le> ad_registryCount a"
    using assms(2,3) by (auto simp: admission_ok_def)
  obtain sid where d: "drawn = Some sid" using assms(1) by (cases drawn) (simp_all add: commitSession_def)
  have c: "e' = e" "n = length (es_sessions s)" "p = en_active (ent s e)" "\<not> superseded a p s"
    "t = (if en_draining (ent s e) \<noteq> p then closeActive (en_draining (ent s e)) (committed sid a e s)
          else committed sid a e s)"
    using assms(1) unfolding d commitSession_eq[OF assms(3) e(2)] by (auto split: if_splits)
  have own: "length owner = length (es_sessions s)" "\<And>q. en_active (ent s e) = Some q \<Longrightarrow> q < length (es_sessions s)"
      "\<And>q. en_draining (ent s e) = Some q \<Longrightarrow> q < length (es_sessions s)"
    using assms(4) e(1) by (auto simp: sessions_ok_def)
  have "q \<noteq> length (es_sessions s)" if "en_draining (ent s e) = Some q" for q using own(3)[OF that] by simp
  then have new: "sess (closeActive (en_draining (ent s e)) (committed sid a e s)) (length (es_sessions s)) = newSession sid a"
    using committed_sessions[OF own(2)]
    by (cases "en_draining (ent s e)") (auto simp: closeActive_def closeConnection_def on_session_def nth_update_at)
  have "commits sid a e s t"
    unfolding commits_def Let_def c(5) using e new c(3)
    by (auto simp: committed_sessions[OF own(2)] committed_entries closeActive_sess)
  then show ?thesis using c by blast
qed

section \<open>Preservation\<close>

lemmas sessions_okD = sessions_ok_def[THEN iffD1]

lemma sessions_ok_commit:
  assumes c: "commits sid a e s t" and a: "admission_ok s a" "ad_entry a = Some e" and ok: "sessions_ok s owner"
  shows "sessions_ok t (owner @ [(e, a)])"
proof -
  let ?N = "length (es_sessions s)"
  note c = c[unfolded commits_def Let_def]
  have len: "length owner = ?N" "length (es_sessions t) = Suc ?N" "length (es_entries t) = length (es_entries s)"
    and act: "\<And>f. en_active (ent t f) = (if f = e then Some ?N else en_active (ent s f))"
    and drn: "\<And>f. en_draining (ent t f) =
                (if f = e \<and> en_active (ent s e) \<noteq> None then en_active (ent s e) else en_draining (ent s f))"
    and new: "sess t ?N = newSession sid a"
    and old: "\<And>m. m < ?N \<Longrightarrow> ss_fixed (sess t m) = ss_fixed (sess s m)
            \<and> ss_draining (sess t m) = (ss_draining (sess s m) \<or> en_active (ent s e) = Some m)
            \<and> ss_closed (sess t m) = (ss_closed (sess s m) \<or> en_draining (ent s e) = Some m \<and> en_active (ent s e) \<noteq> Some m)"
    and main: "es_session t = (if ad_registryCount a \<le> 1 then Some ?N else es_session s)"
    using c ok by (auto simp: sessions_ok_def)
  have e: "e < length (es_entries s)" using a by (auto simp: admission_ok_def)
  have o: "\<And>m. m < ?N \<Longrightarrow> admission_ok s (snd (owner ! m)) \<and> ad_entry (snd (owner ! m)) = Some (fst (owner ! m))
            \<and> ss_fixed (sess s m) = ss_fixed (newSession (ss_id (sess s m)) (snd (owner ! m)))"
    and oact: "\<And>f m. f < length (es_entries s) \<Longrightarrow> en_active (ent s f) = Some m \<Longrightarrow>
            m < ?N \<and> fst (owner ! m) = f \<and> \<not> ss_draining (sess s m)"
    and odrn: "\<And>f m. f < length (es_entries s) \<Longrightarrow> en_draining (ent s f) = Some m \<Longrightarrow>
            m < ?N \<and> fst (owner ! m) = f \<and> ss_draining (sess s m)"
    and oopen: "\<And>m. m < ?N \<Longrightarrow> \<not> ss_closed (sess s m) \<Longrightarrow>
            en_active (ent s (fst (owner ! m))) = Some m \<or> en_draining (ent s (fst (owner ! m))) = Some m"
    and omain: "\<And>m. es_session s = Some m \<Longrightarrow> m < ?N"
    using ok unfolding sessions_ok_def len(1) by blast+
  have adm: "admission_ok s b \<Longrightarrow> admission_ok t b" for b
    by (rule admission_ok_mono[of s]) (use c len(3) in simp_all)
  have id: "ss_id (sess t m) = ss_id (sess s m)" if "m < ?N" for m
    using old[OF that] by (simp add: ss_fixed_def)
  show ?thesis
    unfolding sessions_ok_def
  proof (intro conjI allI impI)
    show "length (owner @ [(e, a)]) = length (es_sessions t)" using len by simp
  next
    fix m assume "m < length (owner @ [(e, a)])"
    then consider "m < ?N" | "m = ?N" using len by fastforce
    then show "admission_ok t (snd ((owner @ [(e, a)]) ! m))"
        "ad_entry (snd ((owner @ [(e, a)]) ! m)) = Some (fst ((owner @ [(e, a)]) ! m))"
        "ss_fixed (sess t m) = ss_fixed (newSession (ss_id (sess t m)) (snd ((owner @ [(e, a)]) ! m)))"
      using o old id new a adm len(1)
      by (cases; simp add: nth_append; simp add: newSession_def)+
  next
    fix f m assume f: "f < length (es_entries t)" and m: "en_active (ent t f) = Some m"
    show "m < length (owner @ [(e, a)])" "fst ((owner @ [(e, a)]) ! m) = f" "\<not> ss_draining (sess t m)"
      using f m len oact[of f m] oact[of e m] old[of m] new e
      by (auto simp: act nth_append newSession_def split: if_splits)
  next
    fix f m assume f: "f < length (es_entries t)" and m: "en_draining (ent t f) = Some m"
    show "m < length (owner @ [(e, a)])" "fst ((owner @ [(e, a)]) ! m) = f" "ss_draining (sess t m)"
      using f m len odrn[of f m] oact[of e m] old[of m] e
      by (auto simp: drn nth_append split: if_splits)
  next
    fix m assume "m < length (owner @ [(e, a)])" "\<not> ss_closed (sess t m)"
    then consider "m < ?N" "\<not> ss_closed (sess t m)" | "m = ?N" using len by fastforce
    then show "en_active (ent t (fst ((owner @ [(e, a)]) ! m))) = Some m
        \<or> en_draining (ent t (fst ((owner @ [(e, a)]) ! m))) = Some m"
    proof cases
      case 1
      then show ?thesis
        using oopen[of m] old[of m] len(1) by (auto simp: act drn nth_append)
    next
      case 2
      then show ?thesis using len(1) by (simp add: act nth_append)
    qed
  next
    fix m assume "es_session t = Some m"
    then show "m < length (owner @ [(e, a)])"
      using main omain[of m] len(1) by (auto split: if_splits)
  qed
qed

text \<open>Steps that only add entries and close connections.\<close>

definition extends :: "edgeServer \<Rightarrow> edgeServer \<Rightarrow> bool" where
  "extends s t \<longleftrightarrow>
     es_config t = es_config s \<and> length (es_entries s) \<le> length (es_entries t)
     \<and> (\<forall>e<length (es_entries s). ent t e = ent s e)
     \<and> (\<forall>e<length (es_entries t). length (es_entries s) \<le> e \<longrightarrow> en_active (ent t e) = None \<and> en_draining (ent t e) = None)
     \<and> length (es_sessions t) = length (es_sessions s)
     \<and> (\<forall>m<length (es_sessions s). ss_fixed (sess t m) = ss_fixed (sess s m)
          \<and> ss_draining (sess t m) = ss_draining (sess s m) \<and> (ss_closed (sess s m) \<longrightarrow> ss_closed (sess t m)))
     \<and> es_session t = es_session s"

lemma extends_refl: "extends s s"
  by (simp add: extends_def)

lemma extends_trans: "extends s t \<Longrightarrow> extends t u \<Longrightarrow> extends s u"
  unfolding extends_def by (smt (verit, best) leI less_le_trans order_trans)

lemma extends_closeActive: "extends s (closeActive a s)"
  by (simp add: extends_def closeActive_sess)

lemma extends_append: "extends s (s\<lparr>es_entries := es_entries s @ [newEntry t], es_registry := m\<rparr>)"
  by (auto simp: extends_def nth_append newEntry_def)

lemma extends_admission: "extends s t \<Longrightarrow> admission_ok s a \<Longrightarrow> admission_ok t a"
  by (rule admission_ok_mono[of s]) (auto simp: extends_def)

lemma sessions_ok_extends:
  assumes x: "extends s t" and ok: "sessions_ok s owner"
  shows "sessions_ok t owner"
proof -
  have len: "length owner = length (es_sessions s)" using ok by (simp add: sessions_ok_def)
  have o: "admission_ok s (snd (owner ! m)) \<and> ad_entry (snd (owner ! m)) = Some (fst (owner ! m))
      \<and> ss_fixed (sess s m) = ss_fixed (newSession (ss_id (sess s m)) (snd (owner ! m)))" if "m < length owner" for m
    using ok that unfolding sessions_ok_def by blast
  have oact: "m < length owner \<and> fst (owner ! m) = e \<and> \<not> ss_draining (sess s m)"
      if "e < length (es_entries s)" "en_active (ent s e) = Some m" for e m
    using ok that unfolding sessions_ok_def by blast
  have odrn: "m < length owner \<and> fst (owner ! m) = e \<and> ss_draining (sess s m)"
      if "e < length (es_entries s)" "en_draining (ent s e) = Some m" for e m
    using ok that unfolding sessions_ok_def by blast
  have oopen: "en_active (ent s (fst (owner ! m))) = Some m \<or> en_draining (ent s (fst (owner ! m))) = Some m"
      if "m < length owner" "\<not> ss_closed (sess s m)" for m
    using ok that unfolding sessions_ok_def by blast
  have own: "fst (owner ! m) < length (es_entries s)" if "m < length owner" for m
    using o[OF that] by (auto simp: admission_ok_def)
  have ent: "ent t e = ent s e" if "e < length (es_entries s)" for e
    using x that by (simp add: extends_def)
  have old: "e < length (es_entries s)" if "e < length (es_entries t)" "en_active (ent t e) = Some m \<or> en_draining (ent t e) = Some m" for e m
    using x that by (fastforce simp: extends_def not_less[symmetric])
  have s: "ss_fixed (sess t m) = ss_fixed (sess s m)" "ss_draining (sess t m) = ss_draining (sess s m)"
      "\<not> ss_closed (sess t m) \<Longrightarrow> \<not> ss_closed (sess s m)" "ss_id (sess t m) = ss_id (sess s m)" if "m < length owner" for m
    using x that len by (auto simp: extends_def ss_fixed_def)
  have adm: "admission_ok s a \<Longrightarrow> admission_ok t a" for a by (rule extends_admission[OF x])
  show ?thesis
    unfolding sessions_ok_def
  proof (intro conjI allI impI)
    show "length owner = length (es_sessions t)" using x len by (simp add: extends_def)
  next
    fix m assume m: "m < length owner"
    show "admission_ok t (snd (owner ! m))" "ad_entry (snd (owner ! m)) = Some (fst (owner ! m))"
        "ss_fixed (sess t m) = ss_fixed (newSession (ss_id (sess t m)) (snd (owner ! m)))"
      using o[OF m] adm s(1,4)[OF m] by simp_all
  next
    fix e m assume e: "e < length (es_entries t)" and m: "en_active (ent t e) = Some m"
    then have "m < length owner \<and> fst (owner ! m) = e \<and> \<not> ss_draining (sess s m)"
      using oact[of e m] old[OF e, of m] ent[of e] by metis
    then show "m < length owner" "fst (owner ! m) = e" "\<not> ss_draining (sess t m)" using s(2)[of m] by blast+
  next
    fix e m assume e: "e < length (es_entries t)" and m: "en_draining (ent t e) = Some m"
    then have "m < length owner \<and> fst (owner ! m) = e \<and> ss_draining (sess s m)"
      using odrn[of e m] old[OF e, of m] ent[of e] by metis
    then show "m < length owner" "fst (owner ! m) = e" "ss_draining (sess t m)" using s(2)[of m] by blast+
  next
    fix m assume m: "m < length owner" "\<not> ss_closed (sess t m)"
    then show "en_active (ent t (fst (owner ! m))) = Some m \<or> en_draining (ent t (fst (owner ! m))) = Some m"
      using oopen[OF m(1) s(3)[OF m]] ent[OF own[OF m(1)]] by simp
  next
    fix m assume "es_session t = Some m"
    moreover have "es_session t = es_session s" using x unfolding extends_def by blast
    ultimately show "m < length owner" using ok unfolding sessions_ok_def by simp
  qed
qed

section \<open>Refresh\<close>

text \<open>What holds between two rounds of the refresh loop.\<close>

definition refreshing :: "edgeServer \<Rightarrow> nat list \<times> string list \<times> edgeServer \<Rightarrow> bool" where
  "refreshing s0 x \<longleftrightarrow>
     (case x of (routes, keys, s) \<Rightarrow> extends s0 s
      \<and> (\<forall>(k, e)\<in>set (es_registry s). e < length (es_entries s) \<and> ct_ConnectorID (en_target (ent s e)) = k)
      \<and> fst ` set (es_registry s0) \<subseteq> fst ` set (es_registry s)
      \<and> (\<forall>e\<in>set routes. e < length (es_entries s))
      \<and> ct_ConnectorID ` set (ed_Connectors (es_config s0)) \<subseteq> set keys)"

lemma refreshing_extends: "refreshing s0 (routes, keys, s) \<Longrightarrow> extends s0 s"
  unfolding refreshing_def prod.case by (rule conjunct1)

lemma set_update_sub: "set (AList.update k v m) \<subseteq> insert (k, v) (set m)"
  by (induction m) auto

lemma entry_keys_update: "fst ` set (AList.update k v m) = insert k (fst ` set m)"
  by (induction m) auto

lemma refreshing_new:
  assumes "refreshing s0 (routes, keys, s)" "extends s s1" "es_entries s1 = es_entries s" "es_registry s1 = es_registry s"
    and "ct_ConnectorID target = key" "set routes' \<subseteq> set routes"
  shows "refreshing s0 (routes' @ [length (es_entries s1)], key # keys,
           s1\<lparr>es_entries := es_entries s1 @ [newEntry target],
              es_registry := AList.update key (length (es_entries s1)) (es_registry s1)\<rparr>)"
proof -
  let ?t = "s1\<lparr>es_entries := es_entries s1 @ [newEntry target],
              es_registry := AList.update key (length (es_entries s1)) (es_registry s1)\<rparr>"
  have "extends s0 ?t"
    by (rule extends_trans[OF extends_trans[OF refreshing_extends[OF assms(1)] assms(2)] extends_append])
  moreover have "e < length (es_entries ?t) \<and> ct_ConnectorID (en_target (ent ?t e)) = k"
    if "(k, e) \<in> set (es_registry ?t)" for k e
  proof -
    have old: "f < length (es_entries s) \<and> ct_ConnectorID (en_target (ent s f)) = j" if "(j, f) \<in> set (es_registry s)" for j f
      using that assms(1) unfolding refreshing_def prod.case by blast
    have "(k, e) = (key, length (es_entries s)) \<or> (k, e) \<in> set (es_registry s)"
      using that set_update_sub[of key "length (es_entries s1)" "es_registry s1"] assms(3,4) by auto
    then show ?thesis using old[of k e] assms(3,5) by (auto simp: nth_append newEntry_def)
  qed
  ultimately show ?thesis
    using assms unfolding refreshing_def prod.case by (auto simp: entry_keys_update intro: less_SucI)
qed

lemma refreshing_step: "refreshing s0 x \<Longrightarrow> refreshing s0 (refreshOne r x)"
proof (cases x)
  case (fields routes keys s)
  assume x: "refreshing s0 x"
  note x = x[unfolded fields]
  let ?key = "registrationKey r" and ?target = "dynamicTarget (es_config s) r"
  let ?routes = "filter (\<lambda>e. ct_VirtualPrefix (en_target (ent s e)) \<noteq> rg_VirtualPrefix r) routes"
  have key: "ct_ConnectorID ?target = ?key" by (simp add: dynamicTarget_def)
  consider "rg_IdentityType r \<noteq> DynamicV3" | e where "rg_IdentityType r = DynamicV3" "map_of (es_registry s) ?key = Some e"
      "en_target (ent s e) = ?target"
    | e where "rg_IdentityType r = DynamicV3" "map_of (es_registry s) ?key = Some e" "en_target (ent s e) \<noteq> ?target"
    | "rg_IdentityType r = DynamicV3" "map_of (es_registry s) ?key = None" by fastforce
  then show ?thesis
  proof cases
    case 1
    then show ?thesis using x by (simp add: fields refreshOne_def)
  next
    case 2
    then have "e < length (es_entries s)" using x by (auto simp: refreshing_def dest!: map_of_SomeD)
    with 2 x show ?thesis by (auto simp: fields refreshOne_def Let_def refreshing_def)
  next
    case 3
    with refreshing_new[OF x extends_closeActive _ _ key, of "en_active (ent s e)" ?routes] show ?thesis
      by (simp add: fields refreshOne_def Let_def)
  next
    case 4
    with refreshing_new[OF x extends_refl _ _ key, of ?routes] show ?thesis
      by (simp add: fields refreshOne_def Let_def)
  qed
qed

lemma refreshing_fold: "refreshing s0 x \<Longrightarrow> refreshing s0 (foldl (\<lambda>x r. refreshOne r x) x regs)"
  by (induction regs arbitrary: x) (auto simp: refreshing_step)

lemma staticRoutes_ok: "registry_ok s \<Longrightarrow> e \<in> set (staticRoutes s) \<Longrightarrow> e < length (es_entries s)"
proof -
  assume ok: "registry_ok s" and "e \<in> set (staticRoutes s)"
  then obtain t :: ConnectorTarget where "map_of (es_registry s) (ct_ConnectorID t) = Some e"
    unfolding staticRoutes_def List.map_filter_def by auto
  then have "(ct_ConnectorID t, e) \<in> set (es_registry s)" by (rule map_of_SomeD)
  then show ?thesis using ok unfolding registry_ok_def by blast
qed

lemma subset_meet: "A \<subseteq> B \<Longrightarrow> B \<subseteq> C \<Longrightarrow> A \<subseteq> D \<Longrightarrow> A \<subseteq> C \<inter> D"
  by blast

lemma filter_keys: "A \<subseteq> fst ` set m \<inter> set keys \<Longrightarrow> A \<subseteq> fst ` set (filter (\<lambda>(k, e). k \<in> set keys) m)"
  by force

lemma fold_close_extends:
  "extends s (foldl (\<lambda>s (k, e). closeActive (en_active (ent s e)) s) s gone)
   \<and> es_registry (foldl (\<lambda>s (k, e). closeActive (en_active (ent s e)) s) s gone) = es_registry s
   \<and> es_entries (foldl (\<lambda>s (k, e). closeActive (en_active (ent s e)) s) s gone) = es_entries s"
proof (induction gone arbitrary: s)
  case (Cons x gone)
  obtain k e where x: "x = (k, e)" by (cases x)
  show ?case
    unfolding x foldl_Cons prod.case
    using Cons.IH[of "closeActive (en_active (ent s e)) s"]
    unfolding closeActive_simps by (blast intro: extends_trans[OF extends_closeActive])
qed (simp add: extends_refl)

lemma extends_fields:
  "extends s t \<Longrightarrow> es_entries u = es_entries t \<Longrightarrow> es_sessions u = es_sessions t \<Longrightarrow> es_config u = es_config t \<Longrightarrow>
   es_session u = es_session t \<Longrightarrow> extends s u"
  by (simp add: extends_def)

lemma refreshDynamic_ok:
  assumes ok: "registry_ok s"
  shows "registry_ok (fst (refreshDynamic result s)) \<and> extends s (fst (refreshDynamic result s))"
proof (cases result)
  case (Inl e)
  then show ?thesis using ok by (simp add: refreshDynamic_def extends_refl)
next
  case (Inr x)
  obtain regs stats where x: "x = (regs, stats)" by (cases x)
  have "refreshing s (staticRoutes s, map ct_ConnectorID (ed_Connectors (es_config s)), s)"
    using ok staticRoutes_ok[OF ok] by (auto simp: refreshing_def extends_refl registry_ok_def)
  then have "refreshing s (foldl (\<lambda>x r. refreshOne r x)
      (staticRoutes s, map ct_ConnectorID (ed_Connectors (es_config s)), s) regs)" by (rule refreshing_fold)
  then obtain routes keys s1 where f: "foldl (\<lambda>x r. refreshOne r x)
      (staticRoutes s, map ct_ConnectorID (ed_Connectors (es_config s)), s) regs = (routes, keys, s1)"
    and r: "refreshing s (routes, keys, s1)" by (metis prod_cases3)
  let ?gone = "filter (\<lambda>(k, e). k \<notin> set keys) (es_registry s1)"
  let ?s2 = "foldl (\<lambda>s (k, e). closeActive (en_active (ent s e)) s) s1 ?gone"
  let ?t = "fst (refreshDynamic result s)"
  have t: "es_entries ?t = es_entries ?s2" "es_sessions ?t = es_sessions ?s2" "es_config ?t = es_config ?s2"
      "es_session ?t = es_session ?s2" "es_routes ?t = routes"
      "es_registry ?t = filter (\<lambda>(k, e). k \<in> set keys) (es_registry ?s2)"
    by (simp_all add: refreshDynamic_def Inr x f dropInactive_def Let_def)
  note fc = fold_close_extends[of s1 ?gone]
  have parts: "\<forall>(k, e)\<in>set (es_registry s1). e < length (es_entries s1) \<and> ct_ConnectorID (en_target (ent s1 e)) = k"
      "fst ` set (es_registry s) \<subseteq> fst ` set (es_registry s1)" "\<forall>e\<in>set routes. e < length (es_entries s1)"
      "ct_ConnectorID ` set (ed_Connectors (es_config s)) \<subseteq> set keys"
    using r[unfolded refreshing_def prod.case] by - (elim conjE, assumption)+
  have cover: "ct_ConnectorID ` set (ed_Connectors (es_config s)) \<subseteq> fst ` set (es_registry s)"
    using ok[unfolded registry_ok_def] by (elim conjE)
  have ext: "extends s ?s2" by (rule extends_trans[OF refreshing_extends[OF r] fc[THEN conjunct1]])
  have "registry_ok ?t"
    unfolding registry_ok_def t
  proof (intro conjI)
    show "\<forall>(k, e)\<in>set (filter (\<lambda>(k, e). k \<in> set keys) (es_registry ?s2)).
        e < length (es_entries ?s2) \<and> ct_ConnectorID (en_target (ent ?s2 e)) = k"
      using parts(1) unfolding fc[THEN conjunct2, THEN conjunct1] fc[THEN conjunct2, THEN conjunct2] by auto
    show "\<forall>e\<in>set routes. e < length (es_entries ?s2)"
      using parts(3) unfolding fc[THEN conjunct2, THEN conjunct2] .
    have cfg: "es_config ?s2 = es_config s" using ext by (simp add: extends_def)
    have "ct_ConnectorID ` set (ed_Connectors (es_config s)) \<subseteq> fst ` set (es_registry s1) \<inter> set keys"
      using cover parts(2,4) by (rule subset_meet)
    then show "ct_ConnectorID ` set (ed_Connectors (es_config ?s2))
        \<subseteq> fst ` set (filter (\<lambda>(k, e). k \<in> set keys) (es_registry ?s2))"
      unfolding cfg fc[THEN conjunct2, THEN conjunct1] by (rule filter_keys)
    show "ed_AllowedRoutes (es_config ?s2) = map ct_RealPrefix (ed_Connectors (es_config ?s2))"
      using ok cfg by (simp add: registry_ok_def)
  qed
  then show ?thesis using extends_fields[OF ext t(1-4)] by blast
qed

section \<open>The end of a session and of its drain period\<close>

text \<open>Clearing the active or the draining pointer of an entry once its session is closed.\<close>

lemma sessions_ok_clear:
  assumes ok: "sessions_ok s owner" and n: "n < length owner" "fst (owner ! n) = e" "ss_closed (sess s n)"
    and len: "length (es_entries t) = length (es_entries s)" "es_sessions t = es_sessions s"
    and tgt: "\<And>f. en_target (ent t f) = en_target (ent s f)"
    and act: "\<And>f. en_active (ent t f) = (if f = e \<and> en_active (ent s f) = Some n \<and> A then None else en_active (ent s f))"
    and drn: "\<And>f. en_draining (ent t f) = (if f = e \<and> en_draining (ent s f) = Some n \<and> \<not> A then None else en_draining (ent s f))"
    and main: "es_session t = es_session s \<or> es_session t = None"
  shows "sessions_ok t owner"
proof -
  have adm: "admission_ok s a \<Longrightarrow> admission_ok t a" for a
    by (rule admission_ok_mono[of s]) (simp_all add: len tgt)
  have o: "length owner = length (es_sessions s)"
    "\<And>m. m < length owner \<Longrightarrow> admission_ok s (snd (owner ! m)) \<and> ad_entry (snd (owner ! m)) = Some (fst (owner ! m))
            \<and> ss_fixed (sess s m) = ss_fixed (newSession (ss_id (sess s m)) (snd (owner ! m)))"
    and oact: "\<And>f m. f < length (es_entries s) \<Longrightarrow> en_active (ent s f) = Some m \<Longrightarrow>
            m < length owner \<and> fst (owner ! m) = f \<and> \<not> ss_draining (sess s m)"
    and odrn: "\<And>f m. f < length (es_entries s) \<Longrightarrow> en_draining (ent s f) = Some m \<Longrightarrow>
            m < length owner \<and> fst (owner ! m) = f \<and> ss_draining (sess s m)"
    and oopen: "\<And>m. m < length owner \<Longrightarrow> \<not> ss_closed (sess s m) \<Longrightarrow>
            en_active (ent s (fst (owner ! m))) = Some m \<or> en_draining (ent s (fst (owner ! m))) = Some m"
    and omain: "\<And>m. es_session s = Some m \<Longrightarrow> m < length owner"
    using ok unfolding sessions_ok_def by blast+
  have act': "en_active (ent t f) = Some m \<Longrightarrow> en_active (ent s f) = Some m" for f m
    by (simp add: act split: if_splits)
  have drn': "en_draining (ent t f) = Some m \<Longrightarrow> en_draining (ent s f) = Some m" for f m
    by (simp add: drn split: if_splits)
  have open': "en_active (ent t (fst (owner ! m))) = Some m \<or> en_draining (ent t (fst (owner ! m))) = Some m"
    if "m < length owner" "\<not> ss_closed (sess s m)" for m
  proof -
    have "m \<noteq> n" using that n(3) by auto
    then show ?thesis using oopen[OF that] by (auto simp: act drn)
  qed
  show ?thesis
    unfolding sessions_ok_def len
    using o adm oact odrn act' drn' open' main omain by (intro conjI allI impI; metis option.distinct(1))
qed

lemma sessions_ok_close: "sessions_ok s owner \<Longrightarrow> sessions_ok (closeConnection n s) owner"
  using sessions_ok_extends[OF extends_closeActive, of s owner "Some n"] by (simp add: closeActive_def)

lemma drainEnds_ok:
  assumes ok: "sessions_ok s owner" and n: "n < length owner" "fst (owner ! n) = e"
  shows "sessions_ok (drainEnds True e n s) owner"
proof -
  let ?s = "closeConnection n s"
  have ok': "sessions_ok ?s owner" using ok by (rule sessions_ok_close)
  have e: "e < length (es_entries s)" "length owner = length (es_sessions s)"
    using ok n by (fastforce simp: sessions_ok_def admission_ok_def)+
  have c: "ss_closed (sess ?s n)" using n e by (simp add: closeConnection_sess)
  show ?thesis
    by (rule sessions_ok_clear[OF ok' n c, where A = False])
       (use e in \<open>auto simp: drainEnds_def Let_def on_entry_def nth_update_at closeConnection_def on_session_def\<close>)
qed

lemma sessionEnds_ok:
  assumes ok: "sessions_ok s owner" and n: "n < length owner" "fst (owner ! n) = e" and c: "ss_closed (sess s n)"
  shows "sessions_ok (sessionEnds a e n s) owner"
proof -
  have e: "e < length (es_entries s)"
    using ok n by (fastforce simp: sessions_ok_def admission_ok_def)
  show ?thesis
    by (rule sessions_ok_clear[OF ok n c, where A = True])
       (use e in \<open>auto simp: sessionEnds_def Let_def on_entry_def nth_update_at\<close>)
qed

lemma registry_ok_frame:
  assumes "registry_ok s" "es_config t = es_config s" "es_registry t = es_registry s" "es_routes t = es_routes s"
    and "length (es_entries t) = length (es_entries s)" "\<And>f. en_target (ent t f) = en_target (ent s f)"
  shows "registry_ok t"
  using assms by (simp add: registry_ok_def)

lemma admission_frame:
  assumes "admission_ok s a" "length (es_entries t) = length (es_entries s)" "\<And>f. en_target (ent t f) = en_target (ent s f)"
  shows "admission_ok t a"
  using assms by (simp add: admission_ok_def)

section \<open>The machine\<close>

lemma run_inv_parts:
  assumes "run_inv r"
  shows "registry_ok (er_server r)" "sessions_ok (er_server r) (er_owner r)"
    "\<And>a. a \<in> er_admitted r \<Longrightarrow> admission_ok (er_server r) a"
  using assms by (auto simp: run_inv_def)

lemma run_inv_frame:
  assumes "run_inv r" "es_entries t = es_entries (er_server r)" "es_sessions t = es_sessions (er_server r)"
    "es_registry t = es_registry (er_server r)" "es_routes t = es_routes (er_server r)"
    "es_config t = es_config (er_server r)" "es_session t = es_session (er_server r)"
  shows "run_inv (r\<lparr>er_server := t\<rparr>)"
  using frame_inv[OF _ assms(2-7), of "er_owner r" "er_admitted r"] assms(1) by (simp add: run_inv_def)

lemma run_inv_clear:
  assumes inv: "run_inv r" and ok: "sessions_ok t (er_owner r)"
    and fields: "es_config t = es_config (er_server r)" "es_registry t = es_registry (er_server r)"
      "es_routes t = es_routes (er_server r)" "length (es_entries t) = length (es_entries (er_server r))"
      "\<And>f. en_target (ent t f) = en_target (ent (er_server r) f)"
  shows "run_inv (r\<lparr>er_server := t\<rparr>)"
  using registry_ok_frame[OF run_inv_parts(1)[OF inv] fields] admission_frame[OF run_inv_parts(3)[OF inv] fields(4,5)] ok
  by (simp add: run_inv_def)

lemma drainEnds_fields:
  "es_config (drainEnds x e n s) = es_config s" "es_registry (drainEnds x e n s) = es_registry s"
  "es_routes (drainEnds x e n s) = es_routes s" "length (es_entries (drainEnds x e n s)) = length (es_entries s)"
  "en_target (ent (drainEnds x e n s) f) = en_target (ent s f)"
  by (simp_all add: drainEnds_def Let_def on_entry_def nth_update_at)

lemma sessionEnds_fields:
  "es_config (sessionEnds a e n s) = es_config s" "es_registry (sessionEnds a e n s) = es_registry s"
  "es_routes (sessionEnds a e n s) = es_routes s" "length (es_entries (sessionEnds a e n s)) = length (es_entries s)"
  "en_target (ent (sessionEnds a e n s) f) = en_target (ent s f)"
  by (simp_all add: sessionEnds_def Let_def on_entry_def nth_update_at)

lemma run_inv_commit:
  assumes inv: "run_inv r" and a: "a \<in> er_admitted r"
    and c: "commitSession drawn written a (er_server r) = (s, Inr (n, e, p))"
  shows "run_inv (r\<lparr>er_server := s, er_owner := er_owner r @ [(e, a)]\<rparr>)"
proof -
  note parts = run_inv_parts[OF inv]
  obtain f where f: "ad_entry a = Some f" using parts(3)[OF a] by (auto simp: admission_ok_def)
  obtain sid where x: "e = f" "commits sid a f (er_server r) s"
    using commit_effect[OF c parts(3)[OF a] f parts(2)] by blast
  note x' = x(2)[unfolded commits_def Let_def]
  have fields: "es_config s = es_config (er_server r)" "es_registry s = es_registry (er_server r)"
      "es_routes s = es_routes (er_server r)" "length (es_entries s) = length (es_entries (er_server r))"
      "\<And>f. en_target (ent s f) = en_target (ent (er_server r) f)"
    using x' by blast+
  have "sessions_ok s (er_owner r @ [(e, a)])"
    using sessions_ok_commit[OF x(2) parts(3)[OF a] f parts(2)] x(1) by simp
  then show ?thesis
    using registry_ok_frame[OF parts(1) fields] admission_frame[OF parts(3) fields(4,5)] by (simp add: run_inv_def)
qed

lemma run_inv_extends:
  assumes inv: "run_inv r" and x: "extends (er_server r) t" and ok: "registry_ok t"
  shows "run_inv (r\<lparr>er_server := t\<rparr>)"
  using sessions_ok_extends[OF x run_inv_parts(2)[OF inv]] extends_admission[OF x run_inv_parts(3)[OF inv]] ok
  by (simp add: run_inv_def)

lemma edge_step_inv:
  assumes "edge_step r r'" "run_inv r"
  shows "run_inv r'"
  using assms
proof (induction rule: edge_step.induct)
  case (check now store chain h r a)
  then show ?case using checkHello_ok[OF run_inv_parts(1) check(1)] by (auto simp: run_inv_def)
next
  case (commit a r drawn written s n e p)
  then show ?case by (intro run_inv_commit)
next
  case (drained n r)
  then show ?case using drainEnds_ok[OF run_inv_parts(2) _ refl] by (intro run_inv_clear) (simp_all add: drainEnds_fields)
next
  case (closed r n)
  then show ?case
    using extends_closeActive[of "er_server r" "Some n"] registry_ok_frame[OF run_inv_parts(1)[OF closed]]
    by (intro run_inv_extends) (simp_all add: closeActive_def)
next
  case (ended n r)
  then show ?case using sessionEnds_ok[OF run_inv_parts(2) _ refl] by (intro run_inv_clear) (simp_all add: sessionEnds_fields)
next
  case (refresh r result)
  then show ?case using refreshDynamic_ok[OF run_inv_parts(1)[OF refresh]] by (intro run_inv_extends) blast+
qed (auto intro!: run_inv_frame simp: reportReady_def Let_def acceptTCP_def releaseTCP_def)

interpretation edge_sessions: machine edge_step run_inv
  by unfold_locales (rule edge_step_inv)

definition startRun :: "Edge \<Rightarrow> Server \<Rightarrow> edgeRun" where
  "startRun cfg st = \<lparr>er_server = NewEdge cfg st, er_admitted = {}, er_owner = []\<rparr>"

lemma registry_fold_keys:
  "fst ` set (foldl (\<lambda>m (i, t). AList.update (ct_ConnectorID t) i m) m xs) = fst ` set m \<union> ct_ConnectorID ` snd ` set xs"
  by (induction xs arbitrary: m) (simp_all add: entry_keys_update case_prod_beta)

lemma registry_fold_entries:
  "(k, i) \<in> set (foldl (\<lambda>m (i, t). AList.update (ct_ConnectorID t) i m) m xs) \<Longrightarrow>
   (k, i) \<in> set m \<or> (\<exists>t. (i, t) \<in> set xs \<and> ct_ConnectorID t = k)"
proof (induction xs arbitrary: m)
  case (Cons x xs)
  obtain j t where x: "x = (j, t)" by (cases x)
  from Cons.prems Cons.IH[of "AList.update (ct_ConnectorID t) j m"] show ?case
    using set_update_sub[of "ct_ConnectorID t" j m] by (auto simp: x)
qed simp

lemma run_inv_start:
  assumes "ed_AllowedRoutes cfg = map ct_RealPrefix (ed_Connectors cfg)"
  shows "run_inv (startRun cfg st)"
proof -
  let ?s = "NewEdge cfg st"
  have reg: "i < length (ed_Connectors cfg) \<and> ct_ConnectorID (ed_Connectors cfg ! i) = k"
    if "(k, i) \<in> set (es_registry ?s)" for k i
    using registry_fold_entries[of k i "[]" "enumerate 0 (ed_Connectors cfg)"] that
    by (auto simp: NewEdge_def Let_def in_set_enumerate_eq)
  have keys: "fst ` set (es_registry ?s) = ct_ConnectorID ` set (ed_Connectors cfg)"
  proof -
    have "snd ` set (enumerate 0 (ed_Connectors cfg)) = set (ed_Connectors cfg)"
      by (metis map_snd_enumerate set_map)
    then show ?thesis by (simp add: NewEdge_def Let_def registry_fold_keys)
  qed
  have "registry_ok ?s"
    using reg keys assms by (auto simp: registry_ok_def) (auto simp: NewEdge_def Let_def newEntry_def)
  moreover have "sessions_ok ?s []"
    by (auto simp: sessions_ok_def NewEdge_def Let_def newEntry_def)
  ultimately show ?thesis by (simp add: run_inv_def startRun_def)
qed

section \<open>Properties\<close>

lemma route_entry:
  assumes "route destination s = Some (n, translated)" "es_routes s \<noteq> []"
  obtains e where "e \<in> set (es_routes s)" "en_active (ent s e) = Some n" "\<not> ss_draining (sess s n)"
    "contains (ct_VirtualPrefix (en_target (ent s e))) (unmap (ap_addr destination))"
    "translateAddrPort destination (ct_VirtualPrefix (en_target (ent s e))) (ct_RealPrefix (en_target (ent s e))) = Inr translated"
    "Allowed (ss_routes (sess s n)) (ap_addr translated)"
proof -
  let ?P = "\<lambda>e. contains (ct_VirtualPrefix (en_target (ent s e))) (unmap (ap_addr destination))"
  obtain e where e: "List.find ?P (es_routes s) = Some e"
    using assms by (auto simp: route_def split: option.splits)
  then have "e \<in> set (es_routes s)" "?P e" by (auto simp: find_Some_iff)
  with e assms(1) show ?thesis
    by (intro that[of e]) (auto simp: route_def split: option.splits if_splits sum.splits)
qed

lemma translate_inside:
  assumes "translateAddrPort a frm to = Inr b"
  shows "contains (masked to) (ap_addr b) \<and> drop 2 (as16 (ap_addr b)) = drop 2 (as16 (unmap (ap_addr a)))
    \<and> ap_port b = ap_port a"
proof -
  obtain y where y: "translateAddress (ap_addr a) frm to = Inr y" "b = \<lparr>ap_addr = y, ap_port = ap_port a\<rparr>"
    using assms by (auto simp: translateAddrPort_def split: sum.splits)
  show ?thesis using y translate_bytes[OF y(1)] by simp
qed

text \<open>A session's routes are those of its admission.\<close>

lemma session_admission:
  assumes "sessions_ok s owner" "n < length owner"
  shows "ss_routes (sess s n) = ad_routes (snd (owner ! n))"
    "ss_connectorID (sess s n) = ct_ConnectorID (ad_target (snd (owner ! n)))"
    "admission_ok s (snd (owner ! n))" "ad_entry (snd (owner ! n)) = Some (fst (owner ! n))"
proof -
  have o: "admission_ok s (snd (owner ! n)) \<and> ad_entry (snd (owner ! n)) = Some (fst (owner ! n))
      \<and> ss_fixed (sess s n) = ss_fixed (newSession (ss_id (sess s n)) (snd (owner ! n)))"
    using assms unfolding sessions_ok_def by blast
  then show "ss_routes (sess s n) = ad_routes (snd (owner ! n))"
    "ss_connectorID (sess s n) = ct_ConnectorID (ad_target (snd (owner ! n)))"
    "admission_ok s (snd (owner ! n))" "ad_entry (snd (owner ! n)) = Some (fst (owner ! n))"
    by (simp_all add: ss_fixed_def newSession_def)
qed

text \<open>The address that is checked against the session's routes: without a route list it is unmapped first.\<close>

definition usedAddress :: "edgeServer \<Rightarrow> addr_port \<Rightarrow> addr" where
  "usedAddress s translated = (if es_routes s = [] then unmap (ap_addr translated) else ap_addr translated)"

text \<open>
  C2. Whatever the edge has been through since it started with a loaded configuration, a flow is only routed to a
  session that is not draining, and only to an address inside the real prefix of the connector that the session was
  admitted for and that this connector advertised in its hello. With routes configured, the session is the active one
  of an entry whose virtual prefix contains the destination, and the translation keeps the port and the last fourteen
  bytes of the address.
\<close>

theorem route_sound:
  assumes "edge_valid cfg" and "edge_step\<^sup>*\<^sup>* (startRun cfg st) r"
    and "route destination (er_server r) = Some (n, translated)"
  shows "\<not> ss_draining (sess (er_server r) n)
    \<and> contains (masked (ct_RealPrefix (ad_target (snd (er_owner r ! n))))) (usedAddress (er_server r) translated)
    \<and> advertises (ad_hello (snd (er_owner r ! n))) (usedAddress (er_server r) translated)
    \<and> (es_routes (er_server r) \<noteq> [] \<longrightarrow>
        (\<exists>e\<in>set (es_routes (er_server r)). en_active (ent (er_server r) e) = Some n
          \<and> en_target (ent (er_server r) e) = ad_target (snd (er_owner r ! n))
          \<and> contains (ct_VirtualPrefix (en_target (ent (er_server r) e))) (unmap (ap_addr destination))
          \<and> ap_port translated = ap_port destination
          \<and> drop 2 (as16 (ap_addr translated)) = drop 2 (as16 (unmap (ap_addr destination)))))"
proof -
  let ?s = "er_server r"
  have inv: "run_inv r"
    using edge_sessions.steps_inv[OF assms(2) run_inv_start] assms(1) by (simp add: edge_valid_def)
  note parts = run_inv_parts[OF inv]
  have main: "es_session ?s = Some m \<Longrightarrow> m < length (er_owner r)" for m
    using parts(2) by (simp add: sessions_ok_def)
  have allowed: "contains (masked (ct_RealPrefix (ad_target (snd (er_owner r ! n))))) x
      \<and> advertises (ad_hello (snd (er_owner r ! n))) x"
    if "n < length (er_owner r)" "Allowed (ss_routes (sess ?s n)) x" for x
    using that session_admission[OF parts(2) that(1)] by (simp add: admission_ok_def)
  show ?thesis
  proof (cases "es_routes ?s = []")
    case True
    then show ?thesis using assms(3) allowed main
      by (auto simp: route_def usedAddress_def split: option.splits if_splits)
  next
    case False
    from route_entry[OF assms(3) False] obtain e where e: "e \<in> set (es_routes ?s)" "en_active (ent ?s e) = Some n"
        "\<not> ss_draining (sess ?s n)"
        "contains (ct_VirtualPrefix (en_target (ent ?s e))) (unmap (ap_addr destination))"
        "translateAddrPort destination (ct_VirtualPrefix (en_target (ent ?s e))) (ct_RealPrefix (en_target (ent ?s e))) = Inr translated"
        "Allowed (ss_routes (sess ?s n)) (ap_addr translated)" .
    have ee: "e < length (es_entries ?s)" using e(1) parts(1) by (auto simp: registry_ok_def)
    have n: "n < length (er_owner r)" "fst (er_owner r ! n) = e"
      using parts(2) ee e(2) unfolding sessions_ok_def by blast+
    note sa = session_admission[OF parts(2) n(1)]
    have tgt: "en_target (ent ?s e) = ad_target (snd (er_owner r ! n))"
      using sa(3,4) n(2) by (auto simp: admission_ok_def)
    note tr = translate_inside[OF e(5)]
    show ?thesis using e tgt tr allowed[OF n(1) e(6)] False by (auto simp: usedAddress_def)
  qed
qed


end
