(* ===== verification/Edge_Findings.thy ===== *)
theory Edge_Findings
  imports Edge_Sessions Registry_Findings
begin

text \<open>
  What the interleaving of \<^verbatim>\<open>authenticate\<close> with itself and with \<^verbatim>\<open>refreshDynamic\<close> allows: the report to the status server
  happens outside the entry's mutex, and the entry of an admitted hello may have been replaced before the session is
  stored in it. A concrete run at the end makes the properties of the sessions concrete.
\<close>

lemma report_fields [simp]:
  "es_entries (reportReady now a n s) = es_entries s" "es_sessions (reportReady now a n s) = es_sessions s"
  "es_routes (reportReady now a n s) = es_routes s"
  by (simp_all add: reportReady_def Let_def)

lemma report_status:
  "0 < ad_registryCount a \<Longrightarrow> es_status (reportReady now a n s) =
     ConnectorReady now (hi_connectorID (ad_hello a)) (ss_id (sess s n)) (es_status s)"
  by (simp add: reportReady_def on_status_def)

text \<open>A commit into an entry without an active session.\<close>

lemma commit_free:
  assumes "admission_ok s a" "ad_entry a = Some e" "sessions_ok s owner"
    and "case en_active (ent s e) of None \<Rightarrow> True
         | Some p \<Rightarrow> ss_closed (sess s p) \<or> ss_started (sess s p) < hi_started (ad_hello a)"
  shows "\<exists>t. commitSession (Some sid) True a s = (t, Inr (length (es_sessions s), e, en_active (ent s e)))
           \<and> commits sid a e s t"
proof -
  have count: "1 \<le> ad_registryCount a" using assms(1) by (simp add: admission_ok_def)
  have "\<not> superseded a (en_active (ent s e)) s"
    using assms(4) by (auto simp: superseded_def split: option.splits)
  then obtain t where t: "commitSession (Some sid) True a s = (t, Inr (length (es_sessions s), e, en_active (ent s e)))"
    unfolding commitSession_eq[OF assms(2) count] by auto
  obtain sid' where c: "commits sid' a e s t" using commit_effect[OF t assms(1-3)] by blast
  have "sess t (length (es_sessions s)) = newSession sid a"
  proof -
    have own: "\<And>q. en_active (ent s e) = Some q \<Longrightarrow> q < length (es_sessions s)"
      "\<And>q. en_draining (ent s e) = Some q \<Longrightarrow> q < length (es_sessions s)"
      using assms(1-3) by (auto simp: sessions_ok_def admission_ok_def)
    have "q \<noteq> length (es_sessions s)" if "en_draining (ent s e) = Some q" for q using own(2)[OF that] by simp
    then show ?thesis
      using t committed_sessions(1,2)[where s = s and e = e and sid = sid and a = a, OF own(1)]
        \<open>\<not> superseded a (en_active (ent s e)) s\<close>
      unfolding commitSession_eq[OF assms(2) count]
      by (cases "en_draining (ent s e)")
         (auto simp: closeActive_def closeConnection_def on_session_def nth_update_at split: if_splits)
  qed
  then have "newSession sid' a = newSession sid a" using c by (simp add: commits_def Let_def)
  then have "sid' = sid" by (simp add: newSession_def)
  with c t show ?thesis by blast
qed

section \<open>The readiness report is late\<close>

text \<open>
  Two sessions of one connector, the second superseding the first, can report to the status server in the opposite
  order. After both connections have ended the entry has no session, but the status server still names the first
  session and reports the connector as ready.
\<close>

theorem ready_report_race:
  assumes inv: "edge_valid cfg" "edge_step\<^sup>*\<^sup>* (startRun cfg st) r"
    and ab: "a \<in> er_admitted r" "b \<in> er_admitted r" "ad_entry a = Some e" "ad_entry b = Some e"
    and cid: "hi_connectorID (ad_hello a) = cid" "hi_connectorID (ad_hello b) = cid"
    and free: "en_active (ent (er_server r) e) = None" and later: "hi_started (ad_hello a) < hi_started (ad_hello b)"
    and conf: "cid \<in> configured (es_status (er_server r))" and sids: "sidA \<noteq> sidB"
  shows "\<exists>r' n m. edge_step\<^sup>*\<^sup>* r r' \<and> en_active (ent (er_server r') e) = None
    \<and> ss_id (sess (er_server r') n) = sidA \<and> ss_closed (sess (er_server r') n)
    \<and> ss_id (sess (er_server r') m) = sidB \<and> ss_closed (sess (er_server r') m)
    \<and> sessions (es_status (er_server r')) cid = Some sidA"
proof -
  let ?s = "er_server r" and ?N = "length (es_sessions (er_server r))"
  have ri: "run_inv r"
    using edge_sessions.steps_inv[OF inv(2) run_inv_start] inv(1) by (simp add: edge_valid_def)
  note parts = run_inv_parts[OF ri]
  have count: "0 < ad_registryCount a" "0 < ad_registryCount b" and e: "e < length (es_entries ?s)"
    using parts(3)[OF ab(1)] parts(3)[OF ab(2)] ab(3) by (auto simp: admission_ok_def)
  obtain s1 where s1: "commitSession (Some sidA) True a ?s = (s1, Inr (?N, e, None))" "commits sidA a e ?s s1"
    using commit_free[OF parts(3)[OF ab(1)] ab(3) parts(2), of sidA] free by auto
  define r1 where "r1 = r\<lparr>er_server := s1, er_owner := er_owner r @ [(e, a)]\<rparr>"
  have step1: "edge_step r r1" unfolding r1_def by (rule edge_step.commit[OF ab(1) s1(1)])
  have ri1: "run_inv r1" using edge_step_inv[OF step1 ri] .
  note parts1 = run_inv_parts[OF ri1, unfolded r1_def, simplified]
  note c1 = s1(2)[unfolded commits_def Let_def]
  have act1: "en_active (ent s1 e) = Some ?N" "sess s1 ?N = newSession sidA a" "length (es_sessions s1) = Suc ?N"
    using c1 by simp_all
  obtain s2 where s2: "commitSession (Some sidB) True b s1 = (s2, Inr (Suc ?N, e, Some ?N))" "commits sidB b e s1 s2"
    using commit_free[OF parts1(3)[OF ab(2)] ab(4) parts1(2), of sidB] act1 later by (auto simp: newSession_def)
  define r2 where "r2 = r1\<lparr>er_server := s2, er_owner := er_owner r1 @ [(e, b)]\<rparr>"
  have step2: "edge_step r1 r2" unfolding r2_def
    by (rule edge_step.commit[of b r1 "Some sidB" True s2 "Suc ?N" e "Some ?N"]) (simp_all add: r1_def ab s2)
  note c2 = s2(2)[unfolded commits_def Let_def act1]
  have act2: "en_active (ent s2 e) = Some (Suc ?N)" "sess s2 (Suc ?N) = newSession sidB b"
      "length (es_sessions s2) = Suc (Suc ?N)" "ss_id (sess s2 ?N) = sidA" "es_udp s2 = es_udp ?s"
      "length (es_entries s2) = length (es_entries ?s)"
    using c2 c1 by (auto simp: act1 ss_fixed_def newSession_def)
  have len: "length (er_owner r) = ?N" using parts(2) by (simp add: sessions_ok_def)
  have own: "er_owner r2 ! ?N = (e, a)" "er_owner r2 ! Suc ?N = (e, b)" "length (er_owner r2) = Suc (Suc ?N)" "er_server r2 = s2"
    by (simp_all add: r2_def r1_def nth_append len)
  define s3 where "s3 = reportReady 0 b (Suc ?N) s2"
  define s4 where "s4 = reportReady 0 a ?N s3"
  define s6 where "s6 = closeConnection (Suc ?N) (closeConnection ?N s4)"
  define s7 where "s7 = sessionEnds b e (Suc ?N) s6"
  define w where "w s = r2\<lparr>er_server := s\<rparr>" for s
  have ww: "w s\<lparr>er_server := t\<rparr> = w t" "er_server (w s) = s" "er_owner (w s) = er_owner r2" for s t
    by (simp_all add: w_def)
  have t3: "edge_step r2 (w s3)"
    using edge_step.ready[of "Suc ?N" r2 0] own by (simp add: s3_def w_def)
  have t4: "edge_step (w s3) (w s4)"
    using edge_step.ready[of ?N "w s3" 0] own by (simp add: s4_def ww)
  have t5: "edge_step (w s4) (w (closeConnection ?N s4))"
    using edge_step.closed[of "w s4" ?N] by (simp add: ww)
  have t6: "edge_step (w (closeConnection ?N s4)) (w s6)"
    using edge_step.closed[of "w (closeConnection ?N s4)" "Suc ?N"] by (simp add: ww s6_def)
  have sess4: "es_sessions s4 = es_sessions s2" "es_entries s4 = es_entries s2"
    by (simp_all add: s4_def s3_def report_status count)
  have closed6: "ss_closed (sess s6 (Suc ?N))" "ss_closed (sess s6 ?N)" "ss_id (sess s6 (Suc ?N)) = sidB"
      "ss_id (sess s6 ?N) = sidA" "es_entries s6 = es_entries s2"
    using act2 sess4 by (simp_all add: s6_def closeConnection_def on_session_def nth_update_at newSession_def)
  have t7: "edge_step (w s6) (w s7)"
    using edge_step.ended[of "Suc ?N" "w s6"] own closed6 by (simp add: ww s7_def)
  have "sessions (es_status s4) cid = Some sidA"
    using conf cid act2 count by (simp add: s4_def s3_def report_status ready_sessions)
  then have "sessions (es_status s6) cid = Some sidA" by (simp add: s6_def)
  then have fin: "sessions (es_status s7) cid = Some sidA"
    using sids closed6 cid count
    by (simp add: s7_def sessionEnds_def Let_def on_status_def on_entry_def closed_sessions)
  have fin2: "en_active (ent s7 e) = None" "es_sessions s7 = es_sessions s6"
    using act2 closed6 e by (simp_all add: s7_def sessionEnds_def Let_def on_entry_def)
  have "edge_step\<^sup>*\<^sup>* r (w s7)"
    using step1 step2 t3 t4 t5 t6 t7 by (meson rtranclp.rtrancl_into_rtrancl rtranclp.rtrancl_refl)
  then show ?thesis
    using fin fin2 closed6 by (intro exI[of _ "w s7"] exI[of _ ?N] exI[of _ "Suc ?N"]) (simp add: ww)
qed

section \<open>The entry is stale\<close>

text \<open>
  If the assignment of a connector changes between the check of its hello and the commit of its session, the session
  is stored in the old entry: its connection stays open and the status server reports the connector as ready, but no
  destination is routed to it.
\<close>

theorem stale_entry_unroutable:
  assumes inv: "edge_valid cfg" "edge_step\<^sup>*\<^sup>* (startRun cfg st) r"
    and a: "a \<in> er_admitted r" "ad_entry a = Some e" and gone: "e \<notin> set (es_routes (er_server r))"
    and routes: "es_routes (er_server r) \<noteq> []"
    and conf: "hi_connectorID (ad_hello a) \<in> configured (es_status (er_server r))"
    and commit: "commitSession drawn written a (er_server r) = (s1, Inr (n, f, p))"
    and s2: "s2 = reportReady now a n s1"
  shows "sessions (es_status s2) (hi_connectorID (ad_hello a)) = Some (ss_id (sess s2 n))
    \<and> \<not> ss_closed (sess s2 n) \<and> (\<forall>destination translated. route destination s2 \<noteq> Some (n, translated))"
proof -
  let ?s = "er_server r"
  have ri: "run_inv r"
    using edge_sessions.steps_inv[OF inv(2) run_inv_start] inv(1) by (simp add: edge_valid_def)
  note parts = run_inv_parts[OF ri]
  have count: "0 < ad_registryCount a" using parts(3)[OF a(1)] by (simp add: admission_ok_def)
  obtain sid where n: "n = length (es_sessions ?s)" and c: "commits sid a e ?s s1"
    using commit_effect[OF commit parts(3)[OF a(1)] a(2) parts(2)] by blast
  note c = c[unfolded commits_def Let_def]
  have new: "sess s2 n = newSession sid a" "es_udp s1 = es_udp ?s" "es_routes s2 = es_routes ?s" "es_entries s2 = es_entries s1"
    using c by (simp_all add: s2 n report_status count)
  have "sessions (es_status s2) (hi_connectorID (ad_hello a)) = Some (ss_id (sess s2 n))"
    using conf new by (simp add: s2 report_status count ready_sessions)
  moreover have "\<not> ss_closed (sess s2 n)" using new by (simp add: newSession_def)
  moreover have "route destination s2 \<noteq> Some (n, translated)" for destination translated
  proof
    assume "route destination s2 = Some (n, translated)"
    moreover have "es_routes s2 \<noteq> []" using routes new by simp
    ultimately obtain g where g: "g \<in> set (es_routes s2)" "en_active (ent s2 g) = Some n"
      by (rule route_entry)
    have gl: "g < length (es_entries ?s)" "g \<noteq> e" using g(1) new gone parts(1) by (auto simp: registry_ok_def)
    then have "en_active (ent ?s g) = Some n" using g(2) new c by simp
    then have "n < length (er_owner r)" using parts(2) gl(1) unfolding sessions_ok_def by blast
    then show False using n parts(2) by (simp add: sessions_ok_def)
  qed
  ultimately show ?thesis by blast
qed

section \<open>A concrete run\<close>

definition sampleCommon :: Common where
  "sampleCommon = \<lparr>co_EdgeID = ''edge'', co_ConnectorID = [], co_Environment = [], co_CABundle = [], co_Certificate = [],
     co_PrivateKey = [], co_AdminAddr = '':1'', co_LogLevel = ''info''\<rparr>"

definition sampleEdge :: Edge where
  "sampleEdge =
     \<lparr>ed_Common = sampleCommon, ed_Connectors = [], ed_RegistrationMode = ''dynamic'', ed_QUICListenAddr = '':1'',
      ed_RegistrationListenAddr = '':1'', ed_ApprovalListenAddr = '':1'', ed_DNSListenAddr = '':1'', ed_RegistryPath = [],
      ed_VirtualNetwork = net16 0xfd20, ed_ExcludedPrefixes = [], ed_RegistrationFrozen = False,
      ed_NewProjectsFrozen = False, ed_AllowedProjectIDs = [], ed_OIDCPolicies = [], ed_IntermediateCertificate = [],
      ed_IntermediatePrivateKey = [], ed_ApprovalTailscaleTags = [], ed_PreviewLease = 1, ed_PersistentLease = 1,
      ed_SlotQuarantine = 1, ed_PersistentEnvironments = [], ed_ReconcileInterval = 1, ed_TCPListenAddr = '':1'',
      ed_UDPListenAddr = '':1'', ed_AllowedRoutes = [], ed_MaxTCPFlows = 8, ed_MaxUDPFlows = 8, ed_UDPIdleTimeout = 60,
      ed_ManageTailscale = False\<rparr>"

lemma sampleEdge_valid: "edge_valid sampleEdge"
proof -
  have "split_host_port '':1'' = Some ([], ''1'')" "parse_uint 16 ''1'' = Some 1" by code_simp+
  then have "address_ok False '':1''" by (auto simp: address_ok_def)
  moreover have "validName ''edge''" by code_simp
  moreover have "canonical16 (net16 0xfd20)" by (simp add: net16_def)
  ultimately show ?thesis
    by (auto simp: edge_valid_def sampleEdge_def sampleCommon_def edgeAddresses_def canonical16_def slash16_def)
qed

definition sampleRegistration :: "nat \<Rightarrow> Registration" where
  "sampleRegistration h =
     \<lparr>rg_ID = 1, rg_ProjectID = ''p1'', rg_EnvironmentID = ''e1'', rg_EnvironmentName = ''prod'', rg_ProjectAlias = ''p'',
      rg_EnvironmentAlias = ''prod'', rg_State = Approved, rg_IdentityType = DynamicV3, rg_LeaseClass = [],
      rg_LeaseExpiresAt = 0, rg_VirtualPrefix = net16 h, rg_RealPrefix = net16 0xfd12, rg_CreatedAt = 0, rg_UpdatedAt = 0\<rparr>"

definition sampleHello :: "int \<Rightarrow> helloInfo" where
  "sampleHello started = \<lparr>hi_dynamic = True, hi_validProtocol = True, hi_connectorID = ''p1/e1'', hi_environment = ''e1'',
     hi_identityKeyID = ''k1'', hi_started = started, hi_routes = [''fd12::/16'']\<rparr>"

definition sampleChain :: "certificate list" where
  "sampleChain = [\<lparr>ce_SerialNumber = 1, ce_CommonName = [], ce_NotBefore = 0, ce_NotAfter = 1, ce_ExtKeyUsage = [],
     ce_URIs = [\<lparr>url_Scheme = ''spiffe'', url_Host = ''tailbridge.local'', url_Path = ''/connector/p1/e1/k1'',
                 url_RawPath = [], url_RawQuery = [], url_Fragment = []\<rparr>]\<rparr>]"

definition sampleAdmission :: "int \<Rightarrow> admission" where
  "sampleAdmission started =
     \<lparr>ad_entry = Some 0, ad_target = dynamicTarget sampleEdge (sampleRegistration 0xfd20), ad_registryCount = 1,
      ad_routes = [net16 0xfd12], ad_hello = sampleHello started\<rparr>"

definition refreshed :: "nat \<Rightarrow> edgeRun \<Rightarrow> edgeRun" where
  "refreshed h r = r\<lparr>er_server := fst (refreshDynamic (Inr ([sampleRegistration h], noStats)) (er_server r))\<rparr>"

text \<open>The connector is registered, two hellos are admitted, and in \<open>movedRun\<close> its prefix has changed since.\<close>

definition admittedRun :: edgeRun where
  "admittedRun = (refreshed 0xfd20 (startRun sampleEdge (New ''v'')))\<lparr>er_admitted := {sampleAdmission 1, sampleAdmission 2}\<rparr>"

definition movedRun :: edgeRun where
  "movedRun = refreshed 0xfd21 admittedRun"

lemma registrationKey_sample: "registrationKey (sampleRegistration h) = ''p1/e1''"
  by (simp add: registrationKey_def sampleRegistration_def)

lemma sample_ids:
  "rg_IdentityType (sampleRegistration h) = DynamicV3" "ed_Connectors sampleEdge = []"
  "ct_ConnectorID (dynamicTarget sampleEdge (sampleRegistration h)) = ''p1/e1''"
  by (simp_all add: sampleRegistration_def sampleEdge_def dynamicTarget_def registrationKey_def)

lemma refreshed_fields:
  shows "es_entries (er_server (refreshed 0xfd20 (startRun sampleEdge (New ''v'')))) =
     [newEntry (dynamicTarget sampleEdge (sampleRegistration 0xfd20))]" (is ?e)
    and "es_registry (er_server (refreshed 0xfd20 (startRun sampleEdge (New ''v'')))) = [(''p1/e1'', 0)]" (is ?r)
    and "es_routes (er_server (refreshed 0xfd20 (startRun sampleEdge (New ''v'')))) = [0]" (is ?o)
    and "es_sessions (er_server (refreshed 0xfd20 (startRun sampleEdge (New ''v'')))) = []" (is ?n)
    and "es_config (er_server (refreshed 0xfd20 (startRun sampleEdge (New ''v'')))) = sampleEdge" (is ?c)
    and "''p1/e1'' \<in> configured (es_status (er_server (refreshed 0xfd20 (startRun sampleEdge (New ''v'')))))" (is ?k)
proof -
  let ?s = "NewEdge sampleEdge (New ''v'')"
  let ?t = "fst (refreshDynamic (Inr ([sampleRegistration 0xfd20], noStats)) ?s)"
  have s: "es_entries ?s = []" "es_registry ?s = []" "es_sessions ?s = []" "es_config ?s = sampleEdge"
    by (simp_all add: NewEdge_def sampleEdge_def)
  have "es_entries ?t = [newEntry (dynamicTarget sampleEdge (sampleRegistration 0xfd20))]
      \<and> es_registry ?t = [(''p1/e1'', 0)] \<and> es_routes ?t = [0] \<and> es_sessions ?t = [] \<and> es_config ?t = sampleEdge"
    by (simp add: refreshDynamic_def staticRoutes_def List.map_filter_def refreshOne_def sample_ids registrationKey_sample
        Let_def dropInactive_def s)
  moreover have "''p1/e1'' \<in> configured (es_status ?t)"
    by (simp add: refreshDynamic_def staticRoutes_def List.map_filter_def refreshOne_def sample_ids registrationKey_sample
        Let_def dropInactive_def s on_status_def newEntry_def)
       (simp add: configured_def SetRegistryMetrics_def ReconcileConnectors_def statusConnector_def sample_ids Let_def
        carrySession_def setConnectorReadinessLocked_def)
  ultimately show ?e ?r ?o ?n ?c ?k by (simp_all add: refreshed_def startRun_def)
qed

lemma net16_facts: "masked (net16 h) = net16 h" "slash16 (net16 h)" "contains (net16 h) (V6 (base16 h) [])"
proof -
  have "canonical16 (net16 h)" by (simp add: net16_def)
  then show m: "masked (net16 h) = net16 h" and "slash16 (net16 h)" by (auto simp: canonical16_def)
  have "prefix_wf (net16 h)" using prefix_wf_masked[of "net16 h"] m by simp
  moreover have "prefix_valid (net16 h)" by (simp add: prefix_valid_def net16_def)
  ultimately show "contains (net16 h) (V6 (base16 h) [])" using contains_self[of "net16 h"] by (simp add: net16_def)
qed

lemma sample_intersection: "IntersectPrefixes [net16 h] [net16 h] = [net16 h]"
proof -
  have wf: "prefix_wf (net16 h)" using prefix_wf_masked[of "net16 h"] net16_facts(1) by simp
  have v: "prefix_valid (net16 h)" by (simp add: prefix_valid_def net16_def)
  have "overlaps (net16 h) (net16 h)"
    using overlaps_iff[OF wf wf v v refl] contains_self[OF wf v] by simp
  then show ?thesis by (simp add: IntersectPrefixes_def intersectPair_def net16_facts Let_def)
qed

lemma sample_check:
  assumes "0 < k" "k \<le> minutes 5"
  shows "checkHello 0 None sampleChain (sampleHello k) (er_server (refreshed 0xfd20 (startRun sampleEdge (New ''v''))))
    = Inr (sampleAdmission k)"
proof -
  have "PeerConnectorIdentityV3 sampleChain = Inr (''p1'', ''e1'', ''k1'')" unfolding sampleChain_def by code_simp
  then have "identityOk 0 None sampleChain (sampleHello k)" by (simp add: identityOk_def sampleHello_def)
  moreover have "map_result (\<lambda>raw. case parse_prefix raw of None \<Rightarrow> Inl RoutesNotValid | Some p \<Rightarrow> Inr (masked p))
      (hi_routes (sampleHello k)) = Inr [net16 0xfd12]"
    by (simp add: sampleHello_def net16_parse net16_facts)
  moreover have "ct_Environment (dynamicTarget sampleEdge (sampleRegistration h)) = ''e1''"
      "ct_RealPrefix (dynamicTarget sampleEdge (sampleRegistration h)) = net16 0xfd12" for h
    by (simp_all add: dynamicTarget_def sampleRegistration_def)
  ultimately show ?thesis
    using assms
    by (simp add: checkHello_def Let_def refreshed_fields newEntry_def sample_intersection sampleAdmission_def)
       (simp add: sampleHello_def)
qed

lemma admitted_reached: "edge_step\<^sup>*\<^sup>* (startRun sampleEdge (New ''v'')) admittedRun"
proof -
  let ?r = "refreshed 0xfd20 (startRun sampleEdge (New ''v''))"
  have "edge_step (startRun sampleEdge (New ''v'')) ?r" unfolding refreshed_def by (rule edge_step.refresh)
  moreover have "edge_step ?r (?r\<lparr>er_admitted := insert (sampleAdmission 2) (er_admitted ?r)\<rparr>)"
    by (rule edge_step.check[OF sample_check]) simp_all
  moreover have "edge_step (?r\<lparr>er_admitted := insert (sampleAdmission 2) (er_admitted ?r)\<rparr>) admittedRun"
  proof -
    have "er_admitted ?r = {}" by (simp add: refreshed_def startRun_def)
    then show ?thesis
      using edge_step.check[of 0 None sampleChain "sampleHello 1" "?r\<lparr>er_admitted := {sampleAdmission 2}\<rparr>"] sample_check[of 1]
      by (simp add: admittedRun_def insert_commute)
  qed
  ultimately show ?thesis by (meson rtranclp.rtrancl_into_rtrancl rtranclp.rtrancl_refl)
qed

lemma admitted_fields:
  "sampleAdmission 1 \<in> er_admitted admittedRun" "sampleAdmission 2 \<in> er_admitted admittedRun"
  "er_server admittedRun = er_server (refreshed 0xfd20 (startRun sampleEdge (New ''v'')))"
  "en_active (ent (er_server admittedRun) 0) = None"
  "''p1/e1'' \<in> configured (es_status (er_server admittedRun))"
  using refreshed_fields by (simp_all add: admittedRun_def newEntry_def)

lemma admitted_inv: "run_inv admittedRun"
  using edge_sessions.steps_inv[OF admitted_reached run_inv_start] by (simp add: sampleEdge_def)

theorem ready_report_race_witness:
  "\<exists>r' n m. edge_step\<^sup>*\<^sup>* admittedRun r' \<and> en_active (ent (er_server r') 0) = None
     \<and> ss_closed (sess (er_server r') n) \<and> ss_closed (sess (er_server r') m)
     \<and> sessions (es_status (er_server r')) ''p1/e1'' = Some ''a''"
  using ready_report_race[OF sampleEdge_valid admitted_reached admitted_fields(1,2), of 0 "''p1/e1''" "''a''" "''b''"]
    admitted_fields(4,5)
  by (simp add: sampleAdmission_def sampleHello_def) blast

text \<open>The first session is committed and serves the virtual address of the connector.\<close>

definition sampleDestination :: addr_port where
  "sampleDestination = \<lparr>ap_addr = V6 (base16 0xfd20) [], ap_port = 53\<rparr>"

lemma unmap_base16: "unmap (V6 (base16 0xfd20) []) = V6 (base16 0xfd20) []"
  using is4in6_base16[where h = "0xfd20" and z = "[]"] by (simp del: is4in6.simps)

lemma sample_translation:
  "translateAddrPort sampleDestination (net16 0xfd20) (net16 0xfd12) = Inr \<lparr>ap_addr = V6 (base16 0xfd12) [], ap_port = 53\<rparr>"
proof -
  have "take 2 (as16 (V6 (base16 0xfd12) [])) @ drop 2 (as16 (V6 (base16 0xfd20) [])) = as16 (V6 (base16 0xfd12) [])"
    using as16_base16[where h = "0xfd12" and z = "[]"] as16_base16[where h = "0xfd20" and z = "[]"]
    by (simp del: as16.simps)
  then have "translateAddress (V6 (base16 0xfd20) []) (net16 0xfd20) (net16 0xfd12) = Inr (V6 (base16 0xfd12) [])"
    using net16_facts(3)[of "0xfd20"] addr_from16_as16[of "V6 (base16 0xfd12) []"]
    by (simp add: translateAddress_Inr net16_facts unmap_base16 del: as16.simps unmap.simps)
       (simp add: net16_def del: as16.simps)
  then show ?thesis by (simp add: translateAddrPort_def sampleDestination_def)
qed

lemma sample_session:
  "\<exists>r. edge_step\<^sup>*\<^sup>* (startRun sampleEdge (New ''v'')) r \<and> er_owner r = [(0, sampleAdmission 1)]
     \<and> es_routes (er_server r) = [0] \<and> route sampleDestination (er_server r) = Some (0, \<lparr>ap_addr = V6 (base16 0xfd12) [], ap_port = 53\<rparr>)"
proof -
  let ?s = "er_server admittedRun"
  note parts = run_inv_parts[OF admitted_inv]
  have own: "er_owner admittedRun = []" "es_sessions ?s = []" "es_routes ?s = [0]"
    using refreshed_fields by (simp_all add: admittedRun_def refreshed_def startRun_def)
  obtain t where t: "commitSession (Some ''a'') True (sampleAdmission 1) ?s = (t, Inr (0, 0, None))"
      "commits ''a'' (sampleAdmission 1) 0 ?s t"
    using commit_free[OF parts(3)[OF admitted_fields(1)] _ parts(2), of 0 "''a''"] admitted_fields(4) own
    by (auto simp: sampleAdmission_def)
  define r where "r = admittedRun\<lparr>er_server := t, er_owner := er_owner admittedRun @ [(0, sampleAdmission 1)]\<rparr>"
  have "edge_step admittedRun r" unfolding r_def by (rule edge_step.commit[OF admitted_fields(1) t(1)])
  then have reach: "edge_step\<^sup>*\<^sup>* (startRun sampleEdge (New ''v'')) r" using admitted_reached by simp
  note c = t(2)[unfolded commits_def Let_def own, simplified]
  have "en_target (ent t 0) = dynamicTarget sampleEdge (sampleRegistration 0xfd20)" "en_active (ent t 0) = Some 0"
      "sess t 0 = newSession ''a'' (sampleAdmission 1)" "es_routes t = [0]"
    using c own refreshed_fields by (simp_all add: admitted_fields(3) newEntry_def)
  then have "route sampleDestination t = Some (0, \<lparr>ap_addr = V6 (base16 0xfd12) [], ap_port = 53\<rparr>)"
    using sample_translation net16_facts(3)
    by (simp add: route_def dynamicTarget_def sampleRegistration_def newSession_def sampleAdmission_def del: as16.simps)
       (simp add: sampleDestination_def unmap_base16 del: unmap.simps)
  with reach own \<open>es_routes t = [0]\<close> show ?thesis by (intro exI[of _ r]) (simp add: r_def)
qed

theorem route_sound_witness:
  "\<exists>r. edge_step\<^sup>*\<^sup>* (startRun sampleEdge (New ''v'')) r \<and> route sampleDestination (er_server r) \<noteq> None
     \<and> contains (masked (net16 0xfd12)) (V6 (base16 0xfd12) []) \<and> \<not> ss_draining (sess (er_server r) 0)"
proof -
  obtain r where r: "edge_step\<^sup>*\<^sup>* (startRun sampleEdge (New ''v'')) r" "er_owner r = [(0, sampleAdmission 1)]"
      "es_routes (er_server r) = [0]"
      "route sampleDestination (er_server r) = Some (0, \<lparr>ap_addr = V6 (base16 0xfd12) [], ap_port = 53\<rparr>)"
    using sample_session by blast
  have "ct_RealPrefix (ad_target (sampleAdmission 1)) = net16 0xfd12"
    by (simp add: sampleAdmission_def dynamicTarget_def sampleRegistration_def)
  then show ?thesis
    using route_sound[OF sampleEdge_valid r(1) r(4)] r by (intro exI[of _ r]) (simp add: usedAddress_def)
qed


text \<open>After the prefix of the connector has changed, the registry and the routes point to a second entry.\<close>

lemma target_changes: "dynamicTarget sampleEdge (sampleRegistration 0xfd20) \<noteq> dynamicTarget sampleEdge (sampleRegistration 0xfd21)"
proof
  assume "dynamicTarget sampleEdge (sampleRegistration 0xfd20) = dynamicTarget sampleEdge (sampleRegistration 0xfd21)"
  then have "net16 0xfd20 = net16 0xfd21" by (simp add: dynamicTarget_def sampleRegistration_def)
  then have "unat (base16 0xfd20) = unat (base16 0xfd21)" by (simp add: net16_def)
  then show False by (simp add: unat_base16)
qed

lemma moved_routes:
  assumes "es_entries s = [newEntry (dynamicTarget sampleEdge (sampleRegistration 0xfd20))]"
    "es_registry s = [(''p1/e1'', 0)]" "es_config s = sampleEdge"
  shows "es_routes (fst (refreshDynamic (Inr ([sampleRegistration 0xfd21], noStats)) s)) = [1]
    \<and> ''p1/e1'' \<in> configured (es_status (fst (refreshDynamic (Inr ([sampleRegistration 0xfd21], noStats)) s)))"
proof -
  show ?thesis
    using assms target_changes
    by (simp add: refreshDynamic_def staticRoutes_def List.map_filter_def refreshOne_def sample_ids registrationKey_sample Let_def
        newEntry_def closeActive_def dropInactive_def on_status_def)
       (simp add: configured_def SetRegistryMetrics_def ReconcileConnectors_def statusConnector_def sample_ids Let_def
        carrySession_def setConnectorReadinessLocked_def)
qed

lemma moved_reached: "edge_step\<^sup>*\<^sup>* (startRun sampleEdge (New ''v'')) movedRun"
proof -
  have "edge_step admittedRun movedRun" unfolding movedRun_def refreshed_def by (rule edge_step.refresh)
  then show ?thesis using admitted_reached by simp
qed

lemma moved_fields:
  "sampleAdmission 1 \<in> er_admitted movedRun" "es_routes (er_server movedRun) = [1]"
  "''p1/e1'' \<in> configured (es_status (er_server movedRun))"
proof -
  show "sampleAdmission 1 \<in> er_admitted movedRun"
    using admitted_fields(1) unfolding movedRun_def refreshed_def by simp
  show "es_routes (er_server movedRun) = [1]" "''p1/e1'' \<in> configured (es_status (er_server movedRun))"
    using moved_routes[of "er_server admittedRun"] refreshed_fields admitted_fields(3)
    unfolding movedRun_def refreshed_def by simp_all
qed

theorem stale_entry_unroutable_witness:
  "\<exists>s1 s2. commitSession (Some ''a'') True (sampleAdmission 1) (er_server movedRun) = (s1, Inr (0, 0, None))
     \<and> s2 = reportReady 0 (sampleAdmission 1) 0 s1 \<and> sessions (es_status s2) ''p1/e1'' = Some (ss_id (sess s2 0))
     \<and> route sampleDestination s2 \<noteq> Some (0, sampleDestination)"
proof -
  have inv: "run_inv movedRun"
    using edge_sessions.steps_inv[OF moved_reached run_inv_start] by (simp add: sampleEdge_def)
  note parts = run_inv_parts[OF inv]
  have own: "er_owner movedRun = []" by (simp add: movedRun_def admittedRun_def refreshed_def startRun_def)
  then have none: "es_sessions (er_server movedRun) = []" using parts(2) by (simp add: sessions_ok_def)
  have e: "ad_entry (sampleAdmission 1) = Some 0" by (simp add: sampleAdmission_def)
  have "0 < length (es_entries (er_server movedRun))"
    using parts(3)[OF moved_fields(1)] e by (auto simp: admission_ok_def)
  then have free: "en_active (ent (er_server movedRun) 0) = None"
    using parts(2) own unfolding sessions_ok_def by (cases "en_active (ent (er_server movedRun) 0)") auto
  obtain s1 where s1: "commitSession (Some ''a'') True (sampleAdmission 1) (er_server movedRun) = (s1, Inr (0, 0, None))"
    using commit_free[OF parts(3)[OF moved_fields(1)] e parts(2), of "''a''"] free none by auto
  have cid: "hi_connectorID (ad_hello (sampleAdmission 1)) = ''p1/e1''" by (simp add: sampleAdmission_def sampleHello_def)
  show ?thesis
    using stale_entry_unroutable[OF sampleEdge_valid moved_reached moved_fields(1) e _ _ _ s1 refl, of 0]
      moved_fields(2,3) s1 cid by simp
qed

end
