(* ===== verification/Dnsproxy.thy ===== *)
theory Dnsproxy
  imports Protocol Translation
begin

text \<open>
  Package \<^verbatim>\<open>internal/dnsproxy\<close> (\<^verbatim>\<open>dnsproxy.go\<close>): rewriting of DNS queries and responses between the name space and the
  addresses of the tailnet and those of Railway, and the forwarding of DNS-over-TCP messages. Messages have the
  shape of the \<^verbatim>\<open>Msg\<close> type of \<^verbatim>\<open>github.com/miekg/dns\<close>; the functions of that library that the package calls are the
  parameter \<open>dnslib\<close>. The counters of forwarded bytes are natural numbers.
\<close>

section \<open>Messages\<close>

record RR_Header =
  rh_Name :: string
  rh_Rrtype :: u16
  rh_Class :: u16
  rh_Ttl :: "32 word"

datatype SVCBKeyValue =
    SVCBMandatory "u16 list"
  | SVCBIPv4Hint "bytes list"
  | SVCBIPv6Hint "bytes list"
  | SVCBOther u16 bytes

fun svcbKey :: "SVCBKeyValue \<Rightarrow> u16" where
  "svcbKey (SVCBMandatory _) = 0"
| "svcbKey (SVCBIPv4Hint _) = 4"
| "svcbKey (SVCBIPv6Hint _) = 6"
| "svcbKey (SVCBOther k _) = k"

text \<open>The record types that the rewriter tells apart; the fields it never looks at are kept as they are.\<close>

datatype rdata =
    RR_A bytes
  | RR_AAAA bytes
  | RR_CNAME string
  | RR_DNAME string
  | RR_MX u16 string
  | RR_NS string
  | RR_PTR string
  | RR_SOA string string "32 word list"
  | RR_SRV u16 u16 u16 string
  | RR_NAPTR u16 u16 string string string string
  | RR_SVCB u16 string "SVCBKeyValue list"
  | RR_HTTPS u16 string "SVCBKeyValue list"
  | RR_OPT bytes
  | RR_Other bytes

record RR =
  rr_Header :: RR_Header
  rr_Data :: rdata

record DNSQuestion =
  qu_Name :: string
  qu_Qtype :: u16
  qu_Qclass :: u16

record MsgHdr =
  mh_Id :: u16
  mh_Response :: bool
  mh_Opcode :: int
  mh_Flags :: "bool list"
  mh_Rcode :: int

record Msg =
  mg_Hdr :: MsgHdr
  mg_Question :: "DNSQuestion list"
  mg_Answer :: "RR list"
  mg_Ns :: "RR list"
  mg_Extra :: "RR list"

record dnslib =
  dl_Fqdn :: "string \<Rightarrow> string"
  dl_IsDomainName :: "string \<Rightarrow> bool"
  dl_Unpack :: "bytes \<Rightarrow> Msg option"
  dl_Pack :: "Msg \<Rightarrow> bytes option"

datatype dns_error =
    RealPrefixNotIPv6Slash16
  | VirtualPrefixNotIPv6Slash16
  | SuffixNotSubdomain
  | DecodeFailed
  | NoQuestions
  | NameOutsideSuffix string
  | PackFailed
  | EmptyTCPMessage
  | TCPSizeNotValid
  | DNSTransfer io_error
  | NetClosed

section \<open>The rewriter\<close>

definition railwaySuffix :: string where
  "railwaySuffix = ''railway.internal.''"

record Rewriter =
  rw_realPrefix :: prefix
  rw_virtualPrefix :: prefix
  rw_suffix :: string

definition NewRewriter :: "dnslib \<Rightarrow> prefix \<Rightarrow> prefix \<Rightarrow> string \<Rightarrow> dns_error + Rewriter" where
  "NewRewriter lib realPrefix0 virtualPrefix0 suffix0 =
     (let realPrefix = masked realPrefix0; virtualPrefix = masked virtualPrefix0;
          suffix = to_lower (dl_Fqdn lib (trim_space suffix0))
      in if \<not> is6 (pfx_addr realPrefix) \<or> pfx_bits realPrefix \<noteq> 16 then Inl RealPrefixNotIPv6Slash16
         else if \<not> is6 (pfx_addr virtualPrefix) \<or> pfx_bits virtualPrefix \<noteq> 16 then Inl VirtualPrefixNotIPv6Slash16
         else if \<not> dl_IsDomainName lib suffix \<or> suffix = railwaySuffix \<or> \<not> has_suffix suffix (''.'' @ railwaySuffix)
         then Inl SuffixNotSubdomain
         else Inr \<lparr>rw_realPrefix = realPrefix, rw_virtualPrefix = virtualPrefix, rw_suffix = suffix\<rparr>)"

definition replaceSuffix :: "dnslib \<Rightarrow> string \<Rightarrow> string \<Rightarrow> string \<Rightarrow> string \<times> bool" where
  "replaceSuffix lib name0 from0 to0 =
     (let name = dl_Fqdn lib name0; lower = to_lower name; frm = to_lower (dl_Fqdn lib from0); to = dl_Fqdn lib to0
      in if lower = frm then (to, True)
         else if \<not> has_suffix lower (''.'' @ frm) then (name, False)
         else (take (length name - length frm) name @ to, True))"

definition responseName :: "dnslib \<Rightarrow> Rewriter \<Rightarrow> string \<Rightarrow> string" where
  "responseName lib r name =
     (let (result, ok) = replaceSuffix lib name railwaySuffix (rw_suffix r) in if ok then result else name)"

definition queryQuestion :: "dnslib \<Rightarrow> Rewriter \<Rightarrow> DNSQuestion \<Rightarrow> dns_error + DNSQuestion" where
  "queryQuestion lib r q =
     (let (name, ok) = replaceSuffix lib (qu_Name q) (rw_suffix r) railwaySuffix
      in if ok then Inr (q\<lparr>qu_Name := name\<rparr>) else Inl (NameOutsideSuffix (qu_Name q)))"

definition rewriteQuery :: "dnslib \<Rightarrow> Rewriter \<Rightarrow> Msg \<Rightarrow> dns_error + Msg" where
  "rewriteQuery lib r m =
     (if mg_Question m = [] then Inl NoQuestions
      else and_then (map_result (queryQuestion lib r) (mg_Question m)) (\<lambda>qs. Inr (m\<lparr>mg_Question := qs\<rparr>)))"

text \<open>The virtual form of an address of the real prefix; none for any other address.\<close>

definition virtualAddress :: "Rewriter \<Rightarrow> bytes \<Rightarrow> bytes option" where
  "virtualAddress r ip =
     (case addr_from_slice ip of
        None \<Rightarrow> None
      | Some address \<Rightarrow>
          if \<not> contains (rw_realPrefix r) address then None
          else let virtual = as16 (pfx_addr (rw_virtualPrefix r))
               in Some ((as16 address)[0 := virtual ! 0, 1 := virtual ! 1]))"

definition rewriteHint :: "Rewriter \<Rightarrow> SVCBKeyValue \<Rightarrow> SVCBKeyValue option" where
  "rewriteHint r v =
     (case v of
        SVCBIPv4Hint _ \<Rightarrow> None
      | SVCBIPv6Hint hint \<Rightarrow>
          (let addresses = List.map_filter (virtualAddress r) hint
           in if addresses = [] then None else Some (SVCBIPv6Hint addresses))
      | _ \<Rightarrow> Some v)"

definition reconcileMandatory :: "u16 list \<Rightarrow> SVCBKeyValue \<Rightarrow> SVCBKeyValue option" where
  "reconcileMandatory present v =
     (case v of
        SVCBMandatory code \<Rightarrow>
          (let codes = filter (\<lambda>c. c \<in> set present) code
           in if codes = [] then None else Some (SVCBMandatory codes))
      | _ \<Rightarrow> Some v)"

definition rewriteSVCBValues :: "Rewriter \<Rightarrow> SVCBKeyValue list \<Rightarrow> SVCBKeyValue list" where
  "rewriteSVCBValues r values =
     (let result = List.map_filter (rewriteHint r) values
      in List.map_filter (reconcileMandatory (map svcbKey result)) result)"

fun rewriteRecord :: "dnslib \<Rightarrow> Rewriter \<Rightarrow> rdata \<Rightarrow> rdata" where
  "rewriteRecord lib r (RR_AAAA ip) = (case virtualAddress r ip of None \<Rightarrow> RR_AAAA ip | Some v \<Rightarrow> RR_AAAA v)"
| "rewriteRecord lib r (RR_CNAME target) = RR_CNAME (responseName lib r target)"
| "rewriteRecord lib r (RR_DNAME target) = RR_DNAME (responseName lib r target)"
| "rewriteRecord lib r (RR_MX preference mx) = RR_MX preference (responseName lib r mx)"
| "rewriteRecord lib r (RR_NS ns) = RR_NS (responseName lib r ns)"
| "rewriteRecord lib r (RR_PTR ptr) = RR_PTR (responseName lib r ptr)"
| "rewriteRecord lib r (RR_SOA ns mbox numbers) = RR_SOA (responseName lib r ns) (responseName lib r mbox) numbers"
| "rewriteRecord lib r (RR_SRV priority weight port target) = RR_SRV priority weight port (responseName lib r target)"
| "rewriteRecord lib r (RR_NAPTR order preference flags service regexp replacement) =
     RR_NAPTR order preference flags service regexp (responseName lib r replacement)"
| "rewriteRecord lib r (RR_SVCB priority target values) =
     RR_SVCB priority (responseName lib r target) (rewriteSVCBValues r values)"
| "rewriteRecord lib r (RR_HTTPS priority target values) =
     RR_HTTPS priority (responseName lib r target) (rewriteSVCBValues r values)"
| "rewriteRecord lib r other = other"

definition rewriteOne :: "dnslib \<Rightarrow> Rewriter \<Rightarrow> RR \<Rightarrow> RR option" where
  "rewriteOne lib r rr =
     (case rr_Data rr of
        RR_A _ \<Rightarrow> None
      | _ \<Rightarrow>
          (let h = rr_Header rr;
               h1 = (if rh_Ttl h > 60 then h\<lparr>rh_Ttl := 60\<rparr> else h);
               (name, ok) = replaceSuffix lib (rh_Name h1) railwaySuffix (rw_suffix r);
               h2 = (if ok then h1\<lparr>rh_Name := name\<rparr> else h1)
           in Some \<lparr>rr_Header = h2, rr_Data = rewriteRecord lib r (rr_Data rr)\<rparr>))"

definition rewriteRecords :: "dnslib \<Rightarrow> Rewriter \<Rightarrow> RR list \<Rightarrow> RR list" where
  "rewriteRecords lib r records = List.map_filter (rewriteOne lib r) records"

definition rewriteResponse :: "dnslib \<Rightarrow> Rewriter \<Rightarrow> Msg \<Rightarrow> Msg" where
  "rewriteResponse lib r m =
     m\<lparr>mg_Question := map (\<lambda>q. let (name, ok) = replaceSuffix lib (qu_Name q) railwaySuffix (rw_suffix r)
                                in if ok then q\<lparr>qu_Name := name\<rparr> else q) (mg_Question m),
       mg_Answer := rewriteRecords lib r (mg_Answer m),
       mg_Ns := rewriteRecords lib r (mg_Ns m),
       mg_Extra := rewriteRecords lib r (mg_Extra m)\<rparr>"

definition packMsg :: "dnslib \<Rightarrow> Msg \<Rightarrow> dns_error + bytes" where
  "packMsg lib m = (case dl_Pack lib m of None \<Rightarrow> Inl PackFailed | Some p \<Rightarrow> Inr p)"

definition DNSQuery :: "dnslib \<Rightarrow> Rewriter \<Rightarrow> bytes \<Rightarrow> dns_error + bytes" where
  "DNSQuery lib r payload =
     (case dl_Unpack lib payload of
        None \<Rightarrow> Inl DecodeFailed
      | Some m \<Rightarrow> and_then (rewriteQuery lib r m) (packMsg lib))"

definition DNSResponse :: "dnslib \<Rightarrow> Rewriter \<Rightarrow> bytes \<Rightarrow> dns_error + bytes" where
  "DNSResponse lib r payload =
     (case dl_Unpack lib payload of
        None \<Rightarrow> Inl DecodeFailed
      | Some m \<Rightarrow> packMsg lib (rewriteResponse lib r m))"

section \<open>DNS over TCP\<close>

definition readTCPMessage :: "dnslib \<Rightarrow> bytes \<Rightarrow> dns_error + Msg \<times> bytes" where
  "readTCPMessage lib inp =
     (case ReadFull 2 inp of
        Inl e \<Rightarrow> Inl (DNSTransfer e)
      | Inr (header, rest) \<Rightarrow>
          (let size = from_be header in
           if size = 0 then Inl EmptyTCPMessage
           else case ReadFull size rest of
                  Inl e \<Rightarrow> Inl (DNSTransfer e)
                | Inr (payload, rest') \<Rightarrow>
                    (case dl_Unpack lib payload of None \<Rightarrow> Inl DecodeFailed | Some m \<Rightarrow> Inr (m, rest'))))"

definition writeTCPMessage :: "'w writer \<Rightarrow> 'w \<Rightarrow> bytes \<Rightarrow> 'w \<times> dns_error option" where
  "writeTCPMessage wr w payload =
     (if length payload = 0 \<or> length payload > 65535 then (w, Some TCPSizeNotValid)
      else case writeAll wr w (to_be 2 (length payload)) of
             (w', Some e) \<Rightarrow> (w', Some (DNSTransfer e))
           | (w', None) \<Rightarrow>
               (case writeAll wr w' payload of
                  (w'', Some e) \<Rightarrow> (w'', Some (DNSTransfer e))
                | (w'', None) \<Rightarrow> (w'', None)))"

text \<open>
  The two forwarding loops differ only in the rewriting. A loop ends with an error, the writer and the number of
  bytes it has forwarded; no result would mean that it runs forever.
\<close>

partial_function (option) forwardLoop ::
    "dnslib \<Rightarrow> (Msg \<Rightarrow> dns_error + Msg) \<Rightarrow> 'w writer \<Rightarrow> bytes \<Rightarrow> 'w \<Rightarrow> nat \<Rightarrow> ('w \<times> nat \<times> dns_error) option" where
  "forwardLoop lib rewrite wr source w count =
     (case readTCPMessage lib source of
        Inl e \<Rightarrow> Some (w, count, e)
      | Inr (message, rest) \<Rightarrow>
          (case and_then (rewrite message) (packMsg lib) of
             Inl e \<Rightarrow> Some (w, count, e)
           | Inr payload \<Rightarrow>
               (case writeTCPMessage wr w payload of
                  (w', Some e) \<Rightarrow> Some (w', count, e)
                | (w', None) \<Rightarrow> forwardLoop lib rewrite wr rest w' (count + length payload + 2))))"

definition forwardQueries :: "dnslib \<Rightarrow> Rewriter \<Rightarrow> 'w writer \<Rightarrow> bytes \<Rightarrow> 'w \<Rightarrow> ('w \<times> nat \<times> dns_error) option" where
  "forwardQueries lib r wr source w = forwardLoop lib (rewriteQuery lib r) wr source w 0"

definition forwardResponses :: "dnslib \<Rightarrow> Rewriter \<Rightarrow> 'w writer \<Rightarrow> bytes \<Rightarrow> 'w \<Rightarrow> ('w \<times> nat \<times> dns_error) option" where
  "forwardResponses lib r wr source w = forwardLoop lib (\<lambda>m. Inr (rewriteResponse lib r m)) wr source w 0"

fun transferError :: "dns_error \<Rightarrow> dns_error option" where
  "transferError (DNSTransfer EOF) = None"
| "transferError NetClosed = None"
| "transferError e = Some e"

record transferResult =
  tr_query :: bool
  tr_bytes :: nat
  tr_err :: dns_error

text \<open>
  The two loops report in either order: whether both connections are closed before the second report, the bytes sent
  and received, and the joined errors.
\<close>

definition ForwardTCP :: "transferResult \<Rightarrow> transferResult \<Rightarrow> bool \<times> nat \<times> nat \<times> dns_error list" where
  "ForwardTCP first second =
     (transferError (tr_err first) \<noteq> None \<or> \<not> tr_query first,
      if tr_query first then tr_bytes first else tr_bytes second,
      if tr_query first then tr_bytes second else tr_bytes first,
      List.map_filter transferError [tr_err first, tr_err second])"

end
