(* ===== verification/Dnsproxy_Props.thy ===== *)
theory Dnsproxy_Props
  imports Dnsproxy
begin

text \<open>
  What the DNS proxy guarantees: what leaves in a response, that the answer to a rewritten query carries the names the
  client asked for, and that the DNS-over-TCP loops end and forward every message.
\<close>

section \<open>Names\<close>

text \<open>
  The documented behaviour of \<^verbatim>\<open>dns.Fqdn\<close> that the package relies on: a name that ends in a dot that is not escaped
  is fully qualified and returned unchanged.
\<close>

definition fqdn_ok :: "dnslib \<Rightarrow> bool" where
  "fqdn_ok lib \<longleftrightarrow> (\<forall>x c. c \<noteq> CHR 0x5C \<longrightarrow> dl_Fqdn lib (x @ [c, CHR ''.'']) = x @ [c, CHR ''.''])"

text \<open>A name in a domain, compared without regard to case.\<close>

definition in_domain :: "string \<Rightarrow> string \<Rightarrow> bool" where
  "in_domain d n \<longleftrightarrow> to_lower n = d \<or> has_suffix (to_lower n) (''.'' @ d)"

lemma lower_char_idem [simp]: "lower_char (lower_char c) = lower_char c"
proof (cases "CHR ''A'' \<le> c \<and> c \<le> CHR ''Z''")
  case True
  then have "65 \<le> (of_char c :: nat)" "(of_char c :: nat) \<le> 90" by (simp_all add: less_eq_char_def)
  then have "\<not> char_of (of_char c + (32::nat)) \<le> CHR ''Z''" by (simp add: less_eq_char_def)
  with True show ?thesis unfolding lower_char_def by simp
qed (auto simp: lower_char_def)

lemma lower_char_dot [simp]: "lower_char c = CHR ''.'' \<longleftrightarrow> c = CHR ''.''"
proof (cases "CHR ''A'' \<le> c \<and> c \<le> CHR ''Z''")
  case True
  then have c: "65 \<le> (of_char c :: nat)" "(of_char c :: nat) \<le> 90" by (simp_all add: less_eq_char_def)
  have "of_char (lower_char c) = (of_char c + 32 :: nat)" using True c by (simp add: lower_char_def)
  with c have "lower_char c \<noteq> CHR ''.''" "c \<noteq> CHR ''.''" by auto
  then show ?thesis by simp
qed (auto simp: lower_char_def)

lemma to_lower_simps [simp]:
  "to_lower (to_lower s) = to_lower s" "length (to_lower s) = length s" "to_lower (a @ b) = to_lower a @ to_lower b"
  "to_lower (c # s) = lower_char c # to_lower s" "to_lower [] = []"
  by (simp_all add: to_lower_def)

lemma has_suffix_iff: "has_suffix s p \<longleftrightarrow> (\<exists>x. s = x @ p)"
  by (auto simp: has_suffix_def) (metis append_take_drop_id)

lemma in_domain_iff: "in_domain d n \<longleftrightarrow> (\<exists>y z. n = y @ z \<and> to_lower z = d \<and> (y = [] \<or> last y = CHR ''.''))"
proof
  assume "in_domain d n"
  then consider "to_lower n = d" | x where "to_lower n = x @ CHR ''.'' # d"
    by (auto simp: in_domain_def has_suffix_iff)
  then show "\<exists>y z. n = y @ z \<and> to_lower z = d \<and> (y = [] \<or> last y = CHR ''.'')"
  proof cases
    case 2
    then obtain y c z where "n = y @ c # z" "CHR ''.'' = lower_char c" "to_lower z = d"
      unfolding to_lower_def map_eq_append_conv map_eq_Cons_conv by blast
    then show ?thesis by (intro exI[of _ "y @ [c]"] exI[of _ z]) (simp add: eq_commute[of "CHR ''.''"])
  qed auto
next
  assume "\<exists>y z. n = y @ z \<and> to_lower z = d \<and> (y = [] \<or> last y = CHR ''.'')"
  then obtain y z where n: "n = y @ z" "to_lower z = d" "y = [] \<or> last y = CHR ''.''" by blast
  show "in_domain d n"
  proof (cases "y = []")
    case False
    with n obtain x where "y = x @ [CHR ''.'']" by (metis append_butlast_last_id)
    with n show ?thesis by (auto simp: in_domain_def has_suffix_iff)
  qed (use n in \<open>simp add: in_domain_def\<close>)
qed

lemma in_domain_trans: "in_domain d e \<Longrightarrow> in_domain e n \<Longrightarrow> to_lower e = e \<Longrightarrow> in_domain d n"
proof -
  assume "in_domain d e" "in_domain e n" "to_lower e = e"
  then obtain y z y' z' where e: "e = y @ z" "to_lower z = d" "y = [] \<or> last y = CHR ''.''"
    and n: "n = y' @ z'" "to_lower z' = e" "y' = [] \<or> last y' = CHR ''.''" by (auto simp: in_domain_iff)
  obtain a b where ab: "z' = a @ b" "to_lower a = y" "to_lower b = z"
    using e(1) n(2) by (auto simp: to_lower_def map_eq_append_conv)
  have "a = [] \<or> last a = CHR ''.''" using e(3) ab(2) by (cases "a = []") (auto simp: to_lower_def last_map)
  then have "y' @ a = [] \<or> last (y' @ a) = CHR ''.''" using n(3) by (cases "a = []") auto
  moreover have "to_lower b = d" using ab(3) e(2) by (metis to_lower_simps(1))
  ultimately show ?thesis using n(1) ab(1) in_domain_iff by (metis append.assoc)
qed

definition domain_name :: "string \<Rightarrow> bool" where
  "domain_name d \<longleftrightarrow> to_lower d = d \<and> in_domain railwaySuffix d"

lemma railway_domain [simp]: "domain_name railwaySuffix"
  by (simp add: domain_name_def in_domain_def railwaySuffix_def to_lower_def lower_char_def less_eq_char_def)

lemma fqdn_in_domain:
  assumes "fqdn_ok lib" "in_domain railwaySuffix n"
  shows "dl_Fqdn lib n = n"
proof -
  obtain y z where n: "n = y @ z" "to_lower z = railwaySuffix" using assms(2) by (auto simp: in_domain_iff)
  have "to_lower z = ''railway.interna'' @ ''l.''" using n(2) by (simp add: railwaySuffix_def)
  then obtain u c e where z: "z = u @ [c, e]" "lower_char c = CHR ''l''" "e = CHR ''.''"
    by (auto simp: to_lower_def map_eq_append_conv map_eq_Cons_conv)
  have "c \<noteq> CHR 0x5C" using z(2) by (auto simp: lower_char_def less_eq_char_def)
  then show ?thesis using assms(1) n(1) z unfolding fqdn_ok_def by (metis append.assoc)
qed

lemma domain_facts:
  assumes "fqdn_ok lib" "domain_name d"
  shows "dl_Fqdn lib d = d" "to_lower d = d"
  using assms fqdn_in_domain by (auto simp: domain_name_def)

text \<open>Replacing a suffix keeps what stands in front of it.\<close>

lemma replaceSuffix_eq:
  assumes "fqdn_ok lib" "domain_name frm" "domain_name to"
  shows "replaceSuffix lib n frm to =
    (if in_domain frm (dl_Fqdn lib n) then (take (length (dl_Fqdn lib n) - length frm) (dl_Fqdn lib n) @ to, True)
     else (dl_Fqdn lib n, False))"
proof -
  have "length (dl_Fqdn lib n) = length frm" if "to_lower (dl_Fqdn lib n) = frm"
    using that by (metis to_lower_simps(2))
  then show ?thesis
    using domain_facts[OF assms(1)] assms(2,3) unfolding replaceSuffix_def Let_def in_domain_def by auto
qed

lemma take_domain:
  assumes "in_domain frm n"
  obtains y z where "n = y @ z" "to_lower z = frm" "take (length n - length frm) n = y" "y = [] \<or> last y = CHR ''.''"
proof -
  obtain y z where n: "n = y @ z" "to_lower z = frm" "y = [] \<or> last y = CHR ''.''" using assms by (auto simp: in_domain_iff)
  moreover have "take (length n - length frm) n = y" using n(1,2) to_lower_simps(2)[of z] by simp
  ultimately show ?thesis using that by blast
qed

lemma in_domain_append: "domain_name d \<Longrightarrow> y = [] \<or> last y = CHR ''.'' \<Longrightarrow> in_domain d (y @ d)"
  using in_domain_iff domain_name_def by blast

text \<open>There and back.\<close>

lemma replaceSuffix_roundtrip:
  assumes lib: "fqdn_ok lib" "domain_name a" "domain_name b" and there: "replaceSuffix lib q a b = (n, True)"
  shows "\<exists>m. replaceSuffix lib n b a = (m, True) \<and> to_lower m = to_lower (dl_Fqdn lib q) \<and> in_domain b n
    \<and> (\<exists>y z. dl_Fqdn lib q = y @ z \<and> to_lower z = a \<and> m = y @ a \<and> n = y @ b)"
proof -
  have q: "in_domain a (dl_Fqdn lib q)" and n: "n = take (length (dl_Fqdn lib q) - length a) (dl_Fqdn lib q) @ b"
    using there by (auto simp: replaceSuffix_eq[OF lib] split: if_splits)
  obtain y z where y: "dl_Fqdn lib q = y @ z" "to_lower z = a" "n = y @ b" "y = [] \<or> last y = CHR ''.''"
    using take_domain[OF q] n by metis
  have b: "in_domain b n" using in_domain_append[OF lib(3) y(4)] y(3) by simp
  have "in_domain railwaySuffix n" using in_domain_trans[OF _ b] lib(3) by (simp add: domain_name_def)
  then have "dl_Fqdn lib n = n" using fqdn_in_domain[OF lib(1)] by blast
  then have "replaceSuffix lib n b a = (y @ a, True)"
    using b y(3) by (simp add: replaceSuffix_eq[OF lib(1,3,2)])
  moreover have "to_lower (y @ a) = to_lower (dl_Fqdn lib q)" using y(1,2) lib(2) by (simp add: domain_name_def)
  ultimately show ?thesis using b y by blast
qed

lemma NewRewriter_Inr:
  assumes "NewRewriter lib p v s = Inr r"
  shows "slash16 (rw_realPrefix r)" "slash16 (rw_virtualPrefix r)" "rw_realPrefix r = masked p" "rw_virtualPrefix r = masked v"
    "domain_name (rw_suffix r)"
  using assms by (auto simp: NewRewriter_def Let_def slash16_def domain_name_def in_domain_def split: if_splits)

section \<open>Responses\<close>

lemma responseName_domain:
  assumes "fqdn_ok lib" "domain_name (rw_suffix r)" "in_domain railwaySuffix (responseName lib r n)"
  shows "in_domain (rw_suffix r) (responseName lib r n)"
proof (cases "in_domain railwaySuffix (dl_Fqdn lib n)")
  case True
  obtain y where y: "take (length (dl_Fqdn lib n) - length railwaySuffix) (dl_Fqdn lib n) = y" "y = [] \<or> last y = CHR ''.''"
    using take_domain[OF True] by metis
  then have "responseName lib r n = y @ rw_suffix r"
    using True by (simp add: responseName_def replaceSuffix_eq[OF assms(1) railway_domain assms(2)])
  then show ?thesis using in_domain_append[OF assms(2) y(2)] by simp
next
  case False
  then have "responseName lib r n = n"
    by (simp add: responseName_def replaceSuffix_eq[OF assms(1) railway_domain assms(2)])
  then show ?thesis using assms(3) fqdn_in_domain[OF assms(1)] False by simp
qed

text \<open>The names of a record, apart from its owner name.\<close>

fun rdata_names :: "rdata \<Rightarrow> string list" where
  "rdata_names (RR_CNAME n) = [n]"
| "rdata_names (RR_DNAME n) = [n]"
| "rdata_names (RR_MX _ n) = [n]"
| "rdata_names (RR_NS n) = [n]"
| "rdata_names (RR_PTR n) = [n]"
| "rdata_names (RR_SOA n m _) = [n, m]"
| "rdata_names (RR_SRV _ _ _ n) = [n]"
| "rdata_names (RR_NAPTR _ _ _ _ _ n) = [n]"
| "rdata_names (RR_SVCB _ n _) = [n]"
| "rdata_names (RR_HTTPS _ n _) = [n]"
| "rdata_names _ = []"

definition rr_names :: "RR \<Rightarrow> string list" where
  "rr_names rr = rh_Name (rr_Header rr) # rdata_names (rr_Data rr)"

fun service_values :: "rdata \<Rightarrow> SVCBKeyValue list" where
  "service_values (RR_SVCB _ _ vs) = vs"
| "service_values (RR_HTTPS _ _ vs) = vs"
| "service_values _ = []"

text \<open>Service parameters: no IPv4 hint, IPv6 hints in the virtual prefix only, mandatory keys that are there.\<close>

definition values_safe :: "Rewriter \<Rightarrow> SVCBKeyValue list \<Rightarrow> bool" where
  "values_safe r vs \<longleftrightarrow>
     (\<forall>v\<in>set vs. case v of
        SVCBIPv4Hint _ \<Rightarrow> False
      | SVCBIPv6Hint hs \<Rightarrow> hs \<noteq> [] \<and> (\<forall>h\<in>set hs. \<exists>a. addr_from_slice h = Some a \<and> contains (rw_virtualPrefix r) a)
      | SVCBMandatory ks \<Rightarrow> ks \<noteq> [] \<and> set ks \<subseteq> svcbKey ` set vs
      | SVCBOther _ _ \<Rightarrow> True)"

lemma map_filter_set: "set (List.map_filter f xs) = {y. \<exists>x\<in>set xs. f x = Some y}"
  by (force simp: List.map_filter_def)

lemma virtualAddress_Some:
  assumes "virtualAddress r ip = Some b" "slash16 (rw_virtualPrefix r)" "masked (rw_virtualPrefix r) = rw_virtualPrefix r"
  shows "\<exists>a. addr_from_slice b = Some a \<and> contains (rw_virtualPrefix r) a"
proof -
  from assms(1) obtain x where x: "b = (as16 x)[0 := as16 (pfx_addr (rw_virtualPrefix r)) ! 0, Suc 0 := as16 (pfx_addr (rw_virtualPrefix r)) ! Suc 0]"
    by (auto simp: virtualAddress_def Let_def split: option.splits if_splits)
  then have b: "b = take 2 (as16 (pfx_addr (rw_virtualPrefix r))) @ drop 2 (as16 x)"
    by (simp add: patch2 take2_nth)
  then have len: "length b = 16" by simp
  have "take 2 (as16 (addr_from16 b)) = take 2 (as16 (pfx_addr (masked (rw_virtualPrefix r))))"
    using assms(3) len b by simp
  then have "contains (masked (rw_virtualPrefix r)) (addr_from16 b)"
    unfolding contains_slash16[OF assms(2)] by (simp add: addr_from16_def)
  then show ?thesis using len assms(3) by (simp add: addr_from_slice_def)
qed

lemma rewriteHint_Some:
  assumes "rewriteHint r v = Some u" "slash16 (rw_virtualPrefix r)" "masked (rw_virtualPrefix r) = rw_virtualPrefix r"
  shows "case u of SVCBIPv4Hint _ \<Rightarrow> False
    | SVCBIPv6Hint hs \<Rightarrow> hs \<noteq> [] \<and> (\<forall>h\<in>set hs. \<exists>a. addr_from_slice h = Some a \<and> contains (rw_virtualPrefix r) a)
    | _ \<Rightarrow> True"
  using assms virtualAddress_Some[OF _ assms(2,3)]
  by (cases v) (auto simp: rewriteHint_def Let_def map_filter_set split: if_splits)

lemma rewriteSVCBValues_safe:
  assumes "slash16 (rw_virtualPrefix r)" "masked (rw_virtualPrefix r) = rw_virtualPrefix r"
  shows "values_safe r (rewriteSVCBValues r vs)"
proof -
  define us where "us = List.map_filter (rewriteHint r) vs"
  define ws where "ws = List.map_filter (reconcileMandatory (map svcbKey us)) us"
  have ws: "rewriteSVCBValues r vs = ws" by (simp add: rewriteSVCBValues_def ws_def us_def Let_def)
  have us: "u \<in> set us \<Longrightarrow> \<exists>v. rewriteHint r v = Some u" for u by (auto simp: us_def map_filter_set)
  have keep: "u \<in> set us \<Longrightarrow> svcbKey u \<noteq> 0 \<Longrightarrow> u \<in> set ws" for u
    by (cases u) (auto simp: ws_def map_filter_set reconcileMandatory_def intro!: bexI[of _ u])
  have "case w of SVCBIPv4Hint _ \<Rightarrow> False
      | SVCBIPv6Hint hs \<Rightarrow> hs \<noteq> [] \<and> (\<forall>h\<in>set hs. \<exists>a. addr_from_slice h = Some a \<and> contains (rw_virtualPrefix r) a)
      | SVCBMandatory ks \<Rightarrow> ks \<noteq> [] \<and> set ks \<subseteq> svcbKey ` set ws
      | SVCBOther _ _ \<Rightarrow> True" if w: "w \<in> set ws" for w
  proof -
    obtain u where u: "u \<in> set us" "reconcileMandatory (map svcbKey us) u = Some w"
      using w by (auto simp: ws_def map_filter_set)
    show ?thesis
    proof (cases u)
      case (SVCBMandatory code)
      with u have k: "w = SVCBMandatory (filter (\<lambda>c. c \<in> svcbKey ` set us) code)" "filter (\<lambda>c. c \<in> svcbKey ` set us) code \<noteq> []"
        by (auto simp: reconcileMandatory_def Let_def split: if_splits)
      have "c \<in> svcbKey ` set ws" if "c \<in> svcbKey ` set us" for c
        using that keep w k(1) by (cases "c = 0") (auto intro: rev_image_eqI)
      with k show ?thesis by (auto split: if_splits)
    qed (use u us[OF u(1)] rewriteHint_Some[OF _ assms] in \<open>force simp: reconcileMandatory_def\<close>)+
  qed
  then show ?thesis by (simp add: values_safe_def ws)
qed

text \<open>
  A record that may leave the proxy: no IPv4 address, a short time to live, no name of Railway's name space outside the
  suffix of the connector, no address of the real prefix outside the virtual one, safe service parameters.
\<close>

definition record_safe :: "Rewriter \<Rightarrow> RR \<Rightarrow> bool" where
  "record_safe r rr \<longleftrightarrow>
     (\<forall>ip. rr_Data rr \<noteq> RR_A ip) \<and> rh_Ttl (rr_Header rr) \<le> 60
     \<and> (\<forall>n\<in>set (rr_names rr). in_domain railwaySuffix n \<longrightarrow> in_domain (rw_suffix r) n)
     \<and> (\<forall>ip a. rr_Data rr = RR_AAAA ip \<and> addr_from_slice ip = Some a \<and> contains (rw_realPrefix r) a
          \<longrightarrow> contains (rw_virtualPrefix r) a)
     \<and> values_safe r (service_values (rr_Data rr))"

lemma rewriteOne_Some:
  "rewriteOne lib r rr = Some rr' \<longleftrightarrow>
     (\<forall>ip. rr_Data rr \<noteq> RR_A ip) \<and> rr' = \<lparr>rr_Header = (rr_Header rr)\<lparr>rh_Name := responseName lib r (rh_Name (rr_Header rr)),
       rh_Ttl := min (rh_Ttl (rr_Header rr)) 60\<rparr>, rr_Data = rewriteRecord lib r (rr_Data rr)\<rparr>"
  by (cases "rr_Data rr") (auto simp: rewriteOne_def responseName_def Let_def min_def not_less split: prod.splits)

lemma rewriteRecord_names: "n \<in> set (rdata_names (rewriteRecord lib r d)) \<Longrightarrow> \<exists>m. n = responseName lib r m"
  by (cases d) (auto split: option.splits)

lemma rewriteRecord_A: "rewriteRecord lib r d = RR_A ip \<Longrightarrow> d = RR_A ip"
  by (cases d) (auto split: option.splits)

lemma rewriteRecord_AAAA: "rewriteRecord lib r d = RR_AAAA b \<Longrightarrow>
  \<exists>ip. d = RR_AAAA ip \<and> (virtualAddress r ip = Some b \<or> virtualAddress r ip = None \<and> b = ip)"
  by (cases d) (auto split: option.splits)

lemma rewriteRecord_values: "service_values (rewriteRecord lib r d) = rewriteSVCBValues r (service_values d)"
  by (cases d) (auto simp: rewriteSVCBValues_def List.map_filter_def split: option.splits)

lemma rewriteOne_safe:
  assumes lib: "fqdn_ok lib" "NewRewriter lib p v s = Inr r" and rr: "rewriteOne lib r rr = Some rr'"
  shows "record_safe r rr'"
proof -
  note new = NewRewriter_Inr[OF lib(2)]
  have m: "masked (rw_virtualPrefix r) = rw_virtualPrefix r" using new(4) by simp
  have rr': "rr_Data rr' = rewriteRecord lib r (rr_Data rr)" "rh_Ttl (rr_Header rr') \<le> 60"
      "rh_Name (rr_Header rr') = responseName lib r (rh_Name (rr_Header rr))" "\<And>ip. rr_Data rr \<noteq> RR_A ip"
    using rr by (auto simp: rewriteOne_Some)
  have names: "\<exists>m. n = responseName lib r m" if "n \<in> set (rr_names rr')" for n
    using that rewriteRecord_names rr'(1,3) unfolding rr_names_def by auto
  have aaaa: "contains (rw_virtualPrefix r) a"
    if b: "rr_Data rr' = RR_AAAA b" "addr_from_slice b = Some a" "contains (rw_realPrefix r) a" for a b
  proof -
    obtain ip where "virtualAddress r ip = Some b \<or> virtualAddress r ip = None \<and> b = ip"
      using rewriteRecord_AAAA[of lib r "rr_Data rr" b] b(1) unfolding rr'(1) by blast
    moreover have "virtualAddress r b \<noteq> None" using b(2,3) by (simp add: virtualAddress_def Let_def)
    ultimately obtain ip where "virtualAddress r ip = Some b" by auto
    from virtualAddress_Some[OF this new(2) m] b(2) show ?thesis by auto
  qed
  have dom: "in_domain (rw_suffix r) n" if "n \<in> set (rr_names rr')" "in_domain railwaySuffix n" for n
    using names[OF that(1)] that(2) responseName_domain[OF lib(1) new(5)] by blast
  have "rr_Data rr' \<noteq> RR_A ip" for ip using rr'(1,4) rewriteRecord_A by metis
  moreover have "values_safe r (service_values (rr_Data rr'))"
    unfolding rr'(1) rewriteRecord_values by (rule rewriteSVCBValues_safe[OF new(2) m])
  ultimately show ?thesis unfolding record_safe_def using rr'(2) dom aaaa by blast
qed

abbreviation sections :: "Msg \<Rightarrow> RR list list" where
  "sections m \<equiv> [mg_Answer m, mg_Ns m, mg_Extra m]"

definition is_A :: "RR \<Rightarrow> bool" where
  "is_A rr \<longleftrightarrow> (case rr_Data rr of RR_A _ \<Rightarrow> True | _ \<Rightarrow> False)"

lemma rewriteRecords_kept:
  "map (\<lambda>rr. (rh_Rrtype (rr_Header rr), rh_Class (rr_Header rr), rh_Ttl (rr_Header rr))) (rewriteRecords lib r rrs)
   = map (\<lambda>rr. (rh_Rrtype (rr_Header rr), rh_Class (rr_Header rr), min (rh_Ttl (rr_Header rr)) 60))
       (filter (\<lambda>rr. \<not> is_A rr) rrs)"
proof (induction rrs)
  case (Cons rr rrs)
  have "rewriteOne lib r rr = None \<longleftrightarrow> is_A rr"
    by (cases "rr_Data rr") (auto simp: rewriteOne_def is_A_def Let_def split: prod.splits)
  then show ?case
    using Cons unfolding rewriteRecords_def
    by (cases "rewriteOne lib r rr") (simp_all add: List.map_filter_simps, simp add: rewriteOne_Some)
qed (simp add: rewriteRecords_def List.map_filter_def)

section \<open>Properties of the rewriter\<close>


text \<open>An address outside \<^verbatim>\<open>::/16\<close> is not an IPv4-mapped one.\<close>

lemma mapped_first_bytes: "is4in6 (V6 w z) \<Longrightarrow> take 2 (as16 (V6 w z)) = [0, 0]"
proof -
  assume "is4in6 (V6 w z)"
  then have "unat (drop_bit 32 w) = 0xffff" by simp
  then have "unat w div 2 ^ 32 = 0xffff" by (simp add: drop_bit_eq_div unat_div)
  then have "unat w div 2 ^ 32 div 2 ^ 80 = 0" by simp
  then have "unat w div 2 ^ 112 = 0" unfolding div_mult2_eq[symmetric] by (simp flip: power_add)
  then have "take 2 (as16 (V6 w z)) = to_be 2 0" by (simp only: as16.simps take2_be_bytes)
  then show ?thesis by (simp add: numeral_2_eq_2)
qed

text \<open>
  C16. An address that a client learns from the proxy leads to the service that the name server named: the edge translates
  the virtual address of an AAAA record back to exactly the address of the original record. (The virtual prefix is not
  \<^verbatim>\<open>::/16\<close>, where IPv4-mapped addresses live.)
\<close>

theorem learned_address_routes_back:
  assumes new: "NewRewriter lib p v s = Inr r" and prefix: "take 2 (as16 (pfx_addr (rw_virtualPrefix r))) \<noteq> [0, 0]"
    and aaaa: "rewriteRecord lib r (RR_AAAA ip) = RR_AAAA b" "addr_from_slice ip = Some a" "contains (rw_realPrefix r) a"
  shows "\<exists>a'. addr_from_slice b = Some a' \<and> contains (rw_virtualPrefix r) a'
    \<and> translateAddress a' (rw_virtualPrefix r) (rw_realPrefix r) = Inr a"
proof -
  note n = NewRewriter_Inr[OF new]
  let ?v = "as16 (pfx_addr (rw_virtualPrefix r))"
  have m: "masked (rw_virtualPrefix r) = rw_virtualPrefix r" "masked (rw_realPrefix r) = rw_realPrefix r" using n(3,4) by simp_all
  have a: "is6 a" "\<not> has_zone a" "take 2 (as16 a) = take 2 (as16 (pfx_addr (rw_realPrefix r)))"
    using aaaa(3) contains_slash16[OF n(1)] m by simp_all
  have va: "virtualAddress r ip = Some ((as16 a)[0 := ?v ! 0, 1 := ?v ! 1])"
    using aaaa(2,3) by (simp add: virtualAddress_def Let_def)
  then have b: "b = take 2 ?v @ drop 2 (as16 a)" using aaaa(1) by (simp add: patch2 take2_nth)
  define a' where "a' = addr_from16 b"
  have len: "length b = 16" using b by simp
  have a'16: "as16 a' = b" using len by (simp add: a'_def)
  have "\<not> is4in6 a'" using prefix mapped_first_bytes[of "be_word b" "[]"] a'16 b unfolding a'_def addr_from16_def by auto
  then have unmapped: "unmap a' = a'" by (simp add: a'_def addr_from16_def del: is4in6.simps)
  have inside: "contains (rw_virtualPrefix r) a'"
    using contains_slash16[OF n(2), of a'] m a'16 b by (simp add: a'_def addr_from16_def del: as16.simps)
  have "addr_from16 (take 2 (as16 (pfx_addr (rw_realPrefix r))) @ drop 2 b) = addr_from16 (as16 a)"
    using append_take_drop_id[of 2 "as16 a"] unfolding b a(3)[symmetric] by simp
  also have "\<dots> = a" using a(1,2) by (cases a) (simp_all add: addr_from16_as16 del: as16.simps)
  finally have "translateAddress a' (rw_virtualPrefix r) (rw_realPrefix r) = Inr a"
    using n(1,2) m inside by (simp add: translateAddress_Inr unmapped a'16)
  moreover have "addr_from_slice b = Some a'" using len by (simp add: addr_from_slice_def a'_def)
  ultimately show ?thesis using inside by blast
qed

text \<open>
  The names of a query survive the way to the name server and back: every question of an accepted query is sent as
  a name of Railway's name space with the same type and class, and a response that repeats these questions returns to
  the client with the names it asked for, up to the case of the suffix; a query in lower case gets exactly its names back.
\<close>

theorem query_name_roundtrip:
  assumes "fqdn_ok lib" and "NewRewriter lib p v s = Inr r" and "rewriteQuery lib r m = Inr m'"
  shows "mg_Question m \<noteq> [] \<and> (\<forall>q\<in>set (mg_Question m'). in_domain railwaySuffix (qu_Name q))
    \<and> list_all2 (\<lambda>q q'. qu_Qtype q' = qu_Qtype q \<and> qu_Qclass q' = qu_Qclass q
          \<and> to_lower (qu_Name q') = to_lower (dl_Fqdn lib (qu_Name q))
          \<and> (to_lower (dl_Fqdn lib (qu_Name q)) = dl_Fqdn lib (qu_Name q) \<longrightarrow> qu_Name q' = dl_Fqdn lib (qu_Name q)))
        (mg_Question m) (mg_Question (rewriteResponse lib r m'))"
proof -
  note suf = NewRewriter_Inr(5)[OF assms(2)]
  obtain qs where qs: "map_result (queryQuestion lib r) (mg_Question m) = Inr qs" "m' = m\<lparr>mg_Question := qs\<rparr>" "mg_Question m \<noteq> []"
    using assms(3) by (auto simp: rewriteQuery_def and_then_Inr_iff split: if_splits)
  define restore where "restore q = (let (name, ok) = replaceSuffix lib (qu_Name q) railwaySuffix (rw_suffix r)
    in if ok then q\<lparr>qu_Name := name\<rparr> else q)" for q :: DNSQuestion
  have one: "in_domain railwaySuffix (qu_Name q') \<and> qu_Qtype (restore q') = qu_Qtype q \<and> qu_Qclass (restore q') = qu_Qclass q
      \<and> to_lower (qu_Name (restore q')) = to_lower (dl_Fqdn lib (qu_Name q))
      \<and> (to_lower (dl_Fqdn lib (qu_Name q)) = dl_Fqdn lib (qu_Name q) \<longrightarrow> qu_Name (restore q') = dl_Fqdn lib (qu_Name q))"
    if q: "queryQuestion lib r q = Inr q'" for q q'
  proof -
    obtain n where n: "replaceSuffix lib (qu_Name q) (rw_suffix r) railwaySuffix = (n, True)" "q' = q\<lparr>qu_Name := n\<rparr>"
      using q by (auto simp: queryQuestion_def Let_def split: prod.splits if_splits)
    obtain k y z where "replaceSuffix lib n railwaySuffix (rw_suffix r) = (k, True)" "in_domain railwaySuffix n"
        "to_lower k = to_lower (dl_Fqdn lib (qu_Name q))"
        "dl_Fqdn lib (qu_Name q) = y @ z" "to_lower z = rw_suffix r" "k = y @ rw_suffix r"
      using replaceSuffix_roundtrip[OF assms(1) suf railway_domain n(1)] by blast
    then show ?thesis using n(2) by (auto simp: restore_def)
  qed
  have all: "list_all2 (\<lambda>q q'. queryQuestion lib r q = Inr q') (mg_Question m) qs"
    using qs(1) by (simp add: map_result_Inr_iff)
  have "mg_Question (rewriteResponse lib r m') = map restore qs"
    by (simp add: rewriteResponse_def qs(2) restore_def[abs_def])
  moreover have "\<forall>q'\<in>set qs. in_domain railwaySuffix (qu_Name q')"
  proof
    fix q' assume "q' \<in> set qs"
    then obtain q where "queryQuestion lib r q = Inr q'"
      using all by (auto simp: list_all2_conv_all_nth in_set_conv_nth)
    then show "in_domain railwaySuffix (qu_Name q')" using one by blast
  qed
  moreover have "list_all2 (\<lambda>q q'. qu_Qtype (restore q') = qu_Qtype q \<and> qu_Qclass (restore q') = qu_Qclass q
          \<and> to_lower (qu_Name (restore q')) = to_lower (dl_Fqdn lib (qu_Name q))
          \<and> (to_lower (dl_Fqdn lib (qu_Name q)) = dl_Fqdn lib (qu_Name q) \<longrightarrow> qu_Name (restore q') = dl_Fqdn lib (qu_Name q)))
        (mg_Question m) qs"
    using all by (rule list_all2_mono) (use one in blast)
  ultimately show ?thesis using qs(2,3) by (simp add: list.rel_map)
qed

section \<open>DNS over TCP\<close>

lemma from_be_to_be2: "n \<le> 65535 \<Longrightarrow> from_be (to_be 2 n) = n"
  by (simp add: from_be_to_be)

lemma readTCPMessage_shrinks: "readTCPMessage lib inp = Inr (m, rest) \<Longrightarrow> length rest < length inp"
  by (auto simp: readTCPMessage_def ReadFull_def Let_def split: if_splits option.splits)

text \<open>Every forwarding loop on a finite stream ends.\<close>

lemma forwardLoop_returns: "\<exists>x. forwardLoop lib rewrite wr source w count = Some x"
proof (induction source arbitrary: w count rule: length_induct)
  case (1 source)
  show ?case
  proof (cases "readTCPMessage lib source")
    case (Inr mr)
    obtain m rest where mr: "mr = (m, rest)" by (cases mr)
    have "\<exists>x. forwardLoop lib rewrite wr rest v n = Some x" for v n
      using 1 readTCPMessage_shrinks Inr mr by blast
    then show ?thesis
      unfolding forwardLoop.simps[of lib rewrite wr source] Inr mr by (auto split: sum.split prod.split option.split)
  qed (simp add: forwardLoop.simps)
qed

definition tcpFrame :: "bytes \<Rightarrow> bytes" where
  "tcpFrame payload = to_be 2 (length payload) @ payload"

definition frame_size_ok :: "bytes \<Rightarrow> bool" where
  "frame_size_ok payload \<longleftrightarrow> payload \<noteq> [] \<and> length payload \<le> 65535"

lemma readTCPMessage_frame:
  assumes "frame_size_ok payload" "dl_Unpack lib payload = Some m"
  shows "readTCPMessage lib (tcpFrame payload @ rest) = Inr (m, rest)"
proof -
  have "from_be (to_be 2 (length payload)) = length payload" using assms(1) by (simp add: from_be_to_be2 frame_size_ok_def)
  moreover have "length payload \<noteq> 0" using assms(1) by (simp add: frame_size_ok_def)
  ultimately show ?thesis
    using assms(2) by (simp add: readTCPMessage_def tcpFrame_def Let_def del: to_be.simps)
qed

lemma writeTCPMessage_delivers:
  assumes "conforming wr sink" "frame_size_ok payload" "writeTCPMessage wr w payload = (w', None)"
  shows "sink w' = sink w @ tcpFrame payload"
proof -
  obtain v where v: "writeAll wr w (to_be 2 (length payload)) = (v, None)" "writeAll wr v payload = (w', None)"
    using assms(3) by (auto simp: writeTCPMessage_def split: if_splits prod.splits option.splits)
  show ?thesis
    using writeAll_delivers[OF assms(1) v(1)] writeAll_delivers[OF assms(1) v(2)] by (simp add: tcpFrame_def del: to_be.simps)
qed

text \<open>A writer that never fails.\<close>

definition reliable :: "'w writer \<Rightarrow> bool" where
  "reliable wr \<longleftrightarrow> (\<forall>w p w' n failed. wr w p = (w', n, failed) \<longrightarrow> \<not> failed)"

lemma writeAll_reliable:
  assumes "conforming wr sink" "reliable wr"
  shows "\<exists>w'. writeAll wr w payload = (w', None)"
proof (induction payload arbitrary: w rule: length_induct)
  case (1 payload)
  obtain v n failed where st: "wr w payload = (v, n, failed)" by (cases "wr w payload")
  show ?case
  proof (cases "payload = []")
    case False
    have n: "n \<le> length payload" "\<not> failed" "0 < n"
      using conformingD[OF assms(1) st] assms(2) st False unfolding reliable_def by blast+
    then have "\<exists>w'. writeAll wr v (drop n payload) = (w', None)" using 1 False by simp
    then show ?thesis using n st False by (simp add: writeAll.simps[of wr w])
  qed (simp add: writeAll.simps)
qed

lemma writeTCPMessage_reliable:
  assumes "conforming wr sink" "reliable wr" "frame_size_ok payload"
  obtains w' where "writeTCPMessage wr w payload = (w', None)" "sink w' = sink w @ tcpFrame payload"
proof -
  obtain v where v: "writeAll wr w (to_be 2 (length payload)) = (v, None)" using writeAll_reliable[OF assms(1,2)] by blast
  obtain w' where "writeAll wr v payload = (w', None)" using writeAll_reliable[OF assms(1,2)] by blast
  then have "writeTCPMessage wr w payload = (w', None)"
    using v assms(3) by (simp add: writeTCPMessage_def frame_size_ok_def del: to_be.simps)
  then show ?thesis using that writeTCPMessage_delivers[OF assms(1,3)] by blast
qed

text \<open>On a stream of good messages the loop forwards each of them in order and ends with the stream.\<close>

definition forwards :: "dnslib \<Rightarrow> (Msg \<Rightarrow> dns_error + Msg) \<Rightarrow> bytes \<Rightarrow> bytes \<Rightarrow> bool" where
  "forwards lib rewrite p q \<longleftrightarrow> frame_size_ok p \<and> frame_size_ok q \<and>
     (\<exists>m m'. dl_Unpack lib p = Some m \<and> rewrite m = Inr m' \<and> dl_Pack lib m' = Some q)"

lemma forwardLoop_all:
  assumes wr: "conforming wr sink" "reliable wr" and all: "list_all2 (forwards lib rewrite) ps qs"
  shows "\<exists>w'. forwardLoop lib rewrite wr (concat (map tcpFrame ps)) w count
      = Some (w', count + length (concat (map tcpFrame qs)), DNSTransfer EOF)
    \<and> sink w' = sink w @ concat (map tcpFrame qs)"
  using all
proof (induction arbitrary: w count rule: list_all2_induct)
  case Nil
  show ?case by (simp add: forwardLoop.simps readTCPMessage_def ReadFull_def)
next
  case (Cons p ps q qs)
  obtain m m' where m: "frame_size_ok p" "frame_size_ok q" "dl_Unpack lib p = Some m" "rewrite m = Inr m'" "dl_Pack lib m' = Some q"
    using Cons(1) by (auto simp: forwards_def)
  obtain v where v: "writeTCPMessage wr w q = (v, None)" "sink v = sink w @ tcpFrame q"
    using writeTCPMessage_reliable[OF wr m(2)] by blast
  have "forwardLoop lib rewrite wr (concat (map tcpFrame (p # ps))) w count
      = forwardLoop lib rewrite wr (concat (map tcpFrame ps)) v (count + length q + 2)"
    using m v(1) by (simp add: forwardLoop.simps[of lib rewrite wr "tcpFrame p @ _"] readTCPMessage_frame packMsg_def)
  moreover have "length (tcpFrame q) = length q + 2" by (simp add: tcpFrame_def del: to_be.simps)
  ultimately show ?case using Cons.IH[of v "count + length q + 2"] v(2) by (simp add: add.assoc add.left_commute)
qed


section \<open>The OPT pseudo-record\<close>

text \<open>
  The bound on the time to live is applied to every record, also to the OPT pseudo-record of EDNS(0), whose field of
  that name holds the extended response code, the version and the flags: a set DNSSEC OK flag (bit 15) or an extended
  response code (bits 24 to 31) is lost and reserved flags (bits 2 to 5) are set.
\<close>

theorem opt_flags_overwritten:
  assumes "rr_Data opt = RR_OPT options" and "bit (rh_Ttl (rr_Header opt)) 15"
  shows "\<exists>opt'. rewriteRecords lib r [opt] = [opt'] \<and> rr_Data opt' = RR_OPT options \<and> rh_Ttl (rr_Header opt') = 60
    \<and> \<not> bit (rh_Ttl (rr_Header opt')) 15"
proof -
  let ?t = "rh_Ttl (rr_Header opt)"
  have "\<not> ?t \<le> 60"
  proof
    assume "?t \<le> 60"
    then have "unat ?t < 2 ^ 15" by (simp add: word_le_nat_alt)
    then have "\<not> bit (unat ?t) 15" by (simp add: bit_iff_odd)
    then show False using assms(2) by (simp add: bit_unsigned_iff)
  qed
  then have "min ?t 60 = 60" by simp
  moreover obtain opt' where o: "rewriteOne lib r opt = Some opt'"
    using assms(1) by (auto simp: rewriteOne_Some)
  ultimately have "rr_Data opt' = RR_OPT options" "rh_Ttl (rr_Header opt') = 60"
    using assms(1) by (auto simp: rewriteOne_Some)
  moreover have "\<not> bit (60 :: 32 word) 15" by simp
  ultimately show ?thesis using o by (auto simp: rewriteRecords_def List.map_filter_simps)
qed

section \<open>A concrete rewriter\<close>

text \<open>A library with a one-question wire format shows that the hypotheses can hold.\<close>

definition sampleHdr :: MsgHdr where
  "sampleHdr = \<lparr>mh_Id = 7, mh_Response = False, mh_Opcode = 0, mh_Flags = [], mh_Rcode = 0\<rparr>"

definition sampleMsg :: "string \<Rightarrow> Msg" where
  "sampleMsg n = \<lparr>mg_Hdr = sampleHdr, mg_Question = [\<lparr>qu_Name = n, qu_Qtype = 28, qu_Qclass = 1\<rparr>], mg_Answer = [],
     mg_Ns = [], mg_Extra = []\<rparr>"

definition sampleDns :: dnslib where
  "sampleDns = \<lparr>dl_Fqdn = (\<lambda>s. if s \<noteq> [] \<and> last s = CHR ''.'' then s else s @ ''.''), dl_IsDomainName = (\<lambda>_. True),
     dl_Unpack = (\<lambda>p. if p = [] then None else Some (sampleMsg (bytes_zone p))),
     dl_Pack = (\<lambda>m. case mg_Question m of [q] \<Rightarrow> Some (zone_bytes (qu_Name q)) | _ \<Rightarrow> None)\<rparr>"

definition sampleRewriter :: Rewriter where
  "sampleRewriter = \<lparr>rw_realPrefix = Prefix (V6 0xfd120000000000000000000000000000 []) 16,
     rw_virtualPrefix = Prefix (V6 0xfd200000000000000000000000000000 []) 16, rw_suffix = ''p.railway.internal.''\<rparr>"

lemma sampleDns_ok: "fqdn_ok sampleDns"
  by (simp add: fqdn_ok_def sampleDns_def)

lemma sampleRewriter_new:
  "NewRewriter sampleDns (Prefix (V6 0xfd120000000000000000000000000000 []) 16)
     (Prefix (V6 0xfd200000000000000000000000000000 []) 16) ''P.railway.internal'' = Inr sampleRewriter"
  by code_simp

text \<open>An answer with an A record, an AAAA record of the real prefix and a long time to live.\<close>

definition sampleRecord :: "rdata \<Rightarrow> RR" where
  "sampleRecord d = \<lparr>rr_Header = \<lparr>rh_Name = ''api.railway.internal.'', rh_Rrtype = 28, rh_Class = 1, rh_Ttl = 300\<rparr>, rr_Data = d\<rparr>"

definition sampleAnswer :: Msg where
  "sampleAnswer = (sampleMsg ''api.railway.internal.'')\<lparr>mg_Answer :=
     [sampleRecord (RR_A [10, 0, 0, 1]), sampleRecord (RR_AAAA (to_be 16 0xfd120000000000000000000000000055))]\<rparr>"

lemma sample_address:
  "virtualAddress sampleRewriter (to_be 16 0xfd120000000000000000000000000055) = Some (to_be 16 0xfd200000000000000000000000000055)"
proof -
  let ?a = "V6 0xfd120000000000000000000000000055 []"
  have "addr_from_slice (to_be 16 0xfd120000000000000000000000000055) = Some ?a" by code_simp
  moreover have "contains (rw_realPrefix sampleRewriter) ?a" by code_simp
  moreover have "(as16 ?a)[0 := as16 (pfx_addr (rw_virtualPrefix sampleRewriter)) ! 0,
      1 := as16 (pfx_addr (rw_virtualPrefix sampleRewriter)) ! 1] = to_be 16 0xfd200000000000000000000000000055" by code_simp
  ultimately show ?thesis by (simp add: virtualAddress_def Let_def del: to_be.simps as16.simps)
qed

lemma sampleAnswer_rewritten:
  "mg_Answer (rewriteResponse sampleDns sampleRewriter sampleAnswer) =
     [\<lparr>rr_Header = \<lparr>rh_Name = ''api.p.railway.internal.'', rh_Rrtype = 28, rh_Class = 1, rh_Ttl = 60\<rparr>,
       rr_Data = RR_AAAA (to_be 16 0xfd200000000000000000000000000055)\<rparr>]"
proof -
  have n: "responseName sampleDns sampleRewriter ''api.railway.internal.'' = ''api.p.railway.internal.''" by code_simp
  have a: "rewriteOne sampleDns sampleRewriter (sampleRecord (RR_A [10, 0, 0, 1])) = None"
    by (simp add: rewriteOne_def sampleRecord_def)
  have b: "rewriteOne sampleDns sampleRewriter (sampleRecord (RR_AAAA (to_be 16 0xfd120000000000000000000000000055))) =
      Some \<lparr>rr_Header = \<lparr>rh_Name = ''api.p.railway.internal.'', rh_Rrtype = 28, rh_Class = 1, rh_Ttl = 60\<rparr>,
       rr_Data = RR_AAAA (to_be 16 0xfd200000000000000000000000000055)\<rparr>"
    unfolding rewriteOne_Some by (simp add: sampleRecord_def n sample_address del: to_be.simps)
  show ?thesis
    by (simp add: rewriteResponse_def rewriteRecords_def sampleAnswer_def List.map_filter_simps a b del: to_be.simps)
qed


theorem query_name_roundtrip_witness:
  "rewriteQuery sampleDns sampleRewriter (sampleMsg ''api.p.railway.internal'') = Inr (sampleMsg ''api.railway.internal.'')
   \<and> map qu_Name (mg_Question (rewriteResponse sampleDns sampleRewriter (sampleMsg ''api.railway.internal.'')))
      = [''api.p.railway.internal.'']"
proof -
  have q: "rewriteQuery sampleDns sampleRewriter (sampleMsg ''api.p.railway.internal'') = Inr (sampleMsg ''api.railway.internal.'')"
    by code_simp
  have n: "dl_Fqdn sampleDns ''api.p.railway.internal'' = ''api.p.railway.internal.''"
      "to_lower ''api.p.railway.internal.'' = ''api.p.railway.internal.''" by code_simp+
  show ?thesis
    using query_name_roundtrip[OF sampleDns_ok sampleRewriter_new q] q n
    by (auto simp: sampleMsg_def list_all2_Cons1 simp del: to_lower_simps)
qed


theorem learned_address_routes_back_witness:
  "\<exists>a'. addr_from_slice (to_be 16 0xfd200000000000000000000000000055) = Some a'
     \<and> translateAddress a' (rw_virtualPrefix sampleRewriter) (rw_realPrefix sampleRewriter)
        = Inr (V6 0xfd120000000000000000000000000055 [])"
proof -
  have "take 2 (as16 (pfx_addr (rw_virtualPrefix sampleRewriter))) \<noteq> [0, 0]" by code_simp
  moreover have "rewriteRecord sampleDns sampleRewriter (RR_AAAA (to_be 16 0xfd120000000000000000000000000055))
      = RR_AAAA (to_be 16 0xfd200000000000000000000000000055)"
    by (simp add: sample_address del: to_be.simps)
  moreover have "addr_from_slice (to_be 16 0xfd120000000000000000000000000055) = Some (V6 0xfd120000000000000000000000000055 [])"
      "contains (rw_realPrefix sampleRewriter) (V6 0xfd120000000000000000000000000055 [])" by code_simp+
  ultimately show ?thesis using learned_address_routes_back[OF sampleRewriter_new] by blast
qed

end
