(* ===== verification/Connector.thy ===== *)
theory Connector
  imports Dnsproxy Config_Load Edge_Udp
begin

text \<open>
  Package \<^verbatim>\<open>internal/connector\<close> (\<^verbatim>\<open>connector.go\<close>): the client that runs inside Railway. It opens a session to the edge,
  checks what the edge answers, and serves UDP flows and TCP streams to the destinations that both sides allow. Flow
  objects live in a heap and the flow map points to them, as the Go map holds pointers; the reader goroutine of a flow
  keeps its object after the map has dropped it. A socket has the number of its flow object. Read deadlines are not
  modelled: the end of a reader is a step of its own that may happen at any time.
\<close>

section \<open>Data\<close>

record Client =
  cl_config :: ConnectorConfig
  cl_version :: string
  cl_started :: int
  cl_dns :: "Rewriter option"
  cl_dnsErr :: "dns_error option"
  cl_dnsAddr :: addr_port

text \<open>\<open>uf_flowID\<close> is the flow id that the reader goroutine is started with.\<close>

record udpFlow =
  uf_flowID :: u64
  uf_source :: addr_port
  uf_destination :: addr_port
  uf_dns :: bool

record udpSession =
  us_client :: Client
  us_routes :: "prefix list"
  us_heap :: "udpFlow list"
  us_flows :: "(u64 \<times> nat) list"
  us_closed :: bool
  us_sockets :: "nat list"
  us_status :: Server

datatype flow_error = SessionClosed | EndpointsChanged | UDPFlowLimitFull | DialFailed

definition maxUDPPayload :: nat where
  "maxUDPPayload = 8 * 1024"

section \<open>The client\<close>

definition dnsAddress :: "prefix \<Rightarrow> addr_port" where
  "dnsAddress p =
     (if \<not> is6 (pfx_addr p) \<or> pfx_bits p \<noteq> 16 then zero_addr_port
      else \<lparr>ap_addr = addr_from16 ((as16 (pfx_addr p))[15 := 0x10]), ap_port = 53\<rparr>)"

definition NewClient :: "dnslib \<Rightarrow> time \<Rightarrow> ConnectorConfig \<Rightarrow> string \<Rightarrow> Client" where
  "NewClient lib now cfg version =
     (let dns = NewRewriter lib (cc_RealPrefix cfg) (cc_VirtualPrefix cfg) (cc_DNSSuffix cfg) in
      \<lparr>cl_config = cfg, cl_version = version, cl_started = now,
       cl_dns = (case dns of Inl _ \<Rightarrow> None | Inr r \<Rightarrow> Some r),
       cl_dnsErr = (case dns of Inl e \<Rightarrow> Some e | Inr _ \<Rightarrow> None),
       cl_dnsAddr = dnsAddress (cc_RealPrefix cfg)\<rparr>)"

text \<open>The hello of either protocol version.\<close>

definition advertisedRoutes :: "Client \<Rightarrow> string list" where
  "advertisedRoutes c = map prefix_string (cc_AllowedDestinations (cl_config c))"

definition helloStatic :: "Client \<Rightarrow> ConnectorHello" where
  "helloStatic c =
     \<lparr>h2_ProtocolVersion = ProtocolVersion, h2_ConnectorID = co_ConnectorID (cc_Common (cl_config c)),
      h2_Environment = co_Environment (cc_Common (cl_config c)), h2_Routes = advertisedRoutes c,
      h2_SoftwareVersion = cl_version c, h2_StartedUnixNano = cl_started c\<rparr>"

definition helloDynamic :: "Client \<Rightarrow> ConnectorHelloV3" where
  "helloDynamic c =
     \<lparr>h3_ProtocolVersion = ProtocolVersionV3, h3_ProjectID = cc_ProjectID (cl_config c),
      h3_EnvironmentID = cc_EnvironmentID (cl_config c), h3_IdentityKeyID = cc_IdentityKeyID (cl_config c),
      h3_Routes = advertisedRoutes c, h3_SoftwareVersion = cl_version c, h3_StartedUnixNano = cl_started c\<rparr>"

datatype serve_error = InvalidSession | PrefixMismatch | SlotMismatch | RoutesRejected config_error

definition validateAccepted :: "Client \<Rightarrow> ConnectorAccepted \<Rightarrow> serve_error option" where
  "validateAccepted c a =
     (let cfg = cl_config c in
      if ca_ConnectorID a \<noteq> co_ConnectorID (cc_Common cfg)
         \<or> parse_prefix (ca_VirtualPrefix a) \<noteq> Some (cc_VirtualPrefix cfg)
         \<or> parse_prefix (ca_RealPrefix a) \<noteq> Some (cc_RealPrefix cfg)
      then Some PrefixMismatch
      else if cc_RegistrationMode cfg \<noteq> ''dynamic''
         \<and> ca_Slot a \<noteq> uint (as16 (pfx_addr (cc_VirtualPrefix cfg)) ! 1 - 0x20) then Some SlotMismatch
      else None)"

text \<open>The answer of the edge to the hello: an error that ends the session, or the routes of the UDP session.\<close>

definition checkAccepted :: "Client \<Rightarrow> ConnectorAccepted \<Rightarrow> serve_error + prefix list" where
  "checkAccepted c a =
     (if ca_SessionID a = [] \<or> ca_MaxTCPFlows a < 1 then Inl InvalidSession
      else case validateAccepted c a of
             Some e \<Rightarrow> Inl e
           | None \<Rightarrow>
               (case ValidateAcceptedRoutes (ca_Routes a) (cc_AllowedDestinations (cl_config c)) of
                  Inl e \<Rightarrow> Inl (RoutesRejected e)
                | Inr routes \<Rightarrow> Inr routes))"

definition newUDPSession :: "Client \<Rightarrow> prefix list \<Rightarrow> Server \<Rightarrow> udpSession" where
  "newUDPSession c routes st =
     \<lparr>us_client = c, us_routes = routes, us_heap = [], us_flows = [], us_closed = False, us_sockets = [],
      us_status = st\<rparr>"

definition serve :: "Client \<Rightarrow> ConnectorAccepted \<Rightarrow> Server \<Rightarrow> serve_error + udpSession" where
  "serve c a st =
     (case checkAccepted c a of
        Inl e \<Rightarrow> Inl e
      | Inr routes \<Rightarrow> Inr (newUDPSession c routes (SetReady True st)))"

text \<open>
  The delay before the next connection attempt; \<open>grow\<close> is the multiplication of a duration by 1.7 in floating point.
  A session that lasted for the longest delay starts again with the shortest one.
\<close>

definition nextDelay :: "(duration \<Rightarrow> duration) \<Rightarrow> ConnectorConfig \<Rightarrow> duration \<Rightarrow> duration" where
  "nextDelay grow cfg delay = min (grow delay) (cc_ReconnectMax cfg)"

definition afterSession :: "(duration \<Rightarrow> duration) \<Rightarrow> ConnectorConfig \<Rightarrow> duration \<Rightarrow> duration \<Rightarrow> duration" where
  "afterSession grow cfg lasted delay =
     (if lasted \<ge> cc_ReconnectMax cfg then cc_ReconnectMin cfg else nextDelay grow cfg delay)"

section \<open>UDP flows\<close>

abbreviation maxFlows :: "udpSession \<Rightarrow> int" where
  "maxFlows s \<equiv> cc_MaxUDPFlows (cl_config (us_client s))"

definition on_us_status :: "(Server \<Rightarrow> Server) \<Rightarrow> udpSession \<Rightarrow> udpSession" where
  "on_us_status f s = s\<lparr>us_status := f (us_status s)\<rparr>"

text \<open>A new flow object and its entry in the map.\<close>

definition insertFlow :: "udpFlow \<Rightarrow> udpSession \<Rightarrow> udpSession" where
  "insertFlow f s =
     s\<lparr>us_heap := us_heap s @ [f], us_flows := us_flows s @ [(uf_flowID f, length (us_heap s))],
       us_status := UDPFlowStarted (us_status s)\<rparr>"

definition deleteFlow :: "udpFlow \<Rightarrow> udpSession \<Rightarrow> udpSession" where
  "deleteFlow f s =
     s\<lparr>us_flows := filter (\<lambda>(i, n). i \<noteq> uf_flowID f) (us_flows s), us_status := UDPFlowEnded (us_status s)\<rparr>"

definition newUDPFlow :: "Client \<Rightarrow> UDPDatagram \<Rightarrow> udpFlow" where
  "newUDPFlow c packet =
     \<lparr>uf_flowID = ud_FlowID packet, uf_source = ud_Source packet, uf_destination = ud_Destination packet,
      uf_dns = (cl_dns c \<noteq> None \<and> ud_Destination packet = cl_dnsAddr c)\<rparr>"

text \<open>\<open>dialed\<close> tells whether the socket to the destination can be opened.\<close>

definition flow :: "bool \<Rightarrow> UDPDatagram \<Rightarrow> udpSession \<Rightarrow> udpSession \<times> (flow_error + nat)" where
  "flow dialed packet s =
     (if us_closed s then (s, Inl SessionClosed)
      else case map_of (us_flows s) (ud_FlowID packet) of
             Some n \<Rightarrow>
               if uf_source (us_heap s ! n) \<noteq> ud_Source packet \<or> uf_destination (us_heap s ! n) \<noteq> ud_Destination packet
               then (s, Inl EndpointsChanged) else (s, Inr n)
           | None \<Rightarrow>
               if int (length (us_flows s)) \<ge> maxFlows s then (s, Inl UDPFlowLimitFull)
               else if \<not> dialed then (s, Inl DialFailed)
               else (insertFlow (newUDPFlow (us_client s) packet) s, Inr (length (us_heap s))))"

text \<open>
  One datagram from the edge: the new session and, if it is accepted, the socket and the payload that is written to it.
  \<open>written\<close> tells whether the write succeeds.
\<close>

definition receiveDatagram ::
    "dnslib \<Rightarrow> bool \<Rightarrow> bool \<Rightarrow> bytes \<Rightarrow> udpSession \<Rightarrow> udpSession \<times> (nat \<times> bytes) option" where
  "receiveDatagram lib dialed written data s =
     (case DecodeUDP data of
        Inl _ \<Rightarrow> (on_us_status DatagramDropped s, None)
      | Inr packet \<Rightarrow>
          if ud_Response packet then (on_us_status DatagramDropped s, None)
          else if \<not> Allowed (us_routes s) (unmap (ap_addr (ud_Destination packet)))
          then (on_us_status (\<lambda>st. DatagramDropped (Denied st)) s, None)
          else
            (case flow dialed packet s of
               (s1, Inl _) \<Rightarrow> (on_us_status DatagramDropped s1, None)
             | (s1, Inr n) \<Rightarrow>
                 (case (if uf_dns (us_heap s1 ! n) then
                          (case cl_dns (us_client s1) of
                             Some r \<Rightarrow> DNSQuery lib r (ud_Payload packet)
                           | None \<Rightarrow> Inl DecodeFailed)
                        else Inr (ud_Payload packet)) of
                    Inl _ \<Rightarrow> (on_us_status DatagramDropped s1, None)
                  | Inr payload \<Rightarrow> (if written then s1 else on_us_status DatagramDropped s1, Some (n, payload)))))"

datatype send_result = Sent | TooLarge | SendFailed

text \<open>
  One datagram that the reader of flow object \<open>n\<close> gets from its socket, cut to the size of the buffer: the session, the
  datagram that is sent to the edge, and whether the reader goes on.
\<close>

definition readResponse ::
    "dnslib \<Rightarrow> send_result \<Rightarrow> nat \<Rightarrow> bytes \<Rightarrow> udpSession \<Rightarrow> udpSession \<times> bytes option \<times> bool" where
  "readResponse lib sent n datagram s =
     (let f = us_heap s ! n; buffer = take maxUDPPayload datagram; dropped = on_us_status DatagramDropped s in
      case (if uf_dns f then
              (case cl_dns (us_client s) of Some r \<Rightarrow> DNSResponse lib r buffer | None \<Rightarrow> Inl DecodeFailed)
            else Inr buffer) of
        Inl _ \<Rightarrow> (dropped, None, True)
      | Inr payload \<Rightarrow>
          (case EncodeUDP \<lparr>ud_FlowID = uf_flowID f, ud_Response = True, ud_Source = uf_destination f,
                           ud_Destination = uf_source f, ud_Payload = payload\<rparr> of
             Inl _ \<Rightarrow> (dropped, None, False)
           | Inr packet \<Rightarrow>
               (case sent of
                  Sent \<Rightarrow> (s, Some packet, True)
                | TooLarge \<Rightarrow> (dropped, None, True)
                | SendFailed \<Rightarrow> (dropped, None, False))))"

text \<open>The end of a reader: its socket is closed and its flow leaves the map, if the map still holds it.\<close>

definition readerEnds :: "nat \<Rightarrow> udpSession \<Rightarrow> udpSession" where
  "readerEnds n s =
     (let f = us_heap s ! n; s1 = s\<lparr>us_sockets := us_sockets s @ [n]\<rparr>
      in if map_of (us_flows s1) (uf_flowID f) = Some n then deleteFlow f s1 else s1)"

definition closeSession :: "udpSession \<Rightarrow> udpSession" where
  "closeSession s =
     (if us_closed s then s
      else s\<lparr>us_closed := True, us_flows := [], us_sockets := us_sockets s @ map snd (us_flows s),
             us_status := fold (\<lambda>_. UDPFlowEnded) (us_flows s) (us_status s)\<rparr>)"

section \<open>TCP streams\<close>

datatype dial_error = DialDeadline | DialUnreachable

text \<open>
  Opening the destination of a stream: the status, the answer that is written to the stream, the deadline of the dial and
  the error code of the log line (empty if the stream is open). \<open>request\<close> is none if the request frame cannot be read,
  \<open>written\<close> tells whether the positive answer can be written.
\<close>

definition openStream ::
    "time \<Rightarrow> OpenTCP option \<Rightarrow> (time \<Rightarrow> dial_error option) \<Rightarrow> bool \<Rightarrow> Client \<Rightarrow> prefix list \<Rightarrow> Server
     \<Rightarrow> Server \<times> OpenTCPResult option \<times> time option \<times> string" where
  "openStream now request dial written c routes st =
     (case request of
        None \<Rightarrow> (st, None, None, ''INTERNAL_ERROR'')
      | Some r \<Rightarrow>
          (let refused = (\<lambda>code. Some \<lparr>or_Accepted = False, or_Code = code\<rparr>) in
           case parse_addr_port (ot_Destination r) of
             None \<Rightarrow> (Denied st, refused ''DESTINATION_DENIED'', None, ''DESTINATION_DENIED'')
           | Some destination \<Rightarrow>
               if \<not> Allowed routes (unmap (ap_addr destination))
               then (Denied st, refused ''DESTINATION_DENIED'', None, ''DESTINATION_DENIED'')
               else if ot_DeadlineUnixMS r \<le> 0 \<or> \<not> ot_DeadlineUnixMS r * 1000000 > now
               then (st, refused ''DEADLINE_EXCEEDED'', None, ''DEADLINE_EXCEEDED'')
               else
                 (let deadline = min (ot_DeadlineUnixMS r * 1000000) (now + cc_DialTimeout (cl_config c)) in
                  case dial deadline of
                    Some e \<Rightarrow>
                      (let code = (if e = DialDeadline then ''DEADLINE_EXCEEDED'' else ''DESTINATION_UNREACHABLE'')
                       in (st, refused code, Some deadline, code))
                  | None \<Rightarrow>
                      if \<not> written then (st, None, Some deadline, ''INTERNAL_ERROR'')
                      else (FlowStarted st, Some \<lparr>or_Accepted = True, or_Code = []\<rparr>, Some deadline, []))))"

text \<open>Whether the open stream is served by the DNS proxy, and the end of the stream.\<close>

definition servedByDNS :: "Client \<Rightarrow> addr_port \<Rightarrow> bool" where
  "servedByDNS c destination \<longleftrightarrow> cl_dns c \<noteq> None \<and> destination = cl_dnsAddr c"

definition finishStream :: "bool \<Rightarrow> Server \<Rightarrow> Server \<times> string" where
  "finishStream copied st = (FlowEnded st, if copied then [] else ''COPY_FAILED'')"

section \<open>The invariant of the UDP session\<close>

definition flows_ok :: "udpSession \<Rightarrow> bool" where
  "flows_ok s \<longleftrightarrow> distinct (map snd (us_flows s)) \<and>
     (\<forall>(i, n)\<in>set (us_flows s). n < length (us_heap s) \<and> uf_flowID (us_heap s ! n) = i \<and> n \<notin> set (us_sockets s))"

text \<open>Every object was admitted: its destination is allowed, and it is a DNS flow exactly if it goes to the name server.\<close>

definition heap_ok :: "udpSession \<Rightarrow> bool" where
  "heap_ok s \<longleftrightarrow> (\<forall>f\<in>set (us_heap s). Allowed (us_routes s) (unmap (ap_addr (uf_destination f)))
     \<and> uf_dns f = (cl_dns (us_client s) \<noteq> None \<and> uf_destination f = cl_dnsAddr (us_client s)))"

text \<open>No socket leaks: an object outside the map has its socket closed.\<close>

definition sockets_closed :: "udpSession \<Rightarrow> bool" where
  "sockets_closed s \<longleftrightarrow> (\<forall>n<length (us_heap s). n \<in> set (us_sockets s) \<or> n \<in> snd ` set (us_flows s))"

abbreviation flowIDs :: "udpSession \<Rightarrow> u64 list" where
  "flowIDs s \<equiv> map fst (us_flows s)"

abbreviation sessionGauge :: "udpSession \<Rightarrow> int" where
  "sessionGauge s \<equiv> sv_udpActive (us_status s)"

definition session_inv :: "udpSession \<Rightarrow> bool" where
  "session_inv s \<longleftrightarrow> table_sound (flowIDs s) (sessionGauge s) (maxFlows s) \<and> flows_ok s \<and> heap_ok s \<and> sockets_closed s
     \<and> (us_closed s \<longrightarrow> us_flows s = [])"

interpretation connector_table: flow_table flowIDs sessionGauge maxFlows uf_flowID insertFlow deleteFlow
  by unfold_locales
     (simp_all add: insertFlow_def deleteFlow_def UDPFlowStarted_def UDPFlowEnded_def filter_map comp_def case_prod_unfold)

end
