(* ===== verification/Connector_Udp.thy ===== *)
theory Connector_Udp
  imports Connector
begin

text \<open>
  The UDP session of the connector as a machine: the invariant of its flow table in every reachable state, and the end
  of the session.
\<close>

section \<open>Every operation keeps the invariant\<close>

lemma session_inv_new:
  "sv_udpActive st = 0 \<Longrightarrow> 0 \<le> cc_MaxUDPFlows (cl_config c) \<Longrightarrow> session_inv (newUDPSession c routes st)"
  by (auto simp: session_inv_def newUDPSession_def table_sound_def flows_ok_def heap_ok_def sockets_closed_def)

lemma session_inv_status: "sv_udpActive st = sessionGauge s \<Longrightarrow> session_inv s \<Longrightarrow> session_inv (s\<lparr>us_status := st\<rparr>)"
  by (simp add: session_inv_def flows_ok_def heap_ok_def sockets_closed_def)

lemma session_inv_dropped [simp]:
  "session_inv s \<Longrightarrow> session_inv (on_us_status DatagramDropped s)"
  "session_inv s \<Longrightarrow> session_inv (on_us_status (\<lambda>st. DatagramDropped (Denied st)) s)"
  by (simp_all add: on_us_status_def session_inv_status DatagramDropped_def Denied_def)

lemma session_inv_insert:
  assumes inv: "session_inv s" and room: "int (length (us_flows s)) < maxFlows s" "uf_flowID f \<notin> set (flowIDs s)" "\<not> us_closed s"
    and ok: "Allowed (us_routes s) (unmap (ap_addr (uf_destination f)))"
      "uf_dns f = (cl_dns (us_client s) \<noteq> None \<and> uf_destination f = cl_dnsAddr (us_client s))"
    and open_socket: "length (us_heap s) \<notin> set (us_sockets s)"
  shows "session_inv (insertFlow f s)"
proof -
  have parts: "table_sound (flowIDs s) (sessionGauge s) (maxFlows s)" "flows_ok s" "heap_ok s" "sockets_closed s"
    using inv by (auto simp: session_inv_def)
  have "table_sound (flowIDs (insertFlow f s)) (sessionGauge (insertFlow f s)) (maxFlows (insertFlow f s))"
    using parts(1) room by (intro connector_table.ins_sound) auto
  moreover have "flows_ok (insertFlow f s)"
    using parts(2) open_socket unfolding flows_ok_def insertFlow_def by (fastforce simp: nth_append)
  moreover have "heap_ok (insertFlow f s)" using parts(3) ok by (auto simp: heap_ok_def insertFlow_def)
  moreover have "sockets_closed (insertFlow f s)"
    using parts(4) by (auto simp: sockets_closed_def insertFlow_def less_Suc_eq)
  ultimately show ?thesis using room(3) by (simp add: session_inv_def insertFlow_def)
qed

text \<open>Sockets of objects that do not exist yet are never closed.\<close>

definition sockets_known :: "udpSession \<Rightarrow> bool" where
  "sockets_known s \<longleftrightarrow> (\<forall>n\<in>set (us_sockets s). n < length (us_heap s))"

lemma map_of_fst_None: "map_of xs k = None \<Longrightarrow> k \<notin> set (map fst xs)"
  by (simp add: map_of_eq_None_iff)

lemma session_inv_flow:
  assumes inv: "session_inv s" "sockets_known s" and allowed: "Allowed (us_routes s) (unmap (ap_addr (ud_Destination packet)))"
  shows "session_inv (fst (flow dialed packet s)) \<and> sockets_known (fst (flow dialed packet s))"
proof (cases "\<not> us_closed s \<and> map_of (us_flows s) (ud_FlowID packet) = None \<and> int (length (us_flows s)) < maxFlows s \<and> dialed")
  case True
  let ?f = "newUDPFlow (us_client s) packet"
  have "session_inv (insertFlow ?f s)"
    using True inv allowed map_of_fst_None[of "us_flows s" "ud_FlowID packet"]
    by (intro session_inv_insert) (auto simp: newUDPFlow_def sockets_known_def)
  moreover have "sockets_known (insertFlow ?f s)" using inv(2) by (auto simp: sockets_known_def insertFlow_def)
  ultimately show ?thesis using True by (simp add: flow_def)
next
  case False
  then have "fst (flow dialed packet s) = s" by (auto simp: flow_def split: option.split)
  then show ?thesis using inv by simp
qed

lemma us_frame [simp]:
  "us_client (on_us_status f s) = us_client s" "us_routes (on_us_status f s) = us_routes s"
  "us_heap (on_us_status f s) = us_heap s" "us_flows (on_us_status f s) = us_flows s"
  "us_closed (on_us_status f s) = us_closed s" "us_sockets (on_us_status f s) = us_sockets s"
  by (simp_all add: on_us_status_def)

lemma sockets_known_status [simp]: "sockets_known (on_us_status f s) = sockets_known s"
  by (simp add: sockets_known_def)

definition session_good :: "udpSession \<Rightarrow> bool" where
  "session_good s \<longleftrightarrow> session_inv s \<and> sockets_known s"

text \<open>A datagram is refused, or it goes through the flow table; either way only the counters change after that.\<close>

lemma receiveDatagram_state:
  obtains "fst (receiveDatagram lib dialed written data s) = on_us_status DatagramDropped s"
  | "fst (receiveDatagram lib dialed written data s) = on_us_status (\<lambda>st. DatagramDropped (Denied st)) s"
  | packet where "Allowed (us_routes s) (unmap (ap_addr (ud_Destination packet)))"
      "fst (receiveDatagram lib dialed written data s) = fst (flow dialed packet s)
       \<or> fst (receiveDatagram lib dialed written data s) = on_us_status DatagramDropped (fst (flow dialed packet s))"
proof (cases "DecodeUDP data")
  case (Inl e)
  then show ?thesis using that(1) by (simp add: receiveDatagram_def)
next
  case (Inr packet)
  obtain s1 res where fl: "flow dialed packet s = (s1, res)" by (cases "flow dialed packet s")
  consider "ud_Response packet" | "\<not> Allowed (us_routes s) (unmap (ap_addr (ud_Destination packet)))" "\<not> ud_Response packet"
    | "Allowed (us_routes s) (unmap (ap_addr (ud_Destination packet)))" "\<not> ud_Response packet" by blast
  then show ?thesis
  proof cases
    case 3
    then have "fst (receiveDatagram lib dialed written data s) \<in> {s1, on_us_status DatagramDropped s1}"
      using Inr fl by (auto simp: receiveDatagram_def split: sum.split)
    then show ?thesis using that(3)[OF 3(1)] fl by auto
  qed (use that(1,2) Inr in \<open>simp_all add: receiveDatagram_def\<close>)
qed

lemma session_good_receive:
  assumes "session_good s"
  shows "session_good (fst (receiveDatagram lib dialed written data s))"
  using assms session_inv_flow[of s _ dialed]
  by (cases rule: receiveDatagram_state[of lib dialed written data s]) (auto simp: session_good_def)

lemma session_good_response: "session_good s \<Longrightarrow> session_good (fst (readResponse lib sent n datagram s))"
  by (auto simp: readResponse_def session_good_def Let_def split: sum.split send_result.split)

lemma session_good_readerEnds:
  assumes "session_good s" "n < length (us_heap s)"
  shows "session_good (readerEnds n s)"
proof -
  let ?f = "us_heap s ! n" and ?s1 = "s\<lparr>us_sockets := us_sockets s @ [n]\<rparr>"
  have parts: "table_sound (flowIDs s) (sessionGauge s) (maxFlows s)" "flows_ok s" "heap_ok s" "sockets_closed s"
      "us_closed s \<Longrightarrow> us_flows s = []" "sockets_known s"
    using assms(1) by (auto simp: session_good_def session_inv_def)
  have d: "distinct (flowIDs s)" using parts(1) by (simp add: table_sound_def)
  show ?thesis
  proof (cases "map_of (us_flows s) (uf_flowID ?f) = Some n")
    case True
    then have live: "(uf_flowID ?f, n) \<in> set (us_flows s)" by (rule map_of_SomeD)
    then have only: "(i, n) \<in> set (us_flows s) \<Longrightarrow> i = uf_flowID ?f" for i
      using parts(2) by (auto simp: flows_ok_def)
    have same: "(uf_flowID ?f, k) \<in> set (us_flows s) \<Longrightarrow> k = n" for k
      using live d by (metis True map_of_is_SomeI option.inject)
    have "table_sound (flowIDs (deleteFlow ?f ?s1)) (sessionGauge (deleteFlow ?f ?s1)) (maxFlows (deleteFlow ?f ?s1))"
      using parts(1) live by (intro connector_table.del_sound) force+
    moreover have "flows_ok (deleteFlow ?f ?s1)"
      using parts(2) only by (auto simp: flows_ok_def deleteFlow_def distinct_map inj_on_def)
    moreover have "sockets_closed (deleteFlow ?f ?s1)"
      using parts(4) same unfolding sockets_closed_def deleteFlow_def by (force simp: image_iff)
    ultimately show ?thesis
      using True parts assms(2)
      by (auto simp: readerEnds_def session_good_def session_inv_def heap_ok_def sockets_known_def deleteFlow_def)
  next
    case False
    have "n \<notin> snd ` set (us_flows s)"
    proof
      assume "n \<in> snd ` set (us_flows s)"
      then have "(uf_flowID ?f, n) \<in> set (us_flows s)" using parts(2) by (auto simp: flows_ok_def)
      then show False using False d by (simp add: map_of_is_SomeI)
    qed
    then show ?thesis
      using False parts assms(2)
      by (auto simp: readerEnds_def Let_def session_good_def session_inv_def flows_ok_def heap_ok_def sockets_closed_def
          sockets_known_def)
  qed
qed

lemma fold_UDPFlowEnded: "fold (\<lambda>_. UDPFlowEnded) xs st = st\<lparr>sv_udpActive := sv_udpActive st - int (length xs)\<rparr>"
  by (induction xs arbitrary: st) (simp_all add: UDPFlowEnded_def)

lemma session_good_close: "session_good s \<Longrightarrow> session_good (closeSession s)"
  by (auto simp: closeSession_def session_good_def session_inv_def table_sound_def flows_ok_def heap_ok_def
      sockets_closed_def sockets_known_def fold_UDPFlowEnded)

section \<open>The session as a machine\<close>

inductive session_step :: "udpSession \<Rightarrow> udpSession \<Rightarrow> bool" where
  receive: "session_step s (fst (receiveDatagram lib dialed written data s))"
| response: "n < length (us_heap s) \<Longrightarrow> session_step s (fst (readResponse lib sent n datagram s))"
| reader_ends: "n < length (us_heap s) \<Longrightarrow> session_step s (readerEnds n s)"
| close: "session_step s (closeSession s)"
| other: "sv_udpActive st = sessionGauge s \<Longrightarrow> session_step s (s\<lparr>us_status := st\<rparr>)"

inductive_cases session_stepE: "session_step s t"

lemma session_step_good: "session_step s t \<Longrightarrow> session_good s \<Longrightarrow> session_good t"
  by (induction rule: session_step.induct)
     (simp_all add: session_good_receive session_good_response session_good_readerEnds session_good_close,
      simp add: session_good_def session_inv_status sockets_known_def)

interpretation connector_session: machine session_step session_good
  by unfold_locales (rule session_step_good)

text \<open>What no step changes: the client, the routes and the objects; a closed session stays closed.\<close>

definition session_grows :: "udpSession \<Rightarrow> udpSession \<Rightarrow> bool" where
  "session_grows s t \<longleftrightarrow> us_client t = us_client s \<and> us_routes t = us_routes s \<and> (\<exists>fs. us_heap t = us_heap s @ fs)
     \<and> (us_closed s \<longrightarrow> us_closed t)"

lemma session_grows_refl [simp]: "session_grows s s"
  by (simp add: session_grows_def)

lemma session_grows_trans: "session_grows s t \<Longrightarrow> session_grows t u \<Longrightarrow> session_grows s u"
  by (auto simp: session_grows_def)

lemma session_grows_flow: "session_grows s (fst (flow dialed packet s))"
  by (auto simp: flow_def session_grows_def insertFlow_def split: option.split)

lemma session_grows_status [simp]: "session_grows s (on_us_status f t) = session_grows s t"
  by (simp add: session_grows_def)

lemma session_step_extends: "session_step s t \<Longrightarrow> session_grows s t"
proof (induction rule: session_step.induct)
  case (receive s lib dialed written data)
  show ?case
    using session_grows_flow[of s dialed] by (cases rule: receiveDatagram_state[of lib dialed written data s]) auto
qed (auto simp: readResponse_def readerEnds_def closeSession_def deleteFlow_def Let_def session_grows_def
      split: sum.split send_result.split)

interpretation connector_history: layered_machine session_step session_good "session_grows s" for s
  by unfold_locales (rule session_grows_trans, assumption, rule session_step_extends)

text \<open>
  C14. In every state that a UDP session of the connector reaches, at most the configured number of flows is open and the
  gauge of active flows equals their number; every flow goes to a destination that both the edge and the connector allow,
  and only those to the name server are rewritten as DNS; an open socket belongs to a flow in the table. Once the session
  is closed it has no flow, every socket is closed, and the gauge is zero, whatever its goroutines still do.
\<close>

theorem connector_udp_reachable:
  assumes "serve c a st = Inr s0" and "sv_udpActive st = 0" and "0 \<le> cc_MaxUDPFlows (cl_config c)"
    and "session_step\<^sup>*\<^sup>* s0 s"
  shows "int (length (us_flows s)) \<le> cc_MaxUDPFlows (cl_config c) \<and> sv_udpActive (us_status s) = int (length (us_flows s))
    \<and> (\<forall>f\<in>set (us_heap s). Allowed (us_routes s0) (unmap (ap_addr (uf_destination f)))
        \<and> uf_dns f = (cl_dns c \<noteq> None \<and> uf_destination f = cl_dnsAddr c))
    \<and> (\<forall>n<length (us_heap s). n \<notin> set (us_sockets s) \<longrightarrow> (uf_flowID (us_heap s ! n), n) \<in> set (us_flows s))
    \<and> (\<forall>t. session_step\<^sup>*\<^sup>* (closeSession s) t \<longrightarrow>
        us_flows t = [] \<and> sv_udpActive (us_status t) = 0 \<and> {..<length (us_heap t)} \<subseteq> set (us_sockets t))"
proof -
  obtain routes where s0: "s0 = newUDPSession c routes (SetReady True st)"
    using assms(1) by (auto simp: serve_def split: sum.splits)
  have good0: "session_good s0"
    using assms(2,3) session_inv_new[of "SetReady True st" c routes]
    by (simp add: s0 session_good_def SetReady_def sockets_known_def newUDPSession_def)
  have s: "session_good s" "session_grows s0 s"
    using connector_history.steps_both[OF assms(4) good0 session_grows_refl] by auto
  have c: "us_client s = c" "us_routes s = us_routes s0" using s(2) by (auto simp: session_grows_def s0 newUDPSession_def)
  have parts: "table_sound (flowIDs s) (sessionGauge s) (maxFlows s)" "flows_ok s" "heap_ok s" "sockets_closed s"
    using s(1) by (auto simp: session_good_def session_inv_def)
  have "us_flows t = [] \<and> sv_udpActive (us_status t) = 0 \<and> {..<length (us_heap t)} \<subseteq> set (us_sockets t)"
    if "session_step\<^sup>*\<^sup>* (closeSession s) t" for t
  proof -
    have t: "session_good t" "session_grows (closeSession s) t"
      using connector_history.steps_both[OF that session_good_close[OF s(1)] session_grows_refl] by auto
    have "us_closed (closeSession s)" by (simp add: closeSession_def)
    then have "us_flows t = []" using t by (auto simp: session_grows_def session_good_def session_inv_def)
    then show ?thesis using t(1) by (auto simp: session_good_def session_inv_def table_sound_def sockets_closed_def)
  qed
  moreover have "(uf_flowID (us_heap s ! n), n) \<in> set (us_flows s)" if n: "n < length (us_heap s)" "n \<notin> set (us_sockets s)" for n
  proof -
    obtain i where "(i, n) \<in> set (us_flows s)" using n parts(4) by (auto simp: sockets_closed_def)
    then show ?thesis using parts(2) by (auto simp: flows_ok_def)
  qed
  ultimately show ?thesis using parts(1,3) c by (auto simp: table_sound_def heap_ok_def)
qed

end
