(* ===== verification/Udp_Path.thy ===== *)
theory Udp_Path
  imports Edge_Findings Connector_Udp Dnsproxy_Props
begin

text \<open>
  The way of a UDP datagram through both programs: from a client of the tailnet to the edge, over the session to the
  connector, to the service, and back. The connector's and the edge's tables may change in between.
\<close>

section \<open>What never changes of a flow of the edge\<close>

definition same_flow :: "edgeUDPFlow \<Rightarrow> edgeUDPFlow \<Rightarrow> bool" where
  "same_flow f g \<longleftrightarrow> g\<lparr>fl_lastUsed := 0\<rparr> = f\<lparr>fl_lastUsed := 0\<rparr>"

lemma same_flow_fields:
  "same_flow f g \<Longrightarrow> fl_id g = fl_id f \<and> fl_session g = fl_session f \<and> fl_source g = fl_source f
     \<and> fl_destination g = fl_destination f \<and> fl_translated g = fl_translated f \<and> fl_sharedReply g = fl_sharedReply f"
  by (cases f; cases g) (simp add: same_flow_def)

definition keeps_flow :: "u64 \<Rightarrow> edgeUDPFlow \<Rightarrow> edgeUDP \<Rightarrow> bool" where
  "keeps_flow i f s \<longleftrightarrow> (\<exists>g. eu_heap s i = Some g \<and> same_flow f g)"

lemma keeps_touch: "keeps_flow i f s \<Longrightarrow> keeps_flow i f (touch now j s)"
  by (auto simp: keeps_flow_def touch_def same_flow_def)

lemma heap_closeUDPSession: "eu_heap (closeUDPSession active s) = eu_heap s"
proof -
  have "eu_heap (fold (closeSessionFlow active) ids t) = eu_heap t" for t ids
    by (induction ids arbitrary: t) (auto simp: closeSessionFlow_def removeFlow_def split: option.split)
  then show ?thesis by (simp add: closeUDPSession_def)
qed

lemma keeps_add:
  assumes "udp_inv s" "eu_flowID s \<noteq> -1" "keeps_flow i f s" "fl_id g = eu_flowID s + 1"
  shows "keeps_flow i f (addFlow g s)"
proof -
  have "eu_flowID s < fl_id g" using assms(2,4) by (simp add: less_succ)
  moreover have "i \<le> eu_flowID s" using assms(1,3) by (auto simp: keeps_flow_def udp_inv_def dest: index_heap)
  ultimately show ?thesis using assms(3) by (auto simp: keeps_flow_def addFlow_def)
qed

lemma keeps_step: "edge_udp_step s t \<Longrightarrow> udp_inv s \<Longrightarrow> keeps_flow i f s \<Longrightarrow> keeps_flow i f t"
proof (induction rule: edge_udp_step.induct)
  case (flow s now opened active key src dst tr given shared)
  then show ?case
    by (auto simp: edgeUDPFlowWithReply_def Let_def keeps_touch newFlow_def intro!: keeps_add split: option.split)
next
  case (receive s now written active data)
  have "keeps_flow i f (t\<lparr>eu_status := st\<rparr>) = keeps_flow i f t" for t st by (simp add: keeps_flow_def)
  then show ?case using receive keeps_touch by (auto simp: receiveUDP_def Let_def split: sum.split option.split)
next
  case (tick s now j)
  then show ?case by (auto simp: idleTick_def keeps_flow_def removeFlow_def split: option.split)
qed (auto simp: keeps_flow_def heap_closeUDPSession closeUDPFlows_eq nextFlowID_def)

interpretation edge_flows: layered_machine edge_udp_step udp_inv "keeps_flow i f" for i f
  by unfold_locales (rule keeps_step)

section \<open>The two ends\<close>

lemma route_source: "route destination s = Some (n, translated) \<Longrightarrow> \<not> addr_port_valid translated \<Longrightarrow> translated = destination"
  using translate_bytes(1)
  by (fastforce simp: route_def translateAddrPort_def addr_port_valid_def split: option.splits if_splits sum.splits)

text \<open>A datagram that the edge forwards as the first of its flow.\<close>

lemma acceptUDP_new_flow:
  assumes sent: "acceptUDP now opened True (Some control) source payload s = (s1, Some (n, packet))"
    and dest: "originalUDPDestination control = Some destination"
    and fresh: "eu_byKey (es_udp s) (ss_id (es_sessions s ! n) @ ''|'' @ addr_port_string source @ ''|''
                  @ addr_port_string destination) = None"
  shows "\<exists>translated key. route destination s = Some (n, translated)
    \<and> es_udp s1 = addFlow (newFlow now (eu_flowID (es_udp s) + 1) n key source destination translated False) (es_udp s)
    \<and> DecodeUDP packet = Inr \<lparr>ud_FlowID = eu_flowID (es_udp s) + 1, ud_Response = False, ud_Source = source,
        ud_Destination = translated, ud_Payload = payload\<rparr>"
proof -
  obtain translated where r: "route destination s = Some (n, translated)"
    using sent dest by (auto simp: acceptUDP_def Let_def on_udp_def split: option.splits prod.splits sum.splits)
  define key where "key = ss_id (es_sessions s ! n) @ ''|'' @ addr_port_string source @ ''|'' @ addr_port_string destination"
  obtain u i where f: "edgeUDPFlowWithReply now opened n key source destination translated False False (es_udp s) = (u, Inr i)"
      "es_udp s1 = u" "EncodeUDP \<lparr>ud_FlowID = i, ud_Response = False, ud_Source = source, ud_Destination = translated,
        ud_Payload = payload\<rparr> = Inr packet"
    using sent dest r by (auto simp: acceptUDP_def key_def Let_def on_udp_def split: prod.splits sum.splits)
  have "u = addFlow (newFlow now (eu_flowID (es_udp s) + 1) n key source destination translated False) (es_udp s)"
      "i = eu_flowID (es_udp s) + 1"
    using f(1) fresh unfolding key_def[symmetric]
    by (auto simp: edgeUDPFlowWithReply_def Let_def newFlow_def split: if_splits)
  then show ?thesis using r f EncodeUDP_decodes[OF f(3)] by auto
qed

text \<open>What the connector does with an accepted datagram and with a response.\<close>

lemma receiveDatagram_flow:
  assumes "receiveDatagram lib dialed written packet c = (c1, Some (k, out))" and "DecodeUDP packet = Inr p" and "session_good c"
  shows "k < length (us_heap c1) \<and> uf_flowID (us_heap c1 ! k) = ud_FlowID p \<and> uf_source (us_heap c1 ! k) = ud_Source p
    \<and> uf_destination (us_heap c1 ! k) = ud_Destination p \<and> (\<not> uf_dns (us_heap c1 ! k) \<longrightarrow> out = ud_Payload p)
    \<and> Allowed (us_routes c) (unmap (ap_addr (ud_Destination p)))"
proof -
  obtain s1 where s1: "flow dialed p c = (s1, Inr k)" "us_heap c1 = us_heap s1" "Allowed (us_routes c) (unmap (ap_addr (ud_Destination p)))"
      "\<not> uf_dns (us_heap s1 ! k) \<Longrightarrow> out = ud_Payload p"
    using assms(1,2) by (auto simp: receiveDatagram_def split: if_splits prod.splits sum.splits)
  have known: "(i, n) \<in> set (us_flows c) \<Longrightarrow> n < length (us_heap c) \<and> uf_flowID (us_heap c ! n) = i" for i n
    using assms(3) by (auto simp: session_good_def session_inv_def flows_ok_def)
  have "k < length (us_heap s1) \<and> uf_flowID (us_heap s1 ! k) = ud_FlowID p \<and> uf_source (us_heap s1 ! k) = ud_Source p
      \<and> uf_destination (us_heap s1 ! k) = ud_Destination p"
    using s1(1) known[OF map_of_SomeD]
    by (auto simp: flow_def insertFlow_def newUDPFlow_def split: if_splits option.splits)
  then show ?thesis using s1 by simp
qed

lemma readResponse_packet:
  assumes "readResponse lib sent k datagram c = (c', Some reply, go)"
  shows "\<exists>d. DecodeUDP reply = Inr \<lparr>ud_FlowID = uf_flowID (us_heap c ! k), ud_Response = True,
      ud_Source = uf_destination (us_heap c ! k), ud_Destination = uf_source (us_heap c ! k), ud_Payload = d\<rparr>
    \<and> (\<not> uf_dns (us_heap c ! k) \<longrightarrow> d = take maxUDPPayload datagram)"
  using assms EncodeUDP_decodes
  by (fastforce simp: readResponse_def Let_def split: sum.splits send_result.splits if_splits)

section \<open>The property\<close>

text \<open>
  C1. A datagram of a client reaches the service behind the virtual address, and the answer reaches the client: when the
  edge forwards the first datagram of a flow and the connector accepts it, the connector writes the payload to a socket
  to the translated address, which is allowed on both sides. Every datagram that this socket receives later, after any
  steps of the connector's session, is delivered by the edge, after any steps of its table that keep the flow, to the
  client that sent the first one, over the reply socket that is bound to the virtual address. The payloads are unchanged
  (an answer is cut to 8192 bytes) unless the flow goes to the name server.
\<close>

theorem udp_end_to_end:
  assumes inv: "udp_inv (es_udp s)" "eu_flowID (es_udp s) \<noteq> -1" "session_good c"
    and sent: "acceptUDP now opened True (Some control) source payload s = (s1, Some (n, packet))"
    and dest: "originalUDPDestination control = Some destination"
    and fresh: "eu_byKey (es_udp s) (ss_id (es_sessions s ! n) @ ''|'' @ addr_port_string source @ ''|''
                  @ addr_port_string destination) = None"
    and received: "receiveDatagram lib dialed written packet c = (c1, Some (k, out))"
    and later_c: "session_step\<^sup>*\<^sup>* c1 c2" and answer: "readResponse lib Sent k datagram c2 = (c3, Some reply, True)"
    and later_e: "edge_udp_step\<^sup>*\<^sup>* (es_udp s1) u" "eu_flowID (es_udp s) + 1 \<in> set (eu_byID u)"
  shows "\<exists>translated f d. route destination s = Some (n, translated)
    \<and> uf_destination (us_heap c1 ! k) = translated \<and> Allowed (us_routes c) (unmap (ap_addr translated))
    \<and> (\<not> uf_dns (us_heap c1 ! k) \<longrightarrow> out = payload \<and> d = take maxUDPPayload datagram)
    \<and> liveFlow u (fl_id f) = Some f \<and> fl_destination f = destination \<and> \<not> fl_sharedReply f
    \<and> snd (receiveUDP later True n reply u) = Some (fl_id f, d, source)"
proof -
  let ?i = "eu_flowID (es_udp s) + 1"
  obtain translated key where e: "route destination s = Some (n, translated)"
      "es_udp s1 = addFlow (newFlow now ?i n key source destination translated False) (es_udp s)"
      "DecodeUDP packet = Inr \<lparr>ud_FlowID = ?i, ud_Response = False, ud_Source = source, ud_Destination = translated, ud_Payload = payload\<rparr>"
    using acceptUDP_new_flow[OF sent dest fresh] by blast
  let ?f = "newFlow now ?i n key source destination translated False"
  note conn = receiveDatagram_flow[OF received e(3) inv(3), simplified]
  have good1: "session_good c1" using session_good_receive[OF inv(3)] received by (metis fst_conv)
  have "session_grows c1 c2" using connector_history.steps_both[OF later_c good1 session_grows_refl] by blast
  then have heap2: "us_heap c2 ! k = us_heap c1 ! k" using conn by (auto simp: session_grows_def nth_append)
  obtain d where d: "DecodeUDP reply = Inr \<lparr>ud_FlowID = ?i, ud_Response = True, ud_Source = translated,
      ud_Destination = source, ud_Payload = d\<rparr>" "\<not> uf_dns (us_heap c1 ! k) \<longrightarrow> d = take maxUDPPayload datagram"
    using readResponse_packet[OF answer] conn heap2 by auto
  have step: "edge_udp_step (es_udp s) (es_udp s1)"
  proof -
    have "fst (on_udp (edgeUDPFlowWithReply now opened n (ss_id (es_sessions s ! n) @ ''|'' @ addr_port_string source @ ''|''
        @ addr_port_string destination) source destination translated False False) s) = s1"
      using sent dest e(1) by (auto simp: acceptUDP_def Let_def split: prod.splits sum.splits)
    then show ?thesis
      using edge_udp_step.flow[OF inv(2)] by (auto simp: on_udp_def case_prod_beta Let_def)
  qed
  have inv1: "udp_inv (es_udp s1)" using edge_udp_step_inv[OF step inv(1)] .
  have "keeps_flow ?i ?f (es_udp s1)" by (simp add: e(2) keeps_flow_def addFlow_def same_flow_def newFlow_def)
  then have "udp_inv u \<and> keeps_flow ?i ?f u" using edge_flows.steps_both[OF later_e(1) inv1] by blast
  then obtain f where f: "eu_heap u ?i = Some f" "same_flow ?f f" by (auto simp: keeps_flow_def)
  note fields = same_flow_fields[OF f(2), unfolded newFlow_def, simplified]
  have live: "liveFlow u ?i = Some f" using f(1) later_e(2) by (simp add: liveFlow_iff)
  have want: "(if addr_port_valid (fl_translated f) then fl_translated f else fl_destination f) = translated"
    using fields route_source[OF e(1)] by auto
  have "snd (receiveUDP later True n reply u) = Some (?i, d, source)"
    using d(1) live fields want by (simp add: receiveUDP_def Let_def)
  then show ?thesis using e(1) conn d(2) live fields by (intro exI[of _ translated] exI[of _ f] exI[of _ d]) auto
qed

section \<open>A concrete path\<close>

text \<open>An edge without a registry that has one session, and a connector that serves \<^verbatim>\<open>10.0.0.0/8\<close>.\<close>

definition net10 :: prefix where
  "net10 = Prefix (V4 0x0A000000) 8"

definition pathSession :: session where
  "pathSession = \<lparr>ss_id = ''s'', ss_connectorID = ''c'', ss_slot = 0, ss_started = 1, ss_closed = False, ss_draining = False,
     ss_routes = [net10], ss_virtualPrefix = zero_prefix, ss_realPrefix = zero_prefix\<rparr>"

definition pathEdge :: edgeServer where
  "pathEdge = \<lparr>es_config = sampleEdge, es_registry = [], es_routes = [], es_entries = [], es_sessions = [pathSession],
     es_session = Some 0, es_limit = 0, es_udp = emptyTable\<rparr>"

definition pathCommon :: Common where
  "pathCommon = \<lparr>co_EdgeID = ''e'', co_ConnectorID = ''c'', co_Environment = ''prod'', co_CABundle = [], co_Certificate = [],
     co_PrivateKey = [], co_AdminAddr = [], co_LogLevel = []\<rparr>"

definition pathConfig :: ConnectorConfig where
  "pathConfig =
     \<lparr>cc_Common = pathCommon, cc_RegistrationMode = ''static'', cc_RegistrationEndpoint = [], cc_IdentityDir = [],
      cc_EnrollmentNonce = [], cc_ProjectID = [], cc_EnvironmentID = [], cc_EnvironmentName = [], cc_DeploymentID = [],
      cc_ProjectAlias = [], cc_EnvironmentAlias = [], cc_IdentityKeyID = [], cc_EdgeEndpoint = [],
      cc_VirtualPrefix = Prefix (V6 0xfd200000000000000000000000000000 []) 16,
      cc_RealPrefix = Prefix (V6 0xfd120000000000000000000000000000 []) 16, cc_DNSSuffix = ''p.railway.internal'',
      cc_AllowedDestinations = [net10], cc_MaxTCPFlows = 4, cc_MaxUDPFlows = 4, cc_DialTimeout = 1, cc_ReconnectMin = 1,
      cc_ReconnectMax = 1, cc_UDPIdleTimeout = 1\<rparr>"

definition pathClient :: Client where
  "pathClient = \<lparr>cl_config = pathConfig, cl_version = ''v'', cl_started = 1, cl_dns = None, cl_dnsErr = None,
     cl_dnsAddr = zero_addr_port\<rparr>"

definition pathAccepted :: ConnectorAccepted where
  "pathAccepted = \<lparr>ca_SessionID = ''s'', ca_ConnectorID = ''c'', ca_Slot = 0, ca_VirtualPrefix = ''fd20::/16'',
     ca_RealPrefix = ''fd12::/16'', ca_Routes = [''10.0.0.0/8''], ca_MaxTCPFlows = 4\<rparr>"

definition pathStart :: udpSession where
  "pathStart = newUDPSession pathClient [net10] (SetReady True (New ''v''))"

lemma path_serve: "serve pathClient pathAccepted (New ''v'') = Inr pathStart"
proof -
  have "parse_prefix ''fd20::/16'' = Some (cc_VirtualPrefix pathConfig)" "parse_prefix ''fd12::/16'' = Some (cc_RealPrefix pathConfig)"
    "ValidateAcceptedRoutes [''10.0.0.0/8''] [net10] = Inr [net10]"
    "uint (as16 (pfx_addr (cc_VirtualPrefix pathConfig)) ! 1 - 0x20) = 0" by code_simp+
  then show ?thesis
    by (simp add: serve_def checkAccepted_def validateAccepted_def pathAccepted_def pathClient_def pathStart_def Let_def)
       (simp add: pathConfig_def pathCommon_def)
qed

definition pathControl :: "cmsg list" where
  "pathControl = [\<lparr>cm_Level = 0, cm_Type = 20, cm_Data = [0, 0, 0, 53, 10, 0, 0, 2]\<rparr>]"

definition pathQuestion :: UDPDatagram where
  "pathQuestion = \<lparr>ud_FlowID = 1, ud_Response = False, ud_Source = sampleClient, ud_Destination = sampleService, ud_Payload = [1, 2]\<rparr>"

definition pathAnswer :: UDPDatagram where
  "pathAnswer = \<lparr>ud_FlowID = 1, ud_Response = True, ud_Source = sampleService, ud_Destination = sampleClient, ud_Payload = [3]\<rparr>"

lemma path_encodes: "\<exists>d. EncodeUDP pathQuestion = Inr d" "\<exists>d. EncodeUDP pathAnswer = Inr d"
proof -
  have "case EncodeUDP pathQuestion of Inr _ \<Rightarrow> True | Inl _ \<Rightarrow> False"
    "case EncodeUDP pathAnswer of Inr _ \<Rightarrow> True | Inl _ \<Rightarrow> False" by code_simp+
  then show "\<exists>d. EncodeUDP pathQuestion = Inr d" "\<exists>d. EncodeUDP pathAnswer = Inr d" by (auto split: sum.splits)
qed

lemma path_good: "session_good pathStart"
  using session_inv_new[of "SetReady True (New ''v'')" pathClient "[net10]"]
  by (simp add: pathStart_def session_good_def sockets_known_def newUDPSession_def SetReady_def New_def pathClient_def pathConfig_def)

lemma path_allowed: "Allowed [net10] (unmap (ap_addr sampleService))" "Allowed [net10] (ap_addr sampleService)"
  by code_simp+

lemma path_destination: "originalUDPDestination pathControl = Some sampleService"
  by code_simp

definition pathFlow :: udpFlow where
  "pathFlow = \<lparr>uf_flowID = 1, uf_source = sampleClient, uf_destination = sampleService, uf_dns = False\<rparr>"

text \<open>The connector accepts the datagram of the edge and opens a flow.\<close>

lemma path_receive:
  assumes "EncodeUDP pathQuestion = Inr packet"
  shows "receiveDatagram lib True True packet pathStart = (insertFlow pathFlow pathStart, Some (0, [1, 2]))"
  using EncodeUDP_decodes[OF assms] path_allowed
  by (simp add: receiveDatagram_def flow_def pathStart_def newUDPSession_def pathQuestion_def newUDPFlow_def pathFlow_def
      pathClient_def pathConfig_def insertFlow_def)

theorem connector_udp_reachable_witness:
  "\<exists>s. session_step\<^sup>*\<^sup>* pathStart s \<and> us_flows s = [(1, 0)] \<and> sv_udpActive (us_status s) = 1
     \<and> sv_udpActive (us_status (closeSession s)) = 0"
proof -
  obtain packet where packet: "EncodeUDP pathQuestion = Inr packet" using path_encodes by blast
  let ?s = "insertFlow pathFlow pathStart"
  have "session_step pathStart ?s"
    using session_step.receive[of pathStart sampleDns True True packet] by (simp add: path_receive[OF packet])
  then have steps: "session_step\<^sup>*\<^sup>* pathStart ?s" by blast
  have flows: "us_flows ?s = [(1, 0)]" by (simp add: insertFlow_def pathFlow_def pathStart_def newUDPSession_def)
  have "sv_udpActive (New ''v'') = 0" "0 \<le> cc_MaxUDPFlows (cl_config pathClient)"
    by (simp_all add: New_def pathClient_def pathConfig_def)
  from connector_udp_reachable[OF path_serve this steps] flows steps show ?thesis by (intro exI[of _ ?s]) auto
qed

theorem udp_end_to_end_witness:
  "\<exists>s1 packet c1 reply (f :: edgeUDPFlow). acceptUDP 5 True True (Some pathControl) sampleClient [1, 2] pathEdge = (s1, Some (0, packet))
     \<and> receiveDatagram sampleDns True True packet pathStart = (c1, Some (0, [1, 2]))
     \<and> readResponse sampleDns Sent 0 [3] c1 = (c1, Some reply, True)
     \<and> snd (receiveUDP 6 True 0 reply (es_udp s1)) = Some (fl_id f, [3], sampleClient) \<and> fl_destination f = sampleService"
proof -
  obtain packet reply where packet: "EncodeUDP pathQuestion = Inr packet" and reply: "EncodeUDP pathAnswer = Inr reply"
    using path_encodes by blast
  have route: "route sampleService pathEdge = Some (0, sampleService)"
    using path_allowed by (simp add: route_def pathEdge_def pathSession_def)
  have edge: "es_udp pathEdge = emptyTable" "es_sessions pathEdge = [pathSession]" by (simp_all add: pathEdge_def)
  define s1 where "s1 = fst (acceptUDP 5 True True (Some pathControl) sampleClient [1, 2] pathEdge)"
  have acc: "acceptUDP 5 True True (Some pathControl) sampleClient [1, 2] pathEdge = (s1, Some (0, packet))"
      "eu_byID (es_udp s1) = [1]"
    using packet by (simp_all add: s1_def acceptUDP_def path_destination route edge on_udp_def pathQuestion_def table_eval)
  let ?c = "insertFlow pathFlow pathStart"
  have ans: "readResponse sampleDns Sent 0 [3] ?c = (?c, Some reply, True)"
    using reply by (simp add: readResponse_def insertFlow_def pathStart_def newUDPSession_def pathFlow_def pathAnswer_def maxUDPPayload_def)
  have "udp_inv (es_udp pathEdge)" "eu_flowID (es_udp pathEdge) = 0" "eu_byKey (es_udp pathEdge) key = None" for key
    using emptyTable_inv by (simp_all add: pathEdge_def emptyTable_def newEdgeUDP_def)
  then have "\<exists>translated f d. route sampleService pathEdge = Some (0, translated) \<and> uf_destination (us_heap ?c ! 0) = translated
      \<and> Allowed (us_routes pathStart) (unmap (ap_addr translated))
      \<and> (\<not> uf_dns (us_heap ?c ! 0) \<longrightarrow> [1, 2] = [1, 2 :: byte] \<and> d = take maxUDPPayload [3])
      \<and> liveFlow (es_udp s1) (fl_id f) = Some f \<and> fl_destination f = sampleService \<and> \<not> fl_sharedReply f
      \<and> snd (receiveUDP 6 True 0 reply (es_udp s1)) = Some (fl_id f, d, sampleClient)"
    using acc(2)
    by (intro udp_end_to_end[OF _ _ path_good acc(1) path_destination _ path_receive[OF packet] rtranclp.rtrancl_refl ans rtranclp.rtrancl_refl]) simp_all
  then obtain f :: edgeUDPFlow and d where "snd (receiveUDP 6 True 0 reply (es_udp s1)) = Some (fl_id f, d, sampleClient)" "fl_destination f = sampleService"
      "\<not> uf_dns (us_heap ?c ! 0) \<longrightarrow> d = take maxUDPPayload [3]" by blast
  moreover have "\<not> uf_dns (us_heap ?c ! 0)" "take maxUDPPayload [3 :: byte] = [3]"
    by (simp_all add: insertFlow_def pathStart_def newUDPSession_def pathFlow_def maxUDPPayload_def)
  ultimately show ?thesis using acc(1) path_receive[OF packet] ans by metis
qed

end
