(* ===== verification/Oidc.thy ===== *)
theory Oidc
  imports Strconv Machine "HOL-Library.AList"
begin

text \<open>
  Package \<^verbatim>\<open>internal/oidc\<close> (\<^verbatim>\<open>validator.go\<close>): the validation of the OIDC token of a workflow against a policy, and the cache of
  the signing keys of the providers. JSON decoding, URL parsing, SHA-256 and RSA verification are parameters; what an
  HTTP request for the keys answers is an argument of the step that makes it. Times are compared at the width of the
  Go types: seconds are 64-bit numbers, \<^verbatim>\<open>time.Unix\<close> wraps and \<^verbatim>\<open>Time.Sub\<close> saturates.
\<close>

section \<open>Standard library\<close>

text \<open>\<^verbatim>\<open>time.Unix(s, 0)\<close>: seconds since year 1 in a 64-bit integer.\<close>

definition time_unix :: "int \<Rightarrow> time" where
  "time_unix s = seconds (wrap64 (s + 62135596800) - 62135596800)"

definition time_sub :: "time \<Rightarrow> time \<Rightarrow> duration" where
  "time_sub t u = max (- (2 ^ 63)) (min (2 ^ 63 - 1) (t - u))"

text \<open>\<^verbatim>\<open>base64.RawURLEncoding\<close>: no padding, line breaks are ignored.\<close>

definition b64url_val :: "char \<Rightarrow> nat option" where
  "b64url_val c = (if c = CHR ''-'' then Some 62 else if c = CHR ''_'' then Some 63
     else if c = CHR ''+'' \<or> c = CHR ''/'' then None else b64_val c)"

fun b64url_groups :: "nat list \<Rightarrow> bytes option" where
  "b64url_groups (w # x # y # z # rest) = map_option (\<lambda>r. b64_bytes [w, x, y, z] @ r) (b64url_groups rest)"
| "b64url_groups [w, x, y] = Some (b64_bytes [w, x, y])"
| "b64url_groups [w, x] = Some (b64_bytes [w, x])"
| "b64url_groups [w] = None"
| "b64url_groups [] = Some []"

definition b64url_decode :: "string \<Rightarrow> bytes option" where
  "b64url_decode s =
     (let ds = map b64url_val (filter (\<lambda>c. c \<noteq> CHR 0x0A \<and> c \<noteq> CHR 0x0D) s)
      in if None \<in> set ds then None else b64url_groups (map the ds))"

text \<open>\<^verbatim>\<open>strings.Cut\<close> with a one-byte separator.\<close>

definition cut_first :: "char \<Rightarrow> string \<Rightarrow> (string \<times> string) option" where
  "cut_first c s =
     (case dropWhile (\<lambda>x. x \<noteq> c) s of [] \<Rightarrow> None | _ # rest \<Rightarrow> Some (takeWhile (\<lambda>x. x \<noteq> c) s, rest))"

section \<open>Data\<close>

datatype json = JNull | JBool bool | JNumber string | JString string | JArray "json list" | JObject "(string \<times> json) list"

type_synonym claims = "(string \<times> json) list"

record OPolicy =
  po_ID :: string
  po_Issuer :: string
  po_JWKSURL :: string
  po_Audiences :: "string list"
  po_Algorithms :: "string list"
  po_MaxTokenAge :: duration
  po_MaxTokenAgeText :: string
  po_RequiredClaims :: "(string \<times> string) list"
  po_OneOfClaims :: "(string \<times> string list) list"
  po_ProjectIDClaim :: string
  po_EnvironmentClaim :: string
  po_ReplayClaim :: string
  po_RepositoryIDClaim :: string
  po_RepositoryClaim :: string
  po_WorkflowRefClaim :: string
  po_WorkflowSHAClaim :: string
  po_RunIDClaim :: string
  po_RunAttemptClaim :: string

record OIdentity =
  id_ProviderID :: string
  id_JTI :: string
  id_ExpiresAt :: time
  id_RepositoryID :: string
  id_Repository :: string
  id_WorkflowRef :: string
  id_WorkflowSHA :: string
  id_RunID :: string
  id_RunAttempt :: string
  id_Claims :: claims

record rsa_key =
  rk_N :: nat
  rk_E :: nat

record cachedKeys =
  ck_byID :: "(string \<times> rsa_key) list"
  ck_expiresAt :: time
  ck_fetchedAt :: time

record Validator =
  va_policies :: "(string \<times> OPolicy) list"
  va_keys :: "(string \<times> cachedKeys) list"

definition skew :: duration where
  "skew = seconds 30"

record jwk =
  jk_KID :: string
  jk_Kty :: string
  jk_Use :: string
  jk_Alg :: string
  jk_N :: string
  jk_E :: string

text \<open>The answer of the key endpoint: status, \<^verbatim>\<open>Cache-Control\<close> header and the decoded document, if it decodes.\<close>

record jwksAnswer =
  ja_Status :: nat
  ja_CacheControl :: string
  ja_Document :: "jwk list option"

record cryptolib =
  cr_decodeObject :: "bytes \<Rightarrow> claims option"
  cr_sha256 :: "bytes \<Rightarrow> bytes"
  cr_verifyPKCS1v15 :: "rsa_key \<Rightarrow> bytes \<Rightarrow> bytes \<Rightarrow> bool"

section \<open>Policies\<close>

datatype policy_error =
    PolicyIncomplete | JWKSURLNotHTTPS string | UnsupportedAlgorithm string | MaxTokenAgeNotValid string
  | BindingClaimsMissing string | AuditClaimsMissing string | PolicyRepeated string

text \<open>One round of the loop of \<^verbatim>\<open>New\<close>; \<open>url_parse\<close> gives scheme and host.\<close>

definition normalisePolicy :: "(string \<Rightarrow> (string \<times> string) option) \<Rightarrow> OPolicy \<Rightarrow> policy_error + OPolicy" where
  "normalisePolicy url_parse p =
     (if po_ID p = [] \<or> po_Issuer p = [] \<or> po_JWKSURL p = [] \<or> po_Audiences p = [] then Inl PolicyIncomplete
      else if \<not> (case url_parse (po_JWKSURL p) of None \<Rightarrow> False | Some (scheme, host) \<Rightarrow> scheme = ''https'' \<and> host \<noteq> [])
      then Inl (JWKSURLNotHTTPS (po_ID p))
      else
        let p1 = (if po_Algorithms p = [] then p\<lparr>po_Algorithms := [''RS256'']\<rparr> else p) in
        if \<not> list_all (\<lambda>a. a = ''RS256'') (po_Algorithms p1) then Inl (UnsupportedAlgorithm (po_ID p))
        else case (if po_MaxTokenAge p1 = 0 then parse_duration (po_MaxTokenAgeText p1) else Some (po_MaxTokenAge p1)) of
            None \<Rightarrow> Inl (MaxTokenAgeNotValid (po_ID p))
          | Some age \<Rightarrow>
              if po_MaxTokenAge p1 = 0 \<and> age \<le> 0 then Inl (MaxTokenAgeNotValid (po_ID p))
              else
                let p2 = p1\<lparr>po_MaxTokenAge := age,
                            po_ReplayClaim := (if po_ReplayClaim p1 = [] then ''jti'' else po_ReplayClaim p1)\<rparr> in
                if po_ProjectIDClaim p2 = [] \<or> po_EnvironmentClaim p2 = [] then Inl (BindingClaimsMissing (po_ID p))
                else if po_RepositoryIDClaim p2 = [] \<or> po_WorkflowRefClaim p2 = [] \<or> po_WorkflowSHAClaim p2 = []
                        \<or> po_RunIDClaim p2 = [] \<or> po_RunAttemptClaim p2 = [] then Inl (AuditClaimsMissing (po_ID p))
                else Inr p2)"

fun addPolicies ::
    "(string \<Rightarrow> (string \<times> string) option) \<Rightarrow> (string \<times> OPolicy) list \<Rightarrow> OPolicy list \<Rightarrow> policy_error + (string \<times> OPolicy) list" where
  "addPolicies url_parse known [] = Inr known"
| "addPolicies url_parse known (p # ps) =
     (case normalisePolicy url_parse p of
        Inl e \<Rightarrow> Inl e
      | Inr q \<Rightarrow> if map_of known (po_ID q) \<noteq> None then Inl (PolicyRepeated (po_ID q))
                 else addPolicies url_parse ((po_ID q, q) # known) ps)"

definition NewValidator :: "(string \<Rightarrow> (string \<times> string) option) \<Rightarrow> OPolicy list \<Rightarrow> policy_error + Validator" where
  "NewValidator url_parse policies =
     (case addPolicies url_parse [] policies of
        Inl e \<Rightarrow> Inl e | Inr known \<Rightarrow> Inr \<lparr>va_policies = known, va_keys = []\<rparr>)"

section \<open>Keys\<close>

definition rsaKey :: "jwk \<Rightarrow> rsa_key option" where
  "rsaKey v =
     (case b64url_decode (jk_N v) of
        None \<Rightarrow> None
      | Some modulus \<Rightarrow>
          if length modulus < 256 then None
          else case b64url_decode (jk_E v) of
              None \<Rightarrow> None
            | Some e \<Rightarrow> if length e = 0 \<or> length e > 4 \<or> from_be e < 3 then None
                        else Some \<lparr>rk_N = from_be modulus, rk_E = from_be e\<rparr>)"

definition cacheDirective :: "string \<Rightarrow> duration option" where
  "cacheDirective directive =
     (case cut_first CHR ''='' (trim_space directive) of
        None \<Rightarrow> None
      | Some (key, raw) \<Rightarrow>
          if to_lower key \<noteq> ''max-age'' then None
          else case parse_int64 (trim_where (\<lambda>c. c = CHR 0x22) raw) of
              None \<Rightarrow> None
            | Some n \<Rightarrow> if n > 0 then Some (wrap64 (seconds n)) else None)"

definition cacheMaxAge :: "string \<Rightarrow> duration" where
  "cacheMaxAge header =
     (case List.map_filter cacheDirective (split_on CHR '','' header) of [] \<Rightarrow> 0 | d # _ \<Rightarrow> d)"

definition acceptableKey :: "jwk \<Rightarrow> (string \<times> rsa_key) option" where
  "acceptableKey c =
     (if jk_KID c = [] \<or> jk_Kty c \<noteq> ''RSA'' \<or> jk_Use c \<noteq> ''sig'' \<or> jk_Alg c \<noteq> ''RS256'' then None
      else map_option (Pair (jk_KID c)) (rsaKey c))"

definition fetchKeys :: "time \<Rightarrow> jwksAnswer option \<Rightarrow> cachedKeys option" where
  "fetchKeys now answer =
     (case answer of
        None \<Rightarrow> None
      | Some a \<Rightarrow>
          if ja_Status a \<noteq> 200 then None
          else case ja_Document a of
              None \<Rightarrow> None
            | Some document \<Rightarrow>
                (let maxAge = cacheMaxAge (ja_CacheControl a);
                     age = (if maxAge \<le> 0 \<or> maxAge > hours 1 then hours 1 else maxAge)
                 in Some \<lparr>ck_byID = foldl (\<lambda>m (kid, key). AList.update kid key m) [] (List.map_filter acceptableKey document),
                          ck_expiresAt = now + age, ck_fetchedAt = now\<rparr>))"

datatype key_error = UnknownKey | FetchFailed

text \<open>
  The key of a policy with an identifier; \<open>fetch\<close> is the answer of the endpoint if this call asks it. The result tells
  the key or why there is none.
\<close>

definition lookupKey :: "time \<Rightarrow> jwksAnswer option \<Rightarrow> OPolicy \<Rightarrow> string \<Rightarrow> bool \<Rightarrow> Validator \<Rightarrow> Validator \<times> (key_error + rsa_key)" where
  "lookupKey now fetch policy kid force v =
     (let found = (\<lambda>c. case map_of (ck_byID c) kid of Some key \<Rightarrow> Inr key | None \<Rightarrow> Inl UnknownKey);
          refetch = (case fetchKeys now fetch of
                       None \<Rightarrow> (v, Inl FetchFailed)
                     | Some c \<Rightarrow> (v\<lparr>va_keys := AList.update (po_ID policy) c (va_keys v)\<rparr>, found c))
      in case map_of (va_keys v) (po_ID policy) of
           None \<Rightarrow> refetch
         | Some cached \<Rightarrow>
             if ck_expiresAt cached > now \<and> \<not> force then (v, found cached)
             else if force \<and> ck_fetchedAt cached \<noteq> zero_time \<and> time_sub now (ck_fetchedAt cached) < minutes 1
             then (v, Inl UnknownKey)
             else refetch)"

section \<open>Tokens\<close>

definition textBytes :: "string \<Rightarrow> bytes" where
  "textBytes s = map (\<lambda>c. word_of_nat (of_char c)) s"

definition decodeJSON :: "cryptolib \<Rightarrow> string \<Rightarrow> claims option" where
  "decodeJSON lib value = Option.bind (b64url_decode value) (cr_decodeObject lib)"

definition textClaim :: "claims \<Rightarrow> string \<Rightarrow> string" where
  "textClaim cs name = (case map_of cs name of Some (JString s) \<Rightarrow> s | _ \<Rightarrow> [])"

definition numericTime :: "json option \<Rightarrow> time option" where
  "numericTime v = (case v of Some (JNumber n) \<Rightarrow> map_option time_unix (parse_int64 n) | _ \<Rightarrow> None)"

definition matchesAudience :: "json option \<Rightarrow> string list \<Rightarrow> bool" where
  "matchesAudience v allowed =
     (case v of
        Some (JString s) \<Rightarrow> s \<in> set allowed
      | Some (JArray items) \<Rightarrow> list_ex (\<lambda>i. case i of JString s \<Rightarrow> s \<in> set allowed | _ \<Rightarrow> False) items
      | _ \<Rightarrow> False)"

definition stringClaim :: "claims \<Rightarrow> string \<Rightarrow> string" where
  "stringClaim cs name =
     (if name = [] then []
      else case map_of cs name of Some (JString s) \<Rightarrow> s | Some (JNumber n) \<Rightarrow> n | _ \<Rightarrow> [])"

definition workflowSHAMatches :: "string \<Rightarrow> string \<Rightarrow> bool" where
  "workflowSHAMatches reference sha =
     (length sha = 40 \<and> (case cut_last CHR ''@'' reference of None \<Rightarrow> False | Some (_, rest) \<Rightarrow> rest = sha))"

text \<open>A guard of \<^verbatim>\<open>Validate\<close>: the error code if the condition does not hold.\<close>

definition require :: "bool \<Rightarrow> 'e \<Rightarrow> 'e + unit" where
  "require b e = (if b then Inr () else Inl e)"

definition checkClaims :: "time \<Rightarrow> OPolicy \<Rightarrow> string \<Rightarrow> string \<Rightarrow> claims \<Rightarrow> string + OIdentity" where
  "checkClaims now policy projectID environmentName cs =
     and_then (require (textClaim cs ''iss'' = po_Issuer policy \<and> matchesAudience (map_of cs ''aud'') (po_Audiences policy))
       ''issuer_or_audience'') (\<lambda>_.
     and_then (case numericTime (map_of cs ''exp'') of
         Some t \<Rightarrow> if t > now - skew then Inr t else Inl ''expired'' | None \<Rightarrow> Inl ''expired'') (\<lambda>expiresAt.
     and_then (require (case numericTime (map_of cs ''iat'') of
           Some t \<Rightarrow> \<not> t > now + skew \<and> \<not> time_sub now t > wrap64 (po_MaxTokenAge policy + skew) | None \<Rightarrow> False)
       ''issued_at'') (\<lambda>_.
     and_then (require (case map_of cs ''nbf'' of
           None \<Rightarrow> True
         | Some raw \<Rightarrow> (case numericTime (Some raw) of Some t \<Rightarrow> \<not> t > now + skew | None \<Rightarrow> False)) ''not_before'') (\<lambda>_.
     and_then (require (list_all (\<lambda>(claim, expected). textClaim cs claim = expected) (po_RequiredClaims policy))
       ''required_claim'') (\<lambda>_.
     and_then (require (list_all (\<lambda>(claim, allowed). textClaim cs claim \<in> set allowed) (po_OneOfClaims policy))
       ''allowed_claim'') (\<lambda>_.
     and_then (require (textClaim cs (po_ProjectIDClaim policy) \<noteq> [] \<and> textClaim cs (po_ProjectIDClaim policy) = projectID)
       ''project_binding'') (\<lambda>_.
     and_then (require (textClaim cs (po_EnvironmentClaim policy) \<noteq> [] \<and> textClaim cs (po_EnvironmentClaim policy) = environmentName)
       ''environment_binding'') (\<lambda>_.
     and_then (require (textClaim cs (po_ReplayClaim policy) \<noteq> []) ''replay_claim'') (\<lambda>_.
       let identity =
         \<lparr>id_ProviderID = po_ID policy, id_JTI = textClaim cs (po_ReplayClaim policy), id_ExpiresAt = expiresAt,
          id_RepositoryID = stringClaim cs (po_RepositoryIDClaim policy),
          id_Repository = stringClaim cs (po_RepositoryClaim policy),
          id_WorkflowRef = stringClaim cs (po_WorkflowRefClaim policy),
          id_WorkflowSHA = stringClaim cs (po_WorkflowSHAClaim policy), id_RunID = stringClaim cs (po_RunIDClaim policy),
          id_RunAttempt = stringClaim cs (po_RunAttemptClaim policy), id_Claims = cs\<rparr>
       in and_then (require (id_RepositoryID identity \<noteq> [] \<and> id_WorkflowRef identity \<noteq> [] \<and> id_WorkflowSHA identity \<noteq> []
                      \<and> id_RunID identity \<noteq> [] \<and> id_RunAttempt identity \<noteq> []) ''audit_claim'') (\<lambda>_.
          and_then (require (workflowSHAMatches (id_WorkflowRef identity) (id_WorkflowSHA identity)) ''workflow_sha'') (\<lambda>_.
            Inr identity)))))))))))"

text \<open>The parts of the token that come before the key is looked up: the policy, the three parts and the key identifier.\<close>

definition checkHeader ::
    "cryptolib \<Rightarrow> Validator \<Rightarrow> string \<Rightarrow> string \<Rightarrow> string \<Rightarrow> string
     \<Rightarrow> string + OPolicy \<times> string \<times> string \<times> string \<times> string" where
  "checkHeader lib v providerID raw projectID environmentName =
     and_then (require (projectID \<noteq> [] \<and> environmentName \<noteq> []) ''request_binding'') (\<lambda>_.
     case map_of (va_policies v) providerID of
       None \<Rightarrow> Inl ''provider''
     | Some policy \<Rightarrow>
         (case split_on CHR ''.'' raw of
            [header, payload, signature] \<Rightarrow>
              if length raw > 32 * 1024 then Inl ''format''
              else (case decodeJSON lib header of
                      None \<Rightarrow> Inl ''header''
                    | Some h \<Rightarrow>
                        if textClaim h ''kid'' = [] \<or> textClaim h ''alg'' \<notin> set (po_Algorithms policy) then Inl ''algorithm''
                        else Inr (policy, header, payload, signature, textClaim h ''kid''))
          | _ \<Rightarrow> Inl ''format''))"

text \<open>
  \<open>fetch\<close> gives the answer of the key endpoint at a URL to the first request and to the forced one. The calls of the clock
  within one validation give one instant.
\<close>

definition Validate ::
    "cryptolib \<Rightarrow> time \<Rightarrow> (string \<Rightarrow> bool \<Rightarrow> jwksAnswer option) \<Rightarrow> string \<Rightarrow> string \<Rightarrow> string \<Rightarrow> string \<Rightarrow> Validator
     \<Rightarrow> Validator \<times> (string + OIdentity)" where
  "Validate lib now fetch providerID raw projectID environmentName v =
     (case checkHeader lib v providerID raw projectID environmentName of
        Inl e \<Rightarrow> (v, Inl e)
      | Inr (policy, header, payload, signature, kid) \<Rightarrow>
          (let (v1, first) = lookupKey now (fetch (po_JWKSURL policy) False) policy kid False v;
               (v2, key) = (if first = Inl UnknownKey then lookupKey now (fetch (po_JWKSURL policy) True) policy kid True v1 else (v1, first))
           in case key of
                Inl _ \<Rightarrow> (v2, Inl ''jwks'')
              | Inr k \<Rightarrow>
                  (v2,
                   case b64url_decode signature of
                     None \<Rightarrow> Inl ''signature''
                   | Some sig \<Rightarrow>
                       if \<not> cr_verifyPKCS1v15 lib k (cr_sha256 lib (textBytes (header @ ''.'' @ payload))) sig
                       then Inl ''signature''
                       else case decodeJSON lib payload of
                           None \<Rightarrow> Inl ''claims''
                         | Some cs \<Rightarrow> checkClaims now policy projectID environmentName cs)))"

section \<open>Where keys come from\<close>

text \<open>
  A run of the validator: \<open>world\<close> is what the endpoints answer, by URL, time and whether the request was forced. The clock
  does not run backwards.
\<close>

inductive oidc_step :: "cryptolib \<Rightarrow> (string \<Rightarrow> time \<Rightarrow> bool \<Rightarrow> jwksAnswer option) \<Rightarrow> time \<times> Validator \<Rightarrow> time \<times> Validator \<Rightarrow> bool"
  for lib world where
  validate: "now \<le> later \<Longrightarrow>
    oidc_step lib world (now, v) (later, fst (Validate lib later (\<lambda>url. world url later) provider raw project env v))"

text \<open>A set of keys that the endpoint of a policy has served.\<close>

definition served :: "(string \<Rightarrow> time \<Rightarrow> bool \<Rightarrow> jwksAnswer option) \<Rightarrow> OPolicy \<Rightarrow> cachedKeys \<Rightarrow> bool" where
  "served world policy c \<longleftrightarrow>
     (\<exists>force. fetchKeys (ck_fetchedAt c) (world (po_JWKSURL policy) (ck_fetchedAt c) force) = Some c)"

lemma fetchKeys_times: "fetchKeys now a = Some c \<Longrightarrow> ck_fetchedAt c = now \<and> now < ck_expiresAt c \<and> ck_expiresAt c \<le> now + hours 1"
  by (auto simp: fetchKeys_def Let_def split: option.splits if_splits)

definition cache_ok :: "(string \<Rightarrow> time \<Rightarrow> bool \<Rightarrow> jwksAnswer option) \<Rightarrow> (string \<times> OPolicy) list \<Rightarrow> time \<times> Validator \<Rightarrow> bool" where
  "cache_ok world policies s \<longleftrightarrow> va_policies (snd s) = policies \<and> (\<forall>pid p. map_of policies pid = Some p \<longrightarrow> po_ID p = pid)
     \<and> (\<forall>pid c. map_of (va_keys (snd s)) pid = Some c \<longrightarrow>
          ck_fetchedAt c \<le> fst s \<and> (\<exists>p. map_of policies pid = Some p \<and> served world p c))"

lemma cache_okD:
  assumes "cache_ok world policies (now, v)" "map_of (va_keys v) pid = Some c"
  shows "ck_fetchedAt c \<le> now" "\<exists>p. map_of policies pid = Some p \<and> served world p c"
  using assms by (auto simp: cache_ok_def)

text \<open>A lookup keeps the cache sound, and the key it finds has been served less than an hour ago.\<close>

lemma lookupKey_ok:
  assumes ok: "cache_ok world policies (now, v)" and policy: "map_of policies (po_ID policy) = Some policy"
    and res: "lookupKey now (world (po_JWKSURL policy) now force) policy kid force v = (v', res)"
  shows "cache_ok world policies (now, v') \<and>
    (\<forall>k. res = Inr k \<longrightarrow> (\<exists>c. served world policy c \<and> map_of (ck_byID c) kid = Some k
       \<and> ck_fetchedAt c \<le> now \<and> now < ck_fetchedAt c + hours 1))"
proof -
  let ?found = "\<lambda>c. case map_of (ck_byID c) kid of Some key \<Rightarrow> Inr key | None \<Rightarrow> Inl UnknownKey"
  consider (cached) c where "map_of (va_keys v) (po_ID policy) = Some c" "ck_expiresAt c > now" "v' = v" "res = ?found c"
    | (none) "v' = v" "\<And>k. res \<noteq> Inr k"
    | (fetched) c where "fetchKeys now (world (po_JWKSURL policy) now force) = Some c"
        "v' = v\<lparr>va_keys := AList.update (po_ID policy) c (va_keys v)\<rparr>" "res = ?found c"
    using res
    by (cases "map_of (va_keys v) (po_ID policy)";
        cases "fetchKeys now (world (po_JWKSURL policy) now force)") (auto simp: lookupKey_def Let_def split: if_splits)
  then show ?thesis
  proof cases
    case cached
    have s: "served world policy c" "ck_fetchedAt c \<le> now" using cache_okD[OF ok cached(1)] policy by auto
    then have "ck_expiresAt c \<le> ck_fetchedAt c + hours 1" using fetchKeys_times by (auto simp: served_def)
    then show ?thesis using ok s cached(2,3,4) by (auto split: option.splits intro!: exI[of _ c])
  next
    case none
    then show ?thesis using ok by simp
  next
    case fetched
    have t: "ck_fetchedAt c = now" using fetchKeys_times[OF fetched(1)] by simp
    then have s: "served world policy c" using fetched(1) by (auto simp: served_def)
    have "cache_ok world policies (now, v')"
      unfolding cache_ok_def
    proof (intro conjI allI impI)
      fix pid c' assume "map_of (va_keys (snd (now, v'))) pid = Some c'"
      then have "(if pid = po_ID policy then Some c else map_of (va_keys v) pid) = Some c'"
        using fetched(2) by (simp add: update_conv' split: if_splits)
      then show "ck_fetchedAt c' \<le> fst (now, v')" "\<exists>p. map_of policies pid = Some p \<and> served world p c'"
        using cache_okD[OF ok] s t policy by (auto split: if_splits)
    qed (use ok fetched(2) in \<open>auto simp: cache_ok_def\<close>)
    moreover have "\<exists>c. served world policy c \<and> map_of (ck_byID c) kid = Some k \<and> ck_fetchedAt c \<le> now \<and> now < ck_fetchedAt c + hours 1"
      if "res = Inr k" for k
      using that s t fetched(3) by (intro exI[of _ c]) (auto split: option.splits)
    ultimately show ?thesis by blast
  qed
qed

lemma checkHeader_Inr:
  assumes "checkHeader lib v provider raw project env = Inr (policy, header, payload, signature, kid)"
  shows "map_of (va_policies v) provider = Some policy" "raw = header @ ''.'' @ payload @ ''.'' @ signature"
    "length raw \<le> 32768" "project \<noteq> []" "env \<noteq> []"
proof -
  have s: "split_on CHR ''.'' raw = [header, payload, signature]" and r: "map_of (va_policies v) provider = Some policy"
      "length raw \<le> 32768" "project \<noteq> []" "env \<noteq> []"
    using assms
    by (auto simp: checkHeader_def require_def split: if_splits option.splits list.splits)
  show "raw = header @ ''.'' @ payload @ ''.'' @ signature"
    using split_on_join[of "CHR ''.''" raw] by (simp add: s)
  show "map_of (va_policies v) provider = Some policy" "length raw \<le> 32768" "project \<noteq> []" "env \<noteq> []" using r by simp_all
qed

lemma Validate_key:
  assumes ok: "cache_ok world policies (now, v)"
    and res: "Validate lib now (\<lambda>url. world url now) provider raw project env v = (v', r)"
  shows "cache_ok world policies (now, v') \<and> (\<forall>identity. r = Inr identity \<longrightarrow>
    (\<exists>policy header payload signature kid c k sig cs.
       checkHeader lib v provider raw project env = Inr (policy, header, payload, signature, kid)
       \<and> served world policy c \<and> map_of (ck_byID c) kid = Some k \<and> ck_fetchedAt c \<le> now \<and> now < ck_fetchedAt c + hours 1
       \<and> b64url_decode signature = Some sig
       \<and> cr_verifyPKCS1v15 lib k (cr_sha256 lib (textBytes (header @ ''.'' @ payload))) sig
       \<and> decodeJSON lib payload = Some cs \<and> checkClaims now policy project env cs = Inr identity))"
proof (cases "checkHeader lib v provider raw project env")
  case (Inl e)
  then show ?thesis using res ok by (auto simp: Validate_def)
next
  case (Inr x)
  obtain policy header payload signature kid where x: "x = (policy, header, payload, signature, kid)" by (metis prod.exhaust)
  have "map_of policies provider = Some policy" using checkHeader_Inr(1)[OF Inr[unfolded x]] ok by (simp add: cache_ok_def)
  then have policy: "map_of policies (po_ID policy) = Some policy" using ok by (auto simp: cache_ok_def)
  obtain v1 first where l1: "lookupKey now (world (po_JWKSURL policy) now False) policy kid False v = (v1, first)" by (metis prod.exhaust)
  obtain v2 key where l2: "(if first = Inl UnknownKey then lookupKey now (world (po_JWKSURL policy) now True) policy kid True v1 else (v1, first)) = (v2, key)"
    by (metis prod.exhaust)
  note ok1 = lookupKey_ok[OF ok policy l1]
  have ok2: "cache_ok world policies (now, v2) \<and> (\<forall>k. key = Inr k \<longrightarrow> (\<exists>c. served world policy c \<and> map_of (ck_byID c) kid = Some k
       \<and> ck_fetchedAt c \<le> now \<and> now < ck_fetchedAt c + hours 1))"
    using ok1 lookupKey_ok[of world policies now v1 policy True kid v2 key] policy l2 by (auto split: if_splits)
  show ?thesis
  proof (cases key)
    case (Inl e)
    then show ?thesis using res ok2 Inr x l1 l2 by (auto simp: Validate_def)
  next
    case k: (Inr k)
    obtain c where c: "served world policy c" "map_of (ck_byID c) kid = Some k" "ck_fetchedAt c \<le> now" "now < ck_fetchedAt c + hours 1"
      using ok2 k by blast
    have "v' = v2" and r: "\<And>identity. r = Inr identity \<Longrightarrow> \<exists>sig cs. b64url_decode signature = Some sig
       \<and> cr_verifyPKCS1v15 lib k (cr_sha256 lib (textBytes (header @ ''.'' @ payload))) sig
       \<and> decodeJSON lib payload = Some cs \<and> checkClaims now policy project env cs = Inr identity"
      using res Inr x l1 l2 k by (auto simp: Validate_def split: option.splits if_splits)
    then show ?thesis using ok2 c Inr x by blast
  qed
qed

lemma cache_ok_later: "now \<le> later \<Longrightarrow> cache_ok world policies (now, v) \<Longrightarrow> cache_ok world policies (later, v)"
  by (fastforce simp: cache_ok_def)

interpretation oidc_run: machine "oidc_step lib world" "cache_ok world policies" for lib world policies
proof unfold_locales
  fix s t assume "cache_ok world policies s" "oidc_step lib world s t"
  then show "cache_ok world policies t"
    using Validate_key[OF cache_ok_later] by (auto elim!: oidc_step.cases) (metis prod.exhaust fst_conv)
qed

section \<open>Policies of a new validator\<close>

lemma normalisePolicy_Inr:
  assumes "normalisePolicy url_parse p = Inr q"
  shows "po_ID q = po_ID p \<and> set (po_Algorithms q) = {''RS256''} \<and> po_ProjectIDClaim q \<noteq> [] \<and> po_EnvironmentClaim q \<noteq> []
    \<and> po_ReplayClaim q \<noteq> [] \<and> (\<exists>host. url_parse (po_JWKSURL q) = Some (''https'', host) \<and> host \<noteq> [])"
proof -
  have alg: "list_all (\<lambda>a. a = ''RS256'') as \<Longrightarrow> as \<noteq> [] \<Longrightarrow> set as = {''RS256''}" for as
    by (cases as) (auto simp: list_all_iff)
  show ?thesis
    using assms unfolding normalisePolicy_def Let_def
    by (auto split: if_splits option.splits simp: alg)
qed

lemma addPolicies_Inr:
  assumes "addPolicies url_parse known ps = Inr out"
    and "\<And>pid q. map_of known pid = Some q \<Longrightarrow> po_ID q = pid \<and> set (po_Algorithms q) = {''RS256''}
        \<and> (\<exists>host. url_parse (po_JWKSURL q) = Some (''https'', host) \<and> host \<noteq> [])"
    and "map_of out pid = Some q"
  shows "po_ID q = pid \<and> set (po_Algorithms q) = {''RS256''} \<and> (\<exists>host. url_parse (po_JWKSURL q) = Some (''https'', host) \<and> host \<noteq> [])"
  using assms
proof (induction url_parse known ps rule: addPolicies.induct)
  case (2 url_parse known p ps)
  obtain q' where q': "normalisePolicy url_parse p = Inr q'" "map_of known (po_ID q') = None"
      "addPolicies url_parse ((po_ID q', q') # known) ps = Inr out"
    using "2.prems"(1) unfolding addPolicies.simps by (cases "normalisePolicy url_parse p") (auto split: if_splits)
  show ?case
  proof (rule "2.IH"[OF q'(1) _ q'(3) _ "2.prems"(3)])
    show "\<not> map_of known (po_ID q') \<noteq> None" using q'(2) by simp
  next
    fix pid q assume "map_of ((po_ID q', q') # known) pid = Some q"
    then have "pid = po_ID q' \<and> q = q' \<or> map_of known pid = Some q"
      by (simp only: map_of.simps fst_conv snd_conv fun_upd_apply option.inject split: if_splits) simp_all
    then consider "pid = po_ID q'" "q = q'" | "map_of known pid = Some q" by blast
    then show "po_ID q = pid \<and> set (po_Algorithms q) = {''RS256''}
        \<and> (\<exists>host. url_parse (po_JWKSURL q) = Some (''https'', host) \<and> host \<noteq> [])"
    proof cases
      case 1
      then show ?thesis using normalisePolicy_Inr[OF q'(1)] by blast
    next
      case 2
      then show ?thesis by (rule "2.prems"(2))
    qed
  qed
qed auto

lemma NewValidator_ok:
  assumes "NewValidator url_parse ps = Inr v"
  shows "cache_ok world (va_policies v) (now, v)"
    and "map_of (va_policies v) pid = Some q \<Longrightarrow> set (po_Algorithms q) = {''RS256''}"
    and "map_of (va_policies v) pid = Some q \<Longrightarrow> \<exists>host. url_parse (po_JWKSURL q) = Some (''https'', host) \<and> host \<noteq> []"
proof -
  obtain known where k: "addPolicies url_parse [] ps = Inr known" "v = \<lparr>va_policies = known, va_keys = []\<rparr>"
    using assms by (auto simp: NewValidator_def split: sum.splits)
  have "map_of known pid = Some q \<Longrightarrow> po_ID q = pid \<and> set (po_Algorithms q) = {''RS256''}
      \<and> (\<exists>host. url_parse (po_JWKSURL q) = Some (''https'', host) \<and> host \<noteq> [])" for pid q
    using addPolicies_Inr[OF k(1)] by simp
  then show "cache_ok world (va_policies v) (now, v)" "map_of (va_policies v) pid = Some q \<Longrightarrow> set (po_Algorithms q) = {''RS256''}"
      "map_of (va_policies v) pid = Some q \<Longrightarrow> \<exists>host. url_parse (po_JWKSURL q) = Some (''https'', host) \<and> host \<noteq> []"
    by (auto simp: cache_ok_def k(2))
qed

section \<open>Accepted tokens\<close>

text \<open>What the claims of an accepted token say.\<close>

definition claims_bound :: "time \<Rightarrow> OPolicy \<Rightarrow> string \<Rightarrow> string \<Rightarrow> claims \<Rightarrow> bool" where
  "claims_bound now policy project env cs \<longleftrightarrow>
     textClaim cs ''iss'' = po_Issuer policy \<and> matchesAudience (map_of cs ''aud'') (po_Audiences policy)
     \<and> (\<exists>t. numericTime (map_of cs ''iat'') = Some t \<and> t \<le> now + skew \<and> time_sub now t \<le> wrap64 (po_MaxTokenAge policy + skew))
     \<and> textClaim cs (po_ProjectIDClaim policy) = project \<and> textClaim cs (po_EnvironmentClaim policy) = env
     \<and> (\<forall>(claim, expected)\<in>set (po_RequiredClaims policy). textClaim cs claim = expected)
     \<and> (\<forall>(claim, allowed)\<in>set (po_OneOfClaims policy). textClaim cs claim \<in> set allowed)"

lemma require_Inr [simp]: "require b e = Inr u \<longleftrightarrow> b"
  by (simp add: require_def)

lemma checkClaims_Inr:
  assumes "checkClaims now policy project env cs = Inr i"
  shows "claims_bound now policy project env cs" "id_ProviderID i = po_ID policy" "id_JTI i \<noteq> []"
    "id_JTI i = textClaim cs (po_ReplayClaim policy)" "numericTime (map_of cs ''exp'') = Some (id_ExpiresAt i)"
    "now < id_ExpiresAt i + skew" "workflowSHAMatches (id_WorkflowRef i) (id_WorkflowSHA i)"
proof -
  have iat: "\<exists>t. x = Some t \<and> P t" if "case x of Some t \<Rightarrow> P t | None \<Rightarrow> False" for x :: "time option" and P
    using that by (cases x) auto
  note parts = assms[unfolded checkClaims_def and_then_Inr_iff Let_def require_Inr]
  have exp: "numericTime (map_of cs ''exp'') = Some (id_ExpiresAt i) \<and> now < id_ExpiresAt i + skew"
    using parts by (auto split: option.splits if_splits)
  show "numericTime (map_of cs ''exp'') = Some (id_ExpiresAt i)" "now < id_ExpiresAt i + skew" using exp by simp_all
  show "id_ProviderID i = po_ID policy" "id_JTI i \<noteq> []" "id_JTI i = textClaim cs (po_ReplayClaim policy)"
      "workflowSHAMatches (id_WorkflowRef i) (id_WorkflowSHA i)"
    using parts by auto
  have "\<exists>t. numericTime (map_of cs ''iat'') = Some t \<and> \<not> t > now + skew \<and> \<not> time_sub now t > wrap64 (po_MaxTokenAge policy + skew)"
    using parts iat by blast
  then show "claims_bound now policy project env cs"
    using parts by (auto simp: claims_bound_def list_all_iff)
qed

text \<open>
  C7. A token is accepted only if it was signed with a key that the endpoint of the named policy served less than an hour
  before, in a run with any answers of the endpoints: the endpoint is an absolute HTTPS URL, the algorithm is RS256, the
  signature covers the first two parts of the token, and its claims name the issuer, an audience, the project and the
  environment of the request; the token is not expired by more than 30 seconds and not older than the policy allows, it
  has a replay identifier, and its workflow reference ends in the commit that it names.
\<close>

theorem Validate_sound:
  assumes new: "NewValidator url_parse ps = Inr v0" and run: "(oidc_step lib world)\<^sup>*\<^sup>* (t0, v0) (t, v)" and later: "t \<le> now"
    and ok: "Validate lib now (\<lambda>url. world url now) provider raw project env v = (v', Inr identity)"
  shows "\<exists>policy header payload signature sig cs c kid k host.
    map_of (va_policies v0) provider = Some policy \<and> raw = header @ ''.'' @ payload @ ''.'' @ signature
    \<and> url_parse (po_JWKSURL policy) = Some (''https'', host) \<and> set (po_Algorithms policy) = {''RS256''}
    \<and> served world policy c \<and> now - hours 1 < ck_fetchedAt c \<and> ck_fetchedAt c \<le> now \<and> map_of (ck_byID c) kid = Some k
    \<and> b64url_decode signature = Some sig
    \<and> cr_verifyPKCS1v15 lib k (cr_sha256 lib (textBytes (header @ ''.'' @ payload))) sig
    \<and> decodeJSON lib payload = Some cs \<and> claims_bound now policy project env cs
    \<and> project \<noteq> [] \<and> env \<noteq> [] \<and> id_JTI identity \<noteq> [] \<and> now < id_ExpiresAt identity + skew
    \<and> workflowSHAMatches (id_WorkflowRef identity) (id_WorkflowSHA identity)"
proof -
  have "cache_ok world (va_policies v0) (t, v)"
    using oidc_run.steps_inv[OF run NewValidator_ok(1)[OF new]] .
  then have cache: "cache_ok world (va_policies v0) (now, v)" using cache_ok_later[OF later] by blast
  obtain policy header payload signature kid c k sig cs where p:
      "checkHeader lib v provider raw project env = Inr (policy, header, payload, signature, kid)"
      "served world policy c" "map_of (ck_byID c) kid = Some k" "ck_fetchedAt c \<le> now" "now < ck_fetchedAt c + hours 1"
      "b64url_decode signature = Some sig"
      "cr_verifyPKCS1v15 lib k (cr_sha256 lib (textBytes (header @ ''.'' @ payload))) sig"
      "decodeJSON lib payload = Some cs" "checkClaims now policy project env cs = Inr identity"
    using Validate_key[OF cache ok] by blast
  note h = checkHeader_Inr[OF p(1)] and cl = checkClaims_Inr[OF p(9)]
  have pol: "map_of (va_policies v0) provider = Some policy" using h(1) cache by (simp add: cache_ok_def)
  obtain host where "url_parse (po_JWKSURL policy) = Some (''https'', host)" using NewValidator_ok(3)[OF new pol] by blast
  moreover have "now - hours 1 < ck_fetchedAt c" using p(5) by simp
  ultimately show ?thesis using pol h p cl NewValidator_ok(2)[OF new pol] by blast
qed

section \<open>A concrete token\<close>

definition sampleSHA :: string where
  "sampleSHA = replicate 40 CHR ''a''"

definition samplePolicy :: OPolicy where
  "samplePolicy =
     \<lparr>po_ID = ''gh'', po_Issuer = ''https://issuer'', po_JWKSURL = ''https://issuer/keys'', po_Audiences = [''tailbridge''],
      po_Algorithms = [], po_MaxTokenAge = 0, po_MaxTokenAgeText = ''10m'', po_RequiredClaims = [(''actor'', ''bot'')],
      po_OneOfClaims = [], po_ProjectIDClaim = ''project'', po_EnvironmentClaim = ''environment'', po_ReplayClaim = [],
      po_RepositoryIDClaim = ''repository_id'', po_RepositoryClaim = [], po_WorkflowRefClaim = ''ref'',
      po_WorkflowSHAClaim = ''sha'', po_RunIDClaim = ''run'', po_RunAttemptClaim = ''attempt''\<rparr>"

definition sampleClaims :: claims where
  "sampleClaims =
     [(''iss'', JString ''https://issuer''), (''aud'', JArray [JString ''tailbridge'']), (''exp'', JNumber ''1100''),
      (''iat'', JNumber ''990''), (''actor'', JString ''bot''), (''project'', JString ''p1''), (''environment'', JString ''prod''),
      (''jti'', JString ''t1''), (''repository_id'', JNumber ''7''), (''ref'', JString (''w@'' @ sampleSHA)),
      (''sha'', JString sampleSHA), (''run'', JString ''1''), (''attempt'', JString ''1'')]"

text \<open>The header is the byte 1 and the payload the byte 2 in base64; the signature is the byte 3.\<close>

definition sampleCrypto :: cryptolib where
  "sampleCrypto =
     \<lparr>cr_decodeObject = (\<lambda>b. if b = [1] then Some [(''alg'', JString ''RS256''), (''kid'', JString ''k'')] else Some sampleClaims),
      cr_sha256 = (\<lambda>b. b), cr_verifyPKCS1v15 = (\<lambda>k d s. s = [3])\<rparr>"

definition sampleWorld :: "string \<Rightarrow> time \<Rightarrow> bool \<Rightarrow> jwksAnswer option" where
  "sampleWorld url t force = Some \<lparr>ja_Status = 200, ja_CacheControl = ''max-age=60'', ja_Document =
     Some [\<lparr>jk_KID = ''k'', jk_Kty = ''RSA'', jk_Use = ''sig'', jk_Alg = ''RS256'', jk_N = replicate 344 CHR ''_'', jk_E = ''AQAB''\<rparr>]\<rparr>"

definition sampleURL :: "string \<Rightarrow> (string \<times> string) option" where
  "sampleURL url = Some (''https'', ''issuer'')"

definition sampleValidator :: Validator where
  "sampleValidator = \<lparr>va_policies = [(''gh'', samplePolicy\<lparr>po_Algorithms := [''RS256''], po_MaxTokenAge := minutes 10,
     po_ReplayClaim := ''jti''\<rparr>)], va_keys = []\<rparr>"

lemma sampleValidator_new: "NewValidator sampleURL [samplePolicy] = Inr sampleValidator"
  by code_simp

lemma sampleToken_valid:
  "case snd (Validate sampleCrypto (seconds 1000) (\<lambda>url. sampleWorld url (seconds 1000)) ''gh'' ''AQ.Ag.Aw'' ''p1'' ''prod'' sampleValidator) of
     Inr i \<Rightarrow> id_JTI i = ''t1'' \<and> id_ExpiresAt i = seconds 1100 | Inl _ \<Rightarrow> False"
  by code_simp

theorem Validate_sound_witness:
  "\<exists>v' identity. NewValidator sampleURL [samplePolicy] = Inr sampleValidator
     \<and> Validate sampleCrypto (seconds 1000) (\<lambda>url. sampleWorld url (seconds 1000)) ''gh'' ''AQ.Ag.Aw'' ''p1'' ''prod'' sampleValidator
         = (v', Inr identity)
     \<and> id_JTI identity \<noteq> [] \<and> seconds 1000 < id_ExpiresAt identity + skew
     \<and> workflowSHAMatches (id_WorkflowRef identity) (id_WorkflowSHA identity)"
proof -
  obtain v' identity where v: "Validate sampleCrypto (seconds 1000) (\<lambda>url. sampleWorld url (seconds 1000)) ''gh'' ''AQ.Ag.Aw'' ''p1'' ''prod'' sampleValidator
      = (v', Inr identity)"
    using sampleToken_valid by (metis (no_types, lifting) sum.case_eq_if sum.collapse(2) prod.collapse)
  show ?thesis
    using Validate_sound[where world = sampleWorld and now = "seconds 1000", OF sampleValidator_new rtranclp.rtrancl_refl order_refl v] v sampleValidator_new by blast
qed

end
