(* ===== verification/Enrollment.thy ===== *)
theory Enrollment
  imports Protocol Identity Config_Load Registry Status
begin

text \<open>
  Package \<^verbatim>\<open>internal/enrollment\<close>: the registration service of the edge (\<^verbatim>\<open>server.go\<close>) and the client by which a dynamic
  connector obtains and renews its identity (\<^verbatim>\<open>client.go\<close>). HMAC, SHA-256, Ed25519, PEM and the signing of certificates
  are the parameter \<open>keylib\<close>; a private key is named by its PEM form. The identity file of the client is a value that a
  save replaces (the code writes a temporary file and renames it).
\<close>

record keylib =
  kl_hmac :: "bytes \<Rightarrow> bytes \<Rightarrow> bytes"
  kl_sha :: "bytes \<Rightarrow> bytes"
  kl_verify :: "bytes \<Rightarrow> bytes \<Rightarrow> bytes \<Rightarrow> bool"
  kl_sign :: "bytes \<Rightarrow> bytes \<Rightarrow> bytes"
  kl_public :: "bytes \<Rightarrow> bytes option"
  kl_create :: "certificate \<Rightarrow> bool"
  kl_pem :: "certificate \<Rightarrow> bytes"

section \<open>Proofs\<close>

definition proofText :: "RegistrationRequest \<Rightarrow> bytes" where
  "proofText r = text_bytes (rr_ProjectID r) @ [0] @ text_bytes (rr_EnvironmentID r) @ [0] @ rr_IdentityKey r @ [0]
     @ rr_TransportKey r"

definition Proof :: "keylib \<Rightarrow> bytes \<Rightarrow> RegistrationRequest \<Rightarrow> bytes" where
  "Proof lib nonce r = kl_hmac lib nonce (proofText r)"

definition RenewalMessage :: "keylib \<Rightarrow> RegistrationRequest \<Rightarrow> bytes" where
  "RenewalMessage lib r = kl_sha lib (text_bytes ''tailbridge-renewal-v1'' @ [0] @ proofText r)"

section \<open>The server\<close>

record rateWindow =
  wi_start :: time
  wi_count :: int

record EnrollServer =
  ns_config :: Edge
  ns_issuer :: certificate
  ns_source :: "(string \<times> rateWindow) list"
  ns_status :: Server

text \<open>The rate limit of a source: 30 requests in a window of a minute, and at most 2048 sources at a time.\<close>

definition allow :: "time \<Rightarrow> string \<Rightarrow> (string \<times> rateWindow) list \<Rightarrow> (string \<times> rateWindow) list \<times> bool" where
  "allow now source ws =
     (let ws1 = (if length ws \<ge> 1024 then filter (\<lambda>(_, w). \<not> now - wi_start w \<ge> minutes 1) ws else ws) in
      if length ws \<ge> 1024 \<and> length ws1 \<ge> 2048 \<and> map_of ws1 source = None then (ws1, False)
      else case map_of ws1 source of
             None \<Rightarrow> (AList.update source \<lparr>wi_start = now, wi_count = 1\<rparr> ws1, True)
           | Some w \<Rightarrow>
               if now - wi_start w \<ge> minutes 1 then (AList.update source \<lparr>wi_start = now, wi_count = 1\<rparr> ws1, True)
               else (AList.update source (w\<lparr>wi_count := wi_count w + 1\<rparr>) ws1, wi_count w + 1 \<le> 30))"

definition allowServer :: "time \<Rightarrow> string \<Rightarrow> EnrollServer \<Rightarrow> EnrollServer \<times> bool" where
  "allowServer now source s = (let (ws, ok) = allow now source (ns_source s) in (s\<lparr>ns_source := ws\<rparr>, ok))"

definition sourceHost :: "string \<Rightarrow> string" where
  "sourceHost source = (case split_host_port source of Some (host, _) \<Rightarrow> host | None \<Rightarrow> source)"

fun requestState :: "request_state \<Rightarrow> string" where
  "requestState Pending = ''pending''"
| "requestState RequestApproved = ''approved''"
| "requestState RequestExpired = ''expired''"

definition noResponse :: RegistrationResponse where
  "noResponse = \<lparr>rs_RequestID = [], rs_State = [], rs_ErrorCode = [], rs_RetryAfterMS = 0, rs_VirtualPrefix = [],
     rs_RealPrefix = [], rs_DNSSuffix = [], rs_CertificatePEM = [], rs_CertificateEnd = 0, rs_LeaseExpiresAt = 0\<rparr>"

definition rejected :: "string \<Rightarrow> RegistrationResponse" where
  "rejected code = noResponse\<lparr>rs_State := ''rejected'', rs_ErrorCode := code\<rparr>"

text \<open>\<^verbatim>\<open>big.Int.Text(16)\<close> and the call of the issuer: the chain in PEM, the serial and the end of validity.\<close>

fun hexText :: "nat \<Rightarrow> string" where
  "hexText n = (if n < 16 then [hex_digit n] else hexText (n div 16) @ [hex_digit (n mod 16)])"

declare hexText.simps [simp del]

definition issueConnector ::
    "keylib \<Rightarrow> certificate \<Rightarrow> time \<Rightarrow> nat \<Rightarrow> string \<Rightarrow> string \<Rightarrow> string \<Rightarrow> bytes \<Rightarrow> (bytes \<times> string \<times> time) option" where
  "issueConnector lib issuer now random projectID environmentID keyID transportKey =
     (case IssueConnector (kl_create lib) issuer now random projectID environmentID keyID (length transportKey) (hours 24) of
        Inl _ \<Rightarrow> None
      | Inr (c, serial, notAfter) \<Rightarrow> Some (kl_pem lib c, hexText serial, notAfter))"

definition dnsSuffix :: "string \<Rightarrow> string \<Rightarrow> string" where
  "dnsSuffix projectAlias environmentAlias = projectAlias @ ''.'' @ environmentAlias @ ''.railway.internal''"

definition leaseFor :: "Edge \<Rightarrow> string \<Rightarrow> duration" where
  "leaseFor cfg environment =
     (if environment \<in> set (ed_PersistentEnvironments cfg) then ed_PersistentLease cfg else ed_PreviewLease cfg)"

text \<open>A renewal: the server, the store and the response.\<close>

definition renew ::
    "keylib \<Rightarrow> time \<Rightarrow> nat \<Rightarrow> string \<Rightarrow> RegistrationRequest \<Rightarrow> EnrollServer \<Rightarrow> db \<Rightarrow> EnrollServer \<times> db \<times> RegistrationResponse" where
  "renew lib now random sourceAddress r s0 d =
     (let (s, allowed) = allowServer now sourceAddress s0 in
      if \<not> allowed \<or> rr_ProjectID r = [] \<or> rr_EnvironmentID r = [] \<or> length (rr_IdentityKey r) \<noteq> 32
         \<or> length (rr_TransportKey r) \<noteq> 32 \<or> length (rr_Proof r) \<noteq> 64
      then (s, d, rejected ''invalid_renewal'')
      else case Registration_of d (rr_ProjectID r) (rr_EnvironmentID r) of
          Inl _ \<Rightarrow> (s, d, rejected ''unknown_identity'')
        | Inr registration \<Rightarrow>
            (let keyID = Fingerprint (kl_sha lib) (rr_IdentityKey r) in
             case ActiveIdentityKey now d (rg_ID registration) keyID of
               Inl _ \<Rightarrow> (s, d, rejected ''invalid_identity_proof'')
             | Inr activeKey \<Rightarrow>
                 if \<not> kl_verify lib activeKey (RenewalMessage lib r) (rr_Proof r)
                 then (s, d, rejected ''invalid_identity_proof'')
                 else case issueConnector lib (ns_issuer s) now random (rr_ProjectID r) (rr_EnvironmentID r) keyID
                             (rr_TransportKey r) of
                     None \<Rightarrow> (s, d, rejected ''certificate_issuance'')
                   | Some (certificate, certificateID, certificateEnd) \<Rightarrow>
                       (case Renew now d registration keyID certificate certificateID certificateEnd
                               (leaseFor (ns_config s) (rg_EnvironmentName registration)) of
                          Inl _ \<Rightarrow> (s, d, rejected ''renewal_rejected'')
                        | Inr (d1, Inl _) \<Rightarrow> (s, d1, rejected ''renewal_rejected'')
                        | Inr (d1, Inr renewed) \<Rightarrow>
                            (s, d1, noResponse\<lparr>rs_State := ''approved'',
                               rs_VirtualPrefix := prefix_string (rg_VirtualPrefix renewed),
                               rs_RealPrefix := prefix_string (rg_RealPrefix renewed),
                               rs_DNSSuffix := dnsSuffix (rg_ProjectAlias renewed) (rg_EnvironmentAlias renewed),
                               rs_CertificatePEM := certificate, rs_CertificateEnd := certificateEnd div 1000000000,
                               rs_LeaseExpiresAt := rg_LeaseExpiresAt renewed div 1000000000\<rparr>))))"

definition responseForPending :: "time \<Rightarrow> PendingRequest \<Rightarrow> db \<Rightarrow> RegistrationResponse" where
  "responseForPending now q d =
     (let again = noResponse\<lparr>rs_RequestID := pr_ID q, rs_State := ''pending'', rs_RetryAfterMS := 1000\<rparr> in
      if pr_State q = Pending \<and> \<not> pr_ExpiresAt q > now
      then noResponse\<lparr>rs_RequestID := pr_ID q, rs_State := ''expired'', rs_ErrorCode := ''request_expired''\<rparr>
      else if pr_State q = RequestApproved then
        (case Registration_of d (pr_ProjectID q) (pr_EnvironmentID q) of
           Inl _ \<Rightarrow> again
         | Inr registration \<Rightarrow>
             (case CredentialOf d (rg_ID registration) of
                Inl _ \<Rightarrow> again
              | Inr credential \<Rightarrow>
                  noResponse\<lparr>rs_RequestID := pr_ID q, rs_State := ''approved'',
                    rs_VirtualPrefix := prefix_string (rg_VirtualPrefix registration),
                    rs_RealPrefix := prefix_string (rg_RealPrefix registration),
                    rs_DNSSuffix := dnsSuffix (pr_ProjectAlias q) (pr_EnvironmentAlias q),
                    rs_CertificatePEM := cr_CertificatePEM credential,
                    rs_CertificateEnd := cr_NotAfter credential div 1000000000,
                    rs_LeaseExpiresAt := rg_LeaseExpiresAt registration div 1000000000\<rparr>))
      else again\<lparr>rs_State := requestState (pr_State q)\<rparr>)"

text \<open>A first request; \<open>drawn\<close> is the random request identifier.\<close>

definition requestRow :: "string \<Rightarrow> string \<Rightarrow> RegistrationRequest \<Rightarrow> PendingRequest" where
  "requestRow i sourceAddress r =
     \<lparr>pr_ID = i, pr_Kind = rr_Kind r, pr_ProjectID = rr_ProjectID r, pr_EnvironmentID = rr_EnvironmentID r,
      pr_EnvironmentName = rr_EnvironmentName r, pr_ProjectAlias = rr_ProjectAlias r,
      pr_EnvironmentAlias = rr_EnvironmentAlias r, pr_IdentityKey = rr_IdentityKey r, pr_IdentityKeyID = [],
      pr_TransportKey = rr_TransportKey r, pr_Proof = rr_Proof r, pr_SourceAddress = sourceAddress,
      pr_CreatedAt = zero_time, pr_ExpiresAt = zero_time, pr_State = Pending\<rparr>"

definition enroll ::
    "keylib \<Rightarrow> time \<Rightarrow> string option \<Rightarrow> string \<Rightarrow> RegistrationRequest \<Rightarrow> EnrollServer \<Rightarrow> db \<Rightarrow> EnrollServer \<times> db \<times> RegistrationResponse" where
  "enroll lib now drawn sourceAddress r s0 d =
     (if ed_RegistrationFrozen (ns_config s0)
      then (s0, d, noResponse\<lparr>rs_State := ''frozen'', rs_ErrorCode := ''registration_frozen''\<rparr>)
      else let (s, allowed) = allowServer now sourceAddress s0 in
        if \<not> allowed then (s, d, (rejected ''rate_limited'')\<lparr>rs_RetryAfterMS := 60000\<rparr>)
        else if rr_ProjectID r = [] \<or> rr_EnvironmentID r = [] \<or> rr_EnvironmentName r = [] \<or> length (rr_IdentityKey r) \<noteq> 32
                \<or> length (rr_TransportKey r) \<noteq> 32 \<or> length (rr_Proof r) \<noteq> 32
        then (s, d, rejected ''invalid_request'')
        else case drawn of
            None \<Rightarrow> (s, d, rejected ''internal_error'')
          | Some i \<Rightarrow>
              (case CreatePending (kl_sha lib) now d (requestRow i sourceAddress r) of
                 Inl ErrIdentityConflict \<Rightarrow> (s, d, rejected ''identity_rotation_required'')
               | Inl ErrRateLimited \<Rightarrow> (s, d, (rejected ''pending_limit'')\<lparr>rs_RetryAfterMS := 60000\<rparr>)
               | Inl _ \<Rightarrow> (s, d, rejected ''internal_error'')
               | Inr (d1, q, _) \<Rightarrow>
                   (s, d1, noResponse\<lparr>rs_RequestID := pr_ID q, rs_State := ''pending'', rs_RetryAfterMS := 1000\<rparr>)))"

definition poll ::
    "time \<Rightarrow> string \<Rightarrow> RegistrationRequest \<Rightarrow> EnrollServer \<Rightarrow> db \<Rightarrow> EnrollServer \<times> db \<times> RegistrationResponse" where
  "poll now sourceAddress r s0 d =
     (let (s, allowed) = allowServer now sourceAddress s0 in
      if \<not> allowed
      then (s, d, (rejected ''rate_limited'')\<lparr>rs_RequestID := rr_RequestID r, rs_RetryAfterMS := 60000\<rparr>)
      else case PendingRow d (rr_RequestID r) of
          Inl e \<Rightarrow>
            (s, d, if e = ErrNotFound
                   then noResponse\<lparr>rs_RequestID := rr_RequestID r, rs_State := ''expired'', rs_ErrorCode := ''request_not_found''\<rparr>
                   else (rejected ''internal_error'')\<lparr>rs_RequestID := rr_RequestID r, rs_RetryAfterMS := 1000\<rparr>)
        | Inr q \<Rightarrow> (s, d, responseForPending now q d))"

definition process ::
    "keylib \<Rightarrow> time \<Rightarrow> nat \<Rightarrow> string option \<Rightarrow> duration \<Rightarrow> string \<Rightarrow> RegistrationRequest \<Rightarrow> EnrollServer \<Rightarrow> db
     \<Rightarrow> EnrollServer \<times> db \<times> RegistrationResponse" where
  "process lib now random drawn elapsed source r s0 d0 =
     (let sourceAddress = sourceHost source;
          (s, d, response) =
            (if rr_Kind r = ''renew'' then renew lib now random sourceAddress r s0 d0
             else if rr_RequestID r \<noteq> [] then poll now sourceAddress r s0 d0
             else enroll lib now drawn sourceAddress r s0 d0);
          reason = (if rs_ErrorCode response = [] then rs_State response else rs_ErrorCode response)
      in (s\<lparr>ns_status := ObserveRegistration (rs_State response) reason elapsed (ns_status s)\<rparr>, d, response))"

section \<open>The client\<close>

record localIdentity =
  li_RequestID :: string
  li_ProjectID :: string
  li_EnvironmentID :: string
  li_IdentityKeyPEM :: bytes
  li_IdentityCreatedAt :: int
  li_PendingIdentityKeyPEM :: bytes
  li_TransportKeyPEM :: bytes
  li_CertificatePEM :: bytes
  li_CertificateEnd :: int
  li_VirtualPrefix :: string
  li_RealPrefix :: string
  li_DNSSuffix :: string
  li_LeaseExpiresAt :: int

definition identityLifetime :: duration where
  "identityLifetime = 365 * hours 24"

datatype client_error =
    IdentityUnreadable | OtherEnvironment | KeyNotCreated | SaveFailed | KeyNotValid | RegistrationStopped string string
  | ContextDone | PrefixUnreadable

text \<open>What reading the identity file gives: there is none, it cannot be read or parsed, or its content.\<close>

datatype identity_file = NoFile | Unreadable | Stored localIdentity

text \<open>\<open>saved\<close> tells whether a save succeeds, \<open>keys\<close> are the new identity and transport keys in PEM.\<close>

definition newIdentity :: "ConnectorConfig \<Rightarrow> int \<Rightarrow> bytes \<Rightarrow> bytes \<Rightarrow> localIdentity" where
  "newIdentity cfg created identityPEM transportPEM =
     \<lparr>li_RequestID = [], li_ProjectID = cc_ProjectID cfg, li_EnvironmentID = cc_EnvironmentID cfg,
      li_IdentityKeyPEM = identityPEM, li_IdentityCreatedAt = created, li_PendingIdentityKeyPEM = [],
      li_TransportKeyPEM = transportPEM, li_CertificatePEM = [], li_CertificateEnd = 0, li_VirtualPrefix = [],
      li_RealPrefix = [], li_DNSSuffix = [], li_LeaseExpiresAt = 0\<rparr>"

definition loadOrCreate :: "time \<Rightarrow> bool \<Rightarrow> (bytes \<times> bytes) option \<Rightarrow> ConnectorConfig \<Rightarrow> identity_file \<Rightarrow> client_error + localIdentity" where
  "loadOrCreate now saved keys cfg file =
     (case file of
        Unreadable \<Rightarrow> Inl IdentityUnreadable
      | Stored identity \<Rightarrow>
          if li_ProjectID identity \<noteq> cc_ProjectID cfg \<or> li_EnvironmentID identity \<noteq> cc_EnvironmentID cfg
          then Inl OtherEnvironment
          else if li_IdentityCreatedAt identity = 0 then
            (if saved then Inr (identity\<lparr>li_IdentityCreatedAt := now div 1000000000\<rparr>) else Inl SaveFailed)
          else Inr identity
      | NoFile \<Rightarrow>
          (case keys of
             None \<Rightarrow> Inl KeyNotCreated
           | Some (identityPEM, transportPEM) \<Rightarrow>
               if saved then Inr (newIdentity cfg (now div 1000000000) identityPEM transportPEM) else Inl SaveFailed))"

definition publicKey :: "keylib \<Rightarrow> bytes \<Rightarrow> bytes" where
  "publicKey lib pem = (case kl_public lib pem of Some k \<Rightarrow> k | None \<Rightarrow> [])"

definition registerRequest :: "keylib \<Rightarrow> ConnectorConfig \<Rightarrow> localIdentity \<Rightarrow> client_error + RegistrationRequest" where
  "registerRequest lib cfg identity =
     (let identityPEM = (if li_PendingIdentityKeyPEM identity \<noteq> [] then li_PendingIdentityKeyPEM identity
                         else li_IdentityKeyPEM identity);
          request = \<lparr>rr_RequestID = li_RequestID identity, rr_Kind = ''enroll'', rr_ProjectID = cc_ProjectID cfg,
            rr_EnvironmentID = cc_EnvironmentID cfg, rr_EnvironmentName = cc_EnvironmentName cfg,
            rr_DeploymentID = cc_DeploymentID cfg, rr_ProjectAlias = cc_ProjectAlias cfg,
            rr_EnvironmentAlias = cc_EnvironmentAlias cfg, rr_IdentityKey = publicKey lib identityPEM,
            rr_TransportKey = publicKey lib (li_TransportKeyPEM identity), rr_Proof = []\<rparr>;
          nonceProof = Proof lib (text_bytes (cc_EnrollmentNonce cfg)) request
      in if li_PendingIdentityKeyPEM identity \<noteq> [] then Inr (request\<lparr>rr_Kind := ''rotate'', rr_Proof := nonceProof\<rparr>)
         else if li_CertificatePEM identity \<noteq> [] then
           (if kl_public lib (li_IdentityKeyPEM identity) = None then Inl KeyNotValid
            else let r = request\<lparr>rr_Kind := ''renew''\<rparr>
                 in Inr (r\<lparr>rr_Proof := kl_sign lib (li_IdentityKeyPEM identity) (RenewalMessage lib r)\<rparr>))
         else Inr (request\<lparr>rr_Proof := nonceProof\<rparr>))"

definition storeApproval :: "time \<Rightarrow> RegistrationResponse \<Rightarrow> localIdentity \<Rightarrow> localIdentity" where
  "storeApproval now response identity =
     (let i1 = (if li_PendingIdentityKeyPEM identity \<noteq> []
                then identity\<lparr>li_IdentityKeyPEM := li_PendingIdentityKeyPEM identity, li_PendingIdentityKeyPEM := [],
                              li_IdentityCreatedAt := now div 1000000000\<rparr> else identity)
      in i1\<lparr>li_CertificatePEM := rs_CertificatePEM response, li_CertificateEnd := rs_CertificateEnd response,
            li_VirtualPrefix := rs_VirtualPrefix response, li_RealPrefix := rs_RealPrefix response,
            li_DNSSuffix := rs_DNSSuffix response, li_LeaseExpiresAt := rs_LeaseExpiresAt response\<rparr>)"

text \<open>What one exchange leads to: the end, or another round after a wait. \<open>delay\<close> is the delay of the next round.\<close>

datatype register_outcome =
    Registered localIdentity
  | RegisterFailed client_error
  | Again localIdentity RegistrationRequest duration duration

definition transientCode :: "string \<Rightarrow> bool" where
  "transientCode code \<longleftrightarrow> code \<in> {''rate_limited'', ''pending_limit'', ''internal_error''}"

definition retryDelay :: "duration \<Rightarrow> RegistrationResponse \<Rightarrow> duration" where
  "retryDelay delay response =
     (let responseRetry = wrap64 (rs_RetryAfterMS response * 1000000)
      in if responseRetry > delay \<and> responseRetry \<le> seconds 30 then responseRetry else delay)"

text \<open>One round of the loop of \<^verbatim>\<open>register\<close>; no answer stands for a failed exchange.\<close>

definition registerStep ::
    "time \<Rightarrow> bool \<Rightarrow> RegistrationResponse option \<Rightarrow> localIdentity \<Rightarrow> RegistrationRequest \<Rightarrow> duration \<Rightarrow> register_outcome" where
  "registerStep now saved answer identity0 request delay =
     (let nextDelay = min (delay * 2) (seconds 30) in
      case answer of
        None \<Rightarrow> Again identity0 request nextDelay (retryDelay delay noResponse)
      | Some response \<Rightarrow>
          (let identity = identity0\<lparr>li_RequestID := rs_RequestID response\<rparr> in
           if rs_State response = ''approved'' then
             (if saved then Registered (storeApproval now response identity) else RegisterFailed SaveFailed)
           else if rs_State response = ''expired'' then
             (if saved then Again (identity\<lparr>li_RequestID := []\<rparr>) (request\<lparr>rr_RequestID := []\<rparr>) delay 0
              else RegisterFailed SaveFailed)
           else if rs_State response \<in> {''rejected'', ''frozen''} \<and> \<not> transientCode (rs_ErrorCode response) then
             RegisterFailed (if saved then RegistrationStopped (rs_State response) (rs_ErrorCode response) else SaveFailed)
           else if saved then Again identity (request\<lparr>rr_RequestID := rs_RequestID response\<rparr>) nextDelay (retryDelay delay response)
           else RegisterFailed SaveFailed))"

text \<open>The loop over the answers of the exchanges, with their times and whether the save succeeds; it ends with the context.\<close>

fun registerLoop ::
    "(time \<times> bool \<times> RegistrationResponse option) list \<Rightarrow> localIdentity \<Rightarrow> RegistrationRequest \<Rightarrow> duration
     \<Rightarrow> client_error + localIdentity" where
  "registerLoop [] identity request delay = Inl ContextDone"
| "registerLoop ((now, saved, answer) # rest) identity request delay =
     (case registerStep now saved answer identity request delay of
        Registered i \<Rightarrow> Inr i
      | RegisterFailed e \<Rightarrow> Inl e
      | Again i r next wait \<Rightarrow> registerLoop rest i r next)"

definition register ::
    "keylib \<Rightarrow> ConnectorConfig \<Rightarrow> (time \<times> bool \<times> RegistrationResponse option) list \<Rightarrow> localIdentity \<Rightarrow> client_error + localIdentity" where
  "register lib cfg answers identity =
     and_then (registerRequest lib cfg identity) (\<lambda>request. registerLoop answers identity request (seconds 1))"

definition startRotation :: "time \<Rightarrow> bool \<Rightarrow> bytes option \<Rightarrow> ConnectorConfig \<Rightarrow> localIdentity \<Rightarrow> client_error + localIdentity" where
  "startRotation now saved key cfg identity =
     (if li_CertificatePEM identity \<noteq> [] \<and> li_IdentityCreatedAt identity \<le> (now - identityLifetime) div 1000000000
         \<and> li_PendingIdentityKeyPEM identity = [] \<and> cc_EnrollmentNonce cfg \<noteq> []
      then (case key of
              None \<Rightarrow> Inl KeyNotCreated
            | Some pem \<Rightarrow>
                if saved then Inr (identity\<lparr>li_PendingIdentityKeyPEM := pem, li_RequestID := []\<rparr>) else Inl SaveFailed)
      else Inr identity)"

definition needsRegistration :: "time \<Rightarrow> localIdentity \<Rightarrow> bool" where
  "needsRegistration now i \<longleftrightarrow> li_PendingIdentityKeyPEM i \<noteq> [] \<or> li_CertificatePEM i = []
     \<or> li_CertificateEnd i \<le> (now + hours 12) div 1000000000 \<or> li_LeaseExpiresAt i \<le> (now + hours 12) div 1000000000"

text \<open>The configuration of the connector with its identity.\<close>

definition configured_with :: "keylib \<Rightarrow> ConnectorConfig \<Rightarrow> localIdentity \<Rightarrow> client_error + ConnectorConfig" where
  "configured_with lib cfg i =
     (case parse_prefix (li_VirtualPrefix i) of
        None \<Rightarrow> Inl PrefixUnreadable
      | Some virtualPrefix \<Rightarrow>
          (case parse_prefix (li_RealPrefix i) of
             None \<Rightarrow> Inl PrefixUnreadable
           | Some realPrefix \<Rightarrow>
               if kl_public lib (li_TransportKeyPEM i) = None then Inl KeyNotValid
               else case kl_public lib (li_IdentityKeyPEM i) of
                   None \<Rightarrow> Inl KeyNotValid
                 | Some key \<Rightarrow>
                     Inr (cfg\<lparr>cc_VirtualPrefix := virtualPrefix, cc_RealPrefix := realPrefix, cc_DNSSuffix := li_DNSSuffix i,
                        cc_IdentityKeyID := Fingerprint (kl_sha lib) key,
                        cc_Common := (cc_Common cfg)\<lparr>co_ConnectorID := cc_ProjectID cfg @ ''/'' @ cc_EnvironmentID cfg,
                          co_Environment := cc_EnvironmentID cfg, co_Certificate := li_CertificatePEM i,
                          co_PrivateKey := li_TransportKeyPEM i\<rparr>\<rparr>)))"

definition Ensure ::
    "keylib \<Rightarrow> time \<Rightarrow> bool \<Rightarrow> (bytes \<times> bytes) option \<Rightarrow> bytes option
     \<Rightarrow> (time \<times> bool \<times> RegistrationResponse option) list \<Rightarrow> identity_file \<Rightarrow> ConnectorConfig \<Rightarrow> client_error + ConnectorConfig" where
  "Ensure lib now saved keys rotationKey answers file cfg =
     (if cc_RegistrationMode cfg \<noteq> ''dynamic'' then Inr cfg
      else and_then (loadOrCreate now saved keys cfg file) (\<lambda>i0.
           and_then (startRotation now saved rotationKey cfg i0) (\<lambda>i1.
           and_then (if needsRegistration now i1 then register lib cfg answers i1 else Inr i1) (\<lambda>i2.
             configured_with lib cfg i2))))"

end
