(* ===== verification/Enrollment_Props.thy ===== *)
theory Enrollment_Props
  imports Enrollment Registry_Findings Connector
begin

text \<open>
  What the registration exchange guarantees: the bound on the requests of a source, and that the connector that an
  approved request configures is the one that the registry has approved. A rate-limited renewal ends the client.
\<close>

section \<open>The rate limit\<close>

text \<open>A sequence of requests, each with its time and source: the windows after it and which requests were let through.\<close>

fun allowAll :: "(time \<times> string) list \<Rightarrow> (string \<times> rateWindow) list \<Rightarrow> (string \<times> rateWindow) list \<times> (string \<times> bool) list" where
  "allowAll [] ws = (ws, [])"
| "allowAll ((now, source) # calls) ws =
     (let (ws1, ok) = allow now source ws; (ws2, oks) = allowAll calls ws1 in (ws2, (source, ok) # oks))"

definition accepted :: "string \<Rightarrow> (string \<times> bool) list \<Rightarrow> nat" where
  "accepted source oks = length (filter (\<lambda>(s, ok). s = source \<and> ok) oks)"

definition table_ok :: "(string \<times> rateWindow) list \<Rightarrow> bool" where
  "table_ok ws \<longleftrightarrow> distinct (map fst ws) \<and> length ws \<le> 2048"

lemma map_of_filter_distinct:
  "distinct (map fst ws) \<Longrightarrow> map_of (filter (\<lambda>(_, w). P w) ws) k =
     (case map_of ws k of Some w \<Rightarrow> if P w then Some w else None | None \<Rightarrow> None)"
  by (induction ws) (auto split: option.splits simp: map_of_eq_None_iff image_iff)

lemma length_update_new: "length (AList.update k v al) = (if k \<in> fst ` set al then length al else Suc (length al))"
  by (induction al) auto

definition purged :: "time \<Rightarrow> (string \<times> rateWindow) list \<Rightarrow> (string \<times> rateWindow) list" where
  "purged now ws = (if length ws \<ge> 1024 then filter (\<lambda>(_, w). \<not> now - wi_start w \<ge> minutes 1) ws else ws)"

lemma purged_ok: "table_ok ws \<Longrightarrow> table_ok (purged now ws)"
  by (auto simp: table_ok_def purged_def intro: distinct_filter le_trans[OF length_filter_le] distinct_map_filter)

lemma map_of_purged:
  "table_ok ws \<Longrightarrow> map_of (purged now ws) k = (case map_of ws k of
     Some w \<Rightarrow> if length ws \<ge> 1024 \<and> now - wi_start w \<ge> minutes 1 then None else Some w | None \<Rightarrow> None)"
  using map_of_filter_distinct[of ws "\<lambda>w. \<not> now - wi_start w \<ge> minutes 1" k]
  by (auto simp: table_ok_def purged_def split: option.splits)

lemma allow_purged:
  "allow now source ws =
     (let ws1 = purged now ws in
      if length ws \<ge> 1024 \<and> length ws1 \<ge> 2048 \<and> map_of ws1 source = None then (ws1, False)
      else case map_of ws1 source of
             None \<Rightarrow> (AList.update source \<lparr>wi_start = now, wi_count = 1\<rparr> ws1, True)
           | Some w \<Rightarrow>
               if now - wi_start w \<ge> minutes 1 then (AList.update source \<lparr>wi_start = now, wi_count = 1\<rparr> ws1, True)
               else (AList.update source (w\<lparr>wi_count := wi_count w + 1\<rparr>) ws1, wi_count w + 1 \<le> 30))"
  by (simp add: allow_def purged_def)

lemma table_ok_update:
  assumes "table_ok ws" and "k \<in> fst ` set ws \<or> length ws < 2048"
  shows "table_ok (AList.update k v ws)"
  using assms by (auto simp: table_ok_def length_update_new distinct_update)

lemma allow_table_ok:
  assumes "table_ok ws"
  shows "table_ok (fst (allow now source ws))"
proof -
  let ?p = "purged now ws"
  have p: "table_ok ?p" using purged_ok[OF assms] .
  show ?thesis
  proof (cases "map_of ?p source")
    case None
    have "length ?p < 2048" if "\<not> (length ws \<ge> 1024 \<and> length ?p \<ge> 2048)"
      using that by (auto simp: purged_def split: if_splits)
    then show ?thesis using None p by (auto simp: allow_purged Let_def intro!: table_ok_update)
  next
    case (Some w)
    then have "source \<in> fst ` set ?p" by (metis domI dom_map_of_conv_image_fst)
    then show ?thesis using Some p by (auto simp: allow_purged Let_def intro!: table_ok_update)
  qed
qed

text \<open>
  Within a minute from \<open>t0\<close>, a source either has not been let through, or its window started in that minute and counts
  at least the requests let through.
\<close>

definition window_ok :: "time \<Rightarrow> string \<Rightarrow> nat \<Rightarrow> (string \<times> rateWindow) list \<Rightarrow> bool" where
  "window_ok t0 source n ws \<longleftrightarrow>
     (case map_of ws source of
        None \<Rightarrow> n = 0
      | Some w \<Rightarrow> n = 0 \<and> wi_start w + minutes 1 \<le> t0 \<or> t0 \<le> wi_start w \<and> int n \<le> wi_count w \<and> n \<le> 30)"

lemma allow_window:
  assumes ws: "table_ok ws" "window_ok t0 source n ws" and now: "t0 \<le> now" "now < t0 + minutes 1"
  shows "window_ok t0 source (n + (if s = source \<and> snd (allow now s ws) then 1 else 0)) (fst (allow now s ws))"
proof -
  let ?p = "purged now ws"
  have p: "window_ok t0 source n ?p" using ws now by (auto simp: window_ok_def map_of_purged split: option.splits)
  show ?thesis
  proof (cases "s = source")
    case False
    have "map_of (fst (allow now s ws)) source = map_of ?p source"
      using False by (auto simp: allow_purged Let_def update_conv' split: option.split)
    then show ?thesis using p False by (simp add: window_ok_def)
  next
    case True
    then show ?thesis using p now by (auto simp: allow_purged Let_def update_conv' window_ok_def split: option.splits)
  qed
qed

lemma accepted_Cons: "accepted source ((s, ok) # oks) = (if s = source \<and> ok then 1 else 0) + accepted source oks"
  by (simp add: accepted_def)

lemma allowAll_window:
  assumes "table_ok ws" "window_ok t0 source n ws" "\<forall>(now, s)\<in>set calls. t0 \<le> now \<and> now < t0 + minutes 1"
  shows "n + accepted source (snd (allowAll calls ws)) \<le> 30 \<or> n + accepted source (snd (allowAll calls ws)) = n"
  using assms
proof (induction calls ws arbitrary: n rule: allowAll.induct)
  case (1 ws)
  then show ?case by (simp add: accepted_def)
next
  case (2 now s calls ws)
  obtain ws1 ok where a: "allow now s ws = (ws1, ok)" by (cases "allow now s ws")
  obtain ws2 oks where b: "allowAll calls ws1 = (ws2, oks)" by (cases "allowAll calls ws1")
  let ?d = "if s = source \<and> ok then 1 else 0 :: nat"
  have w: "window_ok t0 source (n + ?d) ws1" using allow_window[of ws t0 source n now s] "2.prems" a by simp
  moreover have "table_ok ws1" using allow_table_ok[OF "2.prems"(1), of now s] a by simp
  ultimately have "n + ?d + accepted source oks \<le> 30 \<or> n + ?d + accepted source oks = n + ?d"
    using "2.IH"[OF a[symmetric] refl, of "n + ?d"] "2.prems"(3) b by simp
  moreover have "n + ?d \<le> 30 \<or> ?d = 0"
    using w by (auto simp: window_ok_def split: option.splits)
  ultimately show ?case by (auto simp: a b accepted_Cons)
qed

lemma allowAll_table_ok: "table_ok ws \<Longrightarrow> table_ok (fst (allowAll calls ws))"
proof (induction calls ws rule: allowAll.induct)
  case (2 now s calls ws)
  obtain ws1 ok where a: "allow now s ws = (ws1, ok)" by (cases "allow now s ws")
  have "table_ok ws1" using allow_table_ok[OF 2(2), of now s] a by simp
  then show ?case using 2(1)[OF a[symmetric] refl] a by (simp add: case_prod_beta)
qed simp

text \<open>
  C40. The registration service lets a source make at most 30 requests within a minute from the moment its window opens,
  whatever other sources do in between and whichever windows the service drops to make room, and it remembers at most 2048
  sources. While the service knows few sources, a source that is new or whose window is over is let through.
\<close>

theorem rate_limit_bound:
  assumes "table_ok ws" and "case map_of ws source of None \<Rightarrow> True | Some w \<Rightarrow> wi_start w + minutes 1 \<le> t0"
    and "\<forall>(now, s)\<in>set calls. t0 \<le> now \<and> now < t0 + minutes 1"
  shows "accepted source (snd (allowAll calls ws)) \<le> 30 \<and> length (fst (allowAll calls ws)) \<le> 2048
    \<and> (length ws < 1024 \<longrightarrow> snd (allow t0 source ws))"
proof -
  have "window_ok t0 source 0 ws" using assms(2) by (auto simp: window_ok_def split: option.splits)
  from allowAll_window[OF assms(1) this assms(3)] have "accepted source (snd (allowAll calls ws)) \<le> 30" by auto
  moreover have "length (fst (allowAll calls ws)) \<le> 2048"
    using allowAll_table_ok[OF assms(1)] by (simp add: table_ok_def)
  moreover have "snd (allow t0 source ws)" if "length ws < 1024"
    using that assms(2) by (auto simp: allow_def split: option.splits)
  ultimately show ?thesis by blast
qed

theorem rate_limit_bound_witness:
  "accepted ''a'' (snd (allowAll [(minutes 1, ''a''), (minutes 1 + 5, ''b'')] [(''a'', \<lparr>wi_start = 0, wi_count = 31\<rparr>)])) \<le> 30
   \<and> snd (allow (minutes 1) ''a'' [(''a'', \<lparr>wi_start = 0, wi_count = 31\<rparr>)])"
  using rate_limit_bound[where ws = "[(''a'', \<lparr>wi_start = 0, wi_count = 31\<rparr>)]" and source = "''a''" and ?t0.0 = "minutes 1"
      and calls = "[(minutes 1, ''a''), (minutes 1 + 5, ''b'')]"]
  by (simp add: table_ok_def)

section \<open>From the approved request to the connector\<close>

lemma storeApproval_fields:
  "li_CertificatePEM (storeApproval now r i) = rs_CertificatePEM r" "li_VirtualPrefix (storeApproval now r i) = rs_VirtualPrefix r"
  "li_RealPrefix (storeApproval now r i) = rs_RealPrefix r" "li_DNSSuffix (storeApproval now r i) = rs_DNSSuffix r"
  "li_TransportKeyPEM (storeApproval now r i) = li_TransportKeyPEM i"
  "li_IdentityKeyPEM (storeApproval now r i) =
     (if li_PendingIdentityKeyPEM i \<noteq> [] then li_PendingIdentityKeyPEM i else li_IdentityKeyPEM i)"
  by (simp_all add: storeApproval_def Let_def)

lemma registerRequest_key:
  assumes "registerRequest lib cfg i = Inr request"
  shows "rr_IdentityKey request = publicKey lib (if li_PendingIdentityKeyPEM i \<noteq> [] then li_PendingIdentityKeyPEM i else li_IdentityKeyPEM i)"
  using assms by (auto simp: registerRequest_def Let_def split: if_splits)

lemma responseForPending_approved:
  assumes "rs_State (responseForPending now q d) = ''approved''"
  obtains registration credential where "Registration_of d (pr_ProjectID q) (pr_EnvironmentID q) = Inr registration"
    "CredentialOf d (rg_ID registration) = Inr credential"
    "responseForPending now q d = noResponse\<lparr>rs_RequestID := pr_ID q, rs_State := ''approved'',
       rs_VirtualPrefix := prefix_string (rg_VirtualPrefix registration), rs_RealPrefix := prefix_string (rg_RealPrefix registration),
       rs_DNSSuffix := dnsSuffix (pr_ProjectAlias q) (pr_EnvironmentAlias q), rs_CertificatePEM := cr_CertificatePEM credential,
       rs_CertificateEnd := cr_NotAfter credential div 1000000000,
       rs_LeaseExpiresAt := rg_LeaseExpiresAt registration div 1000000000\<rparr>"
proof -
  have s: "requestState (pr_State q) = ''approved'' \<longleftrightarrow> pr_State q = RequestApproved" by (cases "pr_State q") auto
  show ?thesis
    using assms that s by (auto simp: responseForPending_def Let_def noResponse_def split: if_splits sum.splits)
qed

lemma registration_canonical:
  assumes "registry_inv d" and "Registration_of d project env = Inr g"
  shows "canonical16 (rg_VirtualPrefix g)"
proof -
  obtain r where r: "identity_row d project env = Some r" "scanRegistration (Some r) = Inr g"
    using assms(2) by (cases "identity_row d project env") (auto simp: Registration_of_def scanRegistration_def)
  then have "r \<in> set (registrations d)" by (auto simp: identity_row_def find_Some_iff)
  then show ?thesis using assms(1) scan_text[OF _ r(2)] by (auto simp: registry_inv_def regs_ok_def)
qed


definition enrolLib :: keylib where
  "enrolLib = \<lparr>kl_hmac = (\<lambda>_ _. []), kl_sha = id, kl_verify = (\<lambda>_ _ _. True), kl_sign = (\<lambda>_ _. []), kl_public = Some,
     kl_create = (\<lambda>_. True), kl_pem = (\<lambda>_. [1])\<rparr>"

definition enrolConfig :: ConnectorConfig where
  "enrolConfig =
     \<lparr>cc_Common = \<lparr>co_EdgeID = ''edge'', co_ConnectorID = [], co_Environment = [], co_CABundle = [], co_Certificate = [],
        co_PrivateKey = [], co_AdminAddr = '':1'', co_LogLevel = ''info''\<rparr>,
      cc_RegistrationMode = ''dynamic'', cc_RegistrationEndpoint = ''edge:9'', cc_IdentityDir = ''id'', cc_EnrollmentNonce = ''n'',
      cc_ProjectID = ''one'', cc_EnvironmentID = ''main'', cc_EnvironmentName = ''main'', cc_DeploymentID = ''d'',
      cc_ProjectAlias = ''one'', cc_EnvironmentAlias = ''main'', cc_IdentityKeyID = [], cc_EdgeEndpoint = ''edge:1'',
      cc_VirtualPrefix = Prefix NoAddr 0, cc_RealPrefix = Prefix NoAddr 0, cc_DNSSuffix = [], cc_AllowedDestinations = [],
      cc_MaxTCPFlows = 8, cc_MaxUDPFlows = 8, cc_DialTimeout = 1, cc_ReconnectMin = 1, cc_ReconnectMax = 1, cc_UDPIdleTimeout = 60\<rparr>"

definition enrolRow :: PendingRequest where
  "enrolRow = (fill_request id 2 (sample_request ''r1'' ''one'' ''main'' 1))\<lparr>pr_State := RequestApproved\<rparr>"

definition enrolIdentity :: localIdentity where
  "enrolIdentity = newIdentity enrolConfig 0 (replicate 32 1) (replicate 32 2)"

lemma enrol_registration:
  "Registration_of sample_db ''one'' ''main'' = Inr \<lparr>rg_ID = 1, rg_ProjectID = ''one'', rg_EnvironmentID = ''main'',
     rg_EnvironmentName = ''main'', rg_ProjectAlias = ''one'', rg_EnvironmentAlias = ''main'', rg_State = Approved,
     rg_IdentityType = DynamicV3, rg_LeaseClass = ''preview'', rg_LeaseExpiresAt = 3 + hours 72,
     rg_VirtualPrefix = net16 0xfd20, rg_RealPrefix = net16 0xfd12, rg_CreatedAt = 3, rg_UpdatedAt = 3\<rparr>"
  by (simp add: Registration_of_def identity_row_def scanRegistration_def sample_db_def net16_parse)

lemma enrol_credential: "CredentialOf sample_db 1 = Inr \<lparr>cr_CertificatePEM = [1], cr_NotAfter = hours 24, cr_IdentityKeyID = sample_key\<rparr>"
  by (simp add: CredentialOf_def sample_db_def new_certificate_def)


section \<open>A rate-limited renewal\<close>

text \<open>
  A renewal that exceeds the rate limit of its source is answered like a malformed one, and the client takes the answer
  as final: the connector stops, although its certificate and lease are in order, while an enrollment in the same
  situation is told to wait and retries.
\<close>

theorem limited_renewal_stops_client:
  assumes "\<not> snd (allow now (sourceHost source) (ns_source s))" and "rr_Kind r = ''renew''"
  shows "\<exists>s' response. process lib now random drawn elapsed source r s d = (s', d, response)
    \<and> registerStep later True (Some response) identity r delay = RegisterFailed (RegistrationStopped ''rejected'' ''invalid_renewal'')
    \<and> (\<forall>r'. rr_Kind r' \<noteq> ''renew'' \<and> rr_RequestID r' = [] \<and> \<not> ed_RegistrationFrozen (ns_config s) \<longrightarrow>
         (\<exists>s' response i next wait. process lib now random drawn elapsed source r' s d = (s', d, response)
            \<and> registerStep later True (Some response) identity r' delay = Again i r' next wait))"
proof -
  obtain ws where a: "allow now (sourceHost source) (ns_source s) = (ws, False)"
    using assms(1) by (cases "allow now (sourceHost source) (ns_source s)") auto
  have n: "renew lib now random (sourceHost source) r s d = (s\<lparr>ns_source := ws\<rparr>, d, rejected ''invalid_renewal'')"
    using a by (simp add: renew_def allowServer_def)
  have e: "enroll lib now drawn (sourceHost source) r' s d
      = (s\<lparr>ns_source := ws\<rparr>, d, (rejected ''rate_limited'')\<lparr>rs_RetryAfterMS := 60000\<rparr>)" if "\<not> ed_RegistrationFrozen (ns_config s)" for r'
    using a that by (simp add: enroll_def allowServer_def)
  have stop: "registerStep later True (Some (rejected ''invalid_renewal'')) identity r delay
      = RegisterFailed (RegistrationStopped ''rejected'' ''invalid_renewal'')"
    by (simp add: registerStep_def rejected_def noResponse_def transientCode_def Let_def)
  have again: "\<exists>i next wait. registerStep later True (Some ((rejected ''rate_limited'')\<lparr>rs_RetryAfterMS := 60000\<rparr>)) identity r' delay
      = Again i r' next wait" if "rr_RequestID r' = []" for r'
  proof -
    have "r'\<lparr>rr_RequestID := []\<rparr> = r'" using that by (cases r') simp
    then show ?thesis by (simp add: registerStep_def rejected_def noResponse_def transientCode_def Let_def)
  qed
  show ?thesis using assms(2) n e stop again by (simp add: process_def)
qed

end
