(* ===== verification/Approval.thy ===== *)
theory Approval
  imports Enrollment Oidc
begin

text \<open>
  Package \<^verbatim>\<open>internal/approval\<close>: the HTTP service on the tailnet by which a workflow reads, approves and revokes
  registrations. The caller is identified by the tags that \<^verbatim>\<open>tailscale whois\<close> reports (\<open>whois\<close>), a request is bound to
  the connector by the fingerprint of its key and the enrollment nonce, and to the project and environment by an OIDC token.
  The decoding of a JSON body and the encoding of the audit record are parameters; errors of the database itself are left
  out, as in the model of the registry.
\<close>

record approvalRequest =
  aq_RequestID :: string
  aq_ProviderID :: string
  aq_OIDCToken :: string
  aq_EnrollmentNonce :: string
  aq_PublicFingerprint :: string

record revokeRequest =
  vq_ProjectID :: string
  vq_EnvironmentID :: string
  vq_ProviderID :: string
  vq_OIDCToken :: string

datatype http_method = GET | HEAD | POST | OtherMethod string

text \<open>A request: its path is clean and unescaped; the query parameters and the nonce header are empty when absent.\<close>

record http_request =
  hq_RemoteAddr :: string
  hq_Method :: http_method
  hq_Path :: string
  hq_Query :: "string \<Rightarrow> string"
  hq_Nonce :: string
  hq_Body :: bytes

datatype field = Text string | Flag bool | Moment time

datatype answer = ErrorText nat string | Answer nat "(string \<times> field) list" | NoRoute nat

record httplib =
  hl_approval :: "bytes \<Rightarrow> approvalRequest option"
  hl_revoke :: "bytes \<Rightarrow> revokeRequest option"
  hl_marshal :: "(string \<times> string) list \<Rightarrow> string"

record ApprovalServer =
  as_config :: Edge
  as_validator :: Validator
  as_issuer :: certificate
  as_status :: "Server option"

datatype approval_error = PoliciesNotValid | PolicyNotValid policy_error | IssuerNotValid

text \<open>The result of parsing the policies and of \<^verbatim>\<open>pki.New\<close> on the intermediate are arguments.\<close>

definition NewApprovalServer ::
    "(string \<Rightarrow> (string \<times> string) option) \<Rightarrow> OPolicy list option \<Rightarrow> certificate option \<Rightarrow> Edge \<Rightarrow> Server option
     \<Rightarrow> approval_error + ApprovalServer" where
  "NewApprovalServer url_parse policies issuer cfg metrics =
     (case policies of
        None \<Rightarrow> Inl PoliciesNotValid
      | Some ps \<Rightarrow>
          (case NewValidator url_parse ps of
             Inl e \<Rightarrow> Inl (PolicyNotValid e)
           | Inr validator \<Rightarrow>
               (case issuer of
                  None \<Rightarrow> Inl IssuerNotValid
                | Some i \<Rightarrow> Inr \<lparr>as_config = cfg, as_validator = validator, as_issuer = i, as_status = metrics\<rparr>)))"

section \<open>The listener\<close>

datatype listen_error =
    ListenAddressNotValid | UnspecifiedAddress | InterfaceNotFound | NoInterfaceAddresses | NoIPv4Address

definition join_host_port :: "string \<Rightarrow> string \<Rightarrow> string" where
  "join_host_port host port = (if CHR '':'' \<in> set host then ''['' @ host @ '']:'' @ port else host @ '':'' @ port)"

text \<open>\<open>devices\<close>: the interface by its name, if there is one, and its addresses, if they can be read.\<close>

definition interfaceAddress :: "(string \<Rightarrow> string list option option) \<Rightarrow> string \<Rightarrow> listen_error + string" where
  "interfaceAddress devices v =
     (case split_host_port v of
        None \<Rightarrow> Inl ListenAddressNotValid
      | Some (host, port) \<Rightarrow>
          if host = [] then Inl UnspecifiedAddress
          else case parse_addr host of
              Some address \<Rightarrow> if is_unspecified address then Inl UnspecifiedAddress else Inr (join_host_port host port)
            | None \<Rightarrow>
                (case devices host of
                   None \<Rightarrow> Inl InterfaceNotFound
                 | Some None \<Rightarrow> Inl NoInterfaceAddresses
                 | Some (Some addresses) \<Rightarrow>
                     (case List.find is4 (map pfx_addr (List.map_filter parse_prefix addresses)) of
                        None \<Rightarrow> Inl NoIPv4Address
                      | Some a \<Rightarrow> Inr (join_host_port (addr_string a) port))))"

text \<open>
  The first part of \<^verbatim>\<open>Run\<close>: an interface may appear later, so a name is tried again every 250 ms; \<open>rounds\<close> are the
  interfaces as the attempts before the end of the wait see them. An address that does not name an interface is not retried.
\<close>

fun listenAddress :: "(string \<Rightarrow> string list option option) list \<Rightarrow> string \<Rightarrow> listen_error + string" where
  "listenAddress [] v = Inl InterfaceNotFound"
| "listenAddress (devices # rounds) v =
     (case interfaceAddress devices v of
        Inr address \<Rightarrow> Inr address
      | Inl e \<Rightarrow>
          (case split_host_port v of
             None \<Rightarrow> Inl e
           | Some (host, _) \<Rightarrow>
               if host = [] \<or> parse_addr host \<noteq> None \<or> rounds = [] then Inl e else listenAddress rounds v))"

section \<open>The handlers\<close>

definition hasAllowedTag :: "string list \<Rightarrow> string list \<Rightarrow> bool" where
  "hasAllowedTag actual allowed = list_ex (\<lambda>tag. tag \<in> set allowed) actual"

definition pendingExpired :: "time \<Rightarrow> PendingRequest \<Rightarrow> bool" where
  "pendingExpired now p \<longleftrightarrow> pr_State p = Pending \<and> \<not> pr_ExpiresAt p > now"

definition boundRequest :: "PendingRequest \<Rightarrow> RegistrationRequest" where
  "boundRequest p =
     \<lparr>rr_RequestID = [], rr_Kind = [], rr_ProjectID = pr_ProjectID p, rr_EnvironmentID = pr_EnvironmentID p,
      rr_EnvironmentName = [], rr_DeploymentID = [], rr_ProjectAlias = [], rr_EnvironmentAlias = [],
      rr_IdentityKey = pr_IdentityKey p, rr_TransportKey = pr_TransportKey p, rr_Proof = []\<rparr>"

definition nonceProves :: "keylib \<Rightarrow> string \<Rightarrow> PendingRequest \<Rightarrow> bool" where
  "nonceProves lib nonce p \<longleftrightarrow> pr_Proof p = Proof lib (text_bytes nonce) (boundRequest p)"

definition authorizedPending :: "keylib \<Rightarrow> http_request \<Rightarrow> PendingRequest \<Rightarrow> bool" where
  "authorizedPending lib r p \<longleftrightarrow> hq_Nonce r \<noteq> [] \<and> nonceProves lib (hq_Nonce r) p"

definition readinessState :: "db \<Rightarrow> PendingRequest \<Rightarrow> string" where
  "readinessState d p =
     (if pr_State p \<noteq> RequestApproved then requestState (pr_State p)
      else case Registration_of d (pr_ProjectID p) (pr_EnvironmentID p) of
          Inl _ \<Rightarrow> ''connecting''
        | Inr registration \<Rightarrow>
            if rg_State registration \<noteq> Ready then ''connecting''
            else case PendingRouteGeneration d of
                Inr generation \<Rightarrow>
                  if rg_VirtualPrefix registration \<in> set (rgn_DesiredRoutes generation) then ''connecting'' else ''ready''
              | Inl e \<Rightarrow> if e \<noteq> ErrNotFound then ''connecting'' else ''ready'')"

definition notFound :: answer where
  "notFound = ErrorText 404 ''The registration request was not found.''"

definition pendingFields :: "db \<Rightarrow> PendingRequest \<Rightarrow> (string \<times> field) list" where
  "pendingFields d p =
     [(''requestId'', Text (pr_ID p)), (''state'', Text (readinessState d p)), (''projectId'', Text (pr_ProjectID p)),
      (''environmentId'', Text (pr_EnvironmentID p)), (''environmentName'', Text (pr_EnvironmentName p)),
      (''publicFingerprint'', Text (pr_IdentityKeyID p))]"

definition pendingForIdentity :: "keylib \<Rightarrow> time \<Rightarrow> http_request \<Rightarrow> db \<Rightarrow> answer" where
  "pendingForIdentity lib now r d =
     (case rev (PendingForIdentity d (hq_Query r ''projectId'') (hq_Query r ''environmentId'')) of
        [] \<Rightarrow> notFound
      | pending # _ \<Rightarrow>
          if pendingExpired now pending then notFound
          else if \<not> authorizedPending lib r pending then notFound
          else if pendingExpired now pending then notFound
          else Answer 200 (pendingFields d pending))"

definition pendingByID :: "keylib \<Rightarrow> string \<Rightarrow> http_request \<Rightarrow> db \<Rightarrow> answer" where
  "pendingByID lib i r d =
     (case PendingRow d i of
        Inl e \<Rightarrow> if e = ErrNotFound then notFound else ErrorText 500 ''The registry could not read the request.''
      | Inr pending \<Rightarrow>
          if \<not> authorizedPending lib r pending then notFound
          else Answer 200 (pendingFields d pending @
                 [(''projectAlias'', Text (pr_ProjectAlias pending)), (''environmentAlias'', Text (pr_EnvironmentAlias pending))]))"

definition observeOIDC :: "string \<Rightarrow> string \<Rightarrow> ApprovalServer \<Rightarrow> ApprovalServer" where
  "observeOIDC result reason s = s\<lparr>as_status := map_option (ObserveOIDC result reason) (as_status s)\<rparr>"

definition reject :: "string \<Rightarrow> nat \<Rightarrow> answer" where
  "reject reason code = Answer code [(''state'', Text ''rejected''), (''reason'', Text reason)]"

definition lease :: "Edge \<Rightarrow> string \<Rightarrow> string \<times> duration" where
  "lease cfg env =
     (if env \<in> set (ed_PersistentEnvironments cfg) then (''persistent'', ed_PersistentLease cfg)
      else (''preview'', ed_PreviewLease cfg))"

text \<open>The limit on the size of a body.\<close>

definition decodeBody :: "(bytes \<Rightarrow> 'a option) \<Rightarrow> http_request \<Rightarrow> 'a option" where
  "decodeBody f r = f (take (64 * 1024) (hq_Body r))"

text \<open>\<^verbatim>\<open>netip.MustParsePrefix("fd12::/16")\<close>.\<close>

definition railwayPrefix :: prefix where
  "railwayPrefix = Prefix (V6 (push_bit 112 0xfd12) []) 16"

record approval_env =
  ae_keys :: keylib
  ae_crypto :: cryptolib
  ae_http :: httplib
  ae_whois :: "string \<Rightarrow> string list option"
  ae_fetch :: "string \<Rightarrow> bool \<Rightarrow> jwksAnswer option"
  ae_random :: nat

definition approvalAudit :: "OIdentity \<Rightarrow> (string \<times> string) list" where
  "approvalAudit i =
     [(''repository'', id_Repository i), (''repository_id'', id_RepositoryID i), (''run_attempt'', id_RunAttempt i),
      (''run_id'', id_RunID i), (''workflow_ref'', id_WorkflowRef i), (''workflow_sha'', id_WorkflowSHA i)]"

definition approvalOf ::
    "approval_env \<Rightarrow> Edge \<Rightarrow> PendingRequest \<Rightarrow> OIdentity \<Rightarrow> bytes \<Rightarrow> string \<Rightarrow> time \<Rightarrow> Approval" where
  "approvalOf e cfg p i certificate certificateID certificateEnd =
     \<lparr>ap_RequestID = pr_ID p, ap_ProviderID = id_ProviderID i, ap_JTI = id_JTI i, ap_JTIExpiresAt = id_ExpiresAt i,
      ap_LeaseClass = fst (lease cfg (pr_EnvironmentName p)), ap_LeaseDuration = snd (lease cfg (pr_EnvironmentName p)),
      ap_RealPrefix = railwayPrefix, ap_CertificatePEM = certificate, ap_CertificateID = certificateID,
      ap_CertificateEnd = certificateEnd, ap_AuditJSON = hl_marshal (ae_http e) (approvalAudit i)\<rparr>"

text \<open>The answer to the store's result; the store may have committed before the final read fails.\<close>

definition approvalFailure :: "registry_error \<Rightarrow> answer" where
  "approvalFailure err =
     (if err = ErrReplay then reject ''oidc_replay'' 409
      else if err = ErrPoolExhausted then reject ''address_pool_exhausted'' 507
      else ErrorText 500 ''The registration could not be approved.'')"

text \<open>The checks of \<^verbatim>\<open>approve\<close> that come before the token.\<close>

definition refusal :: "keylib \<Rightarrow> Edge \<Rightarrow> db \<Rightarrow> approvalRequest \<Rightarrow> PendingRequest \<Rightarrow> answer option" where
  "refusal lib cfg d input p =
     (if ed_RegistrationFrozen cfg then Some (reject ''registration_frozen'' 423)
      else if pr_IdentityKeyID p \<noteq> aq_PublicFingerprint input then Some (reject ''fingerprint_mismatch'' 403)
      else if \<not> nonceProves lib (aq_EnrollmentNonce input) p then Some (reject ''enrollment_proof'' 403)
      else if ed_NewProjectsFrozen cfg \<and> \<not> ProjectKnown d (pr_ProjectID p) \<and> pr_ProjectID p \<notin> set (ed_AllowedProjectIDs cfg)
      then Some (reject ''new_projects_frozen'' 423)
      else None)"

definition approve ::
    "approval_env \<Rightarrow> time \<Rightarrow> http_request \<Rightarrow> ApprovalServer \<Rightarrow> db \<Rightarrow> ApprovalServer \<times> db \<times> answer" where
  "approve e now r s d =
     (case decodeBody (hl_approval (ae_http e)) r of
        None \<Rightarrow> (s, d, ErrorText 400 ''The approval request is not valid.'')
      | Some input \<Rightarrow>
     (case PendingRow d (aq_RequestID input) of
        Inl _ \<Rightarrow> (s, d, notFound)
      | Inr pending \<Rightarrow>
     (case refusal (ae_keys e) (as_config s) d input pending of
        Some a \<Rightarrow> (s, d, a)
      | None \<Rightarrow>
     (case Validate (ae_crypto e) now (ae_fetch e) (aq_ProviderID input) (aq_OIDCToken input) (pr_ProjectID pending)
             (pr_EnvironmentName pending) (as_validator s) of
        (v, Inl _) \<Rightarrow>
          (observeOIDC ''failure'' ''validation'' (s\<lparr>as_validator := v\<rparr>), d, reject ''oidc_validation'' 403)
      | (v, Inr identity) \<Rightarrow>
          (let s1 = observeOIDC ''success'' ''accepted'' (s\<lparr>as_validator := v\<rparr>) in
           case issueConnector (ae_keys e) (as_issuer s) now (ae_random e) (pr_ProjectID pending) (pr_EnvironmentID pending)
                  (pr_IdentityKeyID pending) (pr_TransportKey pending) of
             None \<Rightarrow> (s1, d, ErrorText 500 ''The connector certificate could not be issued.'')
           | Some (certificate, certificateID, certificateEnd) \<Rightarrow>
               (case Approve (kl_sha (ae_keys e)) now d
                       (approvalOf e (as_config s) pending identity certificate certificateID certificateEnd) of
                  Inl err \<Rightarrow> (s1, d, approvalFailure err)
                | Inr (d1, Inl err, _) \<Rightarrow> (s1, d1, approvalFailure err)
                | Inr (d1, Inr registration, created) \<Rightarrow>
                    (s1, d1, Answer 200
                       [(''state'', Text ''approved''), (''created'', Flag created),
                        (''virtualPrefix'', Text (prefix_string (rg_VirtualPrefix registration))),
                        (''leaseExpiresAt'', Moment (rg_LeaseExpiresAt registration))])))))))"

definition revoke ::
    "approval_env \<Rightarrow> time \<Rightarrow> http_request \<Rightarrow> ApprovalServer \<Rightarrow> db \<Rightarrow> ApprovalServer \<times> db \<times> answer" where
  "revoke e now r s d =
     (let invalid = (s, d, ErrorText 400 ''The revocation request is not valid.'') in
      case decodeBody (hl_revoke (ae_http e)) r of
        None \<Rightarrow> invalid
      | Some input \<Rightarrow>
          if vq_ProjectID input = [] \<or> vq_EnvironmentID input = [] then invalid
          else case Registration_of d (vq_ProjectID input) (vq_EnvironmentID input) of
              Inl _ \<Rightarrow> (s, d, ErrorText 404 ''The registration was not found.'')
            | Inr registration \<Rightarrow>
                (case Validate (ae_crypto e) now (ae_fetch e) (vq_ProviderID input) (vq_OIDCToken input) (vq_ProjectID input)
                        (rg_EnvironmentName registration) (as_validator s) of
                   (v, Inl _) \<Rightarrow>
                     (observeOIDC ''failure'' ''validation'' (s\<lparr>as_validator := v\<rparr>), d,
                      ErrorText 403 ''The revocation identity is not allowed.'')
                 | (v, Inr identity) \<Rightarrow>
                     (let s1 = observeOIDC ''success'' ''accepted'' (s\<lparr>as_validator := v\<rparr>) in
                      case ConsumeReplay (kl_sha (ae_keys e)) now d (id_ProviderID identity) (id_JTI identity)
                             (id_ExpiresAt identity) of
                        Inl _ \<Rightarrow> (s1, d, ErrorText 409 ''The revocation token was already used.'')
                      | Inr d1 \<Rightarrow>
                          (case Revoke now d1 (vq_ProjectID input) (vq_EnvironmentID input) (ed_SlotQuarantine (as_config s))
                                  (hl_marshal (ae_http e)
                                     [(''repository_id'', id_RepositoryID identity), (''run_id'', id_RunID identity),
                                      (''workflow_ref'', id_WorkflowRef identity)]) of
                             Inl _ \<Rightarrow> (s1, d1, ErrorText 400 ''The registration could not be revoked.'')
                           | Inr d2 \<Rightarrow> (s1, d2, Answer 200 [(''state'', Text ''revoked'')])))))"

text \<open>The routes of the mux. A GET pattern also matches HEAD; a path with another method is answered 405.\<close>

definition pendingPath :: "string \<Rightarrow> string option" where
  "pendingPath path =
     (let n = length ''/v1/pending/'' in
      if take n path = ''/v1/pending/'' \<and> drop n path \<noteq> [] \<and> CHR ''/'' \<notin> set (drop n path) then Some (drop n path) else None)"

definition serveMux ::
    "approval_env \<Rightarrow> time \<Rightarrow> http_request \<Rightarrow> ApprovalServer \<Rightarrow> db \<Rightarrow> ApprovalServer \<times> db \<times> answer" where
  "serveMux e now r s d =
     (let reading = hq_Method r \<in> {GET, HEAD}; posting = hq_Method r = POST in
      if hq_Path r = ''/v1/pending'' then
        (s, d, if reading then pendingForIdentity (ae_keys e) now r d else NoRoute 405)
      else if hq_Path r = ''/v1/approve'' then (if posting then approve e now r s d else (s, d, NoRoute 405))
      else if hq_Path r = ''/v1/revoke'' then (if posting then revoke e now r s d else (s, d, NoRoute 405))
      else case pendingPath (hq_Path r) of
          Some i \<Rightarrow> (s, d, if reading then pendingByID (ae_keys e) i r d else NoRoute 405)
        | None \<Rightarrow> (s, d, NoRoute 404))"

definition Handler ::
    "approval_env \<Rightarrow> time \<Rightarrow> http_request \<Rightarrow> ApprovalServer \<Rightarrow> db \<Rightarrow> ApprovalServer \<times> db \<times> answer" where
  "Handler e now r s d =
     (case split_host_port (hq_RemoteAddr r) of
        None \<Rightarrow> (s, d, ErrorText 403 ''The caller address is not valid.'')
      | Some (host, _) \<Rightarrow>
          (case ae_whois e host of
             None \<Rightarrow> (s, d, ErrorText 403 ''The Tailscale identity is not allowed.'')
           | Some tags \<Rightarrow>
               if \<not> hasAllowedTag tags (ed_ApprovalTailscaleTags (as_config s))
               then (s, d, ErrorText 403 ''The Tailscale identity is not allowed.'')
               else serveMux e now r s d))"

end
