(* ===== verification/Approval_Props.thy ===== *)
theory Approval_Props
  imports Approval Enrollment_Props Edge_Findings
begin

text \<open>
  What the approval service guarantees: the registry changes only for a caller with an allowed tag that proves the nonce
  and the key of the request and presents a fresh token for its project and environment; every change is a run of the
  registry's operations, so its invariant carries over. A token within the tolerated clock skew is accepted by the
  validator and refused by the registry.
\<close>

lemma Validate_claims:
  assumes "Validate lib now fetch provider raw project env v = (v', Inr identity)"
  shows "\<exists>policy cs. map_of (va_policies v) provider = Some policy \<and> claims_bound now policy project env cs
    \<and> id_ProviderID identity = po_ID policy \<and> id_JTI identity \<noteq> [] \<and> now < id_ExpiresAt identity + skew"
proof -
  obtain policy header payload signature kid cs where
      h: "checkHeader lib v provider raw project env = Inr (policy, header, payload, signature, kid)"
    and c: "checkClaims now policy project env cs = Inr identity"
    using assms by (auto simp: Validate_def Let_def split: sum.splits prod.splits option.splits if_splits)
  show ?thesis using checkHeader_Inr(1)[OF h] checkClaims_Inr[OF c] by blast
qed

lemma Registration_of_identity: "Registration_of d project env = Inr g \<Longrightarrow> rg_ProjectID g = project \<and> rg_EnvironmentID g = env"
  by (auto simp: Registration_of_def identity_row_def scanRegistration_def find_Some_iff split: option.splits)

lemma PendingRow_pendingTx: "PendingRow d i = Inr q \<Longrightarrow> pendingTx d (pr_ID q) = Inr q"
  using find_Some_in[of "\<lambda>p. pr_ID p = i" "pending_requests d" q]
  by (simp add: PendingRow_def pendingTx_def split: option.splits)

section \<open>Approvals\<close>

lemma refusal_None:
  assumes "refusal lib cfg d input q = None"
  shows "\<not> ed_RegistrationFrozen cfg" "pr_IdentityKeyID q = aq_PublicFingerprint input"
    "nonceProves lib (aq_EnrollmentNonce input) q"
    "\<not> ed_NewProjectsFrozen cfg \<or> ProjectKnown d (pr_ProjectID q) \<or> pr_ProjectID q \<in> set (ed_AllowedProjectIDs cfg)"
  using assms by (auto simp: refusal_def split: if_splits)

text \<open>An approval that changes the registry.\<close>

definition approval_granted ::
    "approval_env \<Rightarrow> time \<Rightarrow> http_request \<Rightarrow> ApprovalServer \<Rightarrow> db \<Rightarrow> db \<Rightarrow> PendingRequest \<Rightarrow> OIdentity \<Rightarrow> bool" where
  "approval_granted e now r s d d' q identity \<longleftrightarrow>
     (\<exists>input v. decodeBody (hl_approval (ae_http e)) r = Some input \<and> PendingRow d (aq_RequestID input) = Inr q
        \<and> refusal (ae_keys e) (as_config s) d input q = None
        \<and> Validate (ae_crypto e) now (ae_fetch e) (aq_ProviderID input) (aq_OIDCToken input) (pr_ProjectID q)
             (pr_EnvironmentName q) (as_validator s) = (v, Inr identity)
        \<and> (\<exists>certificate cid until res created. Approve (kl_sha (ae_keys e)) now d
               (approvalOf e (as_config s) q identity certificate cid until) = Inr (d', res, created)))"

lemma approve_changes:
  assumes "approve e now r s d = (s', d', a)" and "d' \<noteq> d"
  shows "\<exists>q identity. approval_granted e now r s d d' q identity"
proof -
  obtain input where i: "decodeBody (hl_approval (ae_http e)) r = Some input"
    using assms by (auto simp: approve_def split: option.splits)
  obtain q where q: "PendingRow d (aq_RequestID input) = Inr q"
    using assms i by (cases "PendingRow d (aq_RequestID input)") (auto simp: approve_def)
  have n: "refusal (ae_keys e) (as_config s) d input q = None"
    using assms i q by (cases "refusal (ae_keys e) (as_config s) d input q") (auto simp: approve_def)
  obtain v identity where v: "Validate (ae_crypto e) now (ae_fetch e) (aq_ProviderID input) (aq_OIDCToken input) (pr_ProjectID q)
        (pr_EnvironmentName q) (as_validator s) = (v, Inr identity)"
    using assms i q n by (auto simp: approve_def split: prod.splits sum.splits)
  have "\<exists>certificate cid until res created. Approve (kl_sha (ae_keys e)) now d
      (approvalOf e (as_config s) q identity certificate cid until) = Inr (d', res, created)"
    using assms i q n v by (auto simp: approve_def Let_def split: prod.splits sum.splits option.splits; blast)
  then show ?thesis unfolding approval_granted_def using i q n v by blast
qed

text \<open>A revocation that changes the registry: the token is spent, and then the registration revoked if it still exists.\<close>

definition revocation_granted ::
    "approval_env \<Rightarrow> time \<Rightarrow> http_request \<Rightarrow> ApprovalServer \<Rightarrow> db \<Rightarrow> db \<Rightarrow> Registration \<Rightarrow> OIdentity \<Rightarrow> bool" where
  "revocation_granted e now r s d d' g identity \<longleftrightarrow>
     (\<exists>input v d1 json. decodeBody (hl_revoke (ae_http e)) r = Some input
        \<and> Registration_of d (vq_ProjectID input) (vq_EnvironmentID input) = Inr g
        \<and> Validate (ae_crypto e) now (ae_fetch e) (vq_ProviderID input) (vq_OIDCToken input) (vq_ProjectID input)
             (rg_EnvironmentName g) (as_validator s) = (v, Inr identity)
        \<and> ConsumeReplay (kl_sha (ae_keys e)) now d (id_ProviderID identity) (id_JTI identity) (id_ExpiresAt identity) = Inr d1
        \<and> (d' = d1 \<or> Revoke now d1 (vq_ProjectID input) (vq_EnvironmentID input) (ed_SlotQuarantine (as_config s)) json = Inr d'))"

lemma revoke_changes:
  assumes "revoke e now r s d = (s', d', a)" and "d' \<noteq> d"
  shows "\<exists>g identity. revocation_granted e now r s d d' g identity"
proof -
  obtain input where i: "decodeBody (hl_revoke (ae_http e)) r = Some input" "vq_ProjectID input \<noteq> []" "vq_EnvironmentID input \<noteq> []"
    using assms by (auto simp: revoke_def Let_def split: option.splits if_splits)
  obtain g where g: "Registration_of d (vq_ProjectID input) (vq_EnvironmentID input) = Inr g"
    using assms i by (cases "Registration_of d (vq_ProjectID input) (vq_EnvironmentID input)") (auto simp: revoke_def)
  obtain v identity where v: "Validate (ae_crypto e) now (ae_fetch e) (vq_ProviderID input) (vq_OIDCToken input) (vq_ProjectID input)
        (rg_EnvironmentName g) (as_validator s) = (v, Inr identity)"
    using assms i g by (auto simp: revoke_def split: prod.splits sum.splits)
  obtain d1 where c: "ConsumeReplay (kl_sha (ae_keys e)) now d (id_ProviderID identity) (id_JTI identity) (id_ExpiresAt identity) = Inr d1"
    using assms i g v by (auto simp: revoke_def Let_def split: sum.splits)
  let ?json = "hl_marshal (ae_http e) [(''repository_id'', id_RepositoryID identity), (''run_id'', id_RunID identity),
     (''workflow_ref'', id_WorkflowRef identity)]"
  have "d' = d1 \<or> Revoke now d1 (vq_ProjectID input) (vq_EnvironmentID input) (ed_SlotQuarantine (as_config s)) ?json = Inr d'"
    using assms i g v c by (auto simp: revoke_def Let_def split: sum.splits)
  then show ?thesis unfolding revocation_granted_def using i(1) g v c by blast
qed

lemma Handler_changes:
  assumes "Handler e now r s d = (s', d', a)" and "d' \<noteq> d"
  shows "\<exists>host port tags. split_host_port (hq_RemoteAddr r) = Some (host, port) \<and> ae_whois e host = Some tags
      \<and> hasAllowedTag tags (ed_ApprovalTailscaleTags (as_config s))"
    and "hq_Method r = POST"
    and "(hq_Path r = ''/v1/approve'' \<and> approve e now r s d = (s', d', a)) \<or> (hq_Path r = ''/v1/revoke'' \<and> revoke e now r s d = (s', d', a))"
  using assms by (auto simp: Handler_def serveMux_def Let_def split: option.splits prod.splits if_splits)

text \<open>The registry runs that a change amounts to, and the token it spends.\<close>

lemma approval_run:
  assumes "approval_granted e now r s d d' q identity" and "d' \<noteq> d"
  shows "(registry_step (kl_sha (ae_keys e)))\<^sup>*\<^sup>* (now, d) (now, d')" "pr_State q = Pending" "now < pr_ExpiresAt q"
    "\<not> spent (kl_sha (ae_keys e)) (id_ProviderID identity, id_JTI identity, id_ExpiresAt identity) (now, d)"
    "spent (kl_sha (ae_keys e)) (id_ProviderID identity, id_JTI identity, id_ExpiresAt identity) (now, d')"
proof -
  let ?sha = "kl_sha (ae_keys e)"
  obtain input :: approvalRequest and certificate cid until res created where q: "PendingRow d (aq_RequestID input) = Inr q"
    and a: "Approve ?sha now d (approvalOf e (as_config s) q identity certificate cid until) = Inr (d', res, created)"
    using assms(1) by (auto simp: approval_granted_def)
  let ?op = "DoApprove (approvalOf e (as_config s) q identity certificate cid until)"
  have p: "perform ?sha now d ?op = Inr d'" using a by simp
  show "(registry_step ?sha)\<^sup>*\<^sup>* (now, d) (now, d')"
    using committed[OF order_refl _ p] by simp
  have row: "pendingTx d (pr_ID q) = Inr q" using PendingRow_pendingTx[OF q] .
  from a have st: "pr_State q = Pending \<and> now < pr_ExpiresAt q"
  proof (cases rule: Approve_cases)
    case (again q')
    then show ?thesis using assms(2) by simp
  next
    case (approved q' d1 d2 d3 i)
    then show ?thesis using row by (simp add: approvalOf_def)
  qed
  then show "pr_State q = Pending" "now < pr_ExpiresAt q" by simp_all
  have "consumed d ?op = Some (id_ProviderID identity, id_JTI identity, id_ExpiresAt identity)"
    using row st by (simp add: approvalOf_def)
  then show "\<not> spent ?sha (id_ProviderID identity, id_JTI identity, id_ExpiresAt identity) (now, d)"
      "spent ?sha (id_ProviderID identity, id_JTI identity, id_ExpiresAt identity) (now, d')"
    using consumed_spends[OF p] by simp_all
qed

lemma revocation_run:
  assumes "revocation_granted e now r s d d' g identity"
  shows "(registry_step (kl_sha (ae_keys e)))\<^sup>*\<^sup>* (now, d) (now, d')"
    "\<not> spent (kl_sha (ae_keys e)) (id_ProviderID identity, id_JTI identity, id_ExpiresAt identity) (now, d)"
    "spent (kl_sha (ae_keys e)) (id_ProviderID identity, id_JTI identity, id_ExpiresAt identity) (now, d')"
proof -
  let ?sha = "kl_sha (ae_keys e)" and ?token = "(id_ProviderID identity, id_JTI identity, id_ExpiresAt identity)"
  obtain input :: revokeRequest and d1 json where
      c: "ConsumeReplay ?sha now d (id_ProviderID identity) (id_JTI identity) (id_ExpiresAt identity) = Inr d1"
    and d': "d' = d1 \<or> Revoke now d1 (vq_ProjectID input) (vq_EnvironmentID input) (ed_SlotQuarantine (as_config s)) json = Inr d'"
    using assms by (auto simp: revocation_granted_def)
  have p: "perform ?sha now d (DoConsumeReplay (id_ProviderID identity) (id_JTI identity) (id_ExpiresAt identity)) = Inr d1"
    using c by simp
  have first: "registry_step ?sha (now, d) (now, d1)" using committed[OF order_refl _ p] by simp
  have "registry_step ?sha (now, d1) (now, d')"
    using d'
  proof
    assume "Revoke now d1 (vq_ProjectID input) (vq_EnvironmentID input) (ed_SlotQuarantine (as_config s)) json = Inr d'"
    then show ?thesis
      using committed[OF order_refl, of "DoRevoke (vq_ProjectID input) (vq_EnvironmentID input) (ed_SlotQuarantine (as_config s)) json"
          ?sha now d1 d'] by simp
  qed (auto intro: rolled_back)
  then have second: "(registry_step ?sha)\<^sup>*\<^sup>* (now, d1) (now, d')" by blast
  show "(registry_step ?sha)\<^sup>*\<^sup>* (now, d) (now, d')" using first second by (rule converse_rtranclp_into_rtranclp)
  have "\<not> spent ?sha ?token (now, d) \<and> spent ?sha ?token (now, d1)" using consumed_spends[OF p] by simp
  then show "\<not> spent ?sha ?token (now, d)" "spent ?sha ?token (now, d')"
    using spent_machine.steps_inv[OF second] by blast+
qed


section \<open>Tokens within the clock skew\<close>

text \<open>
  The validator tolerates a token that expired up to 30 seconds ago, the registry does not: such a token passes the
  validation and counts as accepted, but its approval ends in an internal error and its revocation is answered as a replay.
\<close>

theorem skewed_token_fails:
  assumes "decodeBody (hl_approval (ae_http e)) r = Some input" and q: "PendingRow d (aq_RequestID input) = Inr q" "pr_State q = Pending"
    and "refusal (ae_keys e) (as_config s) d input q = None"
    and "Validate (ae_crypto e) now (ae_fetch e) (aq_ProviderID input) (aq_OIDCToken input) (pr_ProjectID q)
           (pr_EnvironmentName q) (as_validator s) = (v, Inr identity)"
    and skewed: "id_ExpiresAt identity \<le> now"
  shows "\<exists>s' t. approve e now r s d = (s', d, ErrorText 500 t)"
proof -
  have row: "pendingTx d (pr_ID q) = Inr q" using PendingRow_pendingTx[OF q(1)] .
  have failure: "\<exists>err. Approve sha now d (approvalOf e cfg q identity certificate cid until) = Inl err \<and> err \<noteq> ErrReplay \<and> err \<noteq> ErrPoolExhausted"
    for sha cfg certificate cid until
    using row q(2) skewed by (auto simp: Approve_def approvalOf_def)
  show ?thesis
  proof (cases "issueConnector (ae_keys e) (as_issuer s) now (ae_random e) (pr_ProjectID q) (pr_EnvironmentID q)
      (pr_IdentityKeyID q) (pr_TransportKey q)")
    case None
    then show ?thesis using assms by (simp add: approve_def)
  next
    case (Some x)
    then obtain certificate cid until where x: "x = (certificate, cid, until)" by (cases x)
    obtain err where "Approve (kl_sha (ae_keys e)) now d (approvalOf e (as_config s) q identity certificate cid until) = Inl err"
        "err \<noteq> ErrReplay" "err \<noteq> ErrPoolExhausted"
      using failure by blast
    then show ?thesis using assms Some x by (simp add: approve_def approvalFailure_def)
  qed
qed

section \<open>A concrete revocation\<close>

definition revokeDb :: db where
  "revokeDb = sample_db\<lparr>registrations := map (\<lambda>r. r\<lparr>r_project_id := ''p1'', r_environment_name := ''prod''\<rparr>) (registrations sample_db)\<rparr>"

definition revokeEnv :: approval_env where
  "revokeEnv =
     \<lparr>ae_keys = enrolLib, ae_crypto = sampleCrypto,
      ae_http = \<lparr>hl_approval = (\<lambda>_. None), hl_revoke = (\<lambda>_. Some \<lparr>vq_ProjectID = ''p1'', vq_EnvironmentID = ''main'',
         vq_ProviderID = ''gh'', vq_OIDCToken = ''AQ.Ag.Aw''\<rparr>), hl_marshal = (\<lambda>_. ''{}'')\<rparr>,
      ae_whois = (\<lambda>_. Some [''tag:ci'']), ae_fetch = (\<lambda>url. sampleWorld url (seconds 1000)), ae_random = 1\<rparr>"

definition revokeServer :: "Edge \<Rightarrow> ApprovalServer" where
  "revokeServer cfg = \<lparr>as_config = cfg\<lparr>ed_ApprovalTailscaleTags := [''tag:ci'']\<rparr>, as_validator = sampleValidator,
     as_issuer = sampleIntermediate, as_status = None\<rparr>"

definition revokeCall :: http_request where
  "revokeCall = \<lparr>hq_RemoteAddr = ''10.0.0.1:5'', hq_Method = POST, hq_Path = ''/v1/revoke'', hq_Query = (\<lambda>_. []), hq_Nonce = [], hq_Body = []\<rparr>"

lemma revoke_registration:
  "Registration_of revokeDb ''p1'' ''main'' = Inr \<lparr>rg_ID = 1, rg_ProjectID = ''p1'', rg_EnvironmentID = ''main'',
     rg_EnvironmentName = ''prod'', rg_ProjectAlias = ''one'', rg_EnvironmentAlias = ''main'', rg_State = Approved,
     rg_IdentityType = DynamicV3, rg_LeaseClass = ''preview'', rg_LeaseExpiresAt = 3 + hours 72,
     rg_VirtualPrefix = net16 0xfd20, rg_RealPrefix = net16 0xfd12, rg_CreatedAt = 3, rg_UpdatedAt = 3\<rparr>"
  by (simp add: Registration_of_def identity_row_def scanRegistration_def sample_db_def revokeDb_def net16_parse)

lemma revokeCall_changes:
  "\<exists>s' d'. Handler revokeEnv (seconds 1000) revokeCall (revokeServer cfg) revokeDb = (s', d', Answer 200 [(''state'', Text ''revoked'')])
     \<and> d' \<noteq> revokeDb"
proof -
  let ?V = "Validate sampleCrypto (seconds 1000) (\<lambda>url. sampleWorld url (seconds 1000)) ''gh'' ''AQ.Ag.Aw'' ''p1'' ''prod'' sampleValidator"
  obtain identity where n: "snd ?V = Inr identity" and i: "id_JTI identity = ''t1''" "id_ExpiresAt identity = seconds 1100"
    using sampleToken_valid by (auto split: sum.splits)
  obtain v where v: "?V = (v, Inr identity)" using n by (metis prod.collapse)
  have p: "id_ProviderID identity = ''gh''"
    using Validate_claims[OF v] by (auto simp: sampleValidator_def samplePolicy_def)
  have addr: "split_host_port ''10.0.0.1:5'' = Some (''10.0.0.1'', ''5'')" by code_simp
  let ?q = "ed_SlotQuarantine cfg"
  obtain d1 where c: "ConsumeReplay id (seconds 1000) revokeDb ''gh'' ''t1'' (seconds 1100) = Inr d1"
      and d1: "registrations d1 = registrations revokeDb" "length (oidc_replays d1) = Suc (length (oidc_replays revokeDb))"
    by (auto simp: ConsumeReplay_def insert_replay_def revokeDb_def sample_db_def)
  have "registrationByIdentityTx d1 ''p1'' ''main'' = Registration_of revokeDb ''p1'' ''main''"
    by (simp add: registrationByIdentityTx_def Registration_of_def identity_row_def d1)
  then obtain d2 where d2: "Revoke (seconds 1000) d1 ''p1'' ''main'' ?q ''{}'' = Inr d2" "oidc_replays d2 = oidc_replays d1"
    by (simp add: revoke_registration Revoke_def Let_def add_audit_def quarantine_routes_def retire_keys_def set_reg_state_def)
  have "Handler revokeEnv (seconds 1000) revokeCall (revokeServer cfg) revokeDb
      = (observeOIDC ''success'' ''accepted'' (revokeServer cfg\<lparr>as_validator := v\<rparr>), d2, Answer 200 [(''state'', Text ''revoked'')])"
    using v i p c d2 by (simp add: Handler_def serveMux_def revoke_def decodeBody_def hasAllowedTag_def revokeCall_def revokeEnv_def
        revokeServer_def enrolLib_def addr revoke_registration Let_def)
  moreover have "d2 \<noteq> revokeDb" using d1(2) d2(2) by auto
  ultimately show ?thesis by blast
qed


end
