(* ===== verification/Netpolicy.thy ===== *)
theory Netpolicy
  imports Strconv Netip_Text "HOL-Library.Sublist"
begin

text \<open>
  Package \<^verbatim>\<open>internal/netpolicy\<close>: the nftables table that redirects the packets for the bridged prefixes to the edge, and
  the policy routing rules. The execution of the programs \<^verbatim>\<open>nft\<close> and \<^verbatim>\<open>ip\<close> is the parameter \<open>run\<close>: name, arguments and
  standard input change the world \<open>'w\<close> and give the combined output, with the text of the error when the program fails.
\<close>

type_synonym 'w runner = "string \<Rightarrow> string list \<Rightarrow> string \<Rightarrow> 'w \<Rightarrow> 'w \<times> string option \<times> string"

record netPolicy =
  np_routes :: "prefix list"
  np_tcpPort :: string
  np_udpPort :: string

definition tableName :: string where "tableName = ''tailbridge''"
definition routeTable :: string where "routeTable = ''100''"
definition packetMark :: string where "packetMark = ''0x6a1''"

record commandError =
  ce_name :: string
  ce_err :: string
  ce_output :: string

definition commandErrorText :: "commandError \<Rightarrow> string" where
  "commandErrorText e =
     ce_name e @ '' command failed: '' @ ce_err e @ (if ce_output e = [] then [] else '': '' @ ce_output e)"

definition runCommand :: "'w runner \<Rightarrow> string \<Rightarrow> string list \<Rightarrow> string \<Rightarrow> 'w \<Rightarrow> 'w \<times> commandError option" where
  "runCommand run name args stdin w =
     (case run name args stdin w of
        (w1, None, _) \<Rightarrow> (w1, None)
      | (w1, Some err, output) \<Rightarrow> (w1, Some \<lparr>ce_name = name, ce_err = err, ce_output = trim_space output\<rparr>))"

datatype netpolicy_error =
    TCPListenerNotValid | UDPListenerNotValid
  | CleanExisting "commandError list"
  | ApplyRules commandError | AddRule string commandError | AddRoute string commandError
  | RollbackFailed netpolicy_error "commandError list"

definition port :: "string \<Rightarrow> string option" where
  "port address =
     (case split_host_port address of
        None \<Rightarrow> None
      | Some (_, raw) \<Rightarrow> (case parse_uint 16 raw of Some v \<Rightarrow> if v = 0 then None else Some raw | None \<Rightarrow> None))"

definition NewPolicy :: "prefix list \<Rightarrow> string \<Rightarrow> string \<Rightarrow> netpolicy_error + netPolicy" where
  "NewPolicy routes tcpAddress udpAddress =
     (case port tcpAddress of
        None \<Rightarrow> Inl TCPListenerNotValid
      | Some tcp \<Rightarrow>
          (case port udpAddress of
             None \<Rightarrow> Inl UDPListenerNotValid
           | Some udp \<Rightarrow> Inr \<lparr>np_routes = routes, np_tcpPort = tcp, np_udpPort = udp\<rparr>))"

section \<open>The rules\<close>

definition newline :: string where "newline = [CHR 0x0a]"

definition quoted :: "string \<Rightarrow> string" where
  "quoted s = CHR 0x22 # s @ [CHR 0x22]"

definition routeRule :: "string \<Rightarrow> string \<Rightarrow> prefix \<Rightarrow> string" where
  "routeRule protocol p route =
     (let family = (if is6 (pfx_addr route) then ''ip6'' else ''ip'') in
      ''iifname '' @ quoted ''tailscale0'' @ '' '' @ family @ '' daddr '' @ prefix_string route @ '' meta l4proto '' @ protocol
      @ '' tproxy '' @ family @ '' to :'' @ p @ '' meta mark set '' @ packetMark @ '' accept'' @ newline)"

definition rules :: "netPolicy \<Rightarrow> string" where
  "rules p =
     ''table inet '' @ tableName @ '' {'' @ newline
     @ ''chain prerouting { type filter hook prerouting priority mangle; policy accept;'' @ newline
     @ concat (map (\<lambda>route. routeRule ''tcp'' (np_tcpPort p) route @ routeRule ''udp'' (np_udpPort p) route) (np_routes p))
     @ ''}'' @ newline @ ''}'' @ newline"

definition replacement :: "netPolicy \<Rightarrow> string" where
  "replacement p = ''delete table inet '' @ tableName @ newline @ rules p"

section \<open>Applying, replacing and cleaning\<close>

fun contains_text :: "string \<Rightarrow> string \<Rightarrow> bool" where
  "contains_text pat [] = (pat = [])"
| "contains_text pat (c # s) = (take (length pat) (c # s) = pat \<or> contains_text pat s)"

definition policyObjectAbsent :: "commandError \<Rightarrow> bool" where
  "policyObjectAbsent e =
     (let output = to_lower (ce_output e)
      in contains_text ''no such file or directory'' output \<or> contains_text ''fib table does not exist'' output)"

text \<open>The steps of a cleanup, which all run; the errors that do not say that the object is absent are collected.\<close>

definition cleanupCommands :: "(string \<times> string list) list" where
  "cleanupCommands =
     concat (map (\<lambda>family. [(''ip'', [family, ''route'', ''flush'', ''table'', routeTable]),
                              (''ip'', [family, ''rule'', ''del'', ''fwmark'', packetMark, ''lookup'', routeTable])]) [''-6'', ''-4''])
     @ [(''nft'', [''delete'', ''table'', ''inet'', tableName])]"

fun cleanupAll :: "'w runner \<Rightarrow> (string \<times> string list) list \<Rightarrow> 'w \<Rightarrow> 'w \<times> commandError list" where
  "cleanupAll run [] w = (w, [])"
| "cleanupAll run ((name, args) # cs) w =
     (let (w1, result) = runCommand run name args [] w; (w2, errors) = cleanupAll run cs w1
      in (w2, case result of Some e \<Rightarrow> if policyObjectAbsent e then errors else e # errors | None \<Rightarrow> errors))"

definition cleanup :: "'w runner \<Rightarrow> 'w \<Rightarrow> 'w \<times> commandError list" where
  "cleanup run w = cleanupAll run cleanupCommands w"

definition rollback :: "'w runner \<Rightarrow> netpolicy_error \<Rightarrow> 'w \<Rightarrow> 'w \<times> netpolicy_error option" where
  "rollback run applyErr w =
     (let (w1, errors) = cleanup run w
      in (w1, Some (if errors = [] then applyErr else RollbackFailed applyErr errors)))"

text \<open>The loop over the families of \<^verbatim>\<open>Apply\<close>.\<close>

fun addFamilies :: "'w runner \<Rightarrow> string list \<Rightarrow> 'w \<Rightarrow> 'w \<times> netpolicy_error option" where
  "addFamilies run [] w = (w, None)"
| "addFamilies run (family # rest) w =
     (case runCommand run ''ip'' [family, ''rule'', ''add'', ''fwmark'', packetMark, ''lookup'', routeTable] [] w of
        (w1, Some e) \<Rightarrow> rollback run (AddRule family e) w1
      | (w1, None) \<Rightarrow>
          (case runCommand run ''ip'' [family, ''route'', ''replace'', ''local'', if family = ''-6'' then ''::/0'' else ''0.0.0.0/0'',
                            ''dev'', ''lo'', ''table'', routeTable] [] w1 of
             (w2, Some e) \<Rightarrow> rollback run (AddRoute family e) w2
           | (w2, None) \<Rightarrow> addFamilies run rest w2))"

definition ApplyPolicy :: "'w runner \<Rightarrow> netPolicy \<Rightarrow> 'w \<Rightarrow> 'w \<times> netpolicy_error option" where
  "ApplyPolicy run p w =
     (let (w1, errors) = cleanup run w in
      if errors \<noteq> [] then (w1, Some (CleanExisting errors))
      else case runCommand run ''nft'' [''-f'', ''-''] (rules p) w1 of
          (w2, Some e) \<Rightarrow> rollback run (ApplyRules e) w2
        | (w2, None) \<Rightarrow> addFamilies run [''-4'', ''-6''] w2)"

text \<open>A replacement fails only with the error of \<^verbatim>\<open>nft\<close>, which it wraps.\<close>

definition replaceErrorText :: "commandError \<Rightarrow> string" where
  "replaceErrorText e = ''replace nftables rules: '' @ commandErrorText e"

definition ReplacePolicy :: "'w runner \<Rightarrow> prefix list \<Rightarrow> netPolicy \<Rightarrow> 'w \<Rightarrow> netPolicy \<times> 'w \<times> commandError option" where
  "ReplacePolicy run routes p w =
     (let p1 = p\<lparr>np_routes := routes\<rparr> in
      case runCommand run ''nft'' [''-f'', ''-''] (replacement p1) w of
        (w1, Some e) \<Rightarrow> (p1\<lparr>np_routes := np_routes p\<rparr>, w1, Some e)
      | (w1, None) \<Rightarrow> (p1, w1, None))"

text \<open>As the method that a caller sees: the error is its text.\<close>

definition policyReplace :: "'w runner \<Rightarrow> prefix list \<Rightarrow> netPolicy \<Rightarrow> 'w \<Rightarrow> netPolicy \<times> 'w \<times> string option" where
  "policyReplace run routes p w =
     (case ReplacePolicy run routes p w of (p1, w1, e) \<Rightarrow> (p1, w1, map_option replaceErrorText e))"

definition ClosePolicy :: "'w runner \<Rightarrow> 'w \<Rightarrow> 'w \<times> netpolicy_error option" where
  "ClosePolicy run w = (let (w1, errors) = cleanup run w in (w1, if errors = [] then None else Some (CleanExisting errors)))"

text \<open>
  Waiting for the interface \<^verbatim>\<open>tailscale0\<close>: \<open>rounds\<close> tells for each tick before the end of the context whether the
  interface exists.
\<close>

fun waitForTailscale :: "bool list \<Rightarrow> bool" where
  "waitForTailscale [] = False"
| "waitForTailscale (present # rounds) = (present \<or> waitForTailscale rounds)"

section \<open>What the rules intercept\<close>

text \<open>A text of rules redirects a prefix when it has the rule for TCP and the rule for UDP.\<close>

definition redirects :: "netPolicy \<Rightarrow> string \<Rightarrow> prefix \<Rightarrow> bool" where
  "redirects p t route \<longleftrightarrow> sublist (routeRule ''tcp'' (np_tcpPort p) route) t \<and> sublist (routeRule ''udp'' (np_udpPort p) route) t"

lemma sublist_concat_map: "x \<in> set xs \<Longrightarrow> sublist (f x) (concat (map f xs))"
  by (auto simp: in_set_conv_decomp intro!: sublist_appendI)

lemma sublist_before: "sublist x b \<Longrightarrow> sublist x (a @ b)"
  by (metis sublist_order.order.trans sublist_append_leftI)

lemma sublist_start: "sublist x (x @ b)"
  using sublist_appendI[of x "[]" b] by simp

lemma rules_redirect:
  assumes "route \<in> set (np_routes p)"
  shows "redirects p (rules p) route"
proof -
  let ?both = "\<lambda>r. routeRule ''tcp'' (np_tcpPort p) r @ routeRule ''udp'' (np_udpPort p) r"
  have "sublist (concat (map ?both (np_routes p))) (rules p)"
    unfolding rules_def by (intro sublist_before sublist_start)
  then have "sublist (?both route) (rules p)"
    using sublist_concat_map[OF assms, of ?both] sublist_order.order.trans by blast
  moreover have "sublist (routeRule ''tcp'' (np_tcpPort p) route) (?both route)"
      "sublist (routeRule ''udp'' (np_udpPort p) route) (?both route)"
    by (rule sublist_start, rule sublist_append_leftI)
  ultimately show ?thesis unfolding redirects_def using sublist_order.order.trans by blast
qed

end
