(* ===== verification/Reconcile.thy ===== *)
theory Reconcile
  imports Netpolicy Registry_Props Status
begin

text \<open>
  Package \<^verbatim>\<open>internal/reconcile\<close>: the edge makes the routes that Tailscale advertises and the prefixes that the network
  policy redirects agree with the registrations in service. A change that withdraws a route changes Tailscale first, any
  other change the policy first; a failure of the second step undoes the first. The interface \<^verbatim>\<open>Policy\<close> is the argument
  \<open>replace\<close> on a state of its own, the programs are the argument \<open>run\<close>, and \<open>prefs\<close> reads the field \<^verbatim>\<open>AdvertiseRoutes\<close> of the JSON that \<^verbatim>\<open>tailscale debug prefs\<close> prints.
\<close>

type_synonym ('p, 'w) replacer = "prefix list \<Rightarrow> 'p \<Rightarrow> 'w \<Rightarrow> 'p \<times> 'w \<times> string option"

record 'p Routes =
  ro_policy :: 'p
  ro_quarantine :: duration
  ro_staticRoutes :: "prefix list"
  ro_status :: "Server option"

datatype reconcile_error =
    ActiveUnreadable registry_error
  | CurrentUnreadable string | CurrentNotParsed string
  | ApplyGeneration string | VerifyRoutes string
  | GenerationUnreadable registry_error

section \<open>Commands\<close>

definition tailscale :: string where "tailscale = ''/usr/local/bin/tailscale''"

definition runTool :: "'w runner \<Rightarrow> string \<Rightarrow> string list \<Rightarrow> 'w \<Rightarrow> 'w \<times> (string + string)" where
  "runTool run name args w =
     (case run name args [] w of
        (w1, None, output) \<Rightarrow> (w1, Inr output)
      | (w1, Some err, output) \<Rightarrow> (w1, Inl (name @ '': '' @ err @ '': '' @ trim_space output)))"

definition readPrefs :: "'w runner \<Rightarrow> 'w \<Rightarrow> 'w \<times> (string + string)" where
  "readPrefs run w = runTool run tailscale [''debug'', ''prefs''] w"

definition setRoutes :: "'w runner \<Rightarrow> string list \<Rightarrow> 'w \<Rightarrow> 'w \<times> string option" where
  "setRoutes run want w =
     (case runTool run tailscale [''set'', ''--advertise-routes='' @ join_with '','' want] w of
        (w1, Inl e) \<Rightarrow> (w1, Some e)
      | (w1, Inr _) \<Rightarrow> (w1, None))"

section \<open>The routes\<close>

text \<open>The order of \<^verbatim>\<open>netip.Addr.Compare\<close> on addresses without a zone: the length, then the value.\<close>

fun addr_rank :: "addr \<Rightarrow> nat" where
  "addr_rank NoAddr = 0"
| "addr_rank (V4 w) = 2 ^ 128 + unat w"
| "addr_rank (V6 w _) = 2 * 2 ^ 128 + unat w"

definition wantedRoutes :: "prefix list \<Rightarrow> Registration list \<Rightarrow> prefix list" where
  "wantedRoutes static active =
     remdups_adj (sort_key (\<lambda>p. addr_rank (pfx_addr p)) (static @ map rg_VirtualPrefix active))"

section \<open>One reconciliation\<close>

text \<open>The two orders of the change.\<close>

definition withdrawFirst ::
    "('p, 'w) replacer \<Rightarrow> 'w runner \<Rightarrow> prefix list \<Rightarrow> string list \<Rightarrow> string list \<Rightarrow> 'p \<Rightarrow> 'w \<Rightarrow> 'p \<times> 'w \<times> string option" where
  "withdrawFirst replace run routes want previous p w =
     (case setRoutes run want w of
        (w1, Some e) \<Rightarrow> (p, w1, Some e)
      | (w1, None) \<Rightarrow>
          (case replace routes p w1 of
             (p1, w2, None) \<Rightarrow> (p1, w2, None)
           | (p1, w2, Some e) \<Rightarrow> (p1, fst (setRoutes run previous w2), Some e)))"

definition redirectFirst ::
    "('p, 'w) replacer \<Rightarrow> 'w runner \<Rightarrow> prefix list \<Rightarrow> string list \<Rightarrow> string list \<Rightarrow> 'p \<Rightarrow> 'w \<Rightarrow> 'p \<times> 'w \<times> string option" where
  "redirectFirst replace run routes want previous p w =
     (case replace routes p w of
        (p1, w1, Some e) \<Rightarrow> (p1, w1, Some e)
      | (p1, w1, None) \<Rightarrow>
          (case setRoutes run want w1 of
             (w2, None) \<Rightarrow> (p1, w2, None)
           | (w2, Some e) \<Rightarrow>
               (let (p2, w3, _) = replace (List.map_filter parse_prefix previous) p1 w2 in (p2, w3, Some e))))"

definition removesRoute :: "string list \<Rightarrow> string list \<Rightarrow> bool" where
  "removesRoute previous want = list_ex (\<lambda>route. route \<notin> set want) previous"

definition changeRoutes ::
    "('p, 'w) replacer \<Rightarrow> 'w runner \<Rightarrow> prefix list \<Rightarrow> string list \<Rightarrow> string list \<Rightarrow> 'p \<Rightarrow> 'w \<Rightarrow> 'p \<times> 'w \<times> string option" where
  "changeRoutes replace run routes want previous p w =
     (if removesRoute previous want then withdrawFirst replace run routes want previous p w
      else redirectFirst replace run routes want previous p w)"

text \<open>Reading the routes back.\<close>

definition verifyRoutes :: "(string \<Rightarrow> string + string list) \<Rightarrow> 'w runner \<Rightarrow> string list \<Rightarrow> 'w \<Rightarrow> 'w \<times> string option" where
  "verifyRoutes prefs run want w =
     (case readPrefs run w of
        (w1, Inl e) \<Rightarrow> (w1, Some e)
      | (w1, Inr payload) \<Rightarrow>
          (w1, case prefs payload of
                 Inl e \<Rightarrow> Some e
               | Inr reported \<Rightarrow>
                   if sort reported \<noteq> want then Some ''Tailscale did not report the expected advertised routes'' else None))"

definition complete :: "time \<Rightarrow> registry_error + RouteGeneration \<Rightarrow> string option \<Rightarrow> db \<Rightarrow> db" where
  "complete now generation failure d =
     (case generation of Inl _ \<Rightarrow> d | Inr g \<Rightarrow> CompleteRouteGeneration now d (rgn_ID g) failure)"

definition reconcileRoutes ::
    "('p, 'w) replacer \<Rightarrow> (string \<Rightarrow> string + string list) \<Rightarrow> 'w runner \<Rightarrow> time \<Rightarrow> prefix list \<Rightarrow> 'p \<Rightarrow> db \<Rightarrow> 'w
     \<Rightarrow> 'p \<times> db \<times> 'w \<times> reconcile_error option" where
  "reconcileRoutes replace prefs run now static p d w =
     (let generation = PendingRouteGeneration d in
      case ActiveRegistrations now d of
        Inl e \<Rightarrow> (p, d, w, Some (ActiveUnreadable e))
      | Inr active \<Rightarrow>
     (let routes = wantedRoutes static active; want = sort (map prefix_string routes) in
      case readPrefs run w of
        (w1, Inl e) \<Rightarrow> (p, d, w1, Some (CurrentUnreadable e))
      | (w1, Inr payload) \<Rightarrow>
     (case prefs payload of
        Inl e \<Rightarrow> (p, d, w1, Some (CurrentNotParsed e))
      | Inr reported \<Rightarrow>
     (case changeRoutes replace run routes want (sort reported) p w1 of
        (p2, w2, Some e) \<Rightarrow> (p2, complete now generation (Some e) d, w2, Some (ApplyGeneration e))
      | (p2, w2, None) \<Rightarrow>
     (case verifyRoutes prefs run want w2 of
        (w3, Some e) \<Rightarrow> (p2, complete now generation (Some e) d, w3, Some (VerifyRoutes e))
      | (w3, None) \<Rightarrow>
          (p2, complete now generation None d, w3,
           case generation of Inl e \<Rightarrow> if e = ErrNotFound then None else Some (GenerationUnreadable e) | Inr _ \<Rightarrow> None))))))"

definition reconcile ::
    "('p, 'w) replacer \<Rightarrow> (string \<Rightarrow> string + string list) \<Rightarrow> 'w runner \<Rightarrow> time \<Rightarrow> duration \<Rightarrow> 'p Routes \<Rightarrow> db \<Rightarrow> 'w
     \<Rightarrow> 'p Routes \<times> db \<times> 'w \<times> reconcile_error option" where
  "reconcile replace prefs run now elapsed r d w =
     (let (p, d1, w1, e) = reconcileRoutes replace prefs run now (ro_staticRoutes r) (ro_policy r) d w
      in (r\<lparr>ro_policy := p,
            ro_status := map_option (ObserveRouteReconcile (if e = None then ''success'' else ''failure'') elapsed) (ro_status r)\<rparr>,
          d1, w1, e))"

text \<open>A tick of \<^verbatim>\<open>Run\<close>: leases expire, then the routes are reconciled; errors are only logged.\<close>

definition reconcileTick ::
    "('p, 'w) replacer \<Rightarrow> (string \<Rightarrow> string + string list) \<Rightarrow> 'w runner \<Rightarrow> time \<Rightarrow> duration \<Rightarrow> 'p Routes \<Rightarrow> db \<Rightarrow> 'w
     \<Rightarrow> 'p Routes \<times> db \<times> 'w" where
  "reconcileTick replace prefs run now elapsed r d w =
     (let d1 = (case Expire now d (ro_quarantine r) of Inl _ \<Rightarrow> d | Inr (d', _) \<Rightarrow> d');
          (r2, d2, w2, _) = reconcile replace prefs run now elapsed r d1 w
      in (r2, d2, w2))"

definition NewRoutes :: "'p \<Rightarrow> prefix list \<Rightarrow> duration \<Rightarrow> Server option \<Rightarrow> 'p Routes" where
  "NewRoutes policy static quarantine state =
     \<lparr>ro_policy = policy, ro_quarantine = quarantine, ro_staticRoutes = static, ro_status = state\<rparr>"

text \<open>
  \<^verbatim>\<open>Run\<close>: one reconciliation at the start, then the ticks, each with its time and the time it takes, until the context
  ends. The registry may change between two ticks: \<open>others\<close> is what the rest of the edge does to it before each of them.
\<close>

fun reconcileTicks ::
    "('p, 'w) replacer \<Rightarrow> (string \<Rightarrow> string + string list) \<Rightarrow> 'w runner \<Rightarrow> (time \<times> duration \<times> (db \<Rightarrow> db)) list \<Rightarrow> 'p Routes \<Rightarrow> db \<Rightarrow> 'w
     \<Rightarrow> 'p Routes \<times> db \<times> 'w" where
  "reconcileTicks replace prefs run [] r d w = (r, d, w)"
| "reconcileTicks replace prefs run ((now, elapsed, others) # ticks) r d w =
     (let (r1, d1, w1) = reconcileTick replace prefs run now elapsed r (others d) w
      in reconcileTicks replace prefs run ticks r1 d1 w1)"

definition runRoutes ::
    "('p, 'w) replacer \<Rightarrow> (string \<Rightarrow> string + string list) \<Rightarrow> 'w runner \<Rightarrow> time \<Rightarrow> duration \<Rightarrow> (time \<times> duration \<times> (db \<Rightarrow> db)) list
     \<Rightarrow> 'p Routes \<Rightarrow> db \<Rightarrow> 'w \<Rightarrow> 'p Routes \<times> db \<times> 'w" where
  "runRoutes replace prefs run now elapsed ticks r d w =
     (let (r1, d1, w1, _) = reconcile replace prefs run now elapsed r d w
      in reconcileTicks replace prefs run ticks r1 d1 w1)"

end
