(* ===== verification/Reconcile_Props.thy ===== *)
theory Reconcile_Props
  imports Reconcile Registry_Findings "HOL-Library.Multiset"
begin

text \<open>
  What a reconciliation guarantees with any policy that keeps the contract \<open>route_policy\<close>: after a success Tailscale
  advertises, and the policy redirects, exactly the static routes and those of the registrations in service; and while it
  runs, every advertised route is redirected, provided that the change does not both add and withdraw routes. The contract
  is interpreted for the network policy here and for the policy that the edge passes in \<open>Edge_Routes\<close>.
\<close>

section \<open>The wanted routes\<close>

lemma remdups_adj_sorted_distinct:
  "sorted (map f xs) \<Longrightarrow> inj_on f (set xs) \<Longrightarrow> distinct (remdups_adj xs)"
proof (induction xs rule: remdups_adj.induct)
  case (3 x y xs)
  have "x \<notin> set (y # xs)" if "x \<noteq> y"
  proof
    assume x: "x \<in> set (y # xs)"
    then have "f y \<le> f x" using "3.prems"(1) by auto
    then have "f x = f y" using "3.prems"(1) by simp
    then show False using "3.prems"(2) that by (auto simp: inj_on_def)
  qed
  moreover have "sorted (map f (y # xs))" "inj_on f (set (y # xs))"
    using "3.prems" inj_on_subset[of f "set (x # y # xs)" "set (y # xs)"] by auto
  ultimately show ?case using "3.IH" by (cases "x = y") simp_all
qed simp_all

lemma canonical16_rank:
  assumes "canonical16 p" and "canonical16 q" and "addr_rank (pfx_addr p) = addr_rank (pfx_addr q)"
  shows "p = q"
  using assms by (elim canonical16_base) (simp add: word_unat_eq_iff)

lemma wantedRoutes_set: "set (wantedRoutes static active) = set static \<union> rg_VirtualPrefix ` set active"
  by (simp add: wantedRoutes_def)

lemma wantedRoutes_distinct:
  assumes "\<forall>p \<in> set static. canonical16 p" and "\<forall>g \<in> set active. canonical16 (rg_VirtualPrefix g)"
  shows "distinct (wantedRoutes static active)"
  unfolding wantedRoutes_def
proof (rule remdups_adj_sorted_distinct[OF sorted_sort_key])
  show "inj_on (\<lambda>p. addr_rank (pfx_addr p)) (set (sort_key (\<lambda>p. addr_rank (pfx_addr p)) (static @ map rg_VirtualPrefix active)))"
    using assms by (intro inj_onI canonical16_rank) auto
qed

lemma active_canonical:
  assumes "registry_inv d" and "ActiveRegistrations now d = Inr active"
  shows "\<forall>g \<in> set active. canonical16 (rg_VirtualPrefix g)"
proof -
  have "\<forall>r \<in> set (sort_key r_virtual_prefix (filter (live now) (registrations d))). text16 (r_virtual_prefix r)"
    using assms(1) by (auto simp: registry_inv_def regs_ok_def)
  then show ?thesis using scan_texts assms(2) unfolding ActiveRegistrations_def by blast
qed

lemma verifyRoutes_ok:
  assumes "verifyRoutes prefs run want w = (w', None)"
  shows "\<exists>out reported. run tailscale [''debug'', ''prefs''] [] w = (w', None, out) \<and> prefs out = Inr reported \<and> sort reported = want"
  using assms
  by (auto simp: verifyRoutes_def readPrefs_def runTool_def split: prod.splits option.splits sum.splits if_splits)

section \<open>The contract of a policy\<close>

text \<open>
  A replacement runs \<^verbatim>\<open>nft\<close> once, with the rules for the new routes and the ports of the policy, and it does not succeed
  when \<^verbatim>\<open>nft\<close> fails.
\<close>

locale route_policy =
  fixes view :: "'p \<Rightarrow> netPolicy" and replace :: "'v runner \<Rightarrow> ('p, 'v) replacer"
  assumes replaces: "replace run routes p v = (p1, v1, e) \<Longrightarrow>
      \<exists>err out. run ''nft'' [''-f'', ''-''] (replacement ((view p)\<lparr>np_routes := routes\<rparr>)) v = (v1, err, out)
        \<and> (e = None \<longrightarrow> err = None \<and> view p1 = (view p)\<lparr>np_routes := routes\<rparr>)"
    and ports: "replace run routes p v = (p1, v1, e) \<Longrightarrow>
      np_tcpPort (view p1) = np_tcpPort (view p) \<and> np_udpPort (view p1) = np_udpPort (view p)"
begin

lemma replace_ok:
  assumes "replace run routes p v = (p1, v1, None)"
  shows "view p1 = (view p)\<lparr>np_routes := routes\<rparr>" and "\<exists>out. run ''nft'' [''-f'', ''-''] (replacement (view p1)) v = (v1, None, out)"
  using replaces[OF assms] by auto

lemma changeRoutes_ok:
  assumes "changeRoutes (replace run) run routes want previous p v = (p', v', None)"
  shows "\<exists>v1 v2. replace run routes p v1 = (p', v2, None)"
  using assms
  by (auto simp: changeRoutes_def withdrawFirst_def redirectFirst_def Let_def split: prod.splits option.splits if_splits)

lemma reconcileRoutes_ok:
  assumes "reconcileRoutes (replace run) prefs run now static p d v = (p', d', v', None)"
  obtains active previous v1 v2 where "ActiveRegistrations now d = Inr active"
    "changeRoutes (replace run) run (wantedRoutes static active) (sort (map prefix_string (wantedRoutes static active))) previous p v1
       = (p', v2, None)"
    "verifyRoutes prefs run (sort (map prefix_string (wantedRoutes static active))) v2 = (v', None)"
    "d' = complete now (PendingRouteGeneration d) None d"
  using assms
  by (auto simp: reconcileRoutes_def Let_def split: sum.splits prod.splits option.splits)

text \<open>After a success: the rules and Tailscale agree with the registry, and the policy was replaced once for that.\<close>

lemma agrees:
  assumes inv: "registry_inv d" and static: "list_all canonical16 (ro_staticRoutes r)"
    and ok: "reconcile (replace run) prefs run now elapsed r d v = (r', d', v', None)"
  shows "\<exists>active v1 v2 v3 out out' reported. ActiveRegistrations now d = Inr active
    \<and> replace run (np_routes (view (ro_policy r'))) (ro_policy r) v1 = (ro_policy r', v2, None)
    \<and> set (np_routes (view (ro_policy r'))) = set (ro_staticRoutes r) \<union> rg_VirtualPrefix ` set active
    \<and> distinct (np_routes (view (ro_policy r')))
    \<and> run ''nft'' [''-f'', ''-''] (replacement (view (ro_policy r'))) v1 = (v2, None, out)
    \<and> run tailscale [''debug'', ''prefs''] [] v3 = (v', None, out') \<and> prefs out' = Inr reported
    \<and> mset reported = mset (map prefix_string (np_routes (view (ro_policy r'))))
    \<and> (\<forall>g x. PendingRouteGeneration d = Inr g \<and> x \<in> set (route_generations d') \<and> g_id x = rgn_ID g \<longrightarrow> g_state x = GenApplied)"
proof -
  obtain p where run: "reconcileRoutes (replace run) prefs run now (ro_staticRoutes r) (ro_policy r) d v = (p, d', v', None)" "ro_policy r' = p"
    using ok by (auto simp: reconcile_def split: prod.splits)
  obtain active previous u1 u2 where a: "ActiveRegistrations now d = Inr active"
      "changeRoutes (replace run) run (wantedRoutes (ro_staticRoutes r) active) (sort (map prefix_string (wantedRoutes (ro_staticRoutes r) active)))
         previous (ro_policy r) u1 = (p, u2, None)"
      "verifyRoutes prefs run (sort (map prefix_string (wantedRoutes (ro_staticRoutes r) active))) u2 = (v', None)"
      "d' = complete now (PendingRouteGeneration d) None d"
    by (rule reconcileRoutes_ok[OF run(1)])
  obtain v1 v2 where re: "replace run (wantedRoutes (ro_staticRoutes r) active) (ro_policy r) v1 = (p, v2, None)"
    using changeRoutes_ok[OF a(2)] by blast
  note c = replace_ok[OF re]
  have routes: "np_routes (view p) = wantedRoutes (ro_staticRoutes r) active" using c(1) by simp
  obtain out' reported where w: "run tailscale [''debug'', ''prefs''] [] u2 = (v', None, out')" "prefs out' = Inr reported"
      "sort reported = sort (map prefix_string (np_routes (view p)))"
    using verifyRoutes_ok[OF a(3)] routes by auto
  have "mset reported = mset (map prefix_string (np_routes (view p)))" using w(3) by (metis mset_sort)
  moreover have "distinct (np_routes (view p))"
    using routes wantedRoutes_distinct[of "ro_staticRoutes r" active] static active_canonical[OF inv a(1)] by (simp add: list_all_iff)
  moreover have "g_state x = GenApplied"
    if "PendingRouteGeneration d = Inr g" "x \<in> set (route_generations d')" "g_id x = rgn_ID g" for g x
    using that by (auto simp: a(4) complete_def CompleteRouteGeneration_def split: if_splits)
  ultimately show ?thesis using a(1) re c(2) w(1,2) run(2) wantedRoutes_set routes by metis
qed

end

interpretation np: route_policy id policyReplace
  by unfold_locales (auto simp: policyReplace_def ReplacePolicy_def runCommand_def Let_def split: prod.splits option.splits)

section \<open>While it runs\<close>

text \<open>
  What the documentation of the programs says of a world: \<open>advertised\<close> are the routes that Tailscale advertises, \<open>loaded\<close>
  is the text of the table. \<^verbatim>\<open>tailscale set\<close> replaces the routes, \<^verbatim>\<open>nft -f\<close> is a transaction, \<^verbatim>\<open>tailscale debug prefs\<close>
  reports the routes, and a program that fails changes nothing.
\<close>

definition route_texts :: "string list \<Rightarrow> bool" where
  "route_texts want \<longleftrightarrow> (\<forall>x \<in> set want. x \<noteq> [] \<and> CHR '','' \<notin> set x)"

definition tools_documented ::
    "('w \<Rightarrow> string set) \<Rightarrow> ('w \<Rightarrow> string) \<Rightarrow> (string \<Rightarrow> string + string list) \<Rightarrow> 'w runner \<Rightarrow> bool" where
  "tools_documented advertised loaded prefs run \<longleftrightarrow>
     (\<forall>w w' want e out. route_texts want
        \<longrightarrow> run tailscale [''set'', ''--advertise-routes='' @ join_with '','' want] [] w = (w', e, out)
        \<longrightarrow> loaded w' = loaded w \<and> advertised w' = (if e = None then set want else advertised w))
   \<and> (\<forall>w w' t e out. run ''nft'' [''-f'', ''-''] (''delete table inet '' @ tableName @ newline @ t) w = (w', e, out)
        \<longrightarrow> advertised w' = advertised w \<and> loaded w' = (if e = None then t else loaded w))
   \<and> (\<forall>w w' e out reported. run tailscale [''debug'', ''prefs''] [] w = (w', e, out)
        \<longrightarrow> advertised w' = advertised w \<and> loaded w' = loaded w
          \<and> (e = None \<and> prefs out = Inr reported \<longrightarrow> set reported = advertised w))"

lemma tools_set:
  assumes "tools_documented advertised loaded prefs run" and "route_texts want"
    and "run tailscale [''set'', ''--advertise-routes='' @ join_with '','' want] [] w = (w', e, out)"
  shows "loaded w' = loaded w \<and> advertised w' = (if e = None then set want else advertised w)"
  using conjunct1[OF assms(1)[unfolded tools_documented_def], rule_format, OF assms(2,3)] by simp

lemma tools_nft:
  assumes "tools_documented advertised loaded prefs run" and "run ''nft'' [''-f'', ''-''] (replacement p) w = (w', e, out)"
  shows "advertised w' = advertised w \<and> loaded w' = (if e = None then rules p else loaded w)"
  using conjunct1[OF conjunct2[OF assms(1)[unfolded tools_documented_def]], rule_format, OF assms(2)[unfolded replacement_def]] by simp

lemma tools_prefs:
  assumes "tools_documented advertised loaded prefs run" and "run tailscale [''debug'', ''prefs''] [] w = (w', e, out)"
  shows "advertised w' = advertised w \<and> loaded w' = loaded w \<and> (e = None \<and> prefs out = Inr reported \<longrightarrow> set reported = advertised w)"
  using conjunct2[OF conjunct2[OF assms(1)[unfolded tools_documented_def]]] assms(2) by presburger

text \<open>A runner that remembers every world.\<close>

definition traced :: "'w runner \<Rightarrow> ('w \<times> 'w list) runner" where
  "traced run name args stdin = (\<lambda>(w, ws). let (w1, e, out) = run name args stdin w in ((w1, w1 # ws), e, out))"

definition protected :: "netPolicy \<Rightarrow> string set \<Rightarrow> string \<Rightarrow> bool" where
  "protected p routes t \<longleftrightarrow> (\<forall>s \<in> routes. \<exists>route. prefix_string route = s \<and> redirects p t route)"

lemma redirects_ports [simp]: "redirects (p\<lparr>np_routes := routes\<rparr>) = redirects p"
  by (simp add: redirects_def fun_eq_iff)

lemma protected_cong:
  "np_tcpPort q = np_tcpPort p \<Longrightarrow> np_udpPort q = np_udpPort p \<Longrightarrow> protected q = protected p"
  by (simp add: protected_def redirects_def fun_eq_iff)

lemma protected_ports [simp]: "protected (p\<lparr>np_routes := routes\<rparr>) = protected p"
  by (simp add: protected_def fun_eq_iff)

lemma protected_mono: "protected p B t \<Longrightarrow> A \<subseteq> B \<Longrightarrow> protected p A t"
  by (auto simp: protected_def)

lemma protected_rules: "A \<subseteq> prefix_string ` set routes \<Longrightarrow> protected p A (rules (p\<lparr>np_routes := routes\<rparr>))"
  using rules_redirect[of _ "p\<lparr>np_routes := routes\<rparr>"] by (fastforce simp: protected_def)

lemma traced_set:
  assumes "tools_documented advertised loaded prefs run" and "route_texts want"
    and "setRoutes (traced run) want (w, ws) = ((w1, ws1), e)"
  shows "ws1 = w1 # ws" "loaded w1 = loaded w" "advertised w1 = (if e = None then set want else advertised w)"
proof -
  obtain err out where r: "run tailscale [''set'', ''--advertise-routes='' @ join_with '','' want] [] w = (w1, err, out)"
    and "ws1 = w1 # ws" "e = None \<longleftrightarrow> err = None"
    using assms(3) by (auto simp: setRoutes_def runTool_def traced_def split: prod.splits option.splits sum.splits)
  moreover have "loaded w1 = loaded w \<and> advertised w1 = (if err = None then set want else advertised w)"
    using tools_set[OF assms(1,2) r] .
  ultimately show "ws1 = w1 # ws" "loaded w1 = loaded w" "advertised w1 = (if e = None then set want else advertised w)" by simp_all
qed

lemma traced_prefs:
  assumes "tools_documented advertised loaded prefs run" and "readPrefs (traced run) (w, ws) = ((w1, ws1), res)"
  shows "ws1 = w1 # ws" "advertised w1 = advertised w" "loaded w1 = loaded w"
    "res = Inr out \<Longrightarrow> prefs out = Inr reported \<Longrightarrow> set reported = advertised w"
proof -
  obtain err payload where r: "run tailscale [''debug'', ''prefs''] [] w = (w1, err, payload)"
    and s: "ws1 = w1 # ws" "res = Inr out \<Longrightarrow> err = None \<and> payload = out"
    using assms(2) by (auto simp: readPrefs_def runTool_def traced_def split: prod.splits option.splits)
  have "advertised w1 = advertised w \<and> loaded w1 = loaded w
      \<and> (err = None \<and> prefs payload = Inr reported \<longrightarrow> set reported = advertised w)"
    using tools_prefs[OF assms(1) r] .
  then show "ws1 = w1 # ws" "advertised w1 = advertised w" "loaded w1 = loaded w"
    "res = Inr out \<Longrightarrow> prefs out = Inr reported \<Longrightarrow> set reported = advertised w"
    using s by auto
qed

text \<open>All worlds of a trace are protected.\<close>

definition trace_ok :: "('w \<Rightarrow> string set) \<Rightarrow> ('w \<Rightarrow> string) \<Rightarrow> netPolicy \<Rightarrow> 'w \<times> 'w list \<Rightarrow> bool" where
  "trace_ok advertised loaded p t \<longleftrightarrow> list_all (\<lambda>w. protected p (advertised w) (loaded w)) (fst t # snd t)"

lemma canonical_texts: "\<forall>r \<in> set routes. canonical16 r \<Longrightarrow> set want = prefix_string ` set routes \<Longrightarrow> route_texts want"
  by (auto simp: route_texts_def prefix_string_not_Nil prefix_string_no_comma)

lemma verifyRoutes_protected:
  assumes tools: "tools_documented advertised loaded prefs run" and ok: "trace_ok advertised loaded p t"
    and step: "verifyRoutes prefs' (traced run) want t = (t', e)"
  shows "trace_ok advertised loaded p t'"
proof -
  obtain w ws where t: "t = (w, ws)" by (cases t)
  obtain w1 ws1 res where s: "readPrefs (traced run) (w, ws) = ((w1, ws1), res)" by (metis prod.collapse)
  have "t' = (w1, ws1)" using step s t by (auto simp: verifyRoutes_def split: sum.splits)
  then show ?thesis using traced_prefs(1-3)[OF tools s] ok t by (simp add: trace_ok_def)
qed

text \<open>The policy on the worlds of a trace.\<close>

locale traced_policy = route_policy view replace
  for view :: "'p \<Rightarrow> netPolicy" and replace :: "('w \<times> 'w list) runner \<Rightarrow> ('p, 'w \<times> 'w list) replacer"
begin

lemma traced_replace:
  assumes "tools_documented advertised loaded prefs run" and "replace (traced run) routes p (w, ws) = (p1, (w1, ws1), e)"
  shows "ws1 = w1 # ws" "advertised w1 = advertised w"
    "loaded w1 = rules ((view p)\<lparr>np_routes := routes\<rparr>) \<or> (e \<noteq> None \<and> loaded w1 = loaded w)" "protected (view p1) = protected (view p)"
proof -
  obtain err out where r: "run ''nft'' [''-f'', ''-''] (replacement ((view p)\<lparr>np_routes := routes\<rparr>)) w = (w1, err, out)"
    and s: "ws1 = w1 # ws" "e = None \<longrightarrow> err = None"
    using replaces[OF assms(2)] by (auto simp: traced_def split: prod.splits)
  have "advertised w1 = advertised w \<and> loaded w1 = (if err = None then rules ((view p)\<lparr>np_routes := routes\<rparr>) else loaded w)"
    using tools_nft[OF assms(1) r] .
  then show "ws1 = w1 # ws" "advertised w1 = advertised w"
    "loaded w1 = rules ((view p)\<lparr>np_routes := routes\<rparr>) \<or> (e \<noteq> None \<and> loaded w1 = loaded w)"
    using s by auto
  show "protected (view p1) = protected (view p)" using ports[OF assms(2)] by (intro protected_cong) simp_all
qed

lemma withdrawFirst_protected:
  assumes tools: "tools_documented advertised loaded prefs run"
    and texts: "route_texts want" "route_texts previous" and want: "set want = prefix_string ` set routes"
    and previous: "set previous = advertised w" "set want \<subseteq> advertised w" and ok: "trace_ok advertised loaded (view p) (w, ws)"
    and atomic: "\<And>q u q1 u1 x. replace (traced run) routes q u = (q1, u1, Some x) \<Longrightarrow> loaded (fst u1) = loaded (fst u)"
    and step: "withdrawFirst (replace (traced run)) (traced run) routes want previous p (w, ws) = (p', t', e)"
  shows "trace_ok advertised loaded (view p) t'"
proof -
  obtain w1 ws1 e1 where s1: "setRoutes (traced run) want (w, ws) = ((w1, ws1), e1)"
    by (metis prod.collapse)
  note f1 = traced_set[OF tools texts(1) s1]
  have ok0: "protected (view p) (advertised w) (loaded w)" using ok by (simp add: trace_ok_def)
  then have ok1: "trace_ok advertised loaded (view p) (w1, ws1)"
    using ok f1 protected_mono[OF ok0 previous(2)] by (simp add: trace_ok_def)
  show ?thesis
  proof (cases e1)
    case (Some x)
    then show ?thesis using step s1 ok1 by (auto simp: withdrawFirst_def)
  next
    case None
    obtain p2 w2 ws2 e2 where s2: "replace (traced run) routes p (w1, ws1) = (p2, (w2, ws2), e2)"
      by (metis prod.collapse)
    note f2 = traced_replace[OF tools s2]
    have "protected (view p) (advertised w2) (loaded w2)"
      using f1 f2(2,3) None want protected_rules[of "set want" routes "view p"] ok1 by (auto simp: trace_ok_def)
    then have ok2: "trace_ok advertised loaded (view p) (w2, ws2)" using ok1 f2(1) by (simp add: trace_ok_def)
    show ?thesis
    proof (cases e2)
      case None
      then show ?thesis using step s1 s2 ok2 \<open>e1 = None\<close> by (auto simp: withdrawFirst_def)
    next
      case (Some x)
      obtain w3 ws3 e3 where s3: "setRoutes (traced run) previous (w2, ws2) = ((w3, ws3), e3)" by (metis prod.collapse)
      note f3 = traced_set[OF tools texts(2) s3]
      have "loaded w3 = loaded w" using f1(2) atomic[OF s2[unfolded Some]] f3(2) by simp
      then have "protected (view p) (advertised w3) (loaded w3)"
        using f3 f2 ok0 previous(1) ok2 Some by (auto simp: trace_ok_def)
      then have "trace_ok advertised loaded (view p) (w3, ws3)" using ok2 f3(1) by (simp add: trace_ok_def)
      then show ?thesis using step s1 s2 s3 Some \<open>e1 = None\<close> by (auto simp: withdrawFirst_def)
    qed
  qed
qed

lemma redirectFirst_protected:
  assumes tools: "tools_documented advertised loaded prefs run"
    and texts: "route_texts want" and want: "set want = prefix_string ` set routes" and routes: "\<forall>r \<in> set routes. canonical16 r"
    and previous: "set previous = advertised w" "advertised w \<subseteq> set want" and ok: "trace_ok advertised loaded (view p) (w, ws)"
    and step: "redirectFirst (replace (traced run)) (traced run) routes want previous p (w, ws) = (p', t', e)"
  shows "trace_ok advertised loaded (view p) t'"
proof -
  obtain p1 w1 ws1 e1 where s1: "replace (traced run) routes p (w, ws) = (p1, (w1, ws1), e1)" by (metis prod.collapse)
  note f1 = traced_replace[OF tools s1]
  have "protected (view p) (advertised w1) (loaded w1)"
    using f1 ok want previous(2) protected_rules[of "advertised w" routes "view p"] by (auto simp: trace_ok_def)
  then have ok1: "trace_ok advertised loaded (view p) (w1, ws1)" using ok f1(1) by (simp add: trace_ok_def)
  show ?thesis
  proof (cases e1)
    case (Some x)
    then show ?thesis using step s1 ok1 by (auto simp: redirectFirst_def)
  next
    case None
    obtain w2 ws2 e2 where s2: "setRoutes (traced run) want (w1, ws1) = ((w2, ws2), e2)" by (metis prod.collapse)
    note f2 = traced_set[OF tools texts s2]
    have "protected (view p) (advertised w2) (loaded w2)"
      using f1 f2 None want ok1 protected_rules[of "set want" routes "view p"] by (auto simp: trace_ok_def)
    then have ok2: "trace_ok advertised loaded (view p) (w2, ws2)" using ok1 f2(1) by (simp add: trace_ok_def)
    show ?thesis
    proof (cases e2)
      case None
      then show ?thesis using step s1 s2 ok2 \<open>e1 = None\<close> by (auto simp: redirectFirst_def)
    next
      case (Some x)
      let ?old = "List.map_filter parse_prefix previous"
      obtain p3 w3 ws3 e3 where s3: "replace (traced run) ?old p1 (w2, ws2) = (p3, (w3, ws3), e3)" by (metis prod.collapse)
      note f3 = traced_replace[OF tools s3]
      have "s \<in> prefix_string ` set ?old" if s: "s \<in> set previous" for s
      proof -
        obtain r where "r \<in> set routes" "s = prefix_string r" using s previous want by auto
        then have "parse_prefix s = Some r" using routes by (simp add: parse_prefix_string)
        then show ?thesis using s \<open>s = prefix_string r\<close> by (force simp: map_filter_def)
      qed
      then have "advertised w \<subseteq> prefix_string ` set ?old" using previous(1) by blast
      then have "protected (view p) (advertised w) (rules ((view p1)\<lparr>np_routes := ?old\<rparr>))"
        using protected_rules[of "advertised w" ?old "view p1"] f1(4) by simp
      then have "protected (view p) (advertised w3) (loaded w3)"
        using f1 f2 f3 ok2 Some by (auto simp: trace_ok_def)
      then have "trace_ok advertised loaded (view p) (w3, ws3)" using ok2 f3(1) by (simp add: trace_ok_def)
      then show ?thesis using step s1 s2 s3 Some \<open>e1 = None\<close> by (auto simp: redirectFirst_def)
    qed
  qed
qed

lemma changeRoutes_protected:
  assumes tools: "tools_documented advertised loaded prefs run"
    and want: "set want = prefix_string ` set routes" and routes: "\<forall>r \<in> set routes. canonical16 r"
    and previous: "set previous = advertised w" "advertised w \<subseteq> set want \<or> set want \<subseteq> advertised w" "route_texts previous"
    and ok: "trace_ok advertised loaded (view p) (w, ws)"
    and atomic: "\<And>q u q1 u1 x. removesRoute previous want \<Longrightarrow> replace (traced run) routes q u = (q1, u1, Some x)
      \<Longrightarrow> loaded (fst u1) = loaded (fst u)"
    and step: "changeRoutes (replace (traced run)) (traced run) routes want previous p (w, ws) = (p', t', e)"
  shows "trace_ok advertised loaded (view p) t'"
proof (cases "removesRoute previous want")
  case True
  then have "set want \<subseteq> advertised w" using previous by (auto simp: removesRoute_def list_ex_iff)
  then show ?thesis
    using withdrawFirst_protected[OF tools canonical_texts[OF routes want] previous(3) want previous(1) _ ok atomic[OF True]] step True
    by (simp add: changeRoutes_def)
next
  case False
  then have "advertised w \<subseteq> set want" using previous(1) by (auto simp: removesRoute_def list_ex_iff)
  then show ?thesis
    using redirectFirst_protected[OF tools canonical_texts[OF routes want] want routes previous(1) _ ok] step False
    by (simp add: changeRoutes_def)
qed

lemma stay_redirected:
  assumes tools: "tools_documented advertised loaded prefs run" and inv: "registry_inv d"
    and static: "list_all canonical16 (ro_staticRoutes r)" and active: "ActiveRegistrations now d = Inr active"
    and change: "let want = prefix_string ` (set (ro_staticRoutes r) \<union> rg_VirtualPrefix ` set active)
      in advertised w \<subseteq> want \<or> want \<subseteq> advertised w"
    and texts: "\<And>s. s \<in> advertised w \<Longrightarrow> s \<noteq> [] \<and> CHR '','' \<notin> set s"
    and before: "protected (view (ro_policy r)) (advertised w) (loaded w)"
    and atomic: "\<And>q u q1 u1 x. \<not> advertised w \<subseteq> prefix_string ` (set (ro_staticRoutes r) \<union> rg_VirtualPrefix ` set active)
      \<Longrightarrow> replace (traced run) (wantedRoutes (ro_staticRoutes r) active) q u = (q1, u1, Some x) \<Longrightarrow> loaded (fst u1) = loaded (fst u)"
    and step: "reconcile (replace (traced run)) prefs (traced run) now elapsed r d (w, []) = (r', d', (w', ws), e)"
  shows "list_all (\<lambda>x. protected (view (ro_policy r)) (advertised x) (loaded x)) (w' # ws)"
proof -
  let ?p = "ro_policy r" and ?routes = "wantedRoutes (ro_staticRoutes r) active"
  let ?want = "sort (map prefix_string ?routes)"
  have routes: "\<forall>r \<in> set ?routes. canonical16 r"
    using static active_canonical[OF inv active] by (auto simp: wantedRoutes_set list_all_iff)
  have want: "set ?want = prefix_string ` set ?routes" by simp
  have ch: "advertised w \<subseteq> set ?want \<or> set ?want \<subseteq> advertised w" using change by (simp add: wantedRoutes_set Let_def)
  obtain w1 ws1 res where s1: "readPrefs (traced run) (w, []) = ((w1, ws1), res)" by (metis prod.collapse)
  note f1 = traced_prefs[OF tools s1]
  have ok1: "trace_ok advertised loaded (view ?p) (w1, ws1)" using f1(1-3) before by (simp add: trace_ok_def)
  obtain p' where rr: "reconcileRoutes (replace (traced run)) prefs (traced run) now (ro_staticRoutes r) ?p d (w, []) = (p', d', (w', ws), e)"
    using step by (auto simp: reconcile_def split: prod.splits)
  have "trace_ok advertised loaded (view ?p) (w', ws)"
  proof (cases "\<exists>payload reported. res = Inr payload \<and> prefs payload = Inr reported")
    case False
    then show ?thesis using rr s1 active ok1 by (auto simp: reconcileRoutes_def Let_def split: sum.splits)
  next
    case True
    then obtain payload reported where res: "res = Inr payload" "prefs payload = Inr reported" by blast
    have prev: "set (sort reported) = advertised w1" "route_texts (sort reported)"
      using f1(2) f1(4)[OF res] texts by (auto simp: route_texts_def)
    obtain p2 t2 e2 where s2: "changeRoutes (replace (traced run)) (traced run) ?routes ?want (sort reported) ?p (w1, ws1) = (p2, t2, e2)" by (metis prod.collapse)
    have ok2: "trace_ok advertised loaded (view ?p) t2"
    proof (rule changeRoutes_protected[OF tools want routes prev(1) _ prev(2) ok1 _ s2])
      show "advertised w1 \<subseteq> set ?want \<or> set ?want \<subseteq> advertised w1" using ch f1(2) by simp
      fix q u q1 u1 x assume rm: "removesRoute (sort reported) ?want" and re: "replace (traced run) ?routes q u = (q1, u1, Some x)"
      have "\<not> advertised w \<subseteq> set ?want" using rm prev(1) f1(2) by (auto simp: removesRoute_def list_ex_iff)
      then show "loaded (fst u1) = loaded (fst u)" using atomic[OF _ re] by (simp add: wantedRoutes_set)
    qed
    obtain t3 e3 where s3: "verifyRoutes prefs (traced run) ?want t2 = (t3, e3)" by (metis prod.collapse)
    have "(w', ws) = (if e2 = None then t3 else t2)"
      using rr s1 s2 s3 active res by (auto simp: reconcileRoutes_def Let_def split: option.splits)
    then show ?thesis using ok2 verifyRoutes_protected[OF tools ok2 s3] by (auto split: if_splits)
  qed
  then show ?thesis by (simp add: trace_ok_def)
qed

text \<open>
  A change that adds and withdraws advertises the new routes before the rules redirect them: between the two commands, and
  for as long as the second one fails and the routes cannot be set to the old ones, a new route is advertised and not
  redirected.
\<close>

lemma mixed_exposes:
  assumes tools: "tools_documented advertised loaded prefs run" and texts: "route_texts want" "route_texts previous"
    and withdraws: "removesRoute previous want" and adds: "s \<in> set want" "\<not> (\<exists>route. prefix_string route = s \<and> redirects (view p) (loaded w) route)"
    and set: "setRoutes (traced run) want (w, ws) = ((w1, ws1), None)"
    and step: "changeRoutes (replace (traced run)) (traced run) routes want previous p (w, ws) = (p', (w', ws'), e)"
  shows "\<not> protected (view p) (advertised w1) (loaded w1) \<and> w1 \<in> set ws'"
proof -
  note f1 = traced_set[OF tools texts(1) set]
  have "\<not> protected (view p) (advertised w1) (loaded w1)" using f1 adds by (auto simp: protected_def)
  moreover obtain p2 w2 ws2 e2 where s2: "replace (traced run) routes p (w1, ws1) = (p2, (w2, ws2), e2)" by (metis prod.collapse)
  moreover obtain w3 ws3 e3 where s3: "setRoutes (traced run) previous (w2, ws2) = ((w3, ws3), e3)" by (metis prod.collapse)
  ultimately show ?thesis
    using f1(1) traced_replace(1)[OF tools s2] traced_set(1)[OF tools texts(2) s3] step set withdraws
    by (auto simp: changeRoutes_def withdrawFirst_def split: option.splits)
qed

text \<open>
  A replacement that fails after the rules have been loaded: the withdrawal is undone in Tailscale but not in the rules.
\<close>

lemma late_failure_exposes:
  assumes tools: "tools_documented advertised loaded prefs run" and texts: "route_texts want" "route_texts previous"
    and gone: "s \<in> set previous" "\<not> (\<exists>route. prefix_string route = s \<and> redirects (view p) (rules ((view p)\<lparr>np_routes := routes\<rparr>)) route)"
    and set: "setRoutes (traced run) want (w, ws) = ((w1, ws1), None)"
    and late: "replace (traced run) routes p (w1, ws1) = (p2, (w2, ws2), Some x)" "loaded w2 = rules ((view p)\<lparr>np_routes := routes\<rparr>)"
    and undo: "setRoutes (traced run) previous (w2, ws2) = ((w3, ws3), None)"
    and step: "withdrawFirst (replace (traced run)) (traced run) routes want previous p (w, ws) = (p', (w', ws'), e)"
  shows "w' = w3 \<and> e = Some x \<and> \<not> protected (view p) (advertised w') (loaded w')"
proof -
  note f3 = traced_set[OF tools texts(2) undo]
  have "w' = w3" "e = Some x" using step set late(1) undo by (auto simp: withdrawFirst_def)
  moreover have "\<not> protected (view p) (advertised w3) (loaded w3)" using f3 gone late(2) by (auto simp: protected_def)
  ultimately show ?thesis by simp
qed

end

interpretation tnp: traced_policy id policyReplace
  by unfold_locales

section \<open>A concrete reconciliation\<close>

text \<open>A world holds the routes that Tailscale advertises, separated by commas, and the text of the table.\<close>

definition sampleTools :: "(string \<times> string) runner" where
  "sampleTools name args stdin = (\<lambda>(routes, t).
     if name = tailscale then
       (if args = [''debug'', ''prefs''] then ((routes, t), None, routes)
        else ((drop (length ''--advertise-routes='') (last args), t), None, []))
     else ((routes, drop (length (''delete table inet '' @ tableName @ newline)) stdin), None, []))"

definition samplePrefs :: "string \<Rightarrow> string + string list" where
  "samplePrefs payload = Inr (splitRoutes payload)"

lemma sampleTools_documented: "tools_documented (\<lambda>w. set (splitRoutes (fst w))) snd samplePrefs sampleTools"
  unfolding tools_documented_def
proof (intro conjI allI impI)
qed (auto simp: sampleTools_def samplePrefs_def tailscale_def route_texts_def splitRoutes_join)

definition sampleActive :: Registration where
  "sampleActive = \<lparr>rg_ID = 1, rg_ProjectID = ''one'', rg_EnvironmentID = ''main'',
     rg_EnvironmentName = ''main'', rg_ProjectAlias = ''one'', rg_EnvironmentAlias = ''main'', rg_State = Approved,
     rg_IdentityType = DynamicV3, rg_LeaseClass = ''preview'', rg_LeaseExpiresAt = 3 + hours 72,
     rg_VirtualPrefix = net16 0xfd20, rg_RealPrefix = net16 0xfd12, rg_CreatedAt = 3, rg_UpdatedAt = 3\<rparr>"

lemma sample_active: "ActiveRegistrations 4 sample_db = Inr [sampleActive]"
  by (simp add: ActiveRegistrations_def sampleActive_def scanRegistration_def sample_db_def net16_parse live_def in_service_def)

lemma sample_wanted: "wantedRoutes [] [sampleActive] = [net16 0xfd20]"
  by (simp add: wantedRoutes_def sampleActive_def)

lemma sample_split: "splitRoutes [] = []" "splitRoutes ''fd20::/16'' = [''fd20::/16'']"
  by (simp add: splitRoutes_def) code_simp

lemma sample_generation: "\<exists>g. PendingRouteGeneration sample_db = Inr g"
  by (simp add: PendingRouteGeneration_def sample_db_def sample_split net16_parse)

lemma sample_inv: "registry_inv sample_db"
  using reg_machine.steps_inv[OF sample_reach] inv_empty by simp

end
