(* ===== verification/Edge_Routes.thy ===== *)
theory Edge_Routes
  imports Reconcile_Props Edge_Findings
begin

text \<open>
  The routes of a running edge: the policy that the edge passes to the reconciliation (\<^verbatim>\<open>edge.go\<close>, \<^verbatim>\<open>reconciledPolicy\<close>)
  loads the rules and then refreshes the connector entries from the registry. What the registry answers is a function
  \<open>store\<close> of the world, so it may have changed or fail at any of these reads. After a success the rules, Tailscale and the
  entries agree; while routes are changed, every advertised route is redirected, unless the registry cannot be read during
  a withdrawal.
\<close>

section \<open>The policy of the edge\<close>

definition reconciledReplace ::
    "('w \<Rightarrow> registry_error + Registration list \<times> Stats) \<Rightarrow> (registry_error \<Rightarrow> string) \<Rightarrow> 'w runner
     \<Rightarrow> (netPolicy \<times> edgeServer, 'w) replacer" where
  "reconciledReplace store message run routes ps w =
     (case policyReplace run routes (fst ps) w of
        (p1, w1, Some e) \<Rightarrow> ((p1, snd ps), w1, Some e)
      | (p1, w1, None) \<Rightarrow>
          (case refreshDynamic (store w1) (snd ps) of (s1, e) \<Rightarrow> ((p1, s1), w1, map_option message e)))"

interpretation ep: route_policy fst "reconciledReplace store message"
  for store :: "'w \<Rightarrow> registry_error + Registration list \<times> Stats" and message :: "registry_error \<Rightarrow> string"
  by unfold_locales
     (auto simp: reconciledReplace_def policyReplace_def ReplacePolicy_def runCommand_def Let_def split: prod.splits option.splits)

interpretation tep: traced_policy fst "reconciledReplace store message"
  for store :: "'w \<times> 'w list \<Rightarrow> registry_error + Registration list \<times> Stats" and message :: "registry_error \<Rightarrow> string"
  by unfold_locales

text \<open>The edge with a store: its entries are loaded before it runs.\<close>

definition NewWithStore :: "Edge \<Rightarrow> Server \<Rightarrow> registry_error + Registration list \<times> Stats \<Rightarrow> registry_error + edgeServer" where
  "NewWithStore cfg st answer =
     (case refreshDynamic answer (NewEdge cfg st) of (s, None) \<Rightarrow> Inr s | (_, Some e) \<Rightarrow> Inl e)"

text \<open>
  A reconciliation of the edge: the status server that it reports to is the one of the server.
\<close>

definition edgeReconcile ::
    "('w \<Rightarrow> registry_error + Registration list \<times> Stats) \<Rightarrow> (registry_error \<Rightarrow> string) \<Rightarrow> (string \<Rightarrow> string + string list) \<Rightarrow> 'w runner
     \<Rightarrow> time \<Rightarrow> duration \<Rightarrow> netPolicy \<Rightarrow> edgeServer \<Rightarrow> db \<Rightarrow> 'w \<Rightarrow> netPolicy \<times> edgeServer \<times> db \<times> 'w \<times> reconcile_error option" where
  "edgeReconcile store message prefs run now elapsed p s d w =
     (let cfg = es_config s;
          r = NewRoutes (p, s) (map ct_VirtualPrefix (ed_Connectors cfg)) (ed_SlotQuarantine cfg) None;
          (r1, d1, w1, e) = reconcile (reconciledReplace store message run) prefs run now elapsed r d w
      in (fst (ro_policy r1),
          on_status (ObserveRouteReconcile (if e = None then ''success'' else ''failure'') elapsed) (snd (ro_policy r1)),
          d1, w1, e))"

section \<open>The entries after a refresh\<close>

definition servedPrefixes :: "edgeServer \<Rightarrow> prefix set" where
  "servedPrefixes s = (\<lambda>e. ct_VirtualPrefix (en_target (ent s e))) ` set (es_routes s)"

definition statics_ok :: "edgeServer \<Rightarrow> bool" where
  "statics_ok s \<longleftrightarrow>
     (\<forall>t \<in> set (ed_Connectors (es_config s)). CHR ''/'' \<notin> set (ct_ConnectorID t)
        \<and> (\<exists>e. map_of (es_registry s) (ct_ConnectorID t) = Some e \<and> e < length (es_entries s) \<and> en_target (ent s e) = t))"

definition refresh_inv :: "edgeServer \<Rightarrow> prefix set \<Rightarrow> nat list \<times> string list \<times> edgeServer \<Rightarrow> bool" where
  "refresh_inv s0 A x \<longleftrightarrow> refreshing s0 x
     \<and> (case x of (routes, keys, s) \<Rightarrow> statics_ok s \<and> (\<lambda>e. ct_VirtualPrefix (en_target (ent s e))) ` set routes = A)"

lemma registrationKey_slash: "CHR ''/'' \<in> set (registrationKey r)"
  by (simp add: registrationKey_def)

lemma filter_prefix_image:
  "f ` set (filter (\<lambda>e. f e \<noteq> p) xs) = f ` set xs - {p}"
  by auto

text \<open>A new entry at the end keeps the static ones.\<close>

lemma statics_ok_append:
  assumes "statics_ok s" and "CHR ''/'' \<in> set key"
  shows "statics_ok (s\<lparr>es_entries := es_entries s @ [x], es_registry := AList.update key n (es_registry s)\<rparr>)"
  using assms by (fastforce simp: statics_ok_def update_conv' nth_append)

lemma statics_ok_frame:
  "es_config t = es_config s \<Longrightarrow> es_registry t = es_registry s \<Longrightarrow> es_entries t = es_entries s \<Longrightarrow> statics_ok t = statics_ok s"
  by (simp add: statics_ok_def)

lemma closeActive_frame [simp]:
  "es_config (closeActive a s) = es_config s" "es_registry (closeActive a s) = es_registry s"
  "es_entries (closeActive a s) = es_entries s"
  by (simp_all add: closeActive_def closeConnection_def on_session_def split: option.splits)

lemma refresh_step:
  assumes inv: "refresh_inv s0 A x"
  shows "refresh_inv s0 (if rg_IdentityType r = DynamicV3 then insert (rg_VirtualPrefix r) A else A) (refreshOne r x)"
proof -
  obtain routes keys s where x: "x = (routes, keys, s)" by (cases x)
  let ?f = "\<lambda>e. ct_VirtualPrefix (en_target (ent s e))" and ?key = "registrationKey r" and ?target = "dynamicTarget (es_config s) r"
  let ?kept = "filter (\<lambda>e. ?f e \<noteq> rg_VirtualPrefix r) routes"
  have ok: "refreshing s0 (routes, keys, s)" "statics_ok s" "?f ` set routes = A" using inv x by (simp_all add: refresh_inv_def)
  have idx: "\<forall>e \<in> set routes. e < length (es_entries s)" using ok(1) unfolding refreshing_def prod.case by (elim conjE)
  have vp: "ct_VirtualPrefix ?target = rg_VirtualPrefix r" by (simp add: dynamicTarget_def)
  have kept: "?f ` set ?kept = A - {rg_VirtualPrefix r}" using ok(3) filter_prefix_image[of ?f "rg_VirtualPrefix r" routes] by simp
  have appended: "(\<lambda>e. ct_VirtualPrefix (en_target ((es_entries s @ [newEntry ?target]) ! e))) ` set (?kept @ [length (es_entries s)])
      = insert (rg_VirtualPrefix r) A"
  proof -
    have "(\<lambda>e. ct_VirtualPrefix (en_target ((es_entries s @ [newEntry ?target]) ! e))) ` set ?kept = ?f ` set ?kept"
      using idx by (intro image_cong) (auto simp: nth_append)
    then show ?thesis using kept vp by (auto simp: newEntry_def)
  qed
  have "refreshing s0 (refreshOne r x)" using refreshing_step[of s0 x r] ok(1) x by simp
  moreover have "case refreshOne r x of (routes', keys', s') \<Rightarrow> statics_ok s' \<and> (\<lambda>e. ct_VirtualPrefix (en_target (ent s' e))) ` set routes'
      = (if rg_IdentityType r = DynamicV3 then insert (rg_VirtualPrefix r) A else A)"
  proof (cases "rg_IdentityType r = DynamicV3")
    case False
    then show ?thesis using ok x by (simp add: refreshOne_def)
  next
    case True
    show ?thesis
    proof (cases "map_of (es_registry s) ?key")
      case None
      then show ?thesis
        using True x appended statics_ok_append[OF ok(2) registrationKey_slash] by (simp add: refreshOne_def Let_def)
    next
      case (Some e)
      let ?s1 = "closeActive (en_active (ent s e)) s"
      have s1: "statics_ok ?s1" using ok(2) statics_ok_frame[of ?s1 s] by simp
      show ?thesis
      proof (cases "en_target (ent s e) = ?target")
        case True
        then have "?f ` set (?kept @ [e]) = insert (rg_VirtualPrefix r) A" using kept vp by auto
        then show ?thesis using \<open>rg_IdentityType r = DynamicV3\<close> Some True x ok(2) by (simp add: refreshOne_def Let_def)
      next
        case False
        then show ?thesis
          using \<open>rg_IdentityType r = DynamicV3\<close> Some x appended statics_ok_append[OF s1 registrationKey_slash]
          by (simp add: refreshOne_def Let_def)
      qed
    qed
  qed
  ultimately show ?thesis by (simp add: refresh_inv_def)
qed

lemma refresh_fold:
  "refresh_inv s0 A x \<Longrightarrow>
   refresh_inv s0 (A \<union> rg_VirtualPrefix ` {r \<in> set regs. rg_IdentityType r = DynamicV3}) (foldl (\<lambda>x r. refreshOne r x) x regs)"
proof (induction regs arbitrary: A x)
  case (Cons r regs)
  have "A \<union> rg_VirtualPrefix ` {q \<in> set (r # regs). rg_IdentityType q = DynamicV3} =
      (if rg_IdentityType r = DynamicV3 then insert (rg_VirtualPrefix r) A else A)
        \<union> rg_VirtualPrefix ` {q \<in> set regs. rg_IdentityType q = DynamicV3}" by auto
  then show ?case using Cons.IH[OF refresh_step[OF Cons.prems]] by simp
qed simp

lemma statics_served: "statics_ok s \<Longrightarrow>
  (\<lambda>e. ct_VirtualPrefix (en_target (ent s e))) ` set (staticRoutes s) = ct_VirtualPrefix ` set (ed_Connectors (es_config s))"
proof -
  assume ok: "statics_ok s"
  have "(\<lambda>e. ct_VirtualPrefix (en_target (ent s e))) ` set (List.map_filter (\<lambda>t. map_of (es_registry s) (ct_ConnectorID t)) ts)
      = ct_VirtualPrefix ` set ts" if "set ts \<subseteq> set (ed_Connectors (es_config s))" for ts
    using that
  proof (induction ts)
    case (Cons t ts)
    then have "t \<in> set (ed_Connectors (es_config s))" by simp
    then obtain e where "map_of (es_registry s) (ct_ConnectorID t) = Some e" "en_target (ent s e) = t"
      using ok unfolding statics_ok_def by blast
    then show ?case using Cons by simp
  qed simp
  then show ?thesis by (simp add: staticRoutes_def)
qed

lemma map_of_filter_key: "k \<in> K \<Longrightarrow> map_of (filter (\<lambda>(k, e). k \<in> K) m) k = map_of m k"
  by (induction m) auto

lemma refreshDynamic_served:
  assumes ok: "registry_ok s" "statics_ok s"
  shows "statics_ok (fst (refreshDynamic result s))"
    and "result = Inr (regs, stats) \<Longrightarrow> servedPrefixes (fst (refreshDynamic result s)) =
      ct_VirtualPrefix ` set (ed_Connectors (es_config s)) \<union> rg_VirtualPrefix ` {r \<in> set regs. rg_IdentityType r = DynamicV3}"
proof -
  have "statics_ok (fst (refreshDynamic result s)) \<and> (\<forall>regs stats. result = Inr (regs, stats) \<longrightarrow>
      servedPrefixes (fst (refreshDynamic result s)) =
      ct_VirtualPrefix ` set (ed_Connectors (es_config s)) \<union> rg_VirtualPrefix ` {r \<in> set regs. rg_IdentityType r = DynamicV3})"
  proof (cases result)
    case (Inl e)
    then show ?thesis using ok by (simp add: refreshDynamic_def)
  next
    case (Inr y)
    obtain regs stats where y: "y = (regs, stats)" by (cases y)
    let ?x = "(staticRoutes s, map ct_ConnectorID (ed_Connectors (es_config s)), s)"
    have "refresh_inv s (ct_VirtualPrefix ` set (ed_Connectors (es_config s))) ?x"
      using ok staticRoutes_ok[OF ok(1)] statics_served[OF ok(2)]
      by (auto simp: refresh_inv_def refreshing_def extends_refl registry_ok_def)
    note inv = refresh_fold[OF this, of regs]
    obtain routes keys s1 where f: "foldl (\<lambda>x r. refreshOne r x) ?x regs = (routes, keys, s1)" by (cases rule: prod_cases3)
    have r: "refreshing s (routes, keys, s1)" "statics_ok s1" "(\<lambda>e. ct_VirtualPrefix (en_target (ent s1 e))) ` set routes =
        ct_VirtualPrefix ` set (ed_Connectors (es_config s)) \<union> rg_VirtualPrefix ` {r \<in> set regs. rg_IdentityType r = DynamicV3}"
      using inv by (simp_all add: refresh_inv_def f)
    have keys: "ct_ConnectorID ` set (ed_Connectors (es_config s)) \<subseteq> set keys"
      using r(1) unfolding refreshing_def prod.case by (elim conjE)
    have cfg: "es_config s1 = es_config s" using refreshing_extends[OF r(1)] by (simp add: extends_def)
    let ?gone = "filter (\<lambda>(k, e). k \<notin> set keys) (es_registry s1)" and ?t = "fst (refreshDynamic result s)"
    let ?s2 = "foldl (\<lambda>s (k, e). closeActive (en_active (ent s e)) s) s1 ?gone"
    have t: "es_entries ?t = es_entries ?s2" "es_config ?t = es_config ?s2" "es_routes ?t = routes"
        "es_registry ?t = filter (\<lambda>(k, e). k \<in> set keys) (es_registry ?s2)"
      by (simp_all add: refreshDynamic_def Inr y f dropInactive_def Let_def)
    note fc = fold_close_extends[of s1 ?gone]
    have same: "es_entries ?t = es_entries s1" "es_config ?t = es_config s"
        "es_registry ?t = filter (\<lambda>(k, e). k \<in> set keys) (es_registry s1)"
      using t fc cfg by (simp_all add: extends_def)
    have "statics_ok ?t"
      unfolding statics_ok_def same
    proof
      fix c assume c: "c \<in> set (ed_Connectors (es_config s))"
      then have "ct_ConnectorID c \<in> set keys" using keys by blast
      then show "CHR ''/'' \<notin> set (ct_ConnectorID c) \<and> (\<exists>e. map_of (filter (\<lambda>(k, e). k \<in> set keys) (es_registry s1)) (ct_ConnectorID c) = Some e
          \<and> e < length (es_entries s1) \<and> en_target (ent s1 e) = c)"
        using r(2) c cfg by (simp add: statics_ok_def map_of_filter_key)
    qed
    moreover have "servedPrefixes ?t = ct_VirtualPrefix ` set (ed_Connectors (es_config s))
        \<union> rg_VirtualPrefix ` {r \<in> set regs. rg_IdentityType r = DynamicV3}"
      unfolding servedPrefixes_def same t(3) by (rule r(3))
    ultimately show ?thesis using Inr y by auto
  qed
  then show "statics_ok (fst (refreshDynamic result s))"
    "result = Inr (regs, stats) \<Longrightarrow> servedPrefixes (fst (refreshDynamic result s)) =
      ct_VirtualPrefix ` set (ed_Connectors (es_config s)) \<union> rg_VirtualPrefix ` {r \<in> set regs. rg_IdentityType r = DynamicV3}"
    by blast+
qed

text \<open>The static entries in every reachable state of the sessions.\<close>

lemma statics_ok_targets:
  assumes "statics_ok s" "es_config t = es_config s" "es_registry t = es_registry s" "length (es_entries t) = length (es_entries s)"
    and "\<And>e. en_target (ent t e) = en_target (ent s e)"
  shows "statics_ok t"
  using assms by (simp add: statics_ok_def)

lemma statics_step:
  assumes inv: "run_inv r" and ok: "statics_ok (er_server r) \<and> es_config (er_server r) = cfg" and step: "edge_step r r'"
  shows "statics_ok (er_server r') \<and> es_config (er_server r') = cfg"
  using step inv ok
proof (induction rule: edge_step.induct)
  case (commit a r drawn written s n e p)
  obtain f where f: "ad_entry a = Some f" using run_inv_parts(3)[OF commit(3) commit(1)] by (auto simp: admission_ok_def)
  obtain sid where x: "commits sid a f (er_server r) s"
    using commit_effect[OF commit(2) run_inv_parts(3)[OF commit(3) commit(1)] f run_inv_parts(2)[OF commit(3)]] by blast
  note x' = x[unfolded commits_def Let_def]
  have "es_config s = es_config (er_server r)" "es_registry s = es_registry (er_server r)"
    "length (es_entries s) = length (es_entries (er_server r))" "\<And>f. en_target (ent s f) = en_target (ent (er_server r) f)"
    using x' by blast+
  then show ?case using statics_ok_targets[OF conjunct1[OF commit(4)]] commit(4) by simp
next
  case (drained n r)
  then show ?case using statics_ok_targets[OF conjunct1[OF drained(3)]] by (simp add: drainEnds_fields)
next
  case (ended n r)
  then show ?case using statics_ok_targets[OF conjunct1[OF ended(4)]] by (simp add: sessionEnds_fields)
next
  case (refresh r result)
  note ro = run_inv_parts(1)[OF refresh(1)]
  have "es_config (fst (refreshDynamic result (er_server r))) = es_config (er_server r)"
    using conjunct1[OF conjunct2[OF refreshDynamic_ok[OF ro], unfolded extends_def]] .
  then show ?case using refreshDynamic_served(1)[OF ro] refresh(2) by simp
qed (auto simp: reportReady_def Let_def acceptTCP_def releaseTCP_def on_status_def closeConnection_def on_session_def
    intro: statics_ok_targets)

interpretation edge_statics: layered_machine edge_step run_inv "\<lambda>r. statics_ok (er_server r) \<and> es_config (er_server r) = cfg" for cfg
  by unfold_locales (rule statics_step)

text \<open>A valid configuration starts in such a state: the names of static connectors have no slash.\<close>

lemma validName_no_slash: "validName v \<Longrightarrow> CHR ''/'' \<notin> set v"
  by (cases v) (auto simp: validName_def list_all_iff asciiLetterOrDigit_def between_def)

lemma registry_fold_other:
  "k \<notin> set (map (ct_ConnectorID \<circ> snd) xs) \<Longrightarrow> map_of (foldl (\<lambda>m (i, t). AList.update (ct_ConnectorID t) i m) m xs) k = map_of m k"
  by (induction xs arbitrary: m) (auto simp: update_conv' case_prod_beta)

lemma registry_fold_lookup:
  "distinct (map ct_ConnectorID (map snd xs)) \<Longrightarrow> (i, t) \<in> set xs \<Longrightarrow>
   map_of (foldl (\<lambda>m (i, t). AList.update (ct_ConnectorID t) i m) m xs) (ct_ConnectorID t) = Some i"
proof (induction xs arbitrary: m)
  case (Cons x xs)
  obtain j u where x: "x = (j, u)" by (cases x)
  show ?case
  proof (cases "(i, t) \<in> set xs")
    case True
    then show ?thesis using Cons by (simp add: x)
  next
    case False
    then have "j = i" "u = t" "ct_ConnectorID t \<notin> set (map (ct_ConnectorID \<circ> snd) xs)" using Cons.prems x by auto
    then show ?thesis using registry_fold_other[of "ct_ConnectorID t" xs] by (simp add: x update_conv')
  qed
qed simp

lemma statics_ok_start:
  assumes "edge_valid cfg"
  shows "statics_ok (er_server (startRun cfg st))"
proof -
  let ?ts = "ed_Connectors cfg"
  have d: "distinct (map ct_ConnectorID ?ts)" and n: "list_all target_ok ?ts" using assms by (simp_all add: edge_valid_def)
  have "map_of (es_registry (NewEdge cfg st)) (ct_ConnectorID (?ts ! i)) = Some i" if "i < length ?ts" for i
    using registry_fold_lookup[of "enumerate 0 ?ts" i "?ts ! i" "[]"] d that
    by (simp add: NewEdge_def Let_def in_set_enumerate_eq flip: map_map)
  then show ?thesis
    using n validName_no_slash
    by (auto simp: statics_ok_def startRun_def NewEdge_def newEntry_def Let_def in_set_conv_nth list_all_length target_ok_def)
qed

lemma edge_reached:
  assumes "edge_valid cfg" and "edge_step\<^sup>*\<^sup>* (startRun cfg st) r"
  shows "registry_ok (er_server r)" "statics_ok (er_server r)" "es_config (er_server r) = cfg"
proof -
  have "run_inv (startRun cfg st)" using assms(1) by (intro run_inv_start) (simp add: edge_valid_def)
  moreover have "es_config (er_server (startRun cfg st)) = cfg" by (simp add: startRun_def NewEdge_def Let_def)
  ultimately have "run_inv r \<and> statics_ok (er_server r) \<and> es_config (er_server r) = cfg"
    using edge_statics.steps_both[OF assms(2)] statics_ok_start[OF assms(1)] by blast
  then show "registry_ok (er_server r)" "statics_ok (er_server r)" "es_config (er_server r) = cfg"
    by (simp_all add: run_inv_def)
qed

section \<open>After a success\<close>

lemma reconciledReplace_ok:
  assumes "reconciledReplace store message run routes ps w = (ps', w', None)"
  shows "\<exists>regs stats. store w' = Inr (regs, stats) \<and> snd ps' = fst (refreshDynamic (Inr (regs, stats)) (snd ps))"
proof -
  obtain s1 e where r: "refreshDynamic (store w') (snd ps) = (s1, e)" by (cases "refreshDynamic (store w') (snd ps)")
  have "snd ps' = s1" "e = None"
    using assms r by (auto simp: reconciledReplace_def split: prod.splits option.splits)
  moreover from this r obtain x where "store w' = Inr x" by (cases "store w'") (auto simp: refreshDynamic_def)
  ultimately show ?thesis using r by (cases x) auto
qed

lemma valid_statics: "edge_valid cfg \<Longrightarrow> list_all canonical16 (map ct_VirtualPrefix (ed_Connectors cfg))"
  by (auto simp: edge_valid_def list_all_iff target_ok_def canonical16_def)


section \<open>While routes are changed\<close>

text \<open>If the registry can be read, a replacement that fails leaves the rules as they were.\<close>

lemma late_only:
  assumes tools: "tools_documented advertised loaded prefs run" and reads: "\<And>x. \<exists>answer. store x = Inr answer"
    and fails: "reconciledReplace (store \<circ> fst) message (traced run) routes q u = (q1, u1, Some x)"
  shows "loaded (fst u1) = loaded (fst u)"
proof -
  obtain p1 u2 e where r: "policyReplace (traced run) routes (fst q) u = (p1, u2, e)" by (cases rule: prod_cases3)
  obtain s1 f where d: "refreshDynamic (store (fst u2)) (snd q) = (s1, f)" by (cases "refreshDynamic (store (fst u2)) (snd q)")
  have "f = None" using reads[of "fst u2"] d by (auto simp: refreshDynamic_def Let_def split: prod.splits)
  then have e: "u1 = u2" "e \<noteq> None" using fails r d by (auto simp: reconciledReplace_def split: option.splits)
  obtain err out where "run ''nft'' [''-f'', ''-''] (replacement ((fst q)\<lparr>np_routes := routes\<rparr>)) (fst u) = (fst u2, Some err, out)"
    using r e(2) by (cases u) (auto simp: policyReplace_def ReplacePolicy_def runCommand_def traced_def Let_def split: prod.splits option.splits)
  then show ?thesis using tools_nft[OF tools] e(1) by fastforce
qed

text \<open>
  C8. While a running edge reconciles its routes, every route that Tailscale advertises is redirected by the loaded rules,
  after each command and whichever command fails, if it was so before, if the change only adds or only withdraws routes, and
  if, during a withdrawal, the registry can be read when the entries are refreshed: an addition redirects before it
  advertises, a withdrawal the other way round, and the rollback of a failed step undoes the first one. The programs behave
  as documented.
\<close>

theorem advertised_stay_redirected:
  assumes tools: "tools_documented advertised loaded prefs run" and valid: "edge_valid cfg"
    and reached: "edge_step\<^sup>*\<^sup>* (startRun cfg st) r" and inv: "registry_inv d" and active: "ActiveRegistrations now d = Inr active"
    and want: "want = prefix_string ` (ct_VirtualPrefix ` set (ed_Connectors cfg) \<union> rg_VirtualPrefix ` set active)"
    and change: "advertised w \<subseteq> want \<or> want \<subseteq> advertised w \<and> (\<forall>x. \<exists>answer. store x = Inr answer)"
    and texts: "\<And>s. s \<in> advertised w \<Longrightarrow> s \<noteq> [] \<and> CHR '','' \<notin> set s"
    and before: "protected p (advertised w) (loaded w)"
    and step: "edgeReconcile (store \<circ> fst) message prefs (traced run) now elapsed p (er_server r) d (w, []) = (p', s', d', (w', ws), e)"
  shows "list_all (\<lambda>x. protected p (advertised x) (loaded x)) (w' # ws)"
proof -
  note e = edge_reached[OF valid reached]
  let ?r = "NewRoutes (p, er_server r) (map ct_VirtualPrefix (ed_Connectors cfg)) (ed_SlotQuarantine cfg) None"
  have static: "list_all canonical16 (ro_staticRoutes ?r)" using valid_statics[OF valid] by (simp add: NewRoutes_def)
  obtain r1 where rr: "reconcile (reconciledReplace (store \<circ> fst) message (traced run)) prefs (traced run) now elapsed ?r d (w, [])
      = (r1, d', (w', ws), e)"
    using step by (auto simp: edgeReconcile_def e(3) Let_def split: prod.splits)
  have w: "want = prefix_string ` (set (ro_staticRoutes ?r) \<union> rg_VirtualPrefix ` set active)" using want by (simp add: NewRoutes_def)
  have "list_all (\<lambda>x. protected (fst (ro_policy ?r)) (advertised x) (loaded x)) (w' # ws)"
  proof (rule tep.stay_redirected[OF tools inv static active _ texts _ _ rr])
    show "let want = prefix_string ` (set (ro_staticRoutes ?r) \<union> rg_VirtualPrefix ` set active)
        in advertised w \<subseteq> want \<or> want \<subseteq> advertised w" using change w by auto
    show "protected (fst (ro_policy ?r)) (advertised w) (loaded w)" using before by (simp add: NewRoutes_def)
    fix q u q1 u1 x
    assume "\<not> advertised w \<subseteq> prefix_string ` (set (ro_staticRoutes ?r) \<union> rg_VirtualPrefix ` set active)"
    then have "\<exists>answer. store y = Inr answer" for y using change w by blast
    moreover assume "reconciledReplace (store \<circ> fst) message (traced run) (wantedRoutes (ro_staticRoutes ?r) active) q u = (q1, u1, Some x)"
    ultimately show "loaded (fst u1) = loaded (fst u)" using late_only[OF tools, of store] by blast
  qed
  then show ?thesis by (simp add: NewRoutes_def)
qed

section \<open>Two ways to lose the redirection\<close>

text \<open>
  A change that adds and withdraws advertises the new routes first: after that command a new route is advertised and not
  redirected, and it stays so while the rules cannot be loaded.
\<close>

theorem mixed_change_exposes:
  assumes tools: "tools_documented advertised loaded prefs run" and texts: "route_texts want" "route_texts previous"
    and withdraws: "removesRoute previous want"
    and adds: "s \<in> set want" "\<not> (\<exists>route. prefix_string route = s \<and> redirects p (loaded w) route)"
    and set: "setRoutes (traced run) want (w, ws) = ((w1, ws1), None)"
    and step: "changeRoutes (reconciledReplace store message (traced run)) (traced run) routes want previous (p, es) (w, ws) = (q, (w', ws'), e)"
  shows "\<not> protected p (advertised w1) (loaded w1) \<and> w1 \<in> set ws'"
  using tep.mixed_exposes[OF tools texts withdraws adds(1) _ set step] adds(2) by simp

text \<open>
  A withdrawal during which the registry cannot be read after the rules were loaded: the reconciliation takes this for a
  failure to load them and advertises the old routes again, which the loaded rules do not redirect any more.
\<close>

theorem refresh_failure_exposes:
  assumes tools: "tools_documented advertised loaded prefs run" and texts: "route_texts want" "route_texts previous"
    and gone: "s \<in> set previous" "\<not> (\<exists>route. prefix_string route = s \<and> redirects p (rules (p\<lparr>np_routes := routes\<rparr>)) route)"
    and set: "setRoutes (traced run) want (w, ws) = ((w1, ws1), None)"
    and rules: "policyReplace (traced run) routes p (w1, ws1) = (p2, (w2, ws2), None)"
    and unreadable: "store (w2, ws2) = Inl err"
    and undo: "setRoutes (traced run) previous (w2, ws2) = ((w3, ws3), None)"
    and step: "withdrawFirst (reconciledReplace store message (traced run)) (traced run) routes want previous (p, es) (w, ws) = (q, (w', ws'), e)"
  shows "e = Some (message err) \<and> advertised w' = set previous \<and> \<not> protected p (advertised w') (loaded w')"
proof -
  have late: "reconciledReplace store message (traced run) routes (p, es) (w1, ws1) = ((p2, es), (w2, ws2), Some (message err))"
    using rules unreadable by (simp add: reconciledReplace_def refreshDynamic_def)
  have loaded: "loaded w2 = rules (p\<lparr>np_routes := routes\<rparr>)"
    using tep.traced_replace(3)[OF tools late] tnp.traced_replace(3)[OF tools rules] by simp
  have "w' = w3 \<and> e = Some (message err) \<and> \<not> protected p (advertised w') (loaded w')"
    by (rule tep.late_failure_exposes[OF tools texts gone(1) _ set late _ undo step, unfolded fst_conv]) (use gone(2) loaded in simp_all)
  then show ?thesis using traced_set(3)[OF tools texts(2) undo] by auto
qed

section \<open>A concrete reconciliation\<close>

definition openPolicy :: netPolicy where
  "openPolicy = \<lparr>np_routes = [], np_tcpPort = ''1'', np_udpPort = ''2''\<rparr>"

definition sampleStore :: "'w \<Rightarrow> registry_error + Registration list \<times> Stats" where
  "sampleStore w = Inr ([sampleActive], noStats)"

definition sampleMessage :: "registry_error \<Rightarrow> string" where
  "sampleMessage e = ''registry''"

lemma sample_steps:
  "readPrefs sampleTools (a, t) = ((a, t), Inr a)"
  "setRoutes sampleTools want (a, t) = ((join_with '','' want, t), None)"
  "policyReplace sampleTools rs p (a, t) = (p\<lparr>np_routes := rs\<rparr>, (a, rules (p\<lparr>np_routes := rs\<rparr>)), None)"
  by (simp_all add: readPrefs_def setRoutes_def policyReplace_def ReplacePolicy_def runTool_def runCommand_def sampleTools_def
      tailscale_def replacement_def Let_def)

lemma sample_traced_steps:
  "readPrefs (traced sampleTools) ((a, t), ws) = (((a, t), (a, t) # ws), Inr a)"
  "setRoutes (traced sampleTools) want ((a, t), ws) = (((join_with '','' want, t), (join_with '','' want, t) # ws), None)"
  "policyReplace (traced sampleTools) rs p ((a, t), ws)
     = (p\<lparr>np_routes := rs\<rparr>, ((a, rules (p\<lparr>np_routes := rs\<rparr>)), (a, rules (p\<lparr>np_routes := rs\<rparr>)) # ws), None)"
  by (simp_all add: readPrefs_def setRoutes_def policyReplace_def ReplacePolicy_def runTool_def runCommand_def sampleTools_def
      traced_def tailscale_def replacement_def Let_def)

definition sampleRefreshed :: "edgeServer \<Rightarrow> edgeServer" where
  "sampleRefreshed s = fst (refreshDynamic (Inr ([sampleActive], noStats)) s)"

lemma sample_refresh: "refreshDynamic (sampleStore w) s = (sampleRefreshed s, None)"
  by (auto simp: sampleStore_def sampleRefreshed_def refreshDynamic_def Let_def split: prod.splits)

lemma sample_reconciled:
  "\<exists>p' s' d' w'. edgeReconcile sampleStore sampleMessage samplePrefs sampleTools 4 0 openPolicy
     (er_server (startRun sampleEdge (New ''v''))) sample_db ([], []) = (p', s', d', w', None)"
  "\<exists>p' s' d' w' ws. edgeReconcile (sampleStore \<circ> fst) sampleMessage samplePrefs (traced sampleTools) 4 0 openPolicy
     (er_server (startRun sampleEdge (New ''v''))) sample_db (([], []), []) = (p', s', d', (w', ws), None) \<and> length ws = 4"
proof -
  let ?s = "er_server (startRun sampleEdge (New ''v''))"
  have c: "es_config ?s = sampleEdge" "ed_Connectors sampleEdge = []" by (simp_all add: startRun_def NewEdge_def sampleEdge_def Let_def)
  obtain g where g: "PendingRouteGeneration sample_db = Inr g" using sample_generation by blast
  note eval = edgeReconcile_def reconcile_def reconcileRoutes_def NewRoutes_def c g sample_active sample_wanted sample_steps sample_traced_steps
    sample_refresh samplePrefs_def sample_split net16_text changeRoutes_def removesRoute_def redirectFirst_def reconciledReplace_def
    verifyRoutes_def Let_def
  show "\<exists>p' s' d' w'. edgeReconcile sampleStore sampleMessage samplePrefs sampleTools 4 0 openPolicy ?s sample_db ([], []) = (p', s', d', w', None)"
    by (simp add: eval)
  show "\<exists>p' s' d' w' ws. edgeReconcile (sampleStore \<circ> fst) sampleMessage samplePrefs (traced sampleTools) 4 0 openPolicy
     ?s sample_db (([], []), []) = (p', s', d', (w', ws), None) \<and> length ws = 4"
    by (simp add: eval)
qed


theorem advertised_stay_redirected_witness:
  "\<exists>p' s' d' w' ws e. edgeReconcile (sampleStore \<circ> fst) sampleMessage samplePrefs (traced sampleTools) 4 0 openPolicy
       (er_server (startRun sampleEdge (New ''v''))) sample_db (([], []), []) = (p', s', d', (w', ws), e)
     \<and> length ws = 4
     \<and> list_all (\<lambda>x. protected openPolicy (set (splitRoutes (fst x))) (snd x)) (w' # ws)"
proof -
  obtain p' s' d' w' ws where r: "edgeReconcile (sampleStore \<circ> fst) sampleMessage samplePrefs (traced sampleTools) 4 0 openPolicy
       (er_server (startRun sampleEdge (New ''v''))) sample_db (([], []), []) = (p', s', d', (w', ws), None)" "length ws = 4"
    using sample_reconciled(2) by blast
  have "list_all (\<lambda>x. protected openPolicy (set (splitRoutes (fst x))) (snd x)) (w' # ws)"
    by (rule advertised_stay_redirected[OF sampleTools_documented sampleEdge_valid rtranclp.rtrancl_refl sample_inv sample_active refl _ _ _ r(1)])
       (simp_all add: sample_split protected_def)
  then show ?thesis using r by blast
qed

end
