(* ===== verification/Edge_Run.thy ===== *)
theory Edge_Run
  imports Edge_Routes
begin

text \<open>
  The life of an edge (\<^verbatim>\<open>edge.go\<close>, \<^verbatim>\<open>Run\<close>): the Tailscale process, the rules and the listeners are acquired one after the
  other, each with a deferred release; then the server is healthy and the goroutines run until the first of them fails or
  the context ends; then everything is closed. The outcomes of the calls are a record, what the goroutines do to the world
  and to the server is an argument; the events of a run are logged in order.
\<close>

section \<open>Data\<close>

datatype run_resource = TailscaleProcess | PolicyRules | QuicListener | TcpListener | UdpListener | DnsListener

datatype run_event = Opened run_resource | Closed run_resource | Healthy bool | Served

datatype run_error =
    StartTailscale string | WaitForInterface string | ProcessStopped string "string option" | PolicyNotCreated netpolicy_error
  | PolicyNotApplied netpolicy_error | TLSNotConfigured string | ListenFailed run_resource string | DnsAddressNotValid
  | GroupFailed string

text \<open>What the wait for \<^verbatim>\<open>tailscale0\<close> ends with: the interface, an error, or the end of the managed process.\<close>

datatype ready_outcome = InterfaceReady | InterfaceMissing string | StoppedEarly "string option"

record 'w runIO =
  io_startTailscale :: "string option"
  io_ready :: ready_outcome
  io_tls :: "string option"
  io_listen :: "run_resource \<Rightarrow> string option"
  io_interfaces :: "string \<Rightarrow> string list option"
  io_resolve :: "string \<Rightarrow> string \<Rightarrow> addr_port option"
  io_group :: "'w \<Rightarrow> edgeServer \<Rightarrow> 'w \<times> edgeServer \<times> string option"
  io_stopped :: bool
  io_cancelled :: bool

record 'w runState =
  rt_world :: 'w
  rt_server :: edgeServer
  rt_log :: "run_event list"

definition logged :: "run_event \<Rightarrow> 'w runState \<Rightarrow> 'w runState" where
  "logged e st = st\<lparr>rt_log := rt_log st @ [e]\<rparr>"

definition setHealthy :: "bool \<Rightarrow> 'w runState \<Rightarrow> 'w runState" where
  "setHealthy b st = logged (Healthy b) (st\<lparr>rt_server := on_status (SetHealthy b) (rt_server st)\<rparr>)"

section \<open>The run\<close>

text \<open>
  The address that the DNS listener binds to: a host name or address as it is, otherwise the first IPv4 address of the
  interface of that name. \<open>interfaces\<close> gives the prefixes of an interface as texts, \<open>resolve\<close> is \<^verbatim>\<open>net.ResolveUDPAddr\<close> on a
  host and a port.
\<close>

definition listenerInterfaceAddress ::
    "(string \<Rightarrow> string list option) \<Rightarrow> (string \<Rightarrow> string \<Rightarrow> addr_port option) \<Rightarrow> string \<Rightarrow> addr_port option" where
  "listenerInterfaceAddress interfaces resolve v =
     (case split_host_port v of
        None \<Rightarrow> None
      | Some (host, p) \<Rightarrow>
          if host = [] \<or> CHR ''.'' \<in> set host \<or> CHR '':'' \<in> set host then resolve host p
          else case interfaces host of
              None \<Rightarrow> None
            | Some addresses \<Rightarrow>
                (case find is4 (map pfx_addr (List.map_filter parse_prefix addresses)) of
                   None \<Rightarrow> None
                 | Some a \<Rightarrow> resolve (addr_string a) p))"

text \<open>A resource that is released when the rest of the run returns.\<close>

definition withResource ::
    "run_resource \<Rightarrow> ('w \<Rightarrow> 'w \<times> run_error option) \<Rightarrow> ('w \<Rightarrow> 'w) \<Rightarrow> ('w runState \<Rightarrow> 'w runState \<times> run_error option)
     \<Rightarrow> 'w runState \<Rightarrow> 'w runState \<times> run_error option" where
  "withResource r acquire release body st =
     (case acquire (rt_world st) of
        (w1, Some e) \<Rightarrow> (st\<lparr>rt_world := w1\<rparr>, Some e)
      | (w1, None) \<Rightarrow>
          (let (st1, result) = body (logged (Opened r) (st\<lparr>rt_world := w1\<rparr>))
           in (logged (Closed r) (st1\<lparr>rt_world := release (rt_world st1)\<rparr>), result)))"

definition listenOn ::
    "'w runIO \<Rightarrow> run_resource \<Rightarrow> ('w runState \<Rightarrow> 'w runState \<times> run_error option) \<Rightarrow> 'w runState \<Rightarrow> 'w runState \<times> run_error option" where
  "listenOn io r = withResource r (\<lambda>w. (w, map_option (ListenFailed r) (io_listen io r))) (\<lambda>w. w)"

text \<open>The goroutine that waits for the end: the listeners, the sessions, the connections and the UDP flows.\<close>

definition shutdownServer :: "edgeServer \<Rightarrow> edgeServer" where
  "shutdownServer s =
     (let s1 = foldl (\<lambda>s e. closeActive (en_draining (es_entries s ! e)) (closeActive (en_active (es_entries s ! e)) s)) s (es_routes s);
          s2 = foldl (\<lambda>s n. closeConnection n s) s1 (filter (\<lambda>n. \<not> ss_closed (es_sessions s1 ! n)) [0..<length (es_sessions s1)])
      in s2\<lparr>es_udp := closeUDPFlows (es_udp s2)\<rparr>)"

definition serveGroup :: "'w runIO \<Rightarrow> bool \<Rightarrow> 'w runState \<Rightarrow> 'w runState \<times> run_error option" where
  "serveGroup io hasStore st =
     (let st1 = logged Served (setHealthy True st);
          (w2, s2, failure) = io_group io (rt_world st1) (rt_server st1);
          killed = (if ed_ManageTailscale (es_config (rt_server st)) \<and> \<not> io_stopped io then [Closed TailscaleProcess] else []);
          closed = [Closed QuicListener, Closed TcpListener, Closed UdpListener] @ (if hasStore then [Closed DnsListener] else [])
      in (st1\<lparr>rt_world := w2, rt_server := shutdownServer s2, rt_log := rt_log st1 @ killed @ closed\<rparr>,
          if io_cancelled io then None else map_option GroupFailed failure))"

definition runListeners :: "'w runIO \<Rightarrow> bool \<Rightarrow> 'w runState \<Rightarrow> 'w runState \<times> run_error option" where
  "runListeners io hasStore st =
     (case io_tls io of
        Some e \<Rightarrow> (st, Some (TLSNotConfigured e))
      | None \<Rightarrow>
          listenOn io QuicListener (listenOn io TcpListener (listenOn io UdpListener
            (\<lambda>st. if \<not> hasStore then serveGroup io hasStore st
                  else if listenerInterfaceAddress (io_interfaces io) (io_resolve io) (ed_DNSListenAddr (es_config (rt_server st))) = None then (st, Some DnsAddressNotValid)
                  else listenOn io DnsListener (serveGroup io hasStore) st))) st)"

definition policyRoutes :: "edgeServer \<Rightarrow> prefix list" where
  "policyRoutes s =
     (if es_routes s \<noteq> [] then map (\<lambda>e. ct_VirtualPrefix (en_target (es_entries s ! e))) (es_routes s)
      else ed_AllowedRoutes (es_config s))"

definition applyRules :: "'w runner \<Rightarrow> netPolicy \<Rightarrow> 'w \<Rightarrow> 'w \<times> run_error option" where
  "applyRules run p w = (case ApplyPolicy run p w of (w1, e) \<Rightarrow> (w1, map_option PolicyNotApplied e))"

definition runPolicy :: "'w runner \<Rightarrow> 'w runIO \<Rightarrow> bool \<Rightarrow> 'w runState \<Rightarrow> 'w runState \<times> run_error option" where
  "runPolicy run io hasStore st =
     (let cfg = es_config (rt_server st) in
      case io_ready io of
        InterfaceMissing e \<Rightarrow> (st, Some (WaitForInterface e))
      | StoppedEarly e \<Rightarrow> (st, Some (ProcessStopped ''Tailscale stopped before it became ready'' e))
      | InterfaceReady \<Rightarrow>
          (case NewPolicy (policyRoutes (rt_server st)) (ed_TCPListenAddr cfg) (ed_UDPListenAddr cfg) of
             Inl e \<Rightarrow> (st, Some (PolicyNotCreated e))
           | Inr p \<Rightarrow>
               withResource PolicyRules (applyRules run p) (\<lambda>w. fst (ClosePolicy run w)) (runListeners io hasStore) st))"

definition runEdge :: "'w runner \<Rightarrow> 'w runIO \<Rightarrow> bool \<Rightarrow> 'w runState \<Rightarrow> 'w runState \<times> run_error option" where
  "runEdge run io hasStore st =
     (let st1 = setHealthy False st;
          (st2, result) =
            (if ed_ManageTailscale (es_config (rt_server st1))
             then withResource TailscaleProcess (\<lambda>w. (w, map_option StartTailscale (io_startTailscale io))) (\<lambda>w. w) (runPolicy run io hasStore) st1
             else runPolicy run io hasStore st1)
      in (setHealthy False st2, result))"

section \<open>What a run guarantees\<close>

text \<open>In a log every resource that was opened is closed later.\<close>

fun released :: "run_event list \<Rightarrow> bool" where
  "released [] = True"
| "released (e # es) = ((case e of Opened r \<Rightarrow> Closed r \<in> set es | _ \<Rightarrow> True) \<and> released es)"

lemma released_append: "released xs \<Longrightarrow> released ys \<Longrightarrow> released (xs @ ys)"
  by (induction xs) (auto split: run_event.splits)

lemma released_closed: "released xs \<Longrightarrow> released (xs @ [Closed r])"
  by (rule released_append) simp_all

lemma released_iff: "released log \<longleftrightarrow> (\<forall>xs r ys. log = xs @ Opened r # ys \<longrightarrow> Closed r \<in> set ys)"
proof (induction log)
  case (Cons e log)
  show ?case
  proof
    assume l: "released (e # log)"
    show "\<forall>xs r ys. e # log = xs @ Opened r # ys \<longrightarrow> Closed r \<in> set ys"
    proof (intro allI impI)
      fix xs r ys assume "e # log = xs @ Opened r # ys"
      then show "Closed r \<in> set ys" using l Cons.IH by (cases xs) auto
    qed
  next
    assume r: "\<forall>xs r ys. e # log = xs @ Opened r # ys \<longrightarrow> Closed r \<in> set ys"
    then have "\<forall>xs r ys. log = xs @ Opened r # ys \<longrightarrow> Closed r \<in> set ys" by (metis append_Cons)
    moreover have "e = Opened q \<Longrightarrow> Closed q \<in> set log" for q using r by (metis append_Nil)
    ultimately show "released (e # log)" using Cons.IH by (auto split: run_event.splits)
  qed
qed simp

text \<open>
  A part of the run keeps what was logged, releases what it opens, serves only after it has opened the resources \<open>need\<close> and
  before any is closed, and leaves a server that has served without open sessions and flows.
\<close>

definition shut :: "edgeServer \<Rightarrow> bool" where
  "shut s \<longleftrightarrow> list_all ss_closed (es_sessions s) \<and> eu_byID (es_udp s) = []"

definition part_ok :: "run_resource set \<Rightarrow> 'w runState \<Rightarrow> 'w runState \<Rightarrow> bool" where
  "part_ok need st st' \<longleftrightarrow>
     (\<exists>l. rt_log st' = rt_log st @ l \<and> released l
        \<and> (\<forall>xs ys. l = xs @ Served # ys \<longrightarrow> (\<forall>r. Closed r \<notin> set xs) \<and> need \<subseteq> {r. Opened r \<in> set xs})
        \<and> (if Served \<in> set l then shut (rt_server st') else rt_server st' = rt_server st))"

lemma part_ok_refl: "rt_log st' = rt_log st \<Longrightarrow> rt_server st' = rt_server st \<Longrightarrow> part_ok need st st'"
  by (simp add: part_ok_def)

lemma part_ok_resource:
  assumes ok: "\<And>st. part_ok (need - {r}) st (fst (body st))"
  shows "part_ok need st (fst (withResource r acquire release body st))"
proof -
  obtain w1 e where a: "acquire (rt_world st) = (w1, e)" by (cases "acquire (rt_world st)")
  show ?thesis
  proof (cases e)
    case (Some x)
    then show ?thesis using a by (simp add: withResource_def part_ok_refl)
  next
    case None
    let ?st = "logged (Opened r) (st\<lparr>rt_world := w1\<rparr>)"
    obtain st1 result where b: "body ?st = (st1, result)" by (cases "body ?st")
    obtain l where l: "rt_log st1 = rt_log ?st @ l" "released l"
        "\<And>xs ys. l = xs @ Served # ys \<Longrightarrow> (\<forall>r. Closed r \<notin> set xs) \<and> need - {r} \<subseteq> {r. Opened r \<in> set xs}"
        "if Served \<in> set l then shut (rt_server st1) else rt_server st1 = rt_server ?st"
      using ok[of ?st] b by (auto simp: part_ok_def)
    have f: "fst (withResource r acquire release body st) = logged (Closed r) (st1\<lparr>rt_world := release (rt_world st1)\<rparr>)"
      using a None b by (simp add: withResource_def)
    have "(\<forall>r. Closed r \<notin> set xs) \<and> need \<subseteq> {r. Opened r \<in> set xs}" if d: "Opened r # l @ [Closed r] = xs @ Served # ys" for xs ys
    proof -
      obtain xs' where x: "xs = Opened r # xs'" using d by (cases xs) auto
      obtain ys' where "ys = ys' @ [Closed r]" "l = xs' @ Served # ys'" using d x by (cases ys rule: rev_cases) auto
      then show ?thesis using l(3) x by auto
    qed
    moreover have "released (Opened r # l @ [Closed r])" using released_closed[OF l(2)] by simp
    ultimately show ?thesis
      using f l(1,4) by (auto simp: part_ok_def logged_def intro!: exI[of _ "Opened r # l @ [Closed r]"])
  qed
qed

text \<open>The shutdown closes every connection and ends every flow.\<close>

lemma close_all:
  "length (es_sessions (foldl (\<lambda>s n. closeConnection n s) s ns)) = length (es_sessions s)"
  "n < length (es_sessions s) \<Longrightarrow> n \<in> set ns \<or> ss_closed (es_sessions s ! n) \<Longrightarrow>
     ss_closed (es_sessions (foldl (\<lambda>s n. closeConnection n s) s ns) ! n)"
  by (induction ns arbitrary: s) (auto simp: closeConnection_def on_session_def nth_update_at)

lemma shutdown_shut: "shut (shutdownServer s)"
proof -
  let ?s1 = "foldl (\<lambda>s e. closeActive (en_draining (es_entries s ! e)) (closeActive (en_active (es_entries s ! e)) s)) s (es_routes s)"
  let ?ns = "filter (\<lambda>n. \<not> ss_closed (es_sessions ?s1 ! n)) [0..<length (es_sessions ?s1)]"
  have "ss_closed (es_sessions (foldl (\<lambda>s n. closeConnection n s) ?s1 ?ns) ! n)" if "n < length (es_sessions ?s1)" for n
    using that by (intro close_all(2)) auto
  then show ?thesis by (simp add: shut_def shutdownServer_def Let_def list_all_length close_all(1) closeUDPFlows_eq)
qed

lemma serveGroup_ok: "part_ok {} st (fst (serveGroup io hasStore st))"
proof -
  let ?l = "[Healthy True, Served] @ (if ed_ManageTailscale (es_config (rt_server st)) \<and> \<not> io_stopped io then [Closed TailscaleProcess] else [])
    @ [Closed QuicListener, Closed TcpListener, Closed UdpListener] @ (if hasStore then [Closed DnsListener] else [])"
  have "rt_log (fst (serveGroup io hasStore st)) = rt_log st @ ?l" "shut (rt_server (fst (serveGroup io hasStore st)))"
    by (simp_all add: serveGroup_def setHealthy_def logged_def shutdown_shut Let_def split: prod.splits)
  moreover have "\<forall>r. Closed r \<notin> set xs" if d: "?l = xs @ Served # ys" for xs ys
  proof -
    obtain x xs' where x: "xs = x # xs'" using d by (cases xs) auto
    then show ?thesis using d by (cases xs') (auto split: if_splits simp: Cons_eq_append_conv append_eq_Cons_conv)
  qed
  ultimately show ?thesis by (auto simp: part_ok_def)
qed

lemma part_ok_fail [simp]: "part_ok need st st"
  by (simp add: part_ok_refl)

definition listeners :: "bool \<Rightarrow> run_resource set" where
  "listeners hasStore = {QuicListener, TcpListener, UdpListener} \<union> (if hasStore then {DnsListener} else {})"

lemma runListeners_ok: "part_ok (listeners hasStore) st (fst (runListeners io hasStore st))"
proof -
  have dns: "part_ok {DnsListener} st (fst (listenOn io DnsListener (serveGroup io hasStore) st))" for st :: "'a runState"
    unfolding listenOn_def by (rule part_ok_resource) (simp add: serveGroup_ok)
  have "part_ok (listeners hasStore - {QuicListener} - {TcpListener} - {UdpListener}) st
      (fst (if \<not> hasStore then serveGroup io hasStore st
            else if listenerInterfaceAddress (io_interfaces io) (io_resolve io) (ed_DNSListenAddr (es_config (rt_server st))) = None
                 then (st, Some DnsAddressNotValid) else listenOn io DnsListener (serveGroup io hasStore) st))" for st :: "'a runState"
  proof (cases hasStore)
    case True
    then have eq: "listeners hasStore - {QuicListener} - {TcpListener} - {UdpListener} = {DnsListener}" by (auto simp: listeners_def)
    show ?thesis unfolding eq using True dns by simp
  next
    case False
    then have eq: "listeners hasStore - {QuicListener} - {TcpListener} - {UdpListener} = {}" by (auto simp: listeners_def)
    show ?thesis unfolding eq using False serveGroup_ok by simp
  qed
  then show ?thesis
    by (cases "io_tls io") (auto simp: runListeners_def listenOn_def intro!: part_ok_resource)
qed

lemma runPolicy_ok: "part_ok (insert PolicyRules (listeners hasStore)) st (fst (runPolicy run io hasStore st))"
proof -
  have "insert PolicyRules (listeners hasStore) - {PolicyRules} = listeners hasStore" by (auto simp: listeners_def)
  then have "part_ok (insert PolicyRules (listeners hasStore)) st
      (fst (withResource PolicyRules acquire release (runListeners io hasStore) st))" for acquire release
    using runListeners_ok by (intro part_ok_resource) simp
  then show ?thesis by (auto simp: runPolicy_def Let_def split: ready_outcome.splits sum.splits)
qed


text \<open>A run in which every call succeeds until the context ends.\<close>

definition smoothIO :: "unit runIO" where
  "smoothIO = \<lparr>io_startTailscale = None, io_ready = InterfaceReady, io_tls = None, io_listen = (\<lambda>_. None), io_interfaces = (\<lambda>_. None),
     io_resolve = (\<lambda>_ _. Some \<lparr>ap_addr = V4 0, ap_port = 1\<rparr>), io_group = (\<lambda>w s. (w, s, None)), io_stopped = False, io_cancelled = True\<rparr>"

definition smoothTools :: "unit runner" where
  "smoothTools name args stdin w = (w, None, [])"

lemma smooth_run:
  "\<exists>st. runEdge smoothTools smoothIO True \<lparr>rt_world = (), rt_server = NewEdge sampleEdge (New ''v''), rt_log = []\<rparr> = (st, None)
     \<and> Served \<in> set (rt_log st) \<and> Opened DnsListener \<in> set (rt_log st)"
proof -
  have p: "port '':1'' = Some ''1''" "split_host_port '':1'' = Some ([], ''1'')" by code_simp+
  have c: "es_config (NewEdge sampleEdge st) = sampleEdge" "es_routes (NewEdge sampleEdge st) = []" for st
    by (simp_all add: NewEdge_def sampleEdge_def Let_def)
  have f: "ed_ManageTailscale sampleEdge = False" "ed_TCPListenAddr sampleEdge = '':1''" "ed_UDPListenAddr sampleEdge = '':1''"
      "ed_DNSListenAddr sampleEdge = '':1''" by (simp_all add: sampleEdge_def)
  have run: "runCommand smoothTools name args stdin w = (w, None)" for name args stdin w
    by (simp add: runCommand_def smoothTools_def)
  have clean: "cleanupAll smoothTools cs w = (w, [])" for cs w
    by (induction cs) (auto simp: run Let_def)
  show ?thesis
    by (simp add: runEdge_def setHealthy_def logged_def c f runPolicy_def smoothIO_def NewPolicy_def p withResource_def applyRules_def
        ApplyPolicy_def cleanup_def clean run runListeners_def listenOn_def listenerInterfaceAddress_def serveGroup_def Let_def)
qed


end
