(* ===== verification/Init_Cmd.thy ===== *)
theory Init_Cmd
  imports Config_Load Identity Registry
begin

text \<open>
  The command \<^verbatim>\<open>tailbridge init\<close> (\<^verbatim>\<open>cmd/tailbridge/main.go\<close>): it makes a certificate authority and two certificates and
  installs three files so that either all of them are in place or none. A file system is a map from paths to contents,
  with the names that \<^verbatim>\<open>os.CreateTemp\<close> will draw and, for each call to the operating system, whether it fails (the calls
  after the list succeed). Parsing of the flags, key generation, signing and PEM are arguments.
\<close>

record fsys =
  fy_files :: "string \<Rightarrow> string option"
  fy_names :: "string list"
  fy_faults :: "bool list"

datatype os_error = NotExist | Failed

definition os_call :: "fsys \<Rightarrow> fsys \<times> bool" where
  "os_call s = (case fy_faults s of [] \<Rightarrow> (s, False) | f # fs \<Rightarrow> (s\<lparr>fy_faults := fs\<rparr>, f))"

definition removeFile :: "string \<Rightarrow> fsys \<Rightarrow> fsys \<times> os_error option" where
  "removeFile path s0 =
     (let (s, fails) = os_call s0 in
      if fails then (s, Some Failed)
      else if fy_files s path = None then (s, Some NotExist)
      else (s\<lparr>fy_files := (fy_files s)(path := None)\<rparr>, None))"

definition renameFile :: "string \<Rightarrow> string \<Rightarrow> fsys \<Rightarrow> fsys \<times> os_error option" where
  "renameFile old new s0 =
     (let (s, fails) = os_call s0 in
      if fails then (s, Some Failed)
      else case fy_files s old of
          None \<Rightarrow> (s, Some NotExist)
        | Some c \<Rightarrow> (s\<lparr>fy_files := (fy_files s)(old := None, new := Some c)\<rparr>, None))"

definition linkFile :: "string \<Rightarrow> string \<Rightarrow> fsys \<Rightarrow> fsys \<times> os_error option" where
  "linkFile old new s0 =
     (let (s, fails) = os_call s0 in
      if fails \<or> fy_files s new \<noteq> None then (s, Some Failed)
      else case fy_files s old of
          None \<Rightarrow> (s, Some NotExist)
        | Some c \<Rightarrow> (s\<lparr>fy_files := (fy_files s)(new := Some c)\<rparr>, None))"

definition lstat :: "string \<Rightarrow> fsys \<Rightarrow> fsys \<times> os_error option" where
  "lstat path s0 =
     (let (s, fails) = os_call s0
      in (s, if fails then Some Failed else if fy_files s path = None then Some NotExist else None))"

definition createTempFile :: "fsys \<Rightarrow> fsys \<times> string option" where
  "createTempFile s0 =
     (let (s, fails) = os_call s0 in
      case fy_names s of
        [] \<Rightarrow> (s, None)
      | n # ns \<Rightarrow> if fails then (s, None)
                  else (s\<lparr>fy_files := (fy_files s)(n := Some []), fy_names := ns\<rparr>, Some n))"

section \<open>Installing the files\<close>

record secretFile =
  sf_path :: string
  sf_content :: string
  sf_temp :: string
  sf_backup :: string
  sf_created :: bool

datatype init_error =
    WillNotReplace string | Inspect string | CreateTemp string | SetPermissions string | WriteTemp string | SyncTemp string
  | CloseTemp string | CloseWork string | RemoveWork string | Install string | RemoveTemp string | CreateBackup string
  | CloseBackup string | Preserve string | RemoveNew string | Restore string | RemoveBackup string

definition removeWorkFile :: "string \<Rightarrow> string \<Rightarrow> fsys \<Rightarrow> fsys \<times> init_error list" where
  "removeWorkFile path target s =
     (case removeFile path s of (s1, Some Failed) \<Rightarrow> (s1, [RemoveWork target]) | (s1, _) \<Rightarrow> (s1, []))"

text \<open>The first failing step of staging; a file whose first \<^verbatim>\<open>Close\<close> failed cannot be closed again.\<close>

definition abandon :: "bool \<Rightarrow> string \<Rightarrow> string \<Rightarrow> init_error \<Rightarrow> fsys \<Rightarrow> fsys \<times> (init_error list + string)" where
  "abandon closedOnce temp path e s =
     (let (s1, closeFails) = (if closedOnce then (s, True) else os_call s);
          (s2, es) = removeWorkFile temp path s1
      in (s2, Inl ([e] @ (if closeFails then [CloseWork path] else []) @ es)))"

definition stageSecret :: "string \<Rightarrow> string \<Rightarrow> fsys \<Rightarrow> fsys \<times> (init_error list + string)" where
  "stageSecret path content s0 =
     (case createTempFile s0 of
        (s, None) \<Rightarrow> (s, Inl [CreateTemp path])
      | (s, Some temp) \<Rightarrow>
     (case os_call s of
        (s1, True) \<Rightarrow> abandon False temp path (SetPermissions path) s1
      | (s1, False) \<Rightarrow>
     (case os_call s1 of
        (s2, True) \<Rightarrow> abandon False temp path (WriteTemp path) s2
      | (s2, False) \<Rightarrow>
     (let s3 = s2\<lparr>fy_files := (fy_files s2)(temp := Some content)\<rparr> in
      case os_call s3 of
        (s4, True) \<Rightarrow> abandon False temp path (SyncTemp path) s4
      | (s4, False) \<Rightarrow>
     (case os_call s4 of
        (s5, True) \<Rightarrow> abandon True temp path (CloseTemp path) s5
      | (s5, False) \<Rightarrow> (s5, Inr temp))))))"

fun cleanupTemps :: "secretFile list \<Rightarrow> fsys \<Rightarrow> fsys \<times> init_error list" where
  "cleanupTemps [] s = (s, [])"
| "cleanupTemps (f # fs) s =
     (let (s1, es) = (if sf_temp f \<noteq> [] then removeWorkFile (sf_temp f) (sf_path f) s else (s, []));
          (s2, es2) = cleanupTemps fs s1
      in (s2, es @ es2))"

fun restoreBackups :: "secretFile list \<Rightarrow> fsys \<Rightarrow> fsys \<times> secretFile list \<times> init_error list" where
  "restoreBackups [] s = (s, [], [])"
| "restoreBackups (f # fs) s =
     (let (s1, f1, es) =
        (if sf_backup f = [] then (s, f, [])
         else case renameFile (sf_backup f) (sf_path f) s of
             (s', None) \<Rightarrow> (s', f\<lparr>sf_backup := []\<rparr>, [])
           | (s', Some _) \<Rightarrow> (s', f, [Restore (sf_path f)]));
          (s2, fs2, es2) = restoreBackups fs s1
      in (s2, f1 # fs2, es @ es2))"

text \<open>Moving an existing file out of the way; the errors of one file end the loop.\<close>

definition preserveOne :: "secretFile \<Rightarrow> fsys \<Rightarrow> fsys \<times> secretFile \<times> init_error list" where
  "preserveOne f s =
     (case lstat (sf_path f) s of
        (s1, Some NotExist) \<Rightarrow> (s1, f, [])
      | (s1, Some Failed) \<Rightarrow> (s1, f, [Inspect (sf_path f)])
      | (s1, None) \<Rightarrow>
     (case createTempFile s1 of
        (s2, None) \<Rightarrow> (s2, f, [CreateBackup (sf_path f)])
      | (s2, Some backup) \<Rightarrow>
     (case os_call s2 of
        (s3, True) \<Rightarrow> (let (s4, es) = removeWorkFile backup (sf_path f) s3 in (s4, f, CloseBackup (sf_path f) # es))
      | (s3, False) \<Rightarrow>
     (case renameFile (sf_path f) backup s3 of
        (s4, Some _) \<Rightarrow> (let (s5, es) = removeWorkFile backup (sf_path f) s4 in (s5, f, Preserve (sf_path f) # es))
      | (s4, None) \<Rightarrow> (s4, f\<lparr>sf_backup := backup\<rparr>, [])))))"

fun preserveAll :: "secretFile list \<Rightarrow> fsys \<Rightarrow> fsys \<times> secretFile list \<times> init_error list" where
  "preserveAll [] s = (s, [], [])"
| "preserveAll (f # fs) s =
     (case preserveOne f s of
        (s1, f1, e # es) \<Rightarrow> (s1, f1 # fs, e # es)
      | (s1, f1, []) \<Rightarrow> (case preserveAll fs s1 of (s2, fs2, es) \<Rightarrow> (s2, f1 # fs2, es)))"

definition preserveSecrets :: "secretFile list \<Rightarrow> fsys \<Rightarrow> fsys \<times> secretFile list \<times> init_error list" where
  "preserveSecrets files s =
     (case preserveAll files s of
        (s1, fs1, []) \<Rightarrow> (s1, fs1, [])
      | (s1, fs1, e # es) \<Rightarrow> (case restoreBackups fs1 s1 of (s2, fs2, es2) \<Rightarrow> (s2, fs2, (e # es) @ es2)))"

fun removeCreated :: "secretFile list \<Rightarrow> fsys \<Rightarrow> fsys \<times> init_error list" where
  "removeCreated [] s = (s, [])"
| "removeCreated (f # fs) s =
     (let (s1, es) = (if sf_created f then
                        (case removeFile (sf_path f) s of (s', Some Failed) \<Rightarrow> (s', [RemoveNew (sf_path f)]) | (s', _) \<Rightarrow> (s', []))
                      else (s, []));
          (s2, es2) = removeCreated fs s1
      in (s2, es @ es2))"

definition rollbackSecrets :: "secretFile list \<Rightarrow> bool \<Rightarrow> fsys \<Rightarrow> fsys \<times> init_error list" where
  "rollbackSecrets files force s =
     (let (s1, es1) = removeCreated files s;
          (s2, files2, es2) = (if force then restoreBackups files s1 else (s1, files, []));
          (s3, es3) = cleanupTemps files2 s2
      in (s3, es1 @ es2 @ es3))"

fun stageAll :: "secretFile list \<Rightarrow> fsys \<Rightarrow> fsys \<times> secretFile list \<times> init_error list" where
  "stageAll [] s = (s, [], [])"
| "stageAll (f # fs) s =
     (case stageSecret (sf_path f) (sf_content f) s of
        (s1, Inl es) \<Rightarrow> (s1, f # fs, es)
      | (s1, Inr temp) \<Rightarrow> (case stageAll fs s1 of (s2, fs2, es) \<Rightarrow> (s2, f\<lparr>sf_temp := temp\<rparr> # fs2, es)))"

definition installOne :: "bool \<Rightarrow> secretFile \<Rightarrow> fsys \<Rightarrow> fsys \<times> secretFile \<times> init_error list" where
  "installOne force f s =
     (case (if force then renameFile (sf_temp f) (sf_path f) s else linkFile (sf_temp f) (sf_path f) s) of
        (s1, Some _) \<Rightarrow> (s1, f, [Install (sf_path f)])
      | (s1, None) \<Rightarrow>
          (let f1 = f\<lparr>sf_created := True\<rparr> in
           if force then (s1, f1\<lparr>sf_temp := []\<rparr>, [])
           else case removeFile (sf_temp f) s1 of
               (s2, Some Failed) \<Rightarrow> (s2, f1, [RemoveTemp (sf_path f)])
             | (s2, _) \<Rightarrow> (s2, f1\<lparr>sf_temp := []\<rparr>, [])))"

fun installAll :: "bool \<Rightarrow> secretFile list \<Rightarrow> fsys \<Rightarrow> fsys \<times> secretFile list \<times> init_error list" where
  "installAll force [] s = (s, [], [])"
| "installAll force (f # fs) s =
     (case installOne force f s of
        (s1, f1, e # es) \<Rightarrow> (s1, f1 # fs, e # es)
      | (s1, f1, []) \<Rightarrow> (case installAll force fs s1 of (s2, fs2, es) \<Rightarrow> (s2, f1 # fs2, es)))"

fun removeBackups :: "secretFile list \<Rightarrow> fsys \<Rightarrow> fsys \<times> init_error list" where
  "removeBackups [] s = (s, [])"
| "removeBackups (f # fs) s =
     (let (s1, es) = (if sf_backup f \<noteq> [] then
                        (case removeFile (sf_backup f) s of (s', Some Failed) \<Rightarrow> (s', [RemoveBackup (sf_path f)]) | (s', _) \<Rightarrow> (s', []))
                      else (s, []));
          (s2, es2) = removeBackups fs s1
      in (s2, es @ es2))"

text \<open>The check that comes first without \<^verbatim>\<open>--force\<close>.\<close>

fun checkAbsent :: "secretFile list \<Rightarrow> fsys \<Rightarrow> fsys \<times> init_error list" where
  "checkAbsent [] s = (s, [])"
| "checkAbsent (f # fs) s =
     (case lstat (sf_path f) s of
        (s1, None) \<Rightarrow> (s1, [WillNotReplace (sf_path f)])
      | (s1, Some Failed) \<Rightarrow> (s1, [Inspect (sf_path f)])
      | (s1, Some NotExist) \<Rightarrow> checkAbsent fs s1)"

text \<open>The bundle: the file system, the errors (none if it is installed) and the warnings about backups.\<close>

definition writeSecretBundle :: "secretFile list \<Rightarrow> bool \<Rightarrow> fsys \<Rightarrow> fsys \<times> init_error list \<times> init_error list" where
  "writeSecretBundle files force s0 =
     (case (if force then (s0, []) else checkAbsent files s0) of
        (s, e # es) \<Rightarrow> (s, e # es, [])
      | (s, []) \<Rightarrow>
     (case stageAll files s of
        (s1, files1, e # es) \<Rightarrow> (let (s2, es2) = cleanupTemps files1 s1 in (s2, (e # es) @ es2, []))
      | (s1, files1, []) \<Rightarrow>
     (case (if force then preserveSecrets files1 s1 else (s1, files1, [])) of
        (s2, files2, e # es) \<Rightarrow> (let (s3, es2) = cleanupTemps files2 s2 in (s3, (e # es) @ es2, []))
      | (s2, files2, []) \<Rightarrow>
     (case installAll force files2 s2 of
        (s3, files3, e # es) \<Rightarrow> (let (s4, es2) = rollbackSecrets files3 force s3 in (s4, (e # es) @ es2, []))
      | (s3, files3, []) \<Rightarrow> (let (s4, warnings) = removeBackups files3 s3 in (s4, [], warnings))))))"

section \<open>The generated configuration\<close>

record initOptions =
  in_output :: string
  in_connectorID :: string
  in_environment :: string
  in_edgeEndpoint :: string
  in_force :: bool

definition validateEndpoint :: "string \<Rightarrow> bool" where
  "validateEndpoint endpoint \<longleftrightarrow>
     \<not> list_ex (\<lambda>c. is_space c \<or> is_control c) endpoint
     \<and> (case split_host_port endpoint of
          None \<Rightarrow> False
        | Some (host, portText) \<Rightarrow> host \<noteq> [] \<and> (case parse_uint 16 portText of None \<Rightarrow> False | Some p \<Rightarrow> p \<noteq> 0))"

definition serial :: "nat \<Rightarrow> nat" where
  "serial random = random mod (2 ^ 128 - 1) + 1"

text \<open>\<^verbatim>\<open>AddDate(0, n, 0)\<close>: a day that the month does not have runs into the next one.\<close>

definition add_months :: "int \<Rightarrow> time \<Rightarrow> time" where
  "add_months n t =
     (let day = t div hours 24; (y, m, d) = civil_from_days day; k = m - 1 + n
      in (days_from_civil (y + k div 12) (k mod 12 + 1) 1 + (d - 1)) * hours 24 + t mod hours 24)"

definition certificateAuthority :: "time \<Rightarrow> nat \<Rightarrow> string \<Rightarrow> certificate" where
  "certificateAuthority now random name =
     \<lparr>ce_SerialNumber = serial random, ce_CommonName = ''Tailbridge '' @ name @ '' CA'', ce_NotBefore = now - hours 1,
      ce_NotAfter = add_years 10 now, ce_ExtKeyUsage = [], ce_URIs = []\<rparr>"

definition leaf :: "time \<Rightarrow> nat \<Rightarrow> string \<Rightarrow> string \<Rightarrow> ext_key_usage \<Rightarrow> certificate option" where
  "leaf now random role i usage =
     (case parse_spiffe (''/'' @ role @ ''/'' @ i) of
        None \<Rightarrow> None
      | Some identity \<Rightarrow>
          Some \<lparr>ce_SerialNumber = serial random, ce_CommonName = ''tailbridge-'' @ role @ ''-'' @ i, ce_NotBefore = now - hours 1,
                ce_NotAfter = add_months 3 now, ce_ExtKeyUsage = [usage], ce_URIs = [identity]\<rparr>)"

text \<open>A file of settings: one \<^verbatim>\<open>NAME=value\<close> per line. The texts of the certificates and keys are given in base64.\<close>

definition envLine :: "string \<times> string \<Rightarrow> string" where
  "envLine = (\<lambda>(name, v). name @ ''='' @ v @ [CHR 0x0a])"

definition commonSettings :: "initOptions \<Rightarrow> string \<Rightarrow> string \<Rightarrow> string \<Rightarrow> (string \<times> string) list" where
  "commonSettings i ca cert key =
     [(''TB_CONNECTOR_ID'', in_connectorID i), (''TB_ENVIRONMENT'', in_environment i), (''TB_MTLS_CA_B64'', ca),
      (''TB_MTLS_CERT_B64'', cert), (''TB_MTLS_KEY_B64'', key)]"

definition edgeSettings :: "initOptions \<Rightarrow> string \<Rightarrow> string \<Rightarrow> string \<Rightarrow> (string \<times> string) list" where
  "edgeSettings i ca cert key = commonSettings i ca cert key @
     [(''TB_QUIC_LISTEN_ADDR'', '':4433''), (''TS_AUTHKEY'', ''replace-me''), (''TS_HOSTNAME'', ''tailbridge-'' @ in_environment i),
      (''TS_STATE_DIR'', ''/var/lib/tailscale''), (''TS_AUTH_ONCE'', ''true''), (''TS_USERSPACE'', ''false''),
      (''TS_EXTRA_ARGS'', ''--advertise-routes=fd12::/16 --advertise-tags=tag:tailbridge'')]"

definition connectorSettings :: "initOptions \<Rightarrow> string \<Rightarrow> string \<Rightarrow> string \<Rightarrow> (string \<times> string) list" where
  "connectorSettings i ca cert key = commonSettings i ca cert key @
     [(''TB_EDGE_ENDPOINT'', in_edgeEndpoint i), (''TB_ALLOWED_DESTINATIONS'', ''fd12::/16'')]"

definition settingsText :: "(string \<times> string) list \<Rightarrow> string" where
  "settingsText kvs = concat (map envLine kvs)"

definition policyText :: string where
  "policyText =
     (let tab = [CHR 0x09]; nl = [CHR 0x0a]; q = (\<lambda>t. CHR 0x22 # t @ [CHR 0x22]) in
      ''{'' @ nl
      @ tab @ q ''tagOwners'' @ '': { '' @ q ''tag:tailbridge'' @ '': ['' @ q ''autogroup:admin'' @ ''] },'' @ nl
      @ tab @ q ''autoApprovers'' @ '': { '' @ q ''routes'' @ '': { '' @ q ''fd12::/16'' @ '': ['' @ q ''tag:tailbridge'' @ ''] } }'' @ nl
      @ ''}'' @ nl)"

definition newSecret :: "string \<Rightarrow> string \<Rightarrow> secretFile" where
  "newSecret path content = \<lparr>sf_path = path, sf_content = content, sf_temp = [], sf_backup = [], sf_created = False\<rparr>"

datatype init_failure =
    NameNotValid string | EndpointNotValid | OutputEmpty | CertificateFailed string | DirectoryFailed | NotInstalled "init_error list"

text \<open>
  \<open>sign\<close> gives the certificate and its key in base64, or none if a key cannot be made or the template not be signed;
  \<open>directory\<close> tells whether the output directory can be created, \<open>join\<close> is \<^verbatim>\<open>filepath.Join\<close>. A success returns the
  warnings about backups.
\<close>

definition initialize ::
    "(certificate \<Rightarrow> (string \<times> string) option) \<Rightarrow> time \<Rightarrow> (nat \<times> nat \<times> nat) \<Rightarrow> bool \<Rightarrow> (string \<Rightarrow> string \<Rightarrow> string) \<Rightarrow> initOptions
     \<Rightarrow> fsys \<Rightarrow> fsys \<times> (init_failure + init_error list)" where
  "initialize sign now random directory join i s =
     (let (r1, r2, r3) = random in
      if \<not> validName (in_connectorID i) then (s, Inl (NameNotValid ''connector ID''))
      else if \<not> validName (in_environment i) then (s, Inl (NameNotValid ''environment''))
      else if \<not> validateEndpoint (in_edgeEndpoint i) then (s, Inl EndpointNotValid)
      else if in_output i = [] then (s, Inl OutputEmpty)
      else case sign (certificateAuthority now r1 (in_connectorID i)) of
          None \<Rightarrow> (s, Inl (CertificateFailed ''CA''))
        | Some (ca, _) \<Rightarrow>
     (case Option.bind (leaf now r2 ''edge'' (in_connectorID i) ExtKeyUsageServerAuth) sign of
        None \<Rightarrow> (s, Inl (CertificateFailed ''edge''))
      | Some (edgeCert, edgeKey) \<Rightarrow>
     (case Option.bind (leaf now r3 ''connector'' (in_connectorID i) ExtKeyUsageClientAuth) sign of
        None \<Rightarrow> (s, Inl (CertificateFailed ''connector''))
      | Some (connectorCert, connectorKey) \<Rightarrow>
          if \<not> directory then (s, Inl DirectoryFailed)
          else case writeSecretBundle
                 [newSecret (join (in_output i) ''edge.env'') (settingsText (edgeSettings i ca edgeCert edgeKey)),
                  newSecret (join (in_output i) ''connector.env'') (settingsText (connectorSettings i ca connectorCert connectorKey)),
                  newSecret (join (in_output i) ''tailscale-policy.hujson'') policyText]
                 (in_force i) s of
              (s1, [], warnings) \<Rightarrow> (s1, Inr warnings)
            | (s1, e # es, _) \<Rightarrow> (s1, Inl (NotInstalled (e # es))))))"

text \<open>The exit code of the command; \<open>flags\<close> is the result of parsing the flags of \<^verbatim>\<open>init\<close>.\<close>

datatype flag_result = FlagHelp | FlagsNotValid | Flags initOptions "string list"

definition runCommandLine :: "(string list \<Rightarrow> flag_result) \<Rightarrow> (initOptions \<Rightarrow> fsys \<Rightarrow> fsys \<times> (init_failure + init_error list))
    \<Rightarrow> string list \<Rightarrow> fsys \<Rightarrow> fsys \<times> int" where
  "runCommandLine flags init arguments s =
     (case arguments of
        _ # command # rest \<Rightarrow>
          if command = ''init'' then
            (case flags rest of
               FlagHelp \<Rightarrow> (s, 0)
             | FlagsNotValid \<Rightarrow> (s, 2)
             | Flags i others \<Rightarrow>
                 if others \<noteq> [] then (s, 2)
                 else (case init i s of (s1, Inr _) \<Rightarrow> (s1, 0) | (s1, Inl _) \<Rightarrow> (s1, 1)))
          else if command = ''version'' then (s, if rest = [] then 0 else 2)
          else (s, 2)
      | _ \<Rightarrow> (s, 2))"

end
