(* ===== verification/Enrollment_Exchange.thy ===== *)
theory Enrollment_Exchange
  imports Enrollment_Props Edge_Findings Init_Cmd
begin

text \<open>
  The registration exchange over one QUIC stream: \<^verbatim>\<open>exchange\<close> of the client and \<^verbatim>\<open>handle\<close> of the server with the frames of
  \<open>Protocol\<close> in between, the limit on concurrent exchanges, and the save of the identity file. The two directions of the
  stream are writers that may take the bytes in pieces and may fail; the server reads what the client has got through, the
  client reads what the server has got through. JSON is a pair of functions.
\<close>

section \<open>The exchange\<close>

datatype exchange_error = DialFailed | StreamFailed | DeadlineFailed | WriteFailed io_error | ReadFailed io_error

text \<open>
  The client: \<open>dialed\<close>, \<open>opened\<close> and \<open>deadline\<close> tell whether the connection, the stream and its deadline could be had,
  \<open>peer\<close> is what the server sends back given the state of the stream after the request.
\<close>

definition exchange ::
    "bool \<Rightarrow> bool \<Rightarrow> bool \<Rightarrow> (RegistrationRequest \<Rightarrow> bytes option) \<Rightarrow> 'c writer \<Rightarrow> (bytes \<Rightarrow> RegistrationResponse option)
     \<Rightarrow> RegistrationRequest \<Rightarrow> 'c \<Rightarrow> ('c \<Rightarrow> bytes) \<Rightarrow> exchange_error + RegistrationResponse" where
  "exchange dialed opened deadline marshal wr unmarshal request c peer =
     (if \<not> dialed then Inl DialFailed
      else if \<not> opened then Inl StreamFailed
      else if \<not> deadline then Inl DeadlineFailed
      else case WriteFrame marshal wr c request of
          (_, Some e) \<Rightarrow> Inl (WriteFailed e)
        | (c1, None) \<Rightarrow>
            (case ReadFrame unmarshal (peer c1) of Inl e \<Rightarrow> Inl (ReadFailed e) | Inr (response, _) \<Rightarrow> Inr response))"

text \<open>The server on one connection: its state, the registry and the stream that it writes to.\<close>

definition handle ::
    "bool \<Rightarrow> bool \<Rightarrow> (bytes \<Rightarrow> RegistrationRequest option) \<Rightarrow> (RegistrationResponse \<Rightarrow> bytes option) \<Rightarrow> 'c writer
     \<Rightarrow> (RegistrationRequest \<Rightarrow> EnrollServer \<Rightarrow> db \<Rightarrow> EnrollServer \<times> db \<times> RegistrationResponse)
     \<Rightarrow> bytes \<Rightarrow> EnrollServer \<Rightarrow> db \<Rightarrow> 'c \<Rightarrow> EnrollServer \<times> db \<times> 'c" where
  "handle stream deadline unmarshal marshal wr answer inp s d c =
     (if \<not> stream \<or> \<not> deadline then (s, d, c)
      else case ReadFrame unmarshal inp of
          Inl _ \<Rightarrow> (s, d, c)
        | Inr (request, _) \<Rightarrow>
            (let (s1, d1, response) = answer request s d; (c1, _) = WriteFrame marshal wr c response in (s1, d1, c1)))"

section \<open>The limit on exchanges\<close>

text \<open>The server counts its running handlers with a channel of 64 places; a connection that finds no place is closed.\<close>

definition handlerLimit :: nat where "handlerLimit = 64"

definition acceptRegistration :: "nat \<Rightarrow> nat \<times> bool" where
  "acceptRegistration running = (if running < handlerLimit then (running + 1, True) else (running, False))"

inductive handlers_step :: "nat \<Rightarrow> nat \<Rightarrow> bool" where
  connection: "handlers_step n (fst (acceptRegistration n))"
| finished: "0 < n \<Longrightarrow> handlers_step n (n - 1)"

interpretation handlers: machine handlers_step "\<lambda>n. n \<le> handlerLimit"
  by unfold_locales (auto simp: acceptRegistration_def elim!: handlers_step.cases)

lemma handlers_bounded: "handlers_step\<^sup>*\<^sup>* 0 n \<Longrightarrow> n \<le> handlerLimit"
  using handlers.steps_inv[of 0 n] by simp

section \<open>The identity file\<close>

text \<open>
  The save writes a temporary file beside the identity file and renames it. \<open>partial\<close> is what a failed write leaves in the
  temporary file, if anything.
\<close>

definition writeFile :: "string option \<Rightarrow> string \<Rightarrow> string \<Rightarrow> fsys \<Rightarrow> fsys \<times> bool" where
  "writeFile partial path content s0 =
     (let (s, fails) = os_call s0 in
      if fails then (s\<lparr>fy_files := (case partial of None \<Rightarrow> fy_files s | Some c \<Rightarrow> (fy_files s)(path := Some c))\<rparr>, False)
      else (s\<lparr>fy_files := (fy_files s)(path := Some content)\<rparr>, True))"

definition save :: "string option \<Rightarrow> string \<Rightarrow> string option \<Rightarrow> fsys \<Rightarrow> fsys \<times> client_error option" where
  "save partial path payload s =
     (case payload of
        None \<Rightarrow> (s, Some SaveFailed)
      | Some content \<Rightarrow>
          (case writeFile partial (path @ ''.tmp'') content s of
             (s1, False) \<Rightarrow> (s1, Some SaveFailed)
           | (s1, True) \<Rightarrow>
               (case renameFile (path @ ''.tmp'') path s1 of (s2, None) \<Rightarrow> (s2, None) | (s2, Some _) \<Rightarrow> (s2, Some SaveFailed))))"

text \<open>The identity file is replaced as a whole or not at all, and no other file but the temporary one changes.\<close>

lemma save_atomic:
  assumes "save partial path payload s = (s', result)"
  shows "fy_files s' path = (if result = None then payload else fy_files s path)
    \<and> (\<forall>x. x \<notin> {path, path @ ''.tmp''} \<longrightarrow> fy_files s' x = fy_files s x)
    \<and> (result = None \<longrightarrow> payload \<noteq> None \<and> fy_files s' (path @ ''.tmp'') = None)"
  using assms
  by (auto simp: save_def writeFile_def renameFile_def os_call_def Let_def split: option.splits list.splits if_splits bool.splits prod.splits)

section \<open>One exchange, end to end\<close>

lemma WriteFrame_bytes:
  assumes conf: "conforming wr sink" and wrote: "WriteFrame marshal wr w v = (w', r)"
  shows "(r = None \<longrightarrow> (\<exists>payload. marshal v = Some payload \<and> length payload \<le> MaxControlFrame
            \<and> sink w' = sink w @ to_be 4 (length payload) @ payload))
    \<and> (\<exists>payload k. sink w' = sink w @ take k (to_be 4 (length payload) @ payload) \<and> (marshal v = Some payload \<and> length payload \<le> MaxControlFrame \<or> k = 0))"
proof (cases "\<exists>payload. marshal v = Some payload \<and> length payload \<le> MaxControlFrame")
  case False
  then have "w' = w" "r \<noteq> None" using wrote by (auto simp: WriteFrame_def split: option.splits if_splits)
  then show ?thesis by (auto intro!: exI[of _ "0::nat"])
next
  case True
  then obtain payload where p: "marshal v = Some payload" "length payload \<le> MaxControlFrame" by blast
  obtain w1 r1 where h: "writeAll wr w (to_be 4 (length payload)) = (w1, r1)" by (cases "writeAll wr w (to_be 4 (length payload))")
  obtain w2 r2 where b: "writeAll wr w1 payload = (w2, r2)" by (cases "writeAll wr w1 payload")
  obtain k1 where k1: "k1 \<le> length (to_be 4 (length payload))" "sink w1 = sink w @ take k1 (to_be 4 (length payload))" "r1 = None \<longrightarrow> sink w1 = sink w @ to_be 4 (length payload)"
    using writeAll_delivers[OF conf h] by blast
  obtain k2 where k2: "sink w2 = sink w1 @ take k2 payload" "r2 = None \<longrightarrow> sink w2 = sink w1 @ payload"
    using writeAll_delivers[OF conf b] by blast
  show ?thesis
  proof (cases r1)
    case (Some e)
    then have "w' = w1" "r \<noteq> None" using wrote p h by (auto simp: WriteFrame_def)
    moreover have "take k1 (to_be 4 (length payload)) = take k1 (to_be 4 (length payload) @ payload)" using k1(1) by simp
    ultimately show ?thesis using k1(2) p by metis
  next
    case None
    then have w: "w' = w2" "r = r2" using wrote p h b by (simp_all add: WriteFrame_def)
    have "sink w' = sink w @ take (4 + k2) (to_be 4 (length payload) @ payload)" using w k1(3) k2(1) None by simp
    moreover have "r = None \<longrightarrow> sink w' = sink w @ to_be 4 (length payload) @ payload" using w k1(3) k2(2) None by simp
    ultimately show ?thesis using p by blast
  qed
qed

text \<open>A cut frame is not read as a message.\<close>

lemma ReadFrame_cut:
  assumes "length payload \<le> MaxControlFrame" and "ReadFrame unmarshal (take k (to_be 4 (length payload) @ payload)) = Inr (v, rest)"
  shows "unmarshal payload = Some v"
proof -
  let ?frame = "to_be 4 (length payload) @ payload"
  have size: "from_be (to_be 4 (length payload)) = length payload"
  proof -
    have "length payload < 256 ^ 4" using assms(1) by (simp add: MaxControlFrame_def)
    then show ?thesis by (simp add: from_be_to_be)
  qed
  have k4: "4 \<le> k" using assms(2) by (auto simp: ReadFrame_def ReadFull_def split: if_splits)
  then have head: "take k ?frame = to_be 4 (length payload) @ take (k - 4) payload" by simp
  have "length payload \<le> length (take (k - 4) payload)"
    using assms(2) unfolding head by (auto simp: ReadFrame_def size ReadFull_def Let_def split: if_splits)
  then have "take (k - 4) payload = payload" by simp
  then show ?thesis
    using assms(2) unfolding head by (auto simp: ReadFrame_def size ReadFull_def Let_def split: if_splits option.splits)
qed

text \<open>
  One round of the client and the server: the server reads what the client got through, the client reads what the server
  got through.
\<close>

definition registerOnce ::
    "bool \<Rightarrow> bool \<Rightarrow> (RegistrationRequest \<Rightarrow> bytes option) \<Rightarrow> (bytes \<Rightarrow> RegistrationRequest option)
     \<Rightarrow> (RegistrationResponse \<Rightarrow> bytes option) \<Rightarrow> (bytes \<Rightarrow> RegistrationResponse option)
     \<Rightarrow> 'c writer \<Rightarrow> ('c \<Rightarrow> bytes) \<Rightarrow> 's writer \<Rightarrow> ('s \<Rightarrow> bytes)
     \<Rightarrow> (RegistrationRequest \<Rightarrow> EnrollServer \<Rightarrow> db \<Rightarrow> EnrollServer \<times> db \<times> RegistrationResponse)
     \<Rightarrow> RegistrationRequest \<Rightarrow> 'c \<Rightarrow> 's \<Rightarrow> EnrollServer \<Rightarrow> db \<Rightarrow> (exchange_error + RegistrationResponse) \<times> EnrollServer \<times> db" where
  "registerOnce connected served toJSON fromJSON toJSON' fromJSON' cw csink sw ssink answer request c0 o0 s d =
     (let inp = (if connected then csink (fst (WriteFrame toJSON cw c0 request)) else []);
          (s1, d1, o1) = handle served True fromJSON toJSON' sw answer inp s d o0
      in (exchange connected True True toJSON cw fromJSON' request c0 (\<lambda>_. ssink o1), s1, d1))"

definition json_ok :: "('v \<Rightarrow> bytes option) \<Rightarrow> (bytes \<Rightarrow> 'v option) \<Rightarrow> bool" where
  "json_ok toJSON fromJSON \<longleftrightarrow> (\<forall>v payload. toJSON v = Some payload \<longrightarrow> payload \<noteq> [] \<and> fromJSON payload = Some v)"

lemma ReadFrame_empty: "ReadFrame unmarshal [] = Inl EOF"
  by (simp add: ReadFrame_def ReadFull_def)

lemma sent_request:
  assumes conf: "conforming wr sink" and json: "json_ok toJSON fromJSON" and start: "sink w = []"
    and read: "ReadFrame fromJSON (sink (fst (WriteFrame toJSON wr w v))) = Inr (u, rest)"
  shows "u = v"
proof -
  obtain w' r where w: "WriteFrame toJSON wr w v = (w', r)" by (cases "WriteFrame toJSON wr w v")
  obtain payload k where p: "sink w' = take k (to_be 4 (length payload) @ payload)"
      "toJSON v = Some payload \<and> length payload \<le> MaxControlFrame \<or> k = 0"
    using WriteFrame_bytes[OF conf w] start by auto
  have "k \<noteq> 0"
  proof
    assume "k = 0"
    then have "sink w' = []" using p(1) by simp
    then show False using read w by (simp add: ReadFrame_empty)
  qed
  then have q: "toJSON v = Some payload" "length payload \<le> MaxControlFrame" using p(2) by auto
  have "fromJSON payload = Some u" using ReadFrame_cut[OF q(2)] read w p(1) by simp
  then show ?thesis using json q(1) by (auto simp: json_ok_def)
qed

text \<open>
  C22. A registration exchange is faithful however the stream cuts and fails: if the client gets a response, it is the
  server's answer to exactly the request that the client sent, and the registry has changed by that answer; if it gets
  none, the server has either not processed anything or processed exactly that request once. JSON reads back what it wrote,
  and the two directions of the stream deliver a prefix of what was written.
\<close>

theorem registration_exchange:
  assumes json: "json_ok toJSON fromJSON" "json_ok toJSON' fromJSON'"
    and conf: "conforming cw csink" "conforming sw ssink" and start: "csink c0 = []" "ssink o0 = []"
    and once: "registerOnce connected served toJSON fromJSON toJSON' fromJSON' cw csink sw ssink
      (process lib now random drawn elapsed source) request c0 o0 s d = (result, s', d')"
  shows "(\<forall>response. result = Inr response \<longrightarrow> process lib now random drawn elapsed source request s d = (s', d', response))
    \<and> ((s', d') = (s, d) \<or> (\<exists>response. process lib now random drawn elapsed source request s d = (s', d', response)))"
proof -
  let ?answer = "process lib now random drawn elapsed source"
  let ?inp = "if connected then csink (fst (WriteFrame toJSON cw c0 request)) else []"
  obtain s1 d1 response where a: "?answer request s d = (s1, d1, response)" by (cases rule: prod_cases3)
  obtain o1 r1 where w: "WriteFrame toJSON' sw o0 response = (o1, r1)" by (cases "WriteFrame toJSON' sw o0 response")
  have same: "u = request" if "ReadFrame fromJSON ?inp = Inr (u, rest)" for u rest
  proof (rule sent_request[OF conf(1) json(1) start(1)])
    show "ReadFrame fromJSON (csink (fst (WriteFrame toJSON cw c0 request))) = Inr (u, rest)"
      using that by (cases connected) (auto simp: ReadFrame_empty)
  qed
  have h: "handle served True fromJSON toJSON' sw ?answer ?inp s d o0 \<in> {(s, d, o0), (s1, d1, o1)}"
    using same a w by (auto simp: handle_def split: sum.splits prod.splits)
  show ?thesis
  proof (cases "handle served True fromJSON toJSON' sw ?answer ?inp s d o0 = (s, d, o0)")
    case True
    then have "result = exchange connected True True toJSON cw fromJSON' request c0 (\<lambda>_. [])" "s' = s" "d' = d"
      using once start(2) by (simp_all add: registerOnce_def)
    then have "\<exists>e. result = Inl e" by (auto simp: exchange_def ReadFrame_empty split: prod.splits option.splits)
    then show ?thesis using \<open>s' = s\<close> \<open>d' = d\<close> by auto
  next
    case False
    then have hd: "handle served True fromJSON toJSON' sw ?answer ?inp s d o0 = (s1, d1, o1)" using h by blast
    then have r: "result = exchange connected True True toJSON cw fromJSON' request c0 (\<lambda>_. ssink o1)" "s' = s1" "d' = d1"
      using once by (simp_all add: registerOnce_def)
    have "v = response" if ok: "result = Inr v" for v
    proof -
      obtain rest where "ReadFrame fromJSON' (ssink o1) = Inr (v, rest)"
        using ok r(1) by (auto simp: exchange_def split: if_splits prod.splits option.splits sum.splits)
      then show ?thesis using sent_request[OF conf(2) json(2) start(2)] w by (metis fst_conv)
    qed
    then show ?thesis using a r(2,3) by auto
  qed
qed

text \<open>An exchange over streams that take three bytes at a time, with a JSON that names the two kinds of messages.\<close>

definition goneRequest :: RegistrationRequest where
  "goneRequest = \<lparr>rr_RequestID = ''r'', rr_Kind = [], rr_ProjectID = [], rr_EnvironmentID = [], rr_EnvironmentName = [],
     rr_DeploymentID = [], rr_ProjectAlias = [], rr_EnvironmentAlias = [], rr_IdentityKey = [], rr_TransportKey = [], rr_Proof = []\<rparr>"

definition goneAnswer :: RegistrationResponse where
  "goneAnswer = noResponse\<lparr>rs_RequestID := ''r'', rs_State := ''expired'', rs_ErrorCode := ''request_not_found''\<rparr>"

definition requestToJSON :: "RegistrationRequest \<Rightarrow> bytes option" where
  "requestToJSON r = (if r = goneRequest then Some [1, 2, 3, 4] else None)"

definition responseToJSON :: "RegistrationResponse \<Rightarrow> bytes option" where
  "responseToJSON r = (if r = goneAnswer then Some [5, 6, 7, 8] else None)"

lemma sample_json:
  "json_ok requestToJSON (\<lambda>_. Some goneRequest)" "json_ok responseToJSON (\<lambda>_. Some goneAnswer)"
  by (simp_all add: json_ok_def requestToJSON_def responseToJSON_def)

definition goneServer :: EnrollServer where
  "goneServer = \<lparr>ns_config = sampleEdge, ns_issuer = \<lparr>ce_SerialNumber = 1, ce_CommonName = [], ce_NotBefore = 0, ce_NotAfter = 0,
     ce_ExtKeyUsage = [], ce_URIs = []\<rparr>, ns_source = [], ns_status = New ''v''\<rparr>"

lemma sample_frames:
  "WriteFrame requestToJSON chunk_writer [] goneRequest = ([0, 0, 0, 4, 1, 2, 3, 4], None)"
  "WriteFrame responseToJSON chunk_writer [] goneAnswer = ([0, 0, 0, 4, 5, 6, 7, 8], None)"
proof -
  have w: "WriteFrame Some chunk_writer [] [1, 2, 3, 4 :: byte] = ([0, 0, 0, 4, 1, 2, 3, 4], None)"
    "WriteFrame Some chunk_writer [] [5, 6, 7, 8 :: byte] = ([0, 0, 0, 4, 5, 6, 7, 8], None)" by code_simp+
  show "WriteFrame requestToJSON chunk_writer [] goneRequest = ([0, 0, 0, 4, 1, 2, 3, 4], None)"
    "WriteFrame responseToJSON chunk_writer [] goneAnswer = ([0, 0, 0, 4, 5, 6, 7, 8], None)"
    using w by (simp_all add: WriteFrame_def requestToJSON_def responseToJSON_def)
qed

lemma sample_reads:
  "ReadFrame (\<lambda>_. Some v) [0, 0, 0, 4, 1, 2, 3, 4] = Inr (v, [])" "ReadFrame (\<lambda>_. Some v) [0, 0, 0, 4, 5, 6, 7, 8] = Inr (v, [])"
  by (simp_all add: ReadFrame_def ReadFull_def from_be_def MaxControlFrame_def)

theorem registration_exchange_witness:
  "\<exists>s' d'. registerOnce True True requestToJSON (\<lambda>_. Some goneRequest) responseToJSON (\<lambda>_. Some goneAnswer) chunk_writer id
       chunk_writer id (process enrolLib 0 0 None 0 ''[::1]:5'') goneRequest [] [] goneServer empty_db = (Inr goneAnswer, s', d')
     \<and> process enrolLib 0 0 None 0 ''[::1]:5'' goneRequest goneServer empty_db = (s', d', goneAnswer)"
proof -
  let ?p = "process enrolLib 0 0 None 0 ''[::1]:5''"
  have "\<exists>s' d'. ?p goneRequest goneServer empty_db = (s', d', goneAnswer)"
    by (simp add: process_def goneRequest_def poll_def allowServer_def allow_def goneServer_def PendingRow_def empty_db_def
        goneAnswer_def Let_def)
  then obtain s' d' where p: "?p goneRequest goneServer empty_db = (s', d', goneAnswer)" by blast
  have once: "registerOnce True True requestToJSON (\<lambda>_. Some goneRequest) responseToJSON (\<lambda>_. Some goneAnswer) chunk_writer id
      chunk_writer id ?p goneRequest [] [] goneServer empty_db = (Inr goneAnswer, s', d')"
    by (simp add: registerOnce_def handle_def exchange_def sample_frames sample_reads p)
  show ?thesis
    using registration_exchange[OF sample_json chunk_writer_conforming chunk_writer_conforming _ _ once] once by simp
qed

end
