(* ===== verification/Connector_Run.thy ===== *)
theory Connector_Run
  imports Udp_Path Enrollment_Exchange
begin

text \<open>
  The life of a connector (\<^verbatim>\<open>connector.go\<close>, \<^verbatim>\<open>Run\<close> and \<^verbatim>\<open>serve\<close>): it dials the edge, exchanges the hello over the control
  stream and serves the session until it ends, then waits and dials again. The outcomes of the attempts are a list; its end
  is the end of the context. Delays are grown and jittered by floating-point arithmetic, the arguments \<open>grow\<close> and \<open>jitter\<close>.
\<close>

section \<open>The handshake\<close>

datatype session_error = ControlStreamFailed | HelloFailed io_error | AcceptedFailed io_error | SessionRejected serve_error

text \<open>The hello of the mode that the connector is configured for; \<open>toJSON2\<close> and \<open>toJSON3\<close> encode the two messages.\<close>

definition encodeHello ::
    "(ConnectorHello \<Rightarrow> bytes option) \<Rightarrow> (ConnectorHelloV3 \<Rightarrow> bytes option) \<Rightarrow> Client \<Rightarrow> bytes option" where
  "encodeHello toJSON2 toJSON3 c =
     (if cc_RegistrationMode (cl_config c) = ''dynamic'' then toJSON3 (helloDynamic c) else toJSON2 (helloStatic c))"

definition serveControl ::
    "Client \<Rightarrow> (ConnectorHello \<Rightarrow> bytes option) \<Rightarrow> (ConnectorHelloV3 \<Rightarrow> bytes option) \<Rightarrow> 'c writer
     \<Rightarrow> (bytes \<Rightarrow> ConnectorAccepted option) \<Rightarrow> bool \<Rightarrow> 'c \<Rightarrow> ('c \<Rightarrow> bytes) \<Rightarrow> Server \<Rightarrow> session_error + udpSession" where
  "serveControl c toJSON2 toJSON3 wr fromJSON opened w peer st =
     (if \<not> opened then Inl ControlStreamFailed
      else case WriteFrame (encodeHello toJSON2 toJSON3) wr w c of
          (_, Some e) \<Rightarrow> Inl (HelloFailed e)
        | (w1, None) \<Rightarrow>
            (case ReadFrame fromJSON (peer w1) of
               Inl e \<Rightarrow> Inl (AcceptedFailed e)
             | Inr (a, _) \<Rightarrow> (case serve c a st of Inl e \<Rightarrow> Inl (SessionRejected e) | Inr u \<Rightarrow> Inr u)))"

section \<open>The loop\<close>

text \<open>
  An attempt: the edge cannot be dialed, or it is dialed and the session runs. For a session: whether the control stream
  opens, the stream and what the edge sends on it, what the ready session has made of the status when it ends, and how
  long it lasted. The last component tells whether the wait after the attempt is completed.
\<close>

datatype 'c attempt =
    DialFails bool
  | Dialed bool 'c "'c \<Rightarrow> bytes" "udpSession \<Rightarrow> Server" duration bool

text \<open>What a connector does, in order: it becomes ready with the routes of the session, it is not ready any more, it waits.\<close>

datatype connector_event = BecomesReady "prefix list" | NotReady | Waits duration

fun runLoop ::
    "(duration \<Rightarrow> duration) \<Rightarrow> (duration \<Rightarrow> duration) \<Rightarrow> (bool \<Rightarrow> 'c \<Rightarrow> ('c \<Rightarrow> bytes) \<Rightarrow> Server \<Rightarrow> session_error + udpSession)
     \<Rightarrow> ConnectorConfig \<Rightarrow> 'c attempt list \<Rightarrow> duration \<Rightarrow> Server \<Rightarrow> Server \<times> connector_event list" where
  "runLoop grow jitter session cfg [] delay st = (st, [])"
| "runLoop grow jitter session cfg (DialFails waited # rest) delay st =
     (if \<not> waited then (st, [Waits (jitter delay)])
      else let (st1, es) = runLoop grow jitter session cfg rest (nextDelay grow cfg delay) st in (st1, Waits (jitter delay) # es))"
| "runLoop grow jitter session cfg (Dialed opened w peer ends lasted waited # rest) delay st =
     (let (st1, ready) =
            (case session opened w peer st of
               Inl _ \<Rightarrow> (st, [])
             | Inr u \<Rightarrow> (ends u, [BecomesReady (us_routes u)]));
          st2 = SetReady False st1; before = ready @ [NotReady] in
      if lasted \<ge> cc_ReconnectMax cfg
      then (let (st3, es) = runLoop grow jitter session cfg rest (cc_ReconnectMin cfg) st2 in (st3, before @ es))
      else if \<not> waited then (st2, before @ [Waits (jitter delay)])
      else let (st3, es) = runLoop grow jitter session cfg rest (nextDelay grow cfg delay) st2
           in (st3, before @ Waits (jitter delay) # es))"

datatype run_failure = DNSNotConfigured dns_error | ClientTLSFailed string

text \<open>\<open>tls\<close> is the error of the TLS configuration, if it has one.\<close>

definition runConnector ::
    "(duration \<Rightarrow> duration) \<Rightarrow> (duration \<Rightarrow> duration) \<Rightarrow> (ConnectorHello \<Rightarrow> bytes option) \<Rightarrow> (ConnectorHelloV3 \<Rightarrow> bytes option)
     \<Rightarrow> 'c writer \<Rightarrow> (bytes \<Rightarrow> ConnectorAccepted option) \<Rightarrow> string option \<Rightarrow> Client \<Rightarrow> 'c attempt list \<Rightarrow> Server
     \<Rightarrow> run_failure + Server \<times> connector_event list" where
  "runConnector grow jitter toJSON2 toJSON3 wr fromJSON tls c attempts st =
     (case cl_dnsErr c of
        Some e \<Rightarrow> Inl (DNSNotConfigured e)
      | None \<Rightarrow>
          (case tls of
             Some e \<Rightarrow> Inl (ClientTLSFailed e)
           | None \<Rightarrow> Inr (runLoop grow jitter (serveControl c toJSON2 toJSON3 wr fromJSON) (cl_config c) attempts
                            (cc_ReconnectMin (cl_config c)) st)))"

section \<open>The delays and the readiness\<close>

text \<open>The events of a loop whose next delay is \<open>delay\<close>, for sessions that \<open>good\<close> routes are served in.\<close>

definition backoff_ok :: "(duration \<Rightarrow> duration) \<Rightarrow> ConnectorConfig \<Rightarrow> (prefix list \<Rightarrow> bool) \<Rightarrow> connector_event list \<Rightarrow> bool" where
  "backoff_ok jitter cfg good es \<longleftrightarrow>
     (\<forall>d. Waits d \<in> set es \<longrightarrow> (\<exists>delay. min (cc_ReconnectMin cfg) (cc_ReconnectMax cfg) \<le> delay
        \<and> delay \<le> max (cc_ReconnectMin cfg) (cc_ReconnectMax cfg) \<and> d = jitter delay))
     \<and> (\<forall>routes. BecomesReady routes \<in> set es \<longrightarrow> good routes)
     \<and> (\<forall>before routes after. es = before @ BecomesReady routes # after \<longrightarrow> (\<exists>rest. after = NotReady # rest))"

lemma backoff_ok_Nil [simp]: "backoff_ok jitter cfg good []"
  by (simp add: backoff_ok_def)

lemma backoff_ok_Waits:
  "min (cc_ReconnectMin cfg) (cc_ReconnectMax cfg) \<le> delay \<Longrightarrow> delay \<le> max (cc_ReconnectMin cfg) (cc_ReconnectMax cfg)
   \<Longrightarrow> backoff_ok jitter cfg good es \<Longrightarrow> backoff_ok jitter cfg good (Waits (jitter delay) # es)"
  unfolding backoff_ok_def by (fastforce simp: Cons_eq_append_conv)

lemma backoff_ok_session:
  "\<forall>routes. ready = [BecomesReady routes] \<longrightarrow> good routes \<Longrightarrow> ready = [] \<or> (\<exists>routes. ready = [BecomesReady routes])
   \<Longrightarrow> backoff_ok jitter cfg good es \<Longrightarrow> backoff_ok jitter cfg good (ready @ NotReady # es)"
  unfolding backoff_ok_def by (fastforce simp: Cons_eq_append_conv)

abbreviation in_range :: "ConnectorConfig \<Rightarrow> duration \<Rightarrow> bool" where
  "in_range cfg d \<equiv> min (cc_ReconnectMin cfg) (cc_ReconnectMax cfg) \<le> d \<and> d \<le> max (cc_ReconnectMin cfg) (cc_ReconnectMax cfg)"

lemma nextDelay_range:
  assumes "\<And>d. 0 < d \<Longrightarrow> d \<le> grow d" and "0 < cc_ReconnectMin cfg" "0 < cc_ReconnectMax cfg" and "in_range cfg d"
  shows "in_range cfg (nextDelay grow cfg d)"
  using assms(1)[of d] assms(2-4) by (auto simp: nextDelay_def min_def max_def split: if_splits)

lemma runLoop_ok:
  assumes grow: "\<And>d. 0 < d \<Longrightarrow> d \<le> grow d" and pos: "0 < cc_ReconnectMin cfg" "0 < cc_ReconnectMax cfg"
    and good: "\<And>opened w peer st u. session opened w peer st = Inr u \<Longrightarrow> good (us_routes u)"
  shows "in_range cfg delay \<Longrightarrow> \<not> sv_ready st \<Longrightarrow> runLoop grow jitter session cfg attempts delay st = (st', es)
    \<Longrightarrow> \<not> sv_ready st' \<and> backoff_ok jitter cfg good es"
proof (induction attempts arbitrary: delay st st' es)
  case Nil
  then show ?case by simp
next
  case (Cons a rest)
  note next_ok = nextDelay_range[OF grow pos Cons.prems(1)]
  have min_ok: "in_range cfg (cc_ReconnectMin cfg)" by simp
  show ?case
  proof (cases a)
    case (DialFails waited)
    then show ?thesis
      using Cons.prems Cons.IH[OF next_ok Cons.prems(2)]
      by (auto simp: backoff_ok_Waits split: if_splits prod.splits)
  next
    case (Dialed opened w peer ends lasted waited)
    obtain st1 ready where s: "(case session opened w peer st of Inl _ \<Rightarrow> (st, []) | Inr u \<Rightarrow> (ends u, [BecomesReady (us_routes u)])) = (st1, ready)"
      by (meson surj_pair)
    then have ready: "\<forall>routes. ready = [BecomesReady routes] \<longrightarrow> good routes" "ready = [] \<or> (\<exists>routes. ready = [BecomesReady routes])"
      using good by (auto split: sum.splits)
    have down: "\<not> sv_ready (SetReady False st1)" by (simp add: SetReady_def)
    note session = backoff_ok_session[OF ready] and IH = Cons.IH[OF next_ok down] Cons.IH[OF min_ok down]
    consider "lasted \<ge> cc_ReconnectMax cfg" | "\<not> lasted \<ge> cc_ReconnectMax cfg" "\<not> waited"
      | "\<not> lasted \<ge> cc_ReconnectMax cfg" waited by blast
    then show ?thesis
    proof cases
      case 1
      then obtain es1 where "runLoop grow jitter session cfg rest (cc_ReconnectMin cfg) (SetReady False st1) = (st', es1)"
          "es = ready @ NotReady # es1"
        using Cons.prems(3) s unfolding Dialed by (auto split: prod.splits)
      then show ?thesis using IH(2) session by blast
    next
      case 2
      then have "st' = SetReady False st1" "es = ready @ NotReady # [Waits (jitter delay)]"
        using Cons.prems(3) s unfolding Dialed by auto
      then show ?thesis using down session[OF backoff_ok_Waits] Cons.prems(1) by simp
    next
      case 3
      then obtain es1 where "runLoop grow jitter session cfg rest (nextDelay grow cfg delay) (SetReady False st1) = (st', es1)"
          "es = ready @ NotReady # Waits (jitter delay) # es1"
        using Cons.prems(3) s unfolding Dialed by (auto split: prod.splits)
      then show ?thesis using IH(1) session[OF backoff_ok_Waits] Cons.prems(1) by blast
    qed
  qed
qed

lemma serveControl_routes:
  "serveControl c toJSON2 toJSON3 wr fromJSON opened w peer st = Inr u \<Longrightarrow> \<exists>a. checkAccepted c a = Inr (us_routes u)"
  by (auto simp: serveControl_def serve_def newUDPSession_def split: if_splits prod.splits option.splits sum.splits)

text \<open>
  C25. However the attempts of a connector go, every wait is the jitter of a delay between its two reconnect delays, so it
  neither spins nor falls silent; it becomes ready only with routes that its checks of the edge's answer accepted, the
  session is followed by the report that it is not ready any more, and at the end it is not ready. The growth of a delay
  does not make it smaller.
\<close>

theorem reconnect_backoff:
  assumes "\<And>d. 0 < d \<Longrightarrow> d \<le> grow d" and "0 < cc_ReconnectMin (cl_config c)" "0 < cc_ReconnectMax (cl_config c)"
    and "\<not> sv_ready st" and "runConnector grow jitter toJSON2 toJSON3 wr fromJSON tls c attempts st = Inr (st', es)"
  shows "\<not> sv_ready st' \<and> backoff_ok jitter (cl_config c) (\<lambda>routes. \<exists>a. checkAccepted c a = Inr routes) es"
proof (rule runLoop_ok[OF assms(1-3)])
  show "runLoop grow jitter (serveControl c toJSON2 toJSON3 wr fromJSON) (cl_config c) attempts (cc_ReconnectMin (cl_config c)) st = (st', es)"
    using assms(5) by (auto simp: runConnector_def split: option.splits)
qed (use assms(4) in \<open>auto dest: serveControl_routes\<close>)

text \<open>A connector whose edge first cannot be dialed and then accepts it.\<close>

definition pathAttempts :: "bytes attempt list" where
  "pathAttempts = [DialFails True, Dialed True [] (\<lambda>_. [0, 0, 0, 4, 1, 2, 3, 4]) us_status 0 False]"

lemma path_session:
  "serveControl pathClient (\<lambda>_. Some [1, 2, 3, 4]) (\<lambda>_. None) chunk_writer (\<lambda>_. Some pathAccepted) True [] (\<lambda>_. [0, 0, 0, 4, 1, 2, 3, 4])
     (New ''v'') = Inr pathStart"
proof -
  have w: "WriteFrame Some chunk_writer [] [1, 2, 3, 4 :: byte] = ([0, 0, 0, 4, 1, 2, 3, 4], None)" by code_simp
  then show ?thesis
    using path_serve
    by (simp add: serveControl_def WriteFrame_def encodeHello_def pathClient_def pathConfig_def sample_reads)
qed

theorem reconnect_backoff_witness:
  "\<exists>st'. runConnector (\<lambda>d. 2 * d) id (\<lambda>_. Some [1, 2, 3, 4]) (\<lambda>_. None) chunk_writer (\<lambda>_. Some pathAccepted) None pathClient pathAttempts
       (New ''v'') = Inr (st', [Waits 1, BecomesReady [net10], NotReady, Waits 1])
     \<and> \<not> sv_ready st' \<and> (\<exists>a. checkAccepted pathClient a = Inr [net10])"
proof -
  let ?run = "runConnector (\<lambda>d. 2 * d) id (\<lambda>_. Some [1, 2, 3, 4]) (\<lambda>_. None) chunk_writer (\<lambda>_. Some pathAccepted) None pathClient pathAttempts (New ''v'')"
  have cfg: "cc_ReconnectMin (cl_config pathClient) = 1" "cc_ReconnectMax (cl_config pathClient) = 1" "cl_dnsErr pathClient = None"
    by (simp_all add: pathClient_def pathConfig_def)
  have "us_routes pathStart = [net10]" by (simp add: pathStart_def newUDPSession_def)
  then obtain st' where run: "?run = Inr (st', [Waits 1, BecomesReady [net10], NotReady, Waits 1])"
    by (simp add: runConnector_def pathAttempts_def path_session nextDelay_def cfg)
  have "\<not> sv_ready (New ''v'')" by (simp add: New_def)
  from reconnect_backoff[OF _ _ _ this run] run show ?thesis by (auto simp: cfg backoff_ok_def)
qed

end
