(* ===== verification/Session_Setup.thy ===== *)
theory Session_Setup
  imports Connector_Run Edge_Routes
begin

text \<open>
  The start of a session, edge and connector together: the edge reads the hello from the control stream, checks it and
  commits the session (\<^verbatim>\<open>edge.go\<close>, \<^verbatim>\<open>authenticate\<close>), the connector checks the answer (\<^verbatim>\<open>connector.go\<close>, \<^verbatim>\<open>serve\<close>). Both directions
  of the stream may take the bytes in pieces and may fail.
\<close>

section \<open>The side of the edge\<close>

definition readHello ::
    "(bytes \<Rightarrow> ConnectorHello option) \<Rightarrow> (bytes \<Rightarrow> ConnectorHelloV3 option) \<Rightarrow> bool \<Rightarrow> bytes \<Rightarrow> io_error + helloInfo" where
  "readHello from2 from3 dynamic inp =
     (if dynamic then (case ReadFrame from3 inp of Inl e \<Rightarrow> Inl e | Inr (h, _) \<Rightarrow> Inr (helloV3 h))
      else (case ReadFrame from2 inp of Inl e \<Rightarrow> Inl e | Inr (h, _) \<Rightarrow> Inr (helloV2 h)))"

datatype admit_error = NoControlStream | HelloNotValid io_error | Refused auth_error

fun admitCode :: "admit_error \<Rightarrow> nat" where
  "admitCode NoControlStream = 1"
| "admitCode (HelloNotValid _) = 2"
| "admitCode (Refused e) = closeCode e"

text \<open>The answer is written while the entry is locked, unless a newer session is active.\<close>

definition sendAccepted ::
    "(ConnectorAccepted \<Rightarrow> bytes option) \<Rightarrow> 'o writer \<Rightarrow> string option \<Rightarrow> admission \<Rightarrow> edgeServer \<Rightarrow> 'o \<Rightarrow> 'o \<times> bool" where
  "sendAccepted toJSON wr drawn a s w =
     (case drawn of
        None \<Rightarrow> (w, False)
      | Some sid \<Rightarrow>
          (let (e, s1) = admitEntry a s in
           if superseded a (previousSession a e s1) s1 then (w, False)
           else case WriteFrame toJSON wr w (acceptedMessage sid a s) of (w1, failure) \<Rightarrow> (w1, failure = None)))"

definition authenticate ::
    "(bytes \<Rightarrow> ConnectorHello option) \<Rightarrow> (bytes \<Rightarrow> ConnectorHelloV3 option) \<Rightarrow> (ConnectorAccepted \<Rightarrow> bytes option) \<Rightarrow> 'o writer
     \<Rightarrow> time \<Rightarrow> db option \<Rightarrow> certificate list \<Rightarrow> bool \<Rightarrow> bool \<Rightarrow> string option \<Rightarrow> bytes \<Rightarrow> edgeServer \<Rightarrow> 'o
     \<Rightarrow> edgeServer \<times> 'o \<times> (admit_error + nat \<times> nat \<times> nat option)" where
  "authenticate from2 from3 toJSON wr now store chain opened dynamic drawn inp s w =
     (if \<not> opened then (s, w, Inl NoControlStream)
      else case readHello from2 from3 dynamic inp of
          Inl e \<Rightarrow> (s, w, Inl (HelloNotValid e))
        | Inr h \<Rightarrow>
            (case checkHello now store chain h s of
               Inl e \<Rightarrow> (on_status Denied s, w, Inl (Refused e))
             | Inr a \<Rightarrow>
                 (let (w1, written) = sendAccepted toJSON wr drawn a s w in
                  case commitSession drawn written a s of
                    (s1, Inl e) \<Rightarrow> (s1, w1, Inl (Refused e))
                  | (s1, Inr (n, e, p)) \<Rightarrow> (reportReady now a n s1, w1, Inr (n, e, p)))))"

section \<open>Texts of prefixes\<close>

definition text_stable :: "prefix \<Rightarrow> bool" where
  "text_stable p \<longleftrightarrow> masked p = p \<and> parse_prefix (prefix_string p) = Some p \<and> trim_space (prefix_string p) = prefix_string p"

lemma hex_string_space: "c \<in> set (hex_string n) \<Longrightarrow> \<not> is_space c"
proof (induction n rule: hex_string.induct)
  case (1 n)
  have digit: "\<not> is_space (hex_digit m)" if "m < 16" for m
  proof -
    have "list_all (\<lambda>m. \<not> is_space (hex_digit m)) [0..<16]" by code_simp
    then show ?thesis using that by (simp add: list_all_iff)
  qed
  show ?case
  proof (cases "n < 16")
    case True
    with "1.prems" have "c = hex_digit n" by (subst (asm) hex_string.simps) simp
    then show ?thesis using digit[OF True] by simp
  next
    case False
    with "1.prems" have "c \<in> set (hex_string (n div 16)) \<or> c = hex_digit (n mod 16)"
      by (subst (asm) hex_string.simps) auto
    then show ?thesis using "1.IH"[OF False] digit[of "n mod 16"] by auto
  qed
qed

lemma trim_space_id: "s \<noteq> [] \<Longrightarrow> \<not> is_space (hd s) \<Longrightarrow> \<not> is_space (last s) \<Longrightarrow> trim_space s = s"
  by (simp add: trim_space_def trim_where_def dropWhile_eq_self_iff[THEN iffD2] hd_rev)

text \<open>The text of a /16 prefix of IPv6 is stable.\<close>

lemma text_stable_16: "canonical16 p \<Longrightarrow> text_stable p"
proof -
  assume p: "canonical16 p"
  obtain h where h: "h < 65536" "p = Prefix (V6 (base16 h) []) 16" using p by (rule canonical16_base)
  let ?t = "(if h = 0 then [] else hex_string h) @ ''::/16''"
  have t: "prefix_string p = ?t" using h by (simp add: prefix_string_base16 string6_base16)
  have "\<not> is_space (hd ?t)" using hex_string_space[of "hd (hex_string h)" h] by (simp add: is_space_def hd_append)
  moreover have "\<not> is_space (last ?t)" by (simp add: is_space_def)
  ultimately have "trim_space ?t = ?t" by (intro trim_space_id) simp_all
  then show ?thesis using p t parse_prefix_string[OF p] by (simp add: text_stable_def canonical16_def)
qed

section \<open>Routes that both sides accept\<close>

lemma intersectPair_member:
  assumes "x \<in> set (intersectPair acc (masked l) (masked r))"
  shows "x \<in> set acc \<or> x \<in> {masked l, masked r} \<and> covers (masked r) x \<and> prefix_valid x \<and> prefix_wf x"
proof (cases "bit_len (pfx_addr (masked l)) \<noteq> bit_len (pfx_addr (masked r)) \<or> \<not> overlaps (masked l) (masked r)")
  case True
  then show ?thesis using assms by (simp add: intersectPair_def)
next
  case False
  then have v: "prefix_valid (masked l)" "prefix_valid (masked r)" by (auto simp: overlaps_def split: if_splits)
  let ?i = "if pfx_bits (masked r) > pfx_bits (masked l) then masked r else masked l"
  have "x \<in> set acc \<or> x = ?i" using assms False by (auto simp: intersectPair_def Let_def split: if_splits)
  moreover have "covers (masked r) ?i"
    using False v overlaps_iff[OF prefix_wf_masked prefix_wf_masked v(2,1)] overlaps_sym[of "masked l" "masked r"]
      contains_self[OF prefix_wf_masked v(2)]
    by (auto simp: covers_def)
  ultimately show ?thesis using v by auto
qed

lemma intersect_members:
  "x \<in> set (foldl (\<lambda>acc (l, r). intersectPair acc (masked l) (masked r)) acc ps) \<Longrightarrow>
   x \<in> set acc \<or> (\<exists>(l, r) \<in> set ps. x \<in> {masked l, masked r} \<and> covers (masked r) x \<and> prefix_valid x \<and> prefix_wf x)"
proof (induction ps arbitrary: acc)
  case (Cons y ps)
  obtain l r where y: "y = (l, r)" by (cases y)
  from Cons.IH[of "intersectPair acc (masked l) (masked r)"] Cons.prems intersectPair_member[of x acc l r]
  show ?case by (auto simp: y)
qed simp

lemma irredundant_distinct: "irredundant ps \<Longrightarrow> \<forall>p \<in> set ps. prefix_valid p \<and> prefix_wf p \<Longrightarrow> distinct ps"
  by (auto simp: irredundant_def distinct_conv_nth covers_def contains_self) (metis contains_self nth_mem order_refl)

text \<open>The routes that the edge takes from the destinations of a connector pass the connector's own check unchanged.\<close>

lemma validateRoutes_complete:
  "distinct routes \<Longrightarrow> set routes \<inter> seen = {} \<Longrightarrow> \<forall>r \<in> set routes. text_stable r \<and> (\<exists>c \<in> set allowed. covers (masked c) r) \<Longrightarrow>
   validateRoutes allowed seen (map prefix_string routes) = Inr routes"
proof (induction routes arbitrary: seen)
  case (Cons r routes)
  then obtain c where c: "c \<in> set allowed" "covers (masked c) r" and r: "text_stable r" "r \<notin> seen" by auto
  have "list_ex (\<lambda>c. let candidate = masked c in bit_len (pfx_addr candidate) = bit_len (pfx_addr r)
      \<and> pfx_bits candidate \<le> pfx_bits r \<and> contains candidate (pfx_addr r)) allowed"
    using c contains_bit_len by (fastforce simp: list_ex_iff covers_def Let_def)
  moreover have "validateRoutes allowed (insert r seen) (map prefix_string routes) = Inr routes"
    using Cons by (intro Cons.IH) auto
  ultimately show ?case using r by (simp add: text_stable_def)
qed simp

lemma advertised_parsed:
  "\<forall>p \<in> set allowed. text_stable p \<Longrightarrow>
   map_result (\<lambda>raw. case parse_prefix raw of None \<Rightarrow> Inl e | Some p \<Rightarrow> Inr (masked p)) (map prefix_string allowed) = Inr allowed"
  by (induction allowed) (simp_all add: text_stable_def)

lemma shared_routes:
  assumes real: "text_stable real" and allowed: "\<forall>p \<in> set allowed. text_stable p" and some: "IntersectPrefixes [real] allowed \<noteq> []"
  shows "ValidateAcceptedRoutes (map prefix_string (IntersectPrefixes [real] allowed)) allowed = Inr (IntersectPrefixes [real] allowed)"
proof -
  let ?routes = "IntersectPrefixes [real] allowed"
  have member: "\<exists>p \<in> set allowed. x \<in> {real, p} \<and> covers (masked p) x \<and> prefix_valid x \<and> prefix_wf x" if "x \<in> set ?routes" for x
    using intersect_members[of x "[]" "List.product [real] allowed"] that real allowed
    by (auto simp: IntersectPrefixes_fold text_stable_def)
  have "wf_list [real]" "wf_list allowed"
    using real allowed prefix_wf_masked unfolding text_stable_def list_all_iff by (metis empty_iff list.set(1) set_ConsD)+
  then have "irredundant ?routes" using intersect_fold[of "[]" "List.product [real] allowed"] by (auto simp: IntersectPrefixes_fold Let_def list_all_iff)
  then have "distinct ?routes" using member by (intro irredundant_distinct) blast+
  moreover have "\<forall>r \<in> set ?routes. text_stable r \<and> (\<exists>c \<in> set allowed. covers (masked c) r)" using member real allowed by blast
  ultimately show ?thesis using validateRoutes_complete[of ?routes "{}" allowed] some by (simp add: ValidateAcceptedRoutes_def)
qed

section \<open>Both sides\<close>

text \<open>
  The connector sends its hello, the edge answers what it has read of it, and the connector reads what the edge got
  through. \<open>cw\<close> and \<open>sw\<close> are the two directions of the stream.
\<close>

definition openSession ::
    "(ConnectorHello \<Rightarrow> bytes option) \<Rightarrow> (bytes \<Rightarrow> ConnectorHello option) \<Rightarrow> (ConnectorHelloV3 \<Rightarrow> bytes option) \<Rightarrow> (bytes \<Rightarrow> ConnectorHelloV3 option)
     \<Rightarrow> (ConnectorAccepted \<Rightarrow> bytes option) \<Rightarrow> (bytes \<Rightarrow> ConnectorAccepted option) \<Rightarrow> 'c writer \<Rightarrow> ('c \<Rightarrow> bytes) \<Rightarrow> 'o writer \<Rightarrow> ('o \<Rightarrow> bytes)
     \<Rightarrow> time \<Rightarrow> db option \<Rightarrow> certificate list \<Rightarrow> bool \<Rightarrow> string option \<Rightarrow> Client \<Rightarrow> 'c \<Rightarrow> Server \<Rightarrow> edgeServer \<Rightarrow> 'o
     \<Rightarrow> (session_error + udpSession) \<times> edgeServer \<times> (admit_error + nat \<times> nat \<times> nat option)" where
  "openSession to2 from2 to3 from3 toJSON fromJSON cw csink sw ssink now store chain dynamic drawn c c0 st s o0 =
     (let inp = csink (fst (WriteFrame (encodeHello to2 to3) cw c0 c));
          (s1, o1, admitted) = authenticate from2 from3 toJSON sw now store chain True dynamic drawn inp s o0
      in (serveControl c to2 to3 cw fromJSON True c0 (\<lambda>_. ssink o1) st, s1, admitted))"

definition sentHello :: "Client \<Rightarrow> bool \<Rightarrow> helloInfo" where
  "sentHello c dynamic = (if dynamic then helloV3 (helloDynamic c) else helloV2 (helloStatic c))"

text \<open>Edge and connector are configured for each other: entry \<open>e\<close> of the edge is for this connector and has its prefixes.\<close>

definition agreed :: "Client \<Rightarrow> bool \<Rightarrow> edgeServer \<Rightarrow> nat \<Rightarrow> bool" where
  "agreed c dynamic s e \<longleftrightarrow>
     (let cfg = cl_config c; t = en_target (es_entries s ! e) in
      dynamic = (cc_RegistrationMode cfg = ''dynamic'')
      \<and> (dynamic \<longrightarrow> co_ConnectorID (cc_Common cfg) = cc_ProjectID cfg @ ''/'' @ cc_EnvironmentID cfg)
      \<and> map_of (es_registry s) (co_ConnectorID (cc_Common cfg)) = Some e
      \<and> ct_VirtualPrefix t = cc_VirtualPrefix cfg \<and> ct_RealPrefix t = cc_RealPrefix cfg
      \<and> (\<not> dynamic \<longrightarrow> ct_Slot t = uint (as16 (pfx_addr (cc_VirtualPrefix cfg)) ! 1 - 0x20))
      \<and> canonical16 (cc_VirtualPrefix cfg) \<and> canonical16 (cc_RealPrefix cfg)
      \<and> (\<forall>p \<in> set (cc_AllowedDestinations cfg). text_stable p))"

lemma sentHello_fields:
  assumes "agreed c dynamic s e"
  shows "hi_connectorID (sentHello c dynamic) = co_ConnectorID (cc_Common (cl_config c))"
    "hi_routes (sentHello c dynamic) = map prefix_string (cc_AllowedDestinations (cl_config c))"
  using assms
  by (auto simp: agreed_def sentHello_def helloV3_def helloV2_def helloDynamic_def helloStatic_def advertisedRoutes_def Let_def)

lemma hello_written:
  "dynamic = (cc_RegistrationMode (cl_config c) = ''dynamic'') \<Longrightarrow>
   WriteFrame (encodeHello to2 to3) wr w c = (if dynamic then WriteFrame to3 wr w (helloDynamic c) else WriteFrame to2 wr w (helloStatic c))"
  by (simp add: WriteFrame_def encodeHello_def)

lemma readHello_sent:
  assumes json: "json_ok to2 from2" "json_ok to3 from3" and conf: "conforming cw csink" and start: "csink c0 = []"
    and dynamic: "dynamic = (cc_RegistrationMode (cl_config c) = ''dynamic'')"
    and read: "readHello from2 from3 dynamic (csink (fst (WriteFrame (encodeHello to2 to3) cw c0 c))) = Inr h"
  shows "h = sentHello c dynamic"
proof (cases dynamic)
  case True
  then obtain v rest where "ReadFrame from3 (csink (fst (WriteFrame to3 cw c0 (helloDynamic c)))) = Inr (v, rest)" "h = helloV3 v"
    using read by (auto simp: readHello_def hello_written[OF dynamic] split: sum.splits)
  then show ?thesis using sent_request[OF conf json(2) start] True by (auto simp: sentHello_def)
next
  case False
  then obtain v rest where "ReadFrame from2 (csink (fst (WriteFrame to2 cw c0 (helloStatic c)))) = Inr (v, rest)" "h = helloV2 v"
    using read by (auto simp: readHello_def hello_written[OF dynamic] split: sum.splits)
  then show ?thesis using sent_request[OF conf json(1) start] False by (auto simp: sentHello_def)
qed

text \<open>The connector accepts the answer that the edge gives to its hello.\<close>

lemma answer_accepted:
  assumes agreed: "agreed c dynamic s e" and checked: "checkHello now store chain (sentHello c dynamic) s = Inr a"
    and sid: "sid \<noteq> []" and flows: "1 \<le> ed_MaxTCPFlows (es_config s)"
  shows "checkAccepted c (acceptedMessage sid a s) = Inr (ad_routes a) \<and> ad_entry a = Some e"
  using checked
proof (rule checkHello_Inr)
  let ?cfg = "cl_config c" and ?t = "en_target (es_entries s ! e)"
  note hello = sentHello_fields[OF agreed]
  have ag: "map_of (es_registry s) (co_ConnectorID (cc_Common ?cfg)) = Some e" "ct_VirtualPrefix ?t = cc_VirtualPrefix ?cfg"
      "ct_RealPrefix ?t = cc_RealPrefix ?cfg" "dynamic = (cc_RegistrationMode ?cfg = ''dynamic'')"
      "\<not> dynamic \<longrightarrow> ct_Slot ?t = uint (as16 (pfx_addr (cc_VirtualPrefix ?cfg)) ! 1 - 0x20)"
      "canonical16 (cc_VirtualPrefix ?cfg)" "canonical16 (cc_RealPrefix ?cfg)" "\<forall>p \<in> set (cc_AllowedDestinations ?cfg). text_stable p"
    using agreed by (simp_all add: agreed_def Let_def)
  fix t advertised
  assume a: "a = \<lparr>ad_entry = map_of (es_registry s) (hi_connectorID (sentHello c dynamic)), ad_target = t,
       ad_registryCount = length (es_registry s),
       ad_routes = IntersectPrefixes (if length (es_registry s) = 0 then ed_AllowedRoutes (es_config s) else [ct_RealPrefix t]) advertised,
       ad_hello = sentHello c dynamic\<rparr>"
    and ne: "ad_routes a \<noteq> []"
    and found: "case map_of (es_registry s) (hi_connectorID (sentHello c dynamic)) of Some e \<Rightarrow> t = en_target (ent s e) | None \<Rightarrow> es_registry s = []"
    and adv: "map_result (\<lambda>raw. case parse_prefix raw of None \<Rightarrow> Inl RoutesNotValid | Some p \<Rightarrow> Inr (masked p)) (hi_routes (sentHello c dynamic)) = Inr advertised"
  have t: "t = ?t" using found ag(1) hello(1) by simp
  have "advertised = cc_AllowedDestinations ?cfg" using adv unfolding hello(2) advertised_parsed[OF ag(8)] by simp
  moreover have "length (es_registry s) \<noteq> 0" using ag(1) by auto
  ultimately have routes: "ad_routes a = IntersectPrefixes [cc_RealPrefix ?cfg] (cc_AllowedDestinations ?cfg)"
    using a t ag(3) by simp
  have v: "ValidateAcceptedRoutes (map prefix_string (ad_routes a)) (cc_AllowedDestinations ?cfg) = Inr (ad_routes a)"
    using shared_routes[OF text_stable_16[OF ag(7)] ag(8)] ne unfolding routes by simp
  have "validateAccepted c (acceptedMessage sid a s) = None"
    using a t ag hello(1) parse_prefix_string[OF ag(6)] parse_prefix_string[OF ag(7)]
    by (auto simp: validateAccepted_def acceptedMessage_def Let_def)
  then show ?thesis using v sid flows a ag(1) hello(1) by (simp add: checkAccepted_def acceptedMessage_def)
qed

text \<open>A session that the edge admits is a run of the session machine.\<close>

lemma authenticate_steps:
  assumes checked: "checkHello now store chain h (er_server r) = Inr a"
    and commit: "commitSession drawn written a (er_server r) = (s1, Inr (n, e, p))" and n: "n = length (er_owner r)"
  shows "\<exists>r'. edge_step\<^sup>*\<^sup>* r r' \<and> er_server r' = reportReady now a n s1"
proof -
  let ?r1 = "r\<lparr>er_admitted := insert a (er_admitted r)\<rparr>"
  let ?r2 = "?r1\<lparr>er_server := s1, er_owner := er_owner ?r1 @ [(e, a)]\<rparr>"
  let ?r3 = "?r2\<lparr>er_server := reportReady now (snd (er_owner ?r2 ! n)) n (er_server ?r2)\<rparr>"
  have "edge_step r ?r1" using checked by (rule edge_step.check)
  moreover have "edge_step ?r1 ?r2" by (rule edge_step.commit[where a = a]) (use commit in simp_all)
  moreover have "edge_step ?r2 ?r3" by (rule edge_step.ready) (simp add: n)
  moreover have "er_server ?r3 = reportReady now a n s1" by (simp add: n)
  ultimately show ?thesis by (intro exI[of _ ?r3]) (meson converse_rtranclp_into_rtranclp r_into_rtranclp)
qed

lemma sent_answer:
  assumes conf: "conforming sw ssink" and json: "json_ok toJSON fromJSON" and start: "ssink o0 = []"
    and send: "sendAccepted toJSON sw drawn a s o0 = (o1, written)"
  shows "(\<forall>v rest. ReadFrame fromJSON (ssink o1) = Inr (v, rest) \<longrightarrow> (\<exists>sid. drawn = Some sid \<and> v = acceptedMessage sid a s))
    \<and> (written \<longrightarrow> (\<exists>sid. drawn = Some sid \<and> ReadFrame fromJSON (ssink o1) = Inr (acceptedMessage sid a s, [])))"
proof (cases "o1 = o0 \<and> \<not> written")
  case True
  then show ?thesis using start by (simp add: ReadFrame_empty)
next
  case False
  then obtain sid failure where sid: "drawn = Some sid" "WriteFrame toJSON sw o0 (acceptedMessage sid a s) = (o1, failure)" "written = (failure = None)"
    using send by (auto simp: sendAccepted_def Let_def split: option.splits prod.splits if_splits)
  have "v = acceptedMessage sid a s" if "ReadFrame fromJSON (ssink o1) = Inr (v, rest)" for v rest
    using sent_request[OF conf json start, of "acceptedMessage sid a s"] that sid(2) by simp
  moreover have "ReadFrame fromJSON (ssink o1) = Inr (acceptedMessage sid a s, [])" if ok: "failure = None"
  proof -
    obtain payload where p: "toJSON (acceptedMessage sid a s) = Some payload" "length payload \<le> MaxControlFrame"
        "ssink o1 = to_be 4 (length payload) @ payload"
      using WriteFrame_bytes[OF conf sid(2)] ok start by auto
    then have "payload \<noteq> []" "fromJSON payload = Some (acceptedMessage sid a s)" using json by (auto simp: json_ok_def)
    then show ?thesis using ReadFrame_frame[of payload fromJSON _ "[]"] p by simp
  qed
  ultimately show ?thesis unfolding sid(1,3) by blast
qed

lemma serveControl_read:
  assumes "client = Inr u" "client = serveControl c to2 to3 cw fromJSON True c0 peer st"
  obtains w v rest where "ReadFrame fromJSON (peer w) = Inr (v, rest)"
  using assms by (auto simp: serveControl_def split: prod.splits option.splits sum.splits)

lemma reportReady_sessions: "es_sessions (reportReady now a n s) = es_sessions s"
  by (simp add: reportReady_def on_status_def Let_def)

lemma authenticate_cases:
  assumes "authenticate from2 from3 toJSON wr now store chain True dynamic drawn inp s w = (s1, w1, admitted)"
  obtains (silent) "w1 = w" "\<nexists>x. admitted = Inr x"
  | (refused) h a written s2 z where "readHello from2 from3 dynamic inp = Inr h" "checkHello now store chain h s = Inr a"
      "sendAccepted toJSON wr drawn a s w = (w1, written)" "commitSession drawn written a s = (s2, Inl z)" "admitted = Inl (Refused z)"
  | (committed) h a written s2 n f p where "readHello from2 from3 dynamic inp = Inr h" "checkHello now store chain h s = Inr a"
      "sendAccepted toJSON wr drawn a s w = (w1, written)" "commitSession drawn written a s = (s2, Inr (n, f, p))"
      "s1 = reportReady now a n s2" "admitted = Inr (n, f, p)"
  using assms by (auto simp: authenticate_def Let_def split: sum.splits prod.splits)

lemma commit_refused:
  assumes "sendAccepted toJSON wr drawn a s w = (w1, written)" and "commitSession drawn written a s = (s2, Inl z)" and "w1 \<noteq> w"
  shows "z = ResponseFailed"
  using assms by (auto simp: sendAccepted_def commitSession_def Let_def split: option.splits if_splits prod.splits)

lemma commit_written: "commitSession drawn written a s = (s2, Inr x) \<Longrightarrow> written"
  by (auto simp: commitSession_def Let_def split: option.splits if_splits prod.splits)

lemma edge_commits:
  assumes inv: "run_inv r" and checked: "checkHello now store chain h (er_server r) = Inr a" and entry: "ad_entry a = Some e"
    and commit: "commitSession drawn written a (er_server r) = (s2, Inr (n, f, p))"
  shows "f = e" "ss_routes (es_sessions (reportReady now a n s2) ! n) = ad_routes a"
    "\<exists>r'. edge_step\<^sup>*\<^sup>* r r' \<and> er_server r' = reportReady now a n s2"
proof -
  note eff = commit_effect[OF commit checkHello_ok[OF run_inv_parts(1)[OF inv] checked] entry run_inv_parts(2)[OF inv]]
  then show "f = e" "ss_routes (es_sessions (reportReady now a n s2) ! n) = ad_routes a"
    by (auto simp: reportReady_sessions commits_def Let_def newSession_def)
  have "n = length (er_owner r)" using eff run_inv_parts(2)[OF inv] by (simp add: sessions_ok_def)
  then show "\<exists>r'. edge_step\<^sup>*\<^sup>* r r' \<and> er_server r' = reportReady now a n s2"
    by (rule authenticate_steps[OF checked commit])
qed

lemma connector_takes_up:
  assumes "ReadFrame fromJSON inp = Inr (message, rest)" and "checkAccepted c message = Inr routes"
    and "client = serveControl c to2 to3 cw fromJSON True c0 (\<lambda>_. inp) st"
  shows "client = Inr u \<Longrightarrow> us_routes u = routes" and "(\<exists>u. client = Inr u) \<or> (\<exists>x. client = Inl (HelloFailed x))"
  using assms by (auto simp: serveControl_def serve_def newUDPSession_def split: prod.splits option.splits)


section \<open>A concrete session\<close>

definition setupConfig :: ConnectorConfig where
  "setupConfig = pathConfig\<lparr>cc_Common := pathCommon\<lparr>co_ConnectorID := ''p1/e1'', co_Environment := ''e1''\<rparr>, cc_RegistrationMode := ''dynamic'',
     cc_ProjectID := ''p1'', cc_EnvironmentID := ''e1'', cc_IdentityKeyID := ''k1'', cc_VirtualPrefix := net16 0xfd20,
     cc_RealPrefix := net16 0xfd12, cc_AllowedDestinations := [net16 0xfd12]\<rparr>"

definition setupClient :: Client where
  "setupClient = pathClient\<lparr>cl_config := setupConfig\<rparr>"

definition setupAnswer :: ConnectorAccepted where
  "setupAnswer = acceptedMessage ''a'' (sampleAdmission 1) (er_server admittedRun)"

definition helloToJSON :: "ConnectorHelloV3 \<Rightarrow> bytes option" where
  "helloToJSON h = (if h = helloDynamic setupClient then Some [1, 2, 3, 4] else None)"

definition answerToJSON :: "ConnectorAccepted \<Rightarrow> bytes option" where
  "answerToJSON a = (if a = setupAnswer then Some [5, 6, 7, 8] else None)"

lemma setup_json:
  "json_ok (\<lambda>_. None) (\<lambda>_. None)" "json_ok helloToJSON (\<lambda>_. Some (helloDynamic setupClient))" "json_ok answerToJSON (\<lambda>_. Some setupAnswer)"
  by (simp_all add: json_ok_def helloToJSON_def answerToJSON_def)

lemma setup_frames:
  "WriteFrame (encodeHello (\<lambda>_. None) helloToJSON) chunk_writer [] setupClient = ([0, 0, 0, 4, 1, 2, 3, 4], None)"
  "WriteFrame answerToJSON chunk_writer [] setupAnswer = ([0, 0, 0, 4, 5, 6, 7, 8], None)"
proof -
  have w: "WriteFrame Some chunk_writer [] [1, 2, 3, 4 :: byte] = ([0, 0, 0, 4, 1, 2, 3, 4], None)"
    "WriteFrame Some chunk_writer [] [5, 6, 7, 8 :: byte] = ([0, 0, 0, 4, 5, 6, 7, 8], None)" by code_simp+
  have "cc_RegistrationMode (cl_config setupClient) = ''dynamic''" by (simp add: setupClient_def setupConfig_def)
  then show "WriteFrame (encodeHello (\<lambda>_. None) helloToJSON) chunk_writer [] setupClient = ([0, 0, 0, 4, 1, 2, 3, 4], None)"
    "WriteFrame answerToJSON chunk_writer [] setupAnswer = ([0, 0, 0, 4, 5, 6, 7, 8], None)"
    using w by (simp_all add: WriteFrame_def encodeHello_def helloToJSON_def answerToJSON_def)
qed

lemma setup_agreed: "agreed setupClient True (er_server admittedRun) 0"
proof -
  have "canonical16 (net16 h)" for h by (simp add: net16_def)
  then show ?thesis
    using refreshed_fields
    by (simp add: agreed_def setupClient_def setupConfig_def pathClient_def pathConfig_def pathCommon_def admitted_fields(3) newEntry_def
        dynamicTarget_def sampleRegistration_def text_stable_16)
qed

lemma setup_hello: "helloV3 (helloDynamic setupClient) = sampleHello 1"
proof -
  have "prefix_string (net16 0xfd12) = ''fd12::/16''" by (simp add: net16_text)
  then show ?thesis
    by (simp add: helloV3_def helloDynamic_def advertisedRoutes_def setupClient_def setupConfig_def pathClient_def sampleHello_def)
qed

text \<open>The edge commits the session.\<close>

lemma setup_edge:
  "\<exists>s'. authenticate (\<lambda>_. None) (\<lambda>_. Some (helloDynamic setupClient)) answerToJSON chunk_writer 0 None sampleChain True True (Some ''a'')
     [0, 0, 0, 4, 1, 2, 3, 4] (er_server admittedRun) [] = (s', [0, 0, 0, 4, 5, 6, 7, 8], Inr (0, 0, None))"
proof -
  let ?s = "er_server admittedRun"
  note parts = run_inv_parts[OF admitted_inv]
  have own: "es_sessions ?s = []" using refreshed_fields by (simp add: admittedRun_def)
  obtain t where t: "commitSession (Some ''a'') True (sampleAdmission 1) ?s = (t, Inr (0, 0, None))"
    using commit_free[OF parts(3)[OF admitted_fields(1)] _ parts(2), of 0 "''a''"] admitted_fields(4) own
    by (auto simp: sampleAdmission_def)
  have hello: "readHello (\<lambda>_. None) (\<lambda>_. Some (helloDynamic setupClient)) True [0, 0, 0, 4, 1, 2, 3, 4] = Inr (sampleHello 1)"
    by (simp add: readHello_def sample_reads setup_hello)
  have check: "checkHello 0 None sampleChain (sampleHello 1) ?s = Inr (sampleAdmission 1)"
    using sample_check[of 1] by (simp add: admitted_fields(3))
  have "sendAccepted answerToJSON chunk_writer (Some ''a'') (sampleAdmission 1) ?s [] = ([0, 0, 0, 4, 5, 6, 7, 8], True)"
  proof -
    have e: "admitEntry (sampleAdmission 1) ?s = (0, ?s)" by (simp add: admitEntry_def sampleAdmission_def)
    have "previousSession (sampleAdmission 1) 0 ?s = None"
      using admitted_fields(4) by (simp add: previousSession_def sampleAdmission_def)
    then have "\<not> superseded (sampleAdmission 1) (previousSession (sampleAdmission 1) 0 ?s) ?s" by (simp add: superseded_def)
    then show ?thesis using e setup_frames(2) by (simp add: sendAccepted_def setupAnswer_def)
  qed
  then show ?thesis using hello check t by (simp add: authenticate_def)
qed


end
