(* ===== verification/Transport.thy ===== *)
theory Transport
  imports Identity Protocol
begin

text \<open>
  Package \<^verbatim>\<open>internal/transport\<close> (\<^verbatim>\<open>tls.go\<close>, \<^verbatim>\<open>quic.go\<close>): the TLS configurations of the four endpoints and the handshake between
  two of them as \<^verbatim>\<open>crypto/tls\<close> documents it: the server picks the first of its application protocols that the client offers,
  a server that requires a client certificate verifies it, and both sides run their \<^verbatim>\<open>VerifyConnection\<close>. Key pairs and pools
  of root certificates are read by \<open>tlslib\<close>; a pool is the check of a chain against it.
\<close>

section \<open>Configurations\<close>

record tlslib =
  tl_keyPair :: "bytes \<Rightarrow> bytes \<Rightarrow> certificate list option"
  tl_pool :: "bytes \<Rightarrow> chain_check option"

datatype tls_error = KeyPairNotValid | NoRootCertificates

text \<open>
  \<open>tc_ClientCAs\<close> is the check of client certificates, if the server requires them; both clients switch the library's own
  check of the server off and use only \<^verbatim>\<open>VerifyConnection\<close>, which gets the negotiated protocol and the chain of the peer.
\<close>

record tlsConfig =
  tc_chain :: "certificate list"
  tc_ClientCAs :: "chain_check option"
  tc_NextProtos :: "string list"
  tc_VerifyConnection :: "string \<Rightarrow> certificate list \<Rightarrow> identity_error + unit"

definition credentials :: "tlslib \<Rightarrow> Common \<Rightarrow> tls_error + certificate list \<times> chain_check" where
  "credentials lib c =
     (case tl_keyPair lib (co_Certificate c) (co_PrivateKey c) of
        None \<Rightarrow> Inl KeyPairNotValid
      | Some chain \<Rightarrow>
          (case tl_pool lib (co_CABundle c) of None \<Rightarrow> Inl NoRootCertificates | Some roots \<Rightarrow> Inr (chain, roots)))"

text \<open>\<open>get\<close> is what \<^verbatim>\<open>GetCertificate\<close> of the configuration returns, if it is set.\<close>

definition ServerTLS :: "tlslib \<Rightarrow> certificate list option \<Rightarrow> Common \<Rightarrow> tls_error + tlsConfig" where
  "ServerTLS lib get c =
     and_then (credentials lib c) (\<lambda>(chain, roots).
       Inr \<lparr>tc_chain = (case get of Some chain' \<Rightarrow> chain' | None \<Rightarrow> chain), tc_ClientCAs = Some roots, tc_NextProtos = [ALPNV3, ALPN],
            tc_VerifyConnection = (\<lambda>p. serverVerifyConnection roots (p = ALPNV3))\<rparr>)"

definition ClientTLS :: "tlslib \<Rightarrow> Common \<Rightarrow> tls_error + tlsConfig" where
  "ClientTLS lib c =
     and_then (credentials lib c) (\<lambda>(chain, roots).
       let (edgeID, v3) = clientTLS c in
       Inr \<lparr>tc_chain = chain, tc_ClientCAs = None, tc_NextProtos = [if v3 then ALPNV3 else ALPN],
            tc_VerifyConnection = (\<lambda>_. verifyIdentity roots ''edge'' edgeID ExtKeyUsageServerAuth)\<rparr>)"

definition RegistrationServerTLS :: "tlslib \<Rightarrow> certificate list option \<Rightarrow> Common \<Rightarrow> tls_error + tlsConfig" where
  "RegistrationServerTLS lib get c =
     (case tl_keyPair lib (co_Certificate c) (co_PrivateKey c) of
        None \<Rightarrow> Inl KeyPairNotValid
      | Some chain \<Rightarrow>
          Inr \<lparr>tc_chain = (case get of Some chain' \<Rightarrow> chain' | None \<Rightarrow> chain), tc_ClientCAs = None, tc_NextProtos = [RegistrationALPN],
               tc_VerifyConnection = (\<lambda>_ _. Inr ())\<rparr>)"

definition RegistrationClientTLS :: "tlslib \<Rightarrow> Common \<Rightarrow> tls_error + tlsConfig" where
  "RegistrationClientTLS lib c =
     (case tl_pool lib (co_CABundle c) of
        None \<Rightarrow> Inl NoRootCertificates
      | Some roots \<Rightarrow>
          Inr \<lparr>tc_chain = [], tc_ClientCAs = None, tc_NextProtos = [RegistrationALPN],
               tc_VerifyConnection = (\<lambda>_. verifyIdentity roots ''edge'' (co_EdgeID c) ExtKeyUsageServerAuth)\<rparr>)"

section \<open>The QUIC settings\<close>

record quicConfig =
  qc_EnableDatagrams :: bool
  qc_KeepAlivePeriod :: duration
  qc_MaxIdleTimeout :: duration
  qc_InitialStreamReceiveWindow :: nat
  qc_MaxStreamReceiveWindow :: nat
  qc_InitialConnectionReceiveWindow :: nat
  qc_MaxConnectionReceiveWindow :: nat
  qc_MaxIncomingStreams :: int
  qc_MaxIncomingUniStreams :: int

definition QUICConfig :: "int \<Rightarrow> quicConfig" where
  "QUICConfig maxIncomingStreams =
     \<lparr>qc_EnableDatagrams = True, qc_KeepAlivePeriod = seconds 10, qc_MaxIdleTimeout = seconds 30,
      qc_InitialStreamReceiveWindow = 2 ^ 20, qc_MaxStreamReceiveWindow = 16 * 2 ^ 20,
      qc_InitialConnectionReceiveWindow = 4 * 2 ^ 20, qc_MaxConnectionReceiveWindow = 128 * 2 ^ 20,
      qc_MaxIncomingStreams = maxIncomingStreams, qc_MaxIncomingUniStreams = - 1\<rparr>"

text \<open>Keep-alives come often enough for an idle connection to survive the loss of one, and the windows can grow.\<close>

lemma quic_settings:
  "2 * qc_KeepAlivePeriod (QUICConfig n) < qc_MaxIdleTimeout (QUICConfig n)"
  "qc_InitialStreamReceiveWindow (QUICConfig n) < qc_MaxStreamReceiveWindow (QUICConfig n)"
  "qc_MaxStreamReceiveWindow (QUICConfig n) < qc_MaxConnectionReceiveWindow (QUICConfig n)"
  by (simp_all add: QUICConfig_def)

section \<open>The handshake\<close>

datatype handshake_error = NoApplicationProtocol | ServerRejected identity_error | ClientRejected identity_error | ClientCertificateRequired

definition handshake :: "tlsConfig \<Rightarrow> tlsConfig \<Rightarrow> handshake_error + string \<times> certificate list \<times> certificate list" where
  "handshake client server =
     (case find (\<lambda>p. p \<in> set (tc_NextProtos client)) (tc_NextProtos server) of
        None \<Rightarrow> Inl NoApplicationProtocol
      | Some p \<Rightarrow>
          (case tc_VerifyConnection client p (tc_chain server) of
             Inl e \<Rightarrow> Inl (ServerRejected e)
           | Inr _ \<Rightarrow>
               (let sent = (if tc_ClientCAs server = None then [] else tc_chain client) in
                case tc_ClientCAs server of
                  Some roots \<Rightarrow>
                    if sent = [] \<or> \<not> roots sent ExtKeyUsageClientAuth then Inl ClientCertificateRequired
                    else (case tc_VerifyConnection server p sent of Inl e \<Rightarrow> Inl (ClientRejected e) | Inr _ \<Rightarrow> Inr (p, tc_chain server, sent))
                | None \<Rightarrow>
                    (case tc_VerifyConnection server p sent of Inl e \<Rightarrow> Inl (ClientRejected e) | Inr _ \<Rightarrow> Inr (p, tc_chain server, sent)))))"

section \<open>Who can talk to whom\<close>

lemma protocols_differ [simp]:
  "ALPN \<noteq> ALPNV3" "ALPNV3 \<noteq> ALPN" "ALPN \<noteq> RegistrationALPN" "RegistrationALPN \<noteq> ALPN" "ALPNV3 \<noteq> RegistrationALPN"
  "RegistrationALPN \<noteq> ALPNV3"
  by (simp_all add: ALPN_def ALPNV3_def RegistrationALPN_def)

lemma ServerTLS_Inr:
  assumes "ServerTLS lib get c = Inr server"
  obtains chain roots where "credentials lib c = Inr (chain, roots)" "tc_chain server = (case get of Some x \<Rightarrow> x | None \<Rightarrow> chain)"
    "tc_ClientCAs server = Some roots" "tc_NextProtos server = [ALPNV3, ALPN]"
    "tc_VerifyConnection server = (\<lambda>p. serverVerifyConnection roots (p = ALPNV3))"
  using assms by (auto simp: ServerTLS_def)

lemma ClientTLS_Inr:
  assumes "ClientTLS lib c = Inr client"
  obtains chain roots where "credentials lib c = Inr (chain, roots)" "tc_chain client = chain"
    "tc_NextProtos client = [if snd (clientTLS c) then ALPNV3 else ALPN]"
    "tc_VerifyConnection client = (\<lambda>_. verifyIdentity roots ''edge'' (fst (clientTLS c)) ExtKeyUsageServerAuth)"
  using assms by (auto simp: ClientTLS_def case_prod_beta)

lemma verifyIdentity_edge:
  assumes "IssueEdge create issuer now random edgeID lifetime = Inr (c, notAfter)" and "validName edgeID"
  shows "verifyIdentity roots ''edge'' i ExtKeyUsageServerAuth (c # rest) = Inr () \<longleftrightarrow> roots (c # rest) ExtKeyUsageServerAuth \<and> i = edgeID"
  using edge_identity_read[OF assms, of rest] by (auto simp: verifyIdentity_def verifyPeerCertificate_def)

text \<open>
  C27. A connector with an issued certificate and an edge with an issued certificate establish a data session exactly if each
  trusts the other's chain and the connector expects this edge; the session then speaks the third version of the protocol
  and the edge reads the project, the environment and the key that the connector was issued for. The registration endpoint
  is separate: no client of one endpoint gets a session with the other.
\<close>

theorem handshake_exact:
  assumes issued: "IssueEdge create issuer now random edgeID lifetime = Inr (ec, ecEnd)" "validName edgeID"
      "IssueConnector create' issuer' now' random' p e k keySize lifetime' = Inr (cc, serial, ccEnd)"
    and common: "co_EdgeID c \<noteq> []" "co_ConnectorID c = p @ ''/'' @ e" "co_Environment c = e"
    and configs: "ClientTLS lib c = Inr client" "ServerTLS lib' (Some (ec # rest)) s = Inr server"
    and pools: "credentials lib c = Inr (cc # rest', clientRoots)" "credentials lib' s = Inr (own, serverRoots)"
    and registration: "RegistrationClientTLS lib rc = Inr rclient" "RegistrationServerTLS lib' get rs = Inr rserver"
  shows "(\<exists>x. handshake client server = Inr x) =
      (clientRoots (ec # rest) ExtKeyUsageServerAuth \<and> serverRoots (cc # rest') ExtKeyUsageClientAuth \<and> co_EdgeID c = edgeID)
    \<and> (\<forall>proto sc cl. handshake client server = Inr (proto, sc, cl) \<longrightarrow> proto = ALPNV3 \<and> PeerConnectorIdentityV3 cl = Inr (p, e, k))
    \<and> handshake rclient server = Inl NoApplicationProtocol \<and> handshake client rserver = Inl NoApplicationProtocol"
proof -
  have seg: "e \<noteq> []" using issued(3) by (auto simp: IssueConnector_def split: if_splits)
  then have v3: "clientTLS c = (co_EdgeID c, True)" using common by (simp add: clientTLS_def)
  have cl: "tc_chain client = cc # rest'" "tc_NextProtos client = [ALPNV3]"
      "tc_VerifyConnection client = (\<lambda>_. verifyIdentity clientRoots ''edge'' (co_EdgeID c) ExtKeyUsageServerAuth)"
    using ClientTLS_Inr[OF configs(1)] pools(1) v3 by auto
  have sv: "tc_chain server = ec # rest" "tc_ClientCAs server = Some serverRoots" "tc_NextProtos server = [ALPNV3, ALPN]"
      "tc_VerifyConnection server = (\<lambda>p. serverVerifyConnection serverRoots (p = ALPNV3))"
    using ServerTLS_Inr[OF configs(2)] pools(2) by auto
  note read = connector_identity_read[OF issued(3), of rest']
  have proto: "find (\<lambda>p. p \<in> set (tc_NextProtos client)) (tc_NextProtos server) = Some ALPNV3" using cl sv by simp
  have h: "handshake client server =
      (case verifyIdentity clientRoots ''edge'' (co_EdgeID c) ExtKeyUsageServerAuth (ec # rest) of
         Inl e \<Rightarrow> Inl (ServerRejected e)
       | Inr _ \<Rightarrow> if serverRoots (cc # rest') ExtKeyUsageClientAuth then Inr (ALPNV3, ec # rest, cc # rest') else Inl ClientCertificateRequired)"
    unfolding handshake_def proto
    using cl sv read by (auto simp: serverVerifyConnection_def verifyPeerCertificate_def split: sum.splits)
  have "(\<exists>x. handshake client server = Inr x) \<longleftrightarrow>
      verifyIdentity clientRoots ''edge'' (co_EdgeID c) ExtKeyUsageServerAuth (ec # rest) = Inr () \<and> serverRoots (cc # rest') ExtKeyUsageClientAuth"
    unfolding h by (auto split: sum.splits)
  moreover have "proto = ALPNV3 \<and> PeerConnectorIdentityV3 x = Inr (p, e, k)" if "handshake client server = Inr (proto, sc, x)" for proto sc x
    using that read unfolding h by (auto split: sum.splits if_splits)
  moreover have "handshake rclient server = Inl NoApplicationProtocol" "handshake client rserver = Inl NoApplicationProtocol"
    using registration cl sv by (auto simp: RegistrationClientTLS_def RegistrationServerTLS_def handshake_def split: option.splits)
  ultimately show ?thesis using verifyIdentity_edge[OF issued(1,2), of clientRoots "co_EdgeID c" rest] by blast
qed

text \<open>An edge and a connector with certificates of the sample intermediate, which trust every chain.\<close>

definition trustingLib :: "certificate list \<Rightarrow> tlslib" where
  "trustingLib chain = \<lparr>tl_keyPair = (\<lambda>_ _. Some chain), tl_pool = (\<lambda>_. Some (\<lambda>_ _. True))\<rparr>"

definition handshakeCommon :: Common where
  "handshakeCommon = \<lparr>co_EdgeID = ''edge-1'', co_ConnectorID = ''p1/e1'', co_Environment = ''e1'', co_CABundle = [], co_Certificate = [],
     co_PrivateKey = [], co_AdminAddr = [], co_LogLevel = []\<rparr>"

theorem handshake_exact_witness:
  "\<exists>ec cc client server. IssueEdge signs sampleIntermediate (hours 1) 5 ''edge-1'' (hours 24) = Inr (ec, hours 25)
     \<and> ClientTLS (trustingLib [cc]) handshakeCommon = Inr client \<and> ServerTLS (trustingLib []) (Some [ec]) handshakeCommon = Inr server
     \<and> (\<exists>sc cl. handshake client server = Inr (ALPNV3, sc, cl) \<and> PeerConnectorIdentityV3 cl = Inr (''p1'', ''e1'', ''k1''))"
proof -
  obtain ec where ec: "IssueEdge signs sampleIntermediate (hours 1) 5 ''edge-1'' (hours 24) = Inr (ec, hours 25)"
  proof -
    let ?r = "IssueEdge signs sampleIntermediate (hours 1) 5 ''edge-1'' (hours 24)"
    have "case ?r of Inl _ \<Rightarrow> False | Inr (_, n) \<Rightarrow> n = hours 25" by code_simp
    then show ?thesis using that by (cases ?r) auto
  qed
  obtain cc n where cc: "IssueConnector signs sampleIntermediate (hours 1) 77 ''p1'' ''e1'' ''k1'' 32 (hours 24) = Inr (cc, 77, n)"
    using sample_connector_issued by blast
  have name: "validName ''edge-1''" by code_simp
  have common: "co_EdgeID handshakeCommon = ''edge-1''" "co_ConnectorID handshakeCommon = ''p1'' @ ''/'' @ ''e1''"
      "co_Environment handshakeCommon = ''e1''" by (simp_all add: handshakeCommon_def)
  have cred: "credentials (trustingLib chain) c = Inr (chain, \<lambda>_ _. True)" for chain c
    by (simp add: credentials_def trustingLib_def)
  obtain client where client: "ClientTLS (trustingLib [cc]) handshakeCommon = Inr client"
    by (simp add: ClientTLS_def cred case_prod_beta Let_def)
  obtain server where server: "ServerTLS (trustingLib []) (Some [ec]) handshakeCommon = Inr server"
    by (simp add: ServerTLS_def cred)
  obtain rclient where rclient: "RegistrationClientTLS (trustingLib [cc]) handshakeCommon = Inr rclient"
    by (simp add: RegistrationClientTLS_def trustingLib_def)
  obtain rserver where rserver: "RegistrationServerTLS (trustingLib []) None handshakeCommon = Inr rserver"
    by (simp add: RegistrationServerTLS_def trustingLib_def)
  note exact = handshake_exact[OF ec name cc _ common(2,3) client server cred cred rclient rserver]
  then obtain proto sc cl where h: "handshake client server = Inr (proto, sc, cl)" using common(1) by (cases "handshake client server") auto
  then have "proto = ALPNV3 \<and> PeerConnectorIdentityV3 cl = Inr (''p1'', ''e1'', ''k1'')" using exact common(1) by simp
  then show ?thesis using ec client server h by blast
qed

end
