(* ===== verification/Proxy.thy ===== *)
theory Proxy
  imports Machine
begin

text \<open>
  Package \<^verbatim>\<open>internal/proxy\<close> (\<^verbatim>\<open>copy.go\<close>): bytes are copied in both directions between two connections by two goroutines;
  the caller waits for both results, and the first failure closes both connections. The goroutines are the steps of a
  relation. A connection is what its peer still delivers in pieces and the end of that; a read or a write on a connection
  that was not closed here fails only with an error that is neither the end of the stream nor \<^verbatim>\<open>net.ErrClosed\<close>.
\<close>

section \<open>Data\<close>

datatype copy_error = EndOfStream | NetClosed | OtherError string

definition normalizeCopyError :: "copy_error option \<Rightarrow> string list" where
  "normalizeCopyError e = (case e of Some (OtherError t) \<Rightarrow> [t] | _ \<Rightarrow> [])"

text \<open>A direction: what its source delivers, how that ends, what the target has got, the count and the result.\<close>

record copyFlow =
  cf_pending :: "bytes list"
  cf_end :: "copy_error option"
  cf_out :: bytes
  cf_count :: nat
  cf_result :: "string list option"

text \<open>\<open>True\<close> is the direction from left to right; \<open>cp_first\<close> is the direction whose result came first.\<close>

record copyState =
  cp_flow :: "bool \<Rightarrow> copyFlow"
  cp_first :: "bool option"
  cp_forced :: bool
  cp_closed :: bool

definition Bidirectional :: "bytes list \<Rightarrow> copy_error option \<Rightarrow> bytes list \<Rightarrow> copy_error option \<Rightarrow> copyState" where
  "Bidirectional left leftEnd right rightEnd =
     \<lparr>cp_flow = (\<lambda>d. \<lparr>cf_pending = if d then left else right, cf_end = if d then leftEnd else rightEnd, cf_out = [], cf_count = 0,
                      cf_result = None\<rparr>),
      cp_first = None, cp_forced = False, cp_closed = False\<rparr>"

definition on_flow :: "bool \<Rightarrow> (copyFlow \<Rightarrow> copyFlow) \<Rightarrow> copyState \<Rightarrow> copyState" where
  "on_flow d f s = s\<lparr>cp_flow := (cp_flow s)(d := f (cp_flow s d))\<rparr>"

section \<open>Steps\<close>

text \<open>One round of \<^verbatim>\<open>io.Copy\<close>: a piece is read and written.\<close>

definition copyPiece :: "copyFlow \<Rightarrow> copyFlow" where
  "copyPiece f = (case cf_pending f of
     [] \<Rightarrow> f | c # cs \<Rightarrow> f\<lparr>cf_pending := cs, cf_out := cf_out f @ c, cf_count := cf_count f + length c\<rparr>)"

text \<open>A write that fails after \<open>k\<close> bytes.\<close>

definition copyPart :: "nat \<Rightarrow> copyFlow \<Rightarrow> copyFlow" where
  "copyPart k f = (case cf_pending f of
     [] \<Rightarrow> f | c # cs \<Rightarrow> f\<lparr>cf_pending := cs, cf_out := cf_out f @ take k c, cf_count := cf_count f + length (take k c)\<rparr>)"

text \<open>The end of a goroutine: the error of the copy joined with that of \<^verbatim>\<open>closeSend\<close>.\<close>

definition copyEnds :: "copy_error option \<Rightarrow> copy_error option \<Rightarrow> copyFlow \<Rightarrow> copyFlow" where
  "copyEnds e closeError f = f\<lparr>cf_result := Some (normalizeCopyError e @ normalizeCopyError closeError)\<rparr>"

definition returned :: "copyState \<Rightarrow> (nat \<times> nat \<times> string list) option" where
  "returned s =
     (case (cp_closed s, cp_first s) of
        (True, Some d) \<Rightarrow> Some (cf_count (cp_flow s True), cf_count (cp_flow s False),
                               the (cf_result (cp_flow s d)) @ the (cf_result (cp_flow s (\<not> d))))
      | _ \<Rightarrow> None)"

inductive copy_step :: "copyState \<Rightarrow> copyState \<Rightarrow> bool" where
  piece: "cf_result (cp_flow s d) = None \<Longrightarrow> \<not> cp_forced s \<Longrightarrow> cf_pending (cp_flow s d) \<noteq> [] \<Longrightarrow>
    copy_step s (on_flow d copyPiece s)"
| write_fails: "cf_result (cp_flow s d) = None \<Longrightarrow> \<not> cp_forced s \<Longrightarrow> cf_pending (cp_flow s d) \<noteq> [] \<Longrightarrow>
    copy_step s (on_flow d (copyEnds (Some (OtherError t)) closeError \<circ> copyPart k) s)"
| ends: "cf_result (cp_flow s d) = None \<Longrightarrow> \<not> cp_forced s \<Longrightarrow> cf_pending (cp_flow s d) = [] \<Longrightarrow>
    copy_step s (on_flow d (copyEnds (cf_end (cp_flow s d)) closeError) s)"
| cut: "cf_result (cp_flow s d) = None \<Longrightarrow> cp_forced s \<Longrightarrow> copy_step s (on_flow d (copyEnds (Some e) closeError) s)"
| first: "cp_first s = None \<Longrightarrow> cf_result (cp_flow s d) = Some es \<Longrightarrow>
    copy_step s (s\<lparr>cp_first := Some d, cp_forced := es \<noteq> []\<rparr>)"
| second: "cp_first s = Some d \<Longrightarrow> \<not> cp_closed s \<Longrightarrow> cf_result (cp_flow s (\<not> d)) = Some es \<Longrightarrow>
    copy_step s (s\<lparr>cp_closed := True\<rparr>)"

section \<open>The invariant\<close>

text \<open>\<open>src d\<close> is what the source of a direction delivers.\<close>

definition flow_ok :: "bytes \<Rightarrow> bool \<Rightarrow> copyFlow \<Rightarrow> bool" where
  "flow_ok src forced f \<longleftrightarrow>
     cf_count f = length (cf_out f) \<and> (\<exists>rest. src = cf_out f @ rest)
     \<and> (cf_result f = None \<longrightarrow> src = cf_out f @ concat (cf_pending f))
     \<and> (cf_result f = Some [] \<and> \<not> forced \<longrightarrow> src = cf_out f)"

definition copy_inv :: "(bool \<Rightarrow> bytes) \<Rightarrow> copyState \<Rightarrow> bool" where
  "copy_inv src s \<longleftrightarrow>
     (\<forall>d. flow_ok (src d) (cp_forced s) (cp_flow s d))
     \<and> (case cp_first s of
          None \<Rightarrow> \<not> cp_forced s \<and> \<not> cp_closed s
        | Some d \<Rightarrow> (\<exists>es. cf_result (cp_flow s d) = Some es \<and> cp_forced s = (es \<noteq> [])))
     \<and> (cp_closed s \<longrightarrow> (\<forall>d. cf_result (cp_flow s d) \<noteq> None))"

lemma flow_ok_piece: "flow_ok src forced f \<Longrightarrow> cf_result f = None \<Longrightarrow> flow_ok src forced (copyPiece f)"
  by (cases "cf_pending f") (auto simp: flow_ok_def copyPiece_def)

lemma flow_ok_part:
  "flow_ok src forced f \<Longrightarrow> cf_result f = None \<Longrightarrow>
   flow_ok src forced (copyEnds (Some (OtherError t)) c (copyPart k f)) "
proof (cases "cf_pending f")
  case (Cons p ps)
  assume ok: "flow_ok src forced f" "cf_result f = None"
  have "src = cf_out f @ p @ concat ps" using ok Cons by (simp add: flow_ok_def)
  then have "src = (cf_out f @ take k p) @ drop k p @ concat ps" by simp
  then show ?thesis using ok Cons by (auto simp: flow_ok_def copyPart_def copyEnds_def normalizeCopyError_def)
qed (auto simp: flow_ok_def copyPart_def copyEnds_def normalizeCopyError_def)

lemma open_result: "copy_inv src s \<Longrightarrow> cf_result (cp_flow s d) = None \<Longrightarrow> \<not> cp_closed s"
  unfolding copy_inv_def by blast

lemma inv_on_flow:
  assumes inv: "copy_inv src s" and res: "cf_result (cp_flow s d) = None" and ok: "flow_ok (src d) (cp_forced s) (f (cp_flow s d))"
  shows "copy_inv src (on_flow d f s)"
proof -
  have "e \<noteq> d" if first: "cp_first s = Some e" for e
  proof
    assume "e = d"
    then show False using inv res first by (simp add: copy_inv_def)
  qed
  then have keep: "cp_first s = Some e \<Longrightarrow> cp_flow (on_flow d f s) e = cp_flow s e" for e by (simp add: on_flow_def)
  show ?thesis
    unfolding copy_inv_def
  proof (intro conjI)
    show "\<forall>e. flow_ok (src e) (cp_forced (on_flow d f s)) (cp_flow (on_flow d f s) e)"
      using inv ok by (auto simp: copy_inv_def on_flow_def)
    show "case cp_first (on_flow d f s) of None \<Rightarrow> \<not> cp_forced (on_flow d f s) \<and> \<not> cp_closed (on_flow d f s)
        | Some e \<Rightarrow> \<exists>es. cf_result (cp_flow (on_flow d f s) e) = Some es \<and> cp_forced (on_flow d f s) = (es \<noteq> [])"
      using inv keep by (cases "cp_first s") (simp_all add: copy_inv_def, simp_all add: on_flow_def)
    show "cp_closed (on_flow d f s) \<longrightarrow> (\<forall>e. cf_result (cp_flow (on_flow d f s) e) \<noteq> None)"
      using open_result[OF inv res] by (simp add: on_flow_def)
  qed
qed

lemma copy_step_inv:
  assumes "copy_inv src s" and "copy_step s t"
  shows "copy_inv src t"
  using assms(2,1)
proof (induction rule: copy_step.induct)
  case (piece s d)
  then show ?case using flow_ok_piece by (intro inv_on_flow) (auto simp: copy_inv_def)
next
  case (write_fails s d t c k)
  then show ?case using flow_ok_part by (intro inv_on_flow) (auto simp: copy_inv_def)
next
  case (ends s d c)
  then show ?case by (intro inv_on_flow) (auto simp: copy_inv_def flow_ok_def copyEnds_def)
next
  case (cut s d e c)
  then show ?case by (intro inv_on_flow) (auto simp: copy_inv_def flow_ok_def copyEnds_def)
next
  case (first s d es)
  then have "\<not> cp_forced s" "\<not> cp_closed s" by (auto simp: copy_inv_def)
  then show ?case using first by (auto simp: copy_inv_def flow_ok_def)
next
  case (second s d es)
  have "cf_result (cp_flow s e) \<noteq> None" for e
    using second by (cases "e = d") (auto simp: copy_inv_def)
  then show ?case using second by (simp add: copy_inv_def)
qed

interpretation copy: machine copy_step "copy_inv src" for src
  by unfold_locales (rule copy_step_inv)

lemma copy_inv_start: "copy_inv (\<lambda>d. concat (if d then left else right)) (Bidirectional left le right re)"
  by (simp add: copy_inv_def flow_ok_def Bidirectional_def)

section \<open>Properties\<close>


text \<open>The steps that are left once a failure has been received.\<close>

definition copy_left :: "copyState \<Rightarrow> nat" where
  "copy_left s = (if cp_closed s then 0 else 1 + card {d. cf_result (cp_flow s d) = None})"


section \<open>Two runs\<close>

text \<open>Both peers say one piece and end; and a write that fails while the other peer is silent.\<close>

definition helloCopy :: copyState where
  "helloCopy = Bidirectional [[1, 2]] None [[3]] None"

definition step_piece :: "bool \<Rightarrow> copyState \<Rightarrow> copyState" where
  "step_piece d = on_flow d copyPiece"

definition helloEnd :: copyState where
  "helloEnd =
     (let s = on_flow False (copyEnds None None) (step_piece False (on_flow True (copyEnds None None) (step_piece True helloCopy)))
      in s\<lparr>cp_first := Some True, cp_forced := False, cp_closed := True\<rparr>)"

lemma hello_reached: "copy_step\<^sup>*\<^sup>* helloCopy helloEnd"
proof -
  let ?s1 = "on_flow True copyPiece helloCopy" let ?s2 = "on_flow True (copyEnds None None) ?s1"
  let ?s3 = "on_flow False copyPiece ?s2" let ?s4 = "on_flow False (copyEnds None None) ?s3"
  note d = helloCopy_def Bidirectional_def on_flow_def copyPiece_def copyEnds_def normalizeCopyError_def
  have 1: "copy_step helloCopy ?s1" by (rule copy_step.piece) (simp_all add: d)
  have 2: "copy_step ?s1 ?s2" using copy_step.ends[of ?s1 True None] by (simp add: d)
  have 3: "copy_step ?s2 ?s3" by (rule copy_step.piece) (simp_all add: d)
  have 4: "copy_step ?s3 ?s4" using copy_step.ends[of ?s3 False None] by (simp add: d)
  have 5: "copy_step ?s4 (?s4\<lparr>cp_first := Some True, cp_forced := False\<rparr>)"
    using copy_step.first[of ?s4 True "[]"] by (simp add: d)
  have 6: "copy_step (?s4\<lparr>cp_first := Some True, cp_forced := False\<rparr>) helloEnd"
    using copy_step.second[of "?s4\<lparr>cp_first := Some True, cp_forced := False\<rparr>" True "[]"]
    by (simp add: d helloEnd_def step_piece_def Let_def)
  note more = converse_rtranclp_into_rtranclp[where r = copy_step]
  show ?thesis by (rule more[OF 1 more[OF 2 more[OF 3 more[OF 4 more[OF 5 more[OF 6 rtranclp.rtrancl_refl]]]]]])
qed


definition brokenCopy :: copyState where
  "brokenCopy = (on_flow True (copyEnds (Some (OtherError ''reset'')) None \<circ> copyPart 1) helloCopy)\<lparr>cp_first := Some True, cp_forced := True\<rparr>"

lemma broken_reached: "copy_step\<^sup>*\<^sup>* helloCopy brokenCopy"
proof -
  let ?s1 = "on_flow True (copyEnds (Some (OtherError ''reset'')) None \<circ> copyPart 1) helloCopy"
  note d = helloCopy_def Bidirectional_def on_flow_def copyPart_def copyEnds_def normalizeCopyError_def
  have "copy_step helloCopy ?s1" by (rule copy_step.write_fails) (simp_all add: d)
  moreover have "copy_step ?s1 brokenCopy" using copy_step.first[of ?s1 True "[''reset'']"] by (simp add: brokenCopy_def d)
  ultimately show ?thesis by (meson rtranclp.rtrancl_refl rtranclp.rtrancl_into_rtrancl)
qed


end
