(* ===== verification/Metrics.thy ===== *)
theory Metrics
  imports Edge_Server
begin

text \<open>
  The metrics page of the status server (\<^verbatim>\<open>status/status.go\<close>, \<^verbatim>\<open>writeRegistryMetrics\<close>, \<^verbatim>\<open>writeHistogram\<close>, the \<^verbatim>\<open>/metrics\<close> handler) and
  the administration listener. A page is the list of its sample lines; the lines of a Go map come in the order that the
  iteration happens to take, which is an argument where the model has a map. After a refresh the page describes the registry.
\<close>

section \<open>The samples\<close>

text \<open>The texts of the bounds of the buckets.\<close>

definition bucketTexts :: "string list" where
  "bucketTexts = [''0.01'', ''0.05'', ''0.1'', ''0.25'', ''0.5'', ''1'', ''5'', ''30'']"

text \<open>The sum is in nanoseconds here; the page shows it in seconds.\<close>

definition writeHistogram :: "string \<Rightarrow> metricHistogram \<Rightarrow> sample list" where
  "writeHistogram name h =
     map2 (\<lambda>bound n. (name @ ''_bucket'', [(''le'', bound)], int n)) bucketTexts (mh_buckets h)
     @ [(name @ ''_bucket'', [(''le'', ''+Inf'')], int (mh_count h)), plain (name @ ''_sum'') (mh_sum h),
        plain (name @ ''_count'') (int (mh_count h))]"

fun regStateText :: "reg_state \<Rightarrow> string" where
  "regStateText Approved = ''approved''"
| "regStateText Ready = ''ready''"
| "regStateText Revoked = ''revoked''"
| "regStateText LeaseExpired = ''expired''"

definition registrationSamples :: "(reg_state \<times> string) list \<Rightarrow> Stats \<Rightarrow> sample list" where
  "registrationSamples order r =
     List.map_filter (\<lambda>(s, l). map_option (\<lambda>n. (''tailbridge_registrations'', [(''state'', regStateText s), (''lease_class'', l)], int n))
                                 (st_RegistrationState r (s, l))) order"

definition labelled :: "string \<Rightarrow> ((string \<times> string) \<times> nat) list \<Rightarrow> sample list" where
  "labelled name m = map (\<lambda>((result, reason), n). (name, [(''result'', result), (''reason'', reason)], int n)) m"

definition writeRegistryMetrics :: "(reg_state \<times> string) list \<Rightarrow> Server \<Rightarrow> sample list" where
  "writeRegistryMetrics order s =
     (let r = sv_registryStats s in
      [plain ''tailbridge_routes_pending'' (int (st_RoutesPending r)),
       plain ''tailbridge_certificates_expiring'' (int (st_CertificatesSoon r)),
       plain ''tailbridge_leases_expiring'' (int (st_LeasesSoon r))]
      @ registrationSamples order r
      @ labelled ''tailbridge_registration_attempts_total'' (sv_registrationAttempts s)
      @ writeHistogram ''tailbridge_registration_latency_seconds'' (sv_registrationLatency s)
      @ labelled ''tailbridge_oidc_validation_total'' (sv_oidcValidations s)
      @ writeHistogram ''tailbridge_route_reconcile_seconds'' (sv_routeReconcile s)
      @ map (\<lambda>(result, n). (''tailbridge_route_reconcile_total'', [(''result'', result)], int n)) (sv_routeReconcileResults s))"

definition metricsPage :: "time \<Rightarrow> (reg_state \<times> string) list \<Rightarrow> Server \<Rightarrow> sample list" where
  "metricsPage now order s =
     metricsCore now s @ writeConnectorMetrics (sn_Connectors (SnapshotOf now s)) @ writeRegistryMetrics order s"

section \<open>The listener\<close>

text \<open>The end of \<^verbatim>\<open>http.Server.Serve\<close>: the server was shut down, or an error.\<close>

datatype serve_end = ServerClosed | ServeFailed string

text \<open>
  \<^verbatim>\<open>Serve\<close>: either the server ends by itself first, or the context ends first; then the server is shut down (which may fail)
  and its end awaited.
\<close>

definition serveAdmin :: "serve_end option \<Rightarrow> string option \<Rightarrow> serve_end \<Rightarrow> string option" where
  "serveAdmin first shutdown final =
     (case first of
        Some ServerClosed \<Rightarrow> None
      | Some (ServeFailed e) \<Rightarrow> Some e
      | None \<Rightarrow>
          (case shutdown of
             Some e \<Rightarrow> Some e
           | None \<Rightarrow> (case final of ServerClosed \<Rightarrow> None | ServeFailed e \<Rightarrow> Some e)))"

section \<open>The page and the registry\<close>

lemma refreshFromStore_stats:
  assumes "refreshFromStore now d s = (s', None)"
  shows "sv_registryStats (es_status s') = StatsOf now d"
  using assms
  by (cases "ActiveRegistrations now d")
     (auto simp: refreshFromStore_def refreshDynamic_def on_status_def SetRegistryMetrics_def Let_def split: prod.splits)

lemma count_group:
  assumes "distinct ks" and "\<forall>x \<in> set xs. f x \<in> set ks"
  shows "(\<Sum>k\<leftarrow>ks. count_where (\<lambda>x. f x = k) xs) = length xs"
  using assms(2)
proof (induction xs)
  case (Cons x xs)
  have "(\<Sum>k\<leftarrow>ks. count_where (\<lambda>y. f y = k) (x # xs)) = (\<Sum>k\<leftarrow>ks. (if f x = k then 1 else 0) + count_where (\<lambda>y. f y = k) xs)"
    by (intro arg_cong[of _ _ sum_list] map_cong) (auto simp: count_where_def)
  also have "\<dots> = (\<Sum>k\<leftarrow>ks. if f x = k then 1 else 0) + (\<Sum>k\<leftarrow>ks. count_where (\<lambda>y. f y = k) xs)"
    by (rule sum_list_addf)
  also have "(\<Sum>k\<leftarrow>ks. if f x = k then 1 else 0 :: nat) = 1"
    using assms(1) Cons.prems by (simp add: sum_list_distinct_conv_sum_set)
  finally show ?case using Cons by simp
qed (simp add: count_where_def)

text \<open>
  After a refresh the samples of the registrations describe the registry: each one counts the registrations of its state and
  lease class, and together they count all of them, in whatever order the lines come.
\<close>

theorem registrations_counted:
  assumes "refreshFromStore now d s = (s', None)"
    and "distinct order" "set order = dom (st_RegistrationState (StatsOf now d))"
  shows "registrationSamples order (sv_registryStats (es_status s')) =
      map (\<lambda>(st, l). (''tailbridge_registrations'', [(''state'', regStateText st), (''lease_class'', l)],
             int (count_where (\<lambda>r. r_state r = st \<and> r_lease_class r = l) (registrations d)))) order"
    and "(\<Sum>(_, _, n)\<leftarrow>registrationSamples order (sv_registryStats (es_status s')). n) = int (length (registrations d))"
proof -
  let ?n = "\<lambda>(st, l). count_where (\<lambda>r. r_state r = st \<and> r_lease_class r = l) (registrations d)"
  have dom: "st_RegistrationState (StatsOf now d) k = (if ?n k = 0 then None else Some (?n k))" for k
    by (cases k) (simp add: StatsOf_def Let_def)
  have some: "st_RegistrationState (StatsOf now d) k = Some (?n k)" if "k \<in> set order" for k
    using that assms(3) dom[of k] by (auto split: if_splits)
  have "registrationSamples ks (StatsOf now d) =
      map (\<lambda>(st, l). (''tailbridge_registrations'', [(''state'', regStateText st), (''lease_class'', l)], int (?n (st, l)))) ks"
    if "set ks \<subseteq> set order" for ks
    using that
  proof (induction ks)
    case (Cons k ks)
    obtain st l where k: "k = (st, l)" by (cases k)
    then have "st_RegistrationState (StatsOf now d) (st, l) = Some (?n (st, l))" using some[of k] Cons.prems by simp
    then show ?case using Cons k by (simp add: registrationSamples_def)
  qed (simp add: registrationSamples_def)
  then show samples: "registrationSamples order (sv_registryStats (es_status s')) =
      map (\<lambda>(st, l). (''tailbridge_registrations'', [(''state'', regStateText st), (''lease_class'', l)],
             int (count_where (\<lambda>r. r_state r = st \<and> r_lease_class r = l) (registrations d)))) order"
    using refreshFromStore_stats[OF assms(1)] by simp
  have "\<forall>r \<in> set (registrations d). (r_state r, r_lease_class r) \<in> set order"
  proof
    fix r assume "r \<in> set (registrations d)"
    then have "?n (r_state r, r_lease_class r) \<noteq> 0" by (auto simp: count_where_def filter_empty_conv)
    then show "(r_state r, r_lease_class r) \<in> set order" using assms(3) dom[of "(r_state r, r_lease_class r)"] by (auto split: if_splits)
  qed
  then have "(\<Sum>k\<leftarrow>order. count_where (\<lambda>r. (r_state r, r_lease_class r) = k) (registrations d)) = length (registrations d)"
    by (rule count_group[OF assms(2)])
  then have "(\<Sum>k\<leftarrow>order. ?n k) = length (registrations d)" by (simp add: case_prod_beta prod_eq_iff)
  moreover have "(\<Sum>k\<leftarrow>ks. int (?n k)) = int (\<Sum>k\<leftarrow>ks. ?n k)" for ks by (induction ks) simp_all
  ultimately have "(\<Sum>k\<leftarrow>order. int (?n k)) = int (length (registrations d))" by simp
  then show "(\<Sum>(_, _, n)\<leftarrow>registrationSamples order (sv_registryStats (es_status s')). n) = int (length (registrations d))"
    unfolding samples by (simp add: comp_def case_prod_beta)
qed

end
