(* ===== verification/Observability.thy ===== *)
theory Observability
  imports Complex_Main Config_Load
begin

text \<open>
  Package \<^verbatim>\<open>internal/observability\<close> (\<^verbatim>\<open>observability.go\<close>): which exporters a process starts, with which sampling rates, and how
  they are stopped. The exporters and the parsing of a float are of libraries; starting them is an event that may fail.
\<close>

datatype float_value = NotANumber | Number rat

record obsHost =
  oh_parseFloat :: "string \<Rightarrow> float_value option"
  oh_exporter :: "string option"
  oh_sentry :: "string option"
  oh_providerStop :: "string option"
  oh_flushed :: bool

datatype obs_event = ProviderStarted rat | SentryStarted string rat | SentryFlushed | ProviderStopped

datatype obs_error = RateNotValid string | ExporterFailed string | SentryFailed string

definition sampleRate :: "obsHost \<Rightarrow> environment \<Rightarrow> string \<Rightarrow> rat \<Rightarrow> obs_error + rat" where
  "sampleRate host os name fallback =
     (if os name = [] then Inr fallback
      else case oh_parseFloat host (os name) of
          Some (Number v) \<Rightarrow> if v < 0 \<or> v > 1 then Inl (RateNotValid name) else Inr v
        | _ \<Rightarrow> Inl (RateNotValid name))"

definition exporterRate :: "obsHost \<Rightarrow> environment \<Rightarrow> string \<Rightarrow> string \<Rightarrow> obs_error + rat" where
  "exporterRate host os enabled name = (if os enabled \<noteq> [] then sampleRate host os name (1 / 100) else Inr (1 / 100))"

definition stopProvider :: "obsHost \<Rightarrow> bool \<Rightarrow> obs_event list \<times> string list" where
  "stopProvider host provider = (if provider then ([ProviderStopped], case oh_providerStop host of None \<Rightarrow> [] | Some e \<Rightarrow> [e]) else ([], []))"

text \<open>The set-up with the events that it causes; a success tells which of the two exporters run.\<close>

definition Setup :: "obsHost \<Rightarrow> environment \<Rightarrow> string \<Rightarrow> obs_event list \<times> (obs_error + bool \<times> bool)" where
  "Setup host os version =
     (let otel = os ''OTEL_EXPORTER_OTLP_ENDPOINT'' \<noteq> []; dsn = os ''SENTRY_DSN'' \<noteq> [] in
      case exporterRate host os ''OTEL_EXPORTER_OTLP_ENDPOINT'' ''OTEL_TRACES_SAMPLER_ARG'' of
        Inl e \<Rightarrow> ([], Inl e)
      | Inr otelRate \<Rightarrow>
          (case exporterRate host os ''SENTRY_DSN'' ''SENTRY_TRACES_SAMPLE_RATE'' of
             Inl e \<Rightarrow> ([], Inl e)
           | Inr sentryRate \<Rightarrow>
               (case (if otel then oh_exporter host else None) of
                  Some e \<Rightarrow> ([], Inl (ExporterFailed e))
                | None \<Rightarrow>
                    (let started = (if otel then [ProviderStarted otelRate] else []);
                         release = (if os ''SENTRY_RELEASE'' \<noteq> [] then os ''SENTRY_RELEASE'' else version) in
                     case (if dsn then oh_sentry host else None) of
                       Some e \<Rightarrow> (started @ fst (stopProvider host otel), Inl (SentryFailed e))
                     | None \<Rightarrow> (started @ (if dsn then [SentryStarted release sentryRate] else []), Inr (otel, dsn))))))"

definition shutdownObservability :: "obsHost \<Rightarrow> bool \<times> bool \<Rightarrow> obs_event list \<times> string list" where
  "shutdownObservability host running =
     (let (provider, dsn) = running; (events, errors) = stopProvider host provider in
      ((if dsn then [SentryFlushed] else []) @ events,
       (if dsn \<and> \<not> oh_flushed host then [''Sentry did not flush before the timeout''] else []) @ errors))"

text \<open>
  Every sampling rate that is used lies between 0 and 1. A set-up that fails leaves no exporter running; after a success the
  shutdown stops exactly what was started.
\<close>

lemma sampleRate_range: "sampleRate host os name fallback = Inr r \<Longrightarrow> 0 \<le> fallback \<Longrightarrow> fallback \<le> 1 \<Longrightarrow> 0 \<le> r \<and> r \<le> 1"
  by (auto simp: sampleRate_def split: if_splits option.splits float_value.splits)

lemma exporterRate_range: "exporterRate host os enabled name = Inr r \<Longrightarrow> 0 \<le> r \<and> r \<le> 1"
  by (auto simp: exporterRate_def dest!: sampleRate_range split: if_splits)

theorem setup_sound:
  assumes "Setup host os version = (events, result)"
  shows "(\<forall>r. ProviderStarted r \<in> set events \<longrightarrow> 0 \<le> r \<and> r \<le> 1) \<and> (\<forall>x r. SentryStarted x r \<in> set events \<longrightarrow> 0 \<le> r \<and> r \<le> 1)"
    and "result = Inl e \<Longrightarrow> (\<exists>r. ProviderStarted r \<in> set events) = (ProviderStopped \<in> set events) \<and> (\<forall>x r. SentryStarted x r \<notin> set events)"
    and "result = Inr running \<Longrightarrow> (\<exists>r. ProviderStarted r \<in> set events) = (ProviderStopped \<in> set (fst (shutdownObservability host running)))
      \<and> (\<exists>x r. SentryStarted x r \<in> set events) = (SentryFlushed \<in> set (fst (shutdownObservability host running)))"
  using assms
  by (auto simp: Setup_def shutdownObservability_def stopProvider_def Let_def dest: exporterRate_range
      split: sum.splits option.splits if_splits prod.splits)

end
