(* ===== verification/Commands.thy ===== *)
theory Commands
  imports Edge_Run Connector_Run Approval_Props Observability
begin

text \<open>
  The commands of the edge and of the connector (\<^verbatim>\<open>cmd/tailbridge-edge/main.go\<close>, \<^verbatim>\<open>cmd/tailbridge-connector/main.go\<close>): the
  start-up in its order with every early return, and the exit code. What the host provides (exporters, the administration
  listener, the database file, the intermediate certificate) is a record; the servers that then run side by side are one
  argument. A started edge is valid, its registry is consistent and it serves exactly the static and the active prefixes.
\<close>

section \<open>The edge\<close>

text \<open>\<open>eh_issuer\<close> is the intermediate certificate with its key, if they can be parsed and belong together.\<close>

record edgeHost =
  eh_observability :: obsHost
  eh_issuer :: "certificate option"
  eh_create :: "certificate \<Rightarrow> bool"
  eh_random :: nat
  eh_admin :: "string option"
  eh_open :: "string option"
  eh_urlParse :: "string \<Rightarrow> (string \<times> string) option"
  eh_policies :: "OPolicy list option"
  eh_version :: string

datatype start_error =
    ConfigurationNotValid config_error | ObservabilityFailed obs_error | IntermediateUnreadable | CertificateNotIssued issue_error
  | AdminNotBound string | RegistryNotOpened string | PoolNotInitialized registry_error | StaticNotImported registry_error
  | DynamicNotLoaded registry_error | ApprovalNotConfigured approval_error | RegistrationFailed client_error

record startedEdge =
  se_config :: Edge
  se_manager :: "EdgeManager option"
  se_server :: edgeServer
  se_approval :: "ApprovalServer option"
  se_registration :: "EnrollServer option"

definition NewEnrollServer :: "certificate option \<Rightarrow> Edge \<Rightarrow> Server \<Rightarrow> start_error + EnrollServer" where
  "NewEnrollServer issuer cfg st =
     (case issuer of
        None \<Rightarrow> Inl IntermediateUnreadable
      | Some i \<Rightarrow> Inr \<lparr>ns_config = cfg, ns_issuer = i, ns_source = [], ns_status = st\<rparr>)"

definition startManager :: "edgeHost \<Rightarrow> time \<Rightarrow> Edge \<Rightarrow> start_error + EdgeManager option" where
  "startManager host now cfg =
     (if ed_RegistrationMode cfg = ''static'' then Inr None
      else case eh_issuer host of
          None \<Rightarrow> Inl IntermediateUnreadable
        | Some issuer \<Rightarrow>
            (case NewEdgeManager (eh_create host) now (eh_random host) (co_EdgeID (ed_Common cfg)) issuer of
               Inl e \<Rightarrow> Inl (CertificateNotIssued e)
             | Inr m \<Rightarrow> Inr (Some m)))"

definition importedTargets :: "Edge \<Rightarrow> StaticRegistration list" where
  "importedTargets cfg =
     map (\<lambda>t. \<lparr>sr_ProjectID = ct_ProjectID t, sr_EnvironmentID = ct_Environment t, sr_EnvironmentName = ct_EnvironmentName t,
               sr_ConnectorID = ct_ConnectorID t, sr_VirtualPrefix = ct_VirtualPrefix t, sr_RealPrefix = ct_RealPrefix t\<rparr>)
       (filter (\<lambda>t. ct_ProjectID t \<noteq> []) (ed_Connectors cfg))"

definition importStatics :: "time \<Rightarrow> Edge \<Rightarrow> db \<Rightarrow> registry_error + db" where
  "importStatics now cfg d = (if ed_RegistrationMode cfg = ''migration'' then ImportStatic now d (importedTargets cfg) else Inr d)"

text \<open>The servers over the registry: the registry is returned in every case, with what was committed before an error.\<close>

definition startServices :: "edgeHost \<Rightarrow> time \<Rightarrow> Edge \<Rightarrow> Server \<Rightarrow> db \<Rightarrow> start_error + edgeServer \<times> ApprovalServer \<times> EnrollServer" where
  "startServices host now cfg st d =
     (case NewWithStore cfg st (and_then (ActiveRegistrations now d) (\<lambda>rs. Inr (rs, StatsOf now d))) of
        Inl e \<Rightarrow> Inl (DynamicNotLoaded e)
      | Inr s \<Rightarrow>
          (case NewApprovalServer (eh_urlParse host) (eh_policies host) (eh_issuer host) cfg (Some (es_status s)) of
             Inl e \<Rightarrow> Inl (ApprovalNotConfigured e)
           | Inr a \<Rightarrow>
               (case NewEnrollServer (eh_issuer host) cfg (es_status s) of Inl e \<Rightarrow> Inl e | Inr n \<Rightarrow> Inr (s, a, n))))"

definition startRegistry ::
    "edgeHost \<Rightarrow> time \<Rightarrow> Edge \<Rightarrow> Server \<Rightarrow> db \<Rightarrow> db \<times> (start_error + edgeServer \<times> ApprovalServer \<times> EnrollServer)" where
  "startRegistry host now cfg st d =
     (case eh_open host of
        Some e \<Rightarrow> (d, Inl (RegistryNotOpened e))
      | None \<Rightarrow>
          (case InitializePool d (ed_VirtualNetwork cfg) (ed_ExcludedPrefixes cfg) of
             Inl e \<Rightarrow> (d, Inl (PoolNotInitialized e))
           | Inr d1 \<Rightarrow>
               (case importStatics now cfg d1 of
                  Inl e \<Rightarrow> (d1, Inl (StaticNotImported e))
                | Inr d2 \<Rightarrow> (d2, startServices host now cfg st d2))))"

definition startEdge ::
    "(bytes \<Rightarrow> (connectorTargetJSON list \<times> bool) option) \<Rightarrow> (bytes \<Rightarrow> (string list \<times> bool) option) \<Rightarrow> environment \<Rightarrow> edgeHost \<Rightarrow> time \<Rightarrow> db
     \<Rightarrow> db \<times> (start_error + startedEdge)" where
  "startEdge targets strings os host now d =
     (case LoadEdge targets strings os of
        Inl e \<Rightarrow> (d, Inl (ConfigurationNotValid e))
      | Inr cfg \<Rightarrow>
          (case Setup (eh_observability host) os (eh_version host) of
             (_, Inl e) \<Rightarrow> (d, Inl (ObservabilityFailed e))
           | (_, Inr _) \<Rightarrow>
               (case startManager host now cfg of
                  Inl e \<Rightarrow> (d, Inl e)
                | Inr manager \<Rightarrow>
                    (case eh_admin host of
                       Some e \<Rightarrow> (d, Inl (AdminNotBound e))
                     | None \<Rightarrow>
                         (let s0 = NewEdge cfg (New (eh_version host)) in
                          if ed_RegistrationMode cfg = ''static''
                          then (d, Inr \<lparr>se_config = cfg, se_manager = manager, se_server = s0, se_approval = None, se_registration = None\<rparr>)
                          else case startRegistry host now cfg (es_status s0) d of
                              (d1, Inl e) \<Rightarrow> (d1, Inl e)
                            | (d1, Inr (s, a, n)) \<Rightarrow>
                                (d1, Inr \<lparr>se_config = cfg, se_manager = manager, se_server = s, se_approval = Some a,
                                         se_registration = Some n\<rparr>))))))"

text \<open>The whole command: \<open>servers\<close> is what the servers do until the first of them fails or the context ends.\<close>

definition edgeCommand ::
    "(db \<times> (start_error + startedEdge)) \<Rightarrow> (startedEdge \<Rightarrow> db \<Rightarrow> db \<times> string option) \<Rightarrow> bool \<Rightarrow> db \<times> nat" where
  "edgeCommand start servers cancelled =
     (case start of
        (d, Inl _) \<Rightarrow> (d, 2)
      | (d, Inr e) \<Rightarrow> (let (d1, failure) = servers e d in (d1, if failure \<noteq> None \<and> \<not> cancelled then 1 else 0)))"

section \<open>The connector\<close>

record connectorHost =
  ch_observability :: obsHost
  ch_admin :: "string option"
  ch_version :: string

text \<open>\<open>ensure\<close> is \<^verbatim>\<open>enrollment.Ensure\<close> with what it gets from the outside; a start-up that fails has its exit code.\<close>

definition startConnector ::
    "dnslib \<Rightarrow> (ConnectorConfig \<Rightarrow> client_error + ConnectorConfig) \<Rightarrow> (string \<Rightarrow> bool) \<Rightarrow> environment \<Rightarrow> connectorHost \<Rightarrow> time
     \<Rightarrow> start_error \<times> nat + Client" where
  "startConnector lib ensure missing os host now =
     (case LoadConnector missing os of
        Inl e \<Rightarrow> Inl (ConfigurationNotValid e, 2)
      | Inr cfg \<Rightarrow>
          (case (if cc_RegistrationMode cfg = ''dynamic'' then ensure cfg else Inr cfg) of
             Inl e \<Rightarrow> Inl (RegistrationFailed e, 1)
           | Inr cfg1 \<Rightarrow>
               (case Setup (ch_observability host) os (ch_version host) of
                  (_, Inl e) \<Rightarrow> Inl (ObservabilityFailed e, 2)
                | (_, Inr _) \<Rightarrow>
                    (case ch_admin host of
                       Some e \<Rightarrow> Inl (AdminNotBound e, 2)
                     | None \<Rightarrow> Inr (NewClient lib now cfg1 (ch_version host))))))"

text \<open>
  The exit code: \<open>servers\<close> is the result of the administration server and of the run of the client; an error of the client
  counts only while the group runs.
\<close>

definition connectorCommand :: "(start_error \<times> nat + Client) \<Rightarrow> (Client \<Rightarrow> string option) \<Rightarrow> bool \<Rightarrow> nat" where
  "connectorCommand start servers cancelled =
     (case start of Inl (_, code) \<Rightarrow> code | Inr c \<Rightarrow> (if servers c \<noteq> None \<and> \<not> cancelled then 1 else 0))"

section \<open>A started edge\<close>

lemma importedTargets_canonical:
  assumes "edge_valid cfg"
  shows "\<forall>s \<in> set (importedTargets cfg). canonical16 (sr_VirtualPrefix s)"
  using assms by (auto simp: edge_valid_def importedTargets_def canonical16_def target_ok_def list_all_iff)

lemma startRegistry_inv:
  assumes "edge_valid cfg" and "registry_inv d" and "startRegistry host now cfg st d = (d', result)"
  shows "registry_inv d'"
  using assms importedTargets_canonical[OF assms(1)]
  by (auto simp: startRegistry_def importStatics_def split: option.splits sum.splits if_splits
      intro: inv_InitializePool inv_ImportStatic)

lemma NewWithStore_started:
  assumes valid: "edge_valid cfg" and new: "NewWithStore cfg st answer = Inr s"
  obtains regs stats where "answer = Inr (regs, stats)" "\<exists>r. edge_step\<^sup>*\<^sup>* (startRun cfg st) r \<and> er_server r = s"
    "servedPrefixes s = ct_VirtualPrefix ` set (ed_Connectors cfg) \<union> rg_VirtualPrefix ` {r \<in> set regs. rg_IdentityType r = DynamicV3}"
proof -
  have s: "refreshDynamic answer (NewEdge cfg st) = (s, None)"
    using new by (auto simp: NewWithStore_def split: prod.splits option.splits)
  obtain regs stats where a: "answer = Inr (regs, stats)"
    using s by (cases answer) (auto simp: refreshDynamic_def)
  have inv: "run_inv (startRun cfg st)" using valid by (intro run_inv_start) (simp add: edge_valid_def)
  have ok: "registry_ok (NewEdge cfg st)" "statics_ok (NewEdge cfg st)"
    using run_inv_parts(1)[OF inv] statics_ok_start[OF valid, of st] by (simp_all add: startRun_def)
  have cfg: "es_config (NewEdge cfg st) = cfg" by (simp add: NewEdge_def Let_def)
  let ?r = "(startRun cfg st)\<lparr>er_server := fst (refreshDynamic answer (er_server (startRun cfg st)))\<rparr>"
  have "edge_step (startRun cfg st) ?r" by (rule edge_step.refresh)
  moreover have "er_server ?r = s" using s by (simp add: startRun_def)
  ultimately have "\<exists>r. edge_step\<^sup>*\<^sup>* (startRun cfg st) r \<and> er_server r = s" by blast
  then show ?thesis using that[OF a] refreshDynamic_served(2)[OF ok a] s cfg by auto
qed

lemma NewEdge_served: "servedPrefixes (NewEdge cfg st) = ct_VirtualPrefix ` set (ed_Connectors cfg)"
proof -
  have "(\<lambda>e. ct_VirtualPrefix (ed_Connectors cfg ! e)) ` {..<length (ed_Connectors cfg)} = ct_VirtualPrefix ` set (ed_Connectors cfg)"
    by (force simp: in_set_conv_nth)
  moreover have "servedPrefixes (NewEdge cfg st) = (\<lambda>e. ct_VirtualPrefix (ed_Connectors cfg ! e)) ` {..<length (ed_Connectors cfg)}"
    by (auto simp: servedPrefixes_def NewEdge_def newEntry_def Let_def)
  ultimately show ?thesis by simp
qed

lemma startManager_certificate:
  assumes "startManager host now cfg = Inr m" and "ed_RegistrationMode cfg \<noteq> ''static''"
  shows "\<exists>manager c. m = Some manager \<and> GetCertificate manager = Some c \<and> ce_CommonName c = ''tailbridge-edge-'' @ co_EdgeID (ed_Common cfg)
    \<and> ce_NotBefore c < now \<and> now < ce_NotAfter c"
  using assms
  by (auto simp: startManager_def NewEdgeManager_def rotate_def IssueEdge_def GetCertificate_def edgeCertificateLifetime_def Let_def split: option.splits sum.splits if_splits)

lemma startRegistry_started:
  assumes valid: "edge_valid cfg" and start: "startRegistry host now cfg st d = (d', Inr (s, a, n))"
  shows "\<exists>st r. edge_step\<^sup>*\<^sup>* (startRun cfg st) r \<and> er_server r = s"
    and "\<exists>regs. ActiveRegistrations now d' = Inr regs
      \<and> servedPrefixes s = ct_VirtualPrefix ` set (ed_Connectors cfg) \<union> rg_VirtualPrefix ` {r \<in> set regs. rg_IdentityType r = DynamicV3}"
proof -
  have "startServices host now cfg st d' = Inr (s, a, n)"
    using start by (auto simp: startRegistry_def split: option.splits sum.splits)
  then have new: "NewWithStore cfg st (and_then (ActiveRegistrations now d') (\<lambda>rs. Inr (rs, StatsOf now d'))) = Inr s"
    by (auto simp: startServices_def split: sum.splits)
  show "\<exists>st r. edge_step\<^sup>*\<^sup>* (startRun cfg st) r \<and> er_server r = s" using NewWithStore_started[OF valid new] by blast
  show "\<exists>regs. ActiveRegistrations now d' = Inr regs
      \<and> servedPrefixes s = ct_VirtualPrefix ` set (ed_Connectors cfg) \<union> rg_VirtualPrefix ` {r \<in> set regs. rg_IdentityType r = DynamicV3}"
  proof (rule NewWithStore_started[OF valid new])
    fix regs stats
    assume "and_then (ActiveRegistrations now d') (\<lambda>rs. Inr (rs, StatsOf now d')) = Inr (regs, stats)"
      and "servedPrefixes s = ct_VirtualPrefix ` set (ed_Connectors cfg) \<union> rg_VirtualPrefix ` {r \<in> set regs. rg_IdentityType r = DynamicV3}"
    then show ?thesis by (cases "ActiveRegistrations now d'") auto
  qed
qed

lemma startEdge_cases:
  assumes "startEdge targets strings os host now d = (d', result)"
  obtains (early) x where "d' = d" "result = Inl x"
  | (static) cfg m where "LoadEdge targets strings os = Inr cfg" "ed_RegistrationMode cfg = ''static''" "d' = d"
      "result = Inr \<lparr>se_config = cfg, se_manager = m, se_server = NewEdge cfg (New (eh_version host)), se_approval = None, se_registration = None\<rparr>"
  | (failed) cfg x where "LoadEdge targets strings os = Inr cfg"
      "startRegistry host now cfg (es_status (NewEdge cfg (New (eh_version host)))) d = (d', Inl x)" "result = Inl x"
  | (services) cfg m s a n where "LoadEdge targets strings os = Inr cfg" "ed_RegistrationMode cfg \<noteq> ''static''" "startManager host now cfg = Inr m"
      "startRegistry host now cfg (es_status (NewEdge cfg (New (eh_version host)))) d = (d', Inr (s, a, n))"
      "result = Inr \<lparr>se_config = cfg, se_manager = m, se_server = s, se_approval = Some a, se_registration = Some n\<rparr>"
  using assms by (auto simp: startEdge_def Let_def split: option.splits sum.splits if_splits prod.splits)


section \<open>A concrete start\<close>

definition startHost :: edgeHost where
  "startHost = \<lparr>eh_observability = \<lparr>oh_parseFloat = (\<lambda>_. None), oh_exporter = None, oh_sentry = None, oh_providerStop = None, oh_flushed = True\<rparr>, eh_issuer = Some sampleIntermediate, eh_create = signs, eh_random = 5, eh_admin = None,
     eh_open = None, eh_urlParse = sampleURL, eh_policies = Some [samplePolicy], eh_version = ''v''\<rparr>"

lemma registrations_pool:
  "registrations (foldl (\<lambda>d slot. if list_ex (prefixesOverlap (f slot)) xs then d else insert_free d (f slot)) d slots) =
     registrations d"
  by (induction slots arbitrary: d) (simp_all add: insert_free_def)

lemma start_observability: "Setup host (environment_of edgeVars) version = ([], Inr (False, False))"
  by (simp add: Setup_def exporterRate_def environment_of_def edgeVars_def)

lemma start_pool: "pool_network fd40_10"
  by code_simp

lemma start_manager: "\<exists>m. NewEdgeManager signs (hours 1) 5 ''edge'' sampleIntermediate = Inr m"
proof -
  have "case NewEdgeManager signs (hours 1) 5 ''edge'' sampleIntermediate of Inr _ \<Rightarrow> True | Inl _ \<Rightarrow> False" by code_simp
  then show ?thesis by (auto split: sum.splits)
qed

text \<open>A dynamic edge that starts with an empty database.\<close>

lemma start_runs:
  "\<exists>d' e. startEdge (\<lambda>_. None) (\<lambda>_. None) (environment_of edgeVars) startHost (hours 1) empty_db = (d', Inr e)
     \<and> ed_RegistrationMode (se_config e) = ''dynamic'' \<and> ed_Connectors (se_config e) = [] \<and> registrations d' = []"
proof -
  obtain cfg where cfg: "LoadEdge (\<lambda>_. None) (\<lambda>_. None) (environment_of edgeVars) = Inr cfg" "ed_RegistrationMode cfg = ''dynamic''"
      "co_EdgeID (ed_Common cfg) = ''edge''" "pool_network (ed_VirtualNetwork cfg)" "ed_Connectors cfg = []"
    using edge_loads start_pool by metis
  obtain m where m: "NewEdgeManager signs (hours 1) 5 ''edge'' sampleIntermediate = Inr m" using start_manager by blast
  obtain d1 where d1: "InitializePool empty_db (ed_VirtualNetwork cfg) (ed_ExcludedPrefixes cfg) = Inr d1" "registrations d1 = []"
    using cfg(4) by (simp add: InitializePool_def Let_def registrations_pool) (simp add: empty_db_def)
  have active: "ActiveRegistrations (hours 1) d1 = Inr []" using d1(2) by (simp add: ActiveRegistrations_def)
  have "\<exists>x. startServices startHost (hours 1) cfg st d1 = Inr x" for st
  proof -
    obtain s where "NewWithStore cfg st (Inr ([], StatsOf (hours 1) d1)) = Inr s"
      by (auto simp: NewWithStore_def refreshDynamic_def split: prod.splits)
    then show ?thesis
      using sampleValidator_new active by (simp add: startServices_def startHost_def NewApprovalServer_def NewEnrollServer_def)
  qed
  then obtain s a n where "startServices startHost (hours 1) cfg (es_status (NewEdge cfg (New ''v''))) d1 = Inr (s, a, n)"
    by (metis prod_cases3)
  then show ?thesis
    using cfg m d1 by (auto simp: startEdge_def startManager_def startRegistry_def importStatics_def Let_def startHost_def start_observability)
qed


end
