(* ===== verification/Init_Props.thy ===== *)
theory Init_Props
  imports Init_Cmd
begin

text \<open>
  The installation of the generated files is all or nothing: a success leaves every file with its new content, a failure
  whose clean-up succeeds leaves the file system as it was, whichever call to the operating system fails. The generated
  settings lack what the loaders of the edge and the connector require.
\<close>

section \<open>Where the files are\<close>

text \<open>
  The names a file uses: its path, its temporary file and its backup. \<open>placed\<close> says what they hold in terms of the file
  system \<open>F\<close> before the command, \<open>layout\<close> that everything else is as before.
\<close>

definition locs :: "secretFile \<Rightarrow> string list" where
  "locs f = [sf_path f] @ (if sf_temp f = [] then [] else [sf_temp f]) @ (if sf_backup f = [] then [] else [sf_backup f])"

definition placed :: "(string \<Rightarrow> string option) \<Rightarrow> (string \<Rightarrow> string option) \<Rightarrow> secretFile \<Rightarrow> bool" where
  "placed F M f \<longleftrightarrow>
     M (sf_path f) = (if sf_created f then Some (sf_content f) else if sf_backup f \<noteq> [] then None else F (sf_path f))
     \<and> (sf_temp f \<noteq> [] \<longrightarrow> M (sf_temp f) = Some (sf_content f) \<and> F (sf_temp f) = None)
     \<and> (sf_backup f \<noteq> [] \<longrightarrow> M (sf_backup f) = F (sf_path f) \<and> F (sf_path f) \<noteq> None \<and> F (sf_backup f) = None)"

definition layout :: "(string \<Rightarrow> string option) \<Rightarrow> secretFile list \<Rightarrow> fsys \<Rightarrow> bool" where
  "layout F files s \<longleftrightarrow>
     distinct (concat (map locs files) @ fy_names s)
     \<and> (\<forall>n \<in> set (fy_names s). n \<noteq> [] \<and> F n = None)
     \<and> (\<forall>f \<in> set files. placed F (fy_files s) f)
     \<and> (\<forall>x. x \<notin> set (concat (map locs files)) \<longrightarrow> fy_files s x = F x)"

text \<open>Changing one file of the list and only its own names keeps the layout.\<close>

lemma placed_cong: "(\<And>x. x \<in> set (locs f) \<Longrightarrow> M' x = M x) \<Longrightarrow> placed F M f \<Longrightarrow> placed F M' f"
  by (auto simp: placed_def locs_def)

lemma layout_step:
  assumes l: "layout F (xs @ f # ys) s" and names: "set (locs f') \<subseteq> set (locs f) \<union> (set (fy_names s) - set (fy_names s'))"
    and d: "distinct (locs f' @ fy_names s')" and sub: "set (fy_names s') \<subseteq> set (fy_names s)"
    and frame: "\<And>x. x \<notin> set (locs f) \<union> set (locs f') \<Longrightarrow> fy_files s' x = fy_files s x"
    and p: "placed F (fy_files s') f'" and gone: "\<And>x. x \<in> set (locs f) - set (locs f') \<Longrightarrow> fy_files s' x = F x"
  shows "layout F (xs @ f' # ys) s'"
proof -
  have dis: "distinct (concat (map locs (xs @ f # ys)) @ fy_names s)" using l by (simp add: layout_def)
  have other: "set (locs g) \<inter> (set (locs f) \<union> set (locs f')) = {}" if "g \<in> set xs \<union> set ys" for g
    using dis names that by fastforce
  have "placed F (fy_files s') g" if g: "g \<in> set xs \<union> set ys" for g
  proof (rule placed_cong)
    show "placed F (fy_files s) g" using l g by (auto simp: layout_def)
    show "fy_files s' x = fy_files s x" if "x \<in> set (locs g)" for x using other[OF g] that frame by blast
  qed
  moreover have "fy_files s' x = F x" if x: "x \<notin> set (concat (map locs (xs @ f' # ys)))" for x
  proof (cases "x \<in> set (locs f)")
    case True
    then show ?thesis using gone x by auto
  next
    case False
    then show ?thesis using l x frame[of x] by (auto simp: layout_def)
  qed
  moreover have "distinct (concat (map locs (xs @ f' # ys)) @ fy_names s')"
  proof -
    let ?A = "concat (map locs xs)" and ?B = "concat (map locs ys)"
    have n: "distinct ?A" "distinct ?B" "set ?A \<inter> set ?B = {}" "set ?A \<inter> (set (locs f) \<union> set (fy_names s)) = {}"
        "set ?B \<inter> (set (locs f) \<union> set (fy_names s)) = {}"
      using dis by auto
    have "set ?A \<inter> (set (locs f') \<union> set (fy_names s')) = {}" "set ?B \<inter> (set (locs f') \<union> set (fy_names s')) = {}"
      using n(4,5) names sub by blast+
    then have "distinct (?A @ locs f' @ ?B @ fy_names s')" using n(1-3) d by (auto simp: Int_Un_distrib)
    then show ?thesis by simp
  qed
  ultimately show ?thesis using l p sub by (auto simp: layout_def)
qed

lemma layout_at:
  assumes "layout F (xs @ f # ys) s"
  shows "placed F (fy_files s) f" and "distinct (locs f @ fy_names s)"
  using assms by (auto simp: layout_def)

section \<open>Calls to the operating system\<close>

text \<open>The errors that leave something behind.\<close>

fun leftover :: "init_error \<Rightarrow> bool" where
  "leftover (RemoveWork _) = True"
| "leftover (RemoveNew _) = True"
| "leftover (Restore _) = True"
| "leftover (RemoveBackup _) = True"
| "leftover _ = False"

lemma os_call_frame: "os_call s = (s1, b) \<Longrightarrow> fy_files s1 = fy_files s \<and> fy_names s1 = fy_names s"
  by (auto simp: os_call_def split: list.splits)

lemma layout_cong: "fy_files s1 = fy_files s \<Longrightarrow> fy_names s1 = fy_names s \<Longrightarrow> layout F fs s1 = layout F fs s"
  by (simp add: layout_def)

lemma layout_drop_name: "layout F fs s \<Longrightarrow> fy_files s1 = fy_files s \<Longrightarrow> fy_names s = n # fy_names s1 \<Longrightarrow> layout F fs s1"
  by (auto simp: layout_def)

lemma layout_name:
  assumes "layout F fs s" and "n \<in> set (fy_names s)"
  shows "fy_files s n = None"
proof -
  have "n \<notin> set (concat (map locs fs))" "F n = None" using assms by (auto simp: layout_def)
  then show ?thesis using assms(1) by (simp add: layout_def)
qed

lemma layout_fresh: "layout F fs s \<Longrightarrow> list_all (\<lambda>n. fy_files s n = None) (fy_names s)"
  using layout_name by (simp add: list_all_iff)

lemma removeFile_cases:
  assumes "removeFile path s = (s1, r)"
  shows "fy_names s1 = fy_names s"
    and "r \<noteq> Some Failed \<Longrightarrow> fy_files s1 = (fy_files s)(path := None)"
    and "r = Some Failed \<Longrightarrow> fy_files s1 = fy_files s"
proof -
  obtain t b where o: "os_call s = (t, b)" by (cases "os_call s")
  note f = os_call_frame[OF o] and u = assms[unfolded removeFile_def o Let_def prod.case]
  show "fy_names s1 = fy_names s" "r = Some Failed \<Longrightarrow> fy_files s1 = fy_files s" using u f by (auto split: if_splits)
  show "fy_files s1 = (fy_files s)(path := None)" if "r \<noteq> Some Failed" using u f that by (auto simp: fun_eq_iff split: if_splits)
qed

lemma renameFile_cases:
  assumes "renameFile old new s = (s1, r)"
  shows "fy_names s1 = fy_names s"
    and "r = None \<Longrightarrow> fy_files s old \<noteq> None \<and> fy_files s1 = (fy_files s)(old := None, new := fy_files s old)"
    and "r \<noteq> None \<Longrightarrow> fy_files s1 = fy_files s"
proof -
  obtain t b where o: "os_call s = (t, b)" by (cases "os_call s")
  note f = os_call_frame[OF o] and u = assms[unfolded renameFile_def o Let_def prod.case]
  show "fy_names s1 = fy_names s" "r \<noteq> None \<Longrightarrow> fy_files s1 = fy_files s" using u f by (auto split: if_splits option.splits)
  show "r = None \<Longrightarrow> fy_files s old \<noteq> None \<and> fy_files s1 = (fy_files s)(old := None, new := fy_files s old)"
    using u f by (auto split: if_splits option.splits)
qed

lemma linkFile_cases:
  assumes "linkFile old new s = (s1, r)"
  shows "fy_names s1 = fy_names s"
    and "r = None \<Longrightarrow> fy_files s new = None \<and> fy_files s1 = (fy_files s)(new := fy_files s old)"
    and "r \<noteq> None \<Longrightarrow> fy_files s1 = fy_files s"
proof -
  obtain t b where o: "os_call s = (t, b)" by (cases "os_call s")
  note f = os_call_frame[OF o] and u = assms[unfolded linkFile_def o Let_def prod.case]
  show "fy_names s1 = fy_names s" "r \<noteq> None \<Longrightarrow> fy_files s1 = fy_files s" using u f by (auto split: if_splits option.splits)
  show "r = None \<Longrightarrow> fy_files s new = None \<and> fy_files s1 = (fy_files s)(new := fy_files s old)"
    using u f by (auto split: if_splits option.splits)
qed

lemma removeWorkFile_cases:
  assumes "removeWorkFile path target s = (s1, es)"
  shows "fy_names s1 = fy_names s" and "\<not> list_ex leftover es \<Longrightarrow> fy_files s1 = (fy_files s)(path := None)"
proof -
  obtain t r where o: "removeFile path s = (t, r)" by (cases "removeFile path s")
  note f = removeFile_cases[OF o] and u = assms[unfolded removeWorkFile_def o prod.case]
  show "fy_names s1 = fy_names s" using u f(1) by (auto split: option.splits os_error.splits)
  show "fy_files s1 = (fy_files s)(path := None)" if "\<not> list_ex leftover es"
    using u f(2) that by (auto split: option.splits os_error.splits)
qed

lemma createTempFile_cases:
  assumes "createTempFile s = (s1, r)"
  shows "r = None \<Longrightarrow> fy_files s1 = fy_files s \<and> fy_names s1 = fy_names s"
    and "r = Some n \<Longrightarrow> fy_names s = n # fy_names s1 \<and> fy_files s1 = (fy_files s)(n := Some [])"
proof -
  obtain t b where o: "os_call s = (t, b)" by (cases "os_call s")
  note f = os_call_frame[OF o] and u = assms[unfolded createTempFile_def o Let_def prod.case]
  show "r = None \<Longrightarrow> fy_files s1 = fy_files s \<and> fy_names s1 = fy_names s"
    "r = Some n \<Longrightarrow> fy_names s = n # fy_names s1 \<and> fy_files s1 = (fy_files s)(n := Some [])"
    using u f by (auto split: if_splits list.splits)
qed

lemma abandon_cases:
  assumes "abandon c temp path e s = (s1, r)"
  shows "fy_names s1 = fy_names s" and "\<exists>es. r = Inl es"
    and "r = Inl es \<Longrightarrow> \<not> list_ex leftover es \<Longrightarrow> fy_files s1 = (fy_files s)(temp := None)"
proof -
  obtain s2 b where o: "(if c then (s, True) else os_call s) = (s2, b)" by (cases "if c then (s, True) else os_call s")
  have f: "fy_files s2 = fy_files s" "fy_names s2 = fy_names s" using o os_call_frame by (auto split: if_splits)
  obtain s3 es' where w: "removeWorkFile temp path s2 = (s3, es')" by (cases "removeWorkFile temp path s2")
  have r: "s1 = s3" "r = Inl ([e] @ (if b then [CloseWork path] else []) @ es')"
    using assms o w by (simp_all add: abandon_def split: prod.splits)
  show "fy_names s1 = fy_names s" "\<exists>es. r = Inl es" using r f removeWorkFile_cases(1)[OF w] by simp_all
  show "fy_files s1 = (fy_files s)(temp := None)" if "r = Inl es" "\<not> list_ex leftover es"
    using that r f removeWorkFile_cases(2)[OF w] by auto
qed

text \<open>Staging ends with the temporary file in place, or it removes the file that it has created.\<close>

lemma stageSecret_Inl:
  assumes "stageSecret path content s = (s1, Inl es)" and "createTempFile s = (s0, Some temp)"
  shows "\<exists>c e t v. abandon c temp path e t = (s1, Inl es) \<and> fy_files t = (fy_files s0)(temp := v) \<and> fy_names t = fy_names s0"
proof -
  obtain t1 b1 where o1: "os_call s0 = (t1, b1)" by (cases "os_call s0")
  obtain t2 b2 where o2: "os_call t1 = (t2, b2)" by (cases "os_call t1")
  let ?t3 = "t2\<lparr>fy_files := (fy_files t2)(temp := Some content)\<rparr>"
  obtain t4 b4 where o4: "os_call ?t3 = (t4, b4)" by (cases "os_call ?t3")
  obtain t5 b5 where o5: "os_call t4 = (t5, b5)" by (cases "os_call t4")
  note f = os_call_frame[OF o1] os_call_frame[OF o2] os_call_frame[OF o4] os_call_frame[OF o5]
  have same: "fy_files t1 = (fy_files s0)(temp := fy_files s0 temp)" "fy_files t2 = (fy_files s0)(temp := fy_files s0 temp)"
      "fy_files t4 = (fy_files s0)(temp := Some content)" "fy_files t5 = (fy_files s0)(temp := Some content)"
      "fy_names t1 = fy_names s0" "fy_names t2 = fy_names s0" "fy_names t4 = fy_names s0" "fy_names t5 = fy_names s0"
    using f by simp_all
  have "\<exists>c e t. abandon c temp path e t = (s1, Inl es) \<and> t \<in> {t1, t2, t4, t5}"
    using assms by (cases b1; cases b2; cases b4; cases b5) (auto simp: stageSecret_def o1 o2 o4 o5 Let_def)
  then show ?thesis using same by blast
qed

lemma stageSecret_Inr:
  assumes "stageSecret path content s = (s1, Inr temp)"
  shows "fy_names s = temp # fy_names s1 \<and> fy_files s1 = (fy_files s)(temp := Some content)"
proof -
  obtain s0 where c: "createTempFile s = (s0, Some temp)"
    using assms by (auto simp: stageSecret_def abandon_def Let_def split: prod.splits option.splits bool.splits)
  obtain t1 b1 where o1: "os_call s0 = (t1, b1)" by (cases "os_call s0")
  obtain t2 b2 where o2: "os_call t1 = (t2, b2)" by (cases "os_call t1")
  let ?t3 = "t2\<lparr>fy_files := (fy_files t2)(temp := Some content)\<rparr>"
  obtain t4 b4 where o4: "os_call ?t3 = (t4, b4)" by (cases "os_call ?t3")
  obtain t5 b5 where o5: "os_call t4 = (t5, b5)" by (cases "os_call t4")
  have "s1 = t5"
    using assms c
    by (cases b1; cases b2; cases b4; cases b5) (auto simp: stageSecret_def o1 o2 o4 o5 Let_def abandon_def split: prod.splits)
  then show ?thesis
    using createTempFile_cases(2)[OF c refl] os_call_frame[OF o1] os_call_frame[OF o2] os_call_frame[OF o4] os_call_frame[OF o5] by simp
qed

lemma stageSecret_abandoned:
  assumes st: "stageSecret path content s = (s1, Inl es)" and fresh: "list_all (\<lambda>n. fy_files s n = None) (fy_names s)"
  shows "es \<noteq> []"
    and "\<not> list_ex leftover es \<Longrightarrow> fy_files s1 = fy_files s \<and> (fy_names s1 = fy_names s \<or> (\<exists>n. fy_names s = n # fy_names s1))"
proof -
  obtain s0 q where c: "createTempFile s = (s0, q)" by (cases "createTempFile s")
  have "es \<noteq> [] \<and> (\<not> list_ex leftover es \<longrightarrow>
      fy_files s1 = fy_files s \<and> (fy_names s1 = fy_names s \<or> (\<exists>n. fy_names s = n # fy_names s1)))"
  proof (cases q)
    case None
    then show ?thesis using st c createTempFile_cases(1)[OF c] by (auto simp: stageSecret_def)
  next
    case (Some temp)
    obtain cl e t v where a: "abandon cl temp path e t = (s1, Inl es)" "fy_files t = (fy_files s0)(temp := v)" "fy_names t = fy_names s0"
      using stageSecret_Inl[OF st] c Some by blast
    note n = createTempFile_cases(2)[OF c Some]
    have "es \<noteq> []" using a(1) by (auto simp: abandon_def Let_def split: prod.splits)
    moreover have "fy_files s1 = fy_files s" if "\<not> list_ex leftover es"
      using abandon_cases(3)[OF a(1) refl that] a(2) n fresh by (auto simp: fun_eq_iff)
    ultimately show ?thesis using abandon_cases(1)[OF a(1)] a(3) n by simp
  qed
  then show "es \<noteq> []"
      "\<not> list_ex leftover es \<Longrightarrow> fy_files s1 = fy_files s \<and> (fy_names s1 = fy_names s \<or> (\<exists>n. fy_names s = n # fy_names s1))"
    by blast+
qed

section \<open>The phases\<close>

definition unstaged :: "secretFile \<Rightarrow> bool" where
  "unstaged f \<longleftrightarrow> sf_temp f = [] \<and> sf_backup f = [] \<and> \<not> sf_created f"

definition staged :: "secretFile \<Rightarrow> bool" where
  "staged f \<longleftrightarrow> sf_temp f \<noteq> [] \<and> \<not> sf_created f"

definition same_target :: "secretFile list \<Rightarrow> secretFile list \<Rightarrow> bool" where
  "same_target fs gs \<longleftrightarrow> map sf_path fs = map sf_path gs \<and> map sf_content fs = map sf_content gs"

lemma stageAll_layout:
  assumes "stageAll fs s = (s', fs', es)" and "layout F (xs @ fs) s" and "list_all unstaged fs" and "\<not> list_ex leftover es"
  shows "layout F (xs @ fs') s' \<and> same_target fs' fs \<and> list_all (\<lambda>f. sf_backup f = [] \<and> \<not> sf_created f) fs'
    \<and> (es = [] \<longrightarrow> list_all staged fs')"
  using assms
proof (induction fs arbitrary: xs s s' fs' es)
  case (Cons f fs)
  obtain s1 r where st: "stageSecret (sf_path f) (sf_content f) s = (s1, r)" by (cases "stageSecret (sf_path f) (sf_content f) s")
  show ?case
  proof (cases r)
    case (Inl es1)
    then have e: "es = es1" "fs' = f # fs" "s' = s1" using Cons.prems(1) st by auto
    note c = stageSecret_abandoned[OF st[unfolded Inl] layout_fresh[OF Cons.prems(2)]]
    then have "layout F (xs @ f # fs) s1"
      using Cons.prems(2,4) e(1) layout_cong[of s1 s] layout_drop_name by metis
    then show ?thesis using e c(1) Cons.prems(3) by (auto simp: same_target_def unstaged_def list_all_iff)
  next
    case (Inr temp)
    obtain s2 fs2 es2 where r2: "stageAll fs s1 = (s2, fs2, es2)" by (cases "stageAll fs s1")
    have e: "s' = s2" "fs' = f\<lparr>sf_temp := temp\<rparr> # fs2" "es = es2" using Cons.prems(1) st Inr r2 by auto
    have n: "fy_names s = temp # fy_names s1" "fy_files s1 = (fy_files s)(temp := Some (sf_content f))"
      using stageSecret_Inr st Inr by simp_all
    have "layout F (xs @ f\<lparr>sf_temp := temp\<rparr> # fs) s1"
    proof (rule layout_step[OF Cons.prems(2)])
    qed (use n Cons.prems(2,3) in \<open>auto simp: locs_def layout_def placed_def unstaged_def\<close>)
    then have l2: "layout F ((xs @ [f\<lparr>sf_temp := temp\<rparr>]) @ fs) s1" by simp
    have "temp \<noteq> []" using n(1) Cons.prems(2) by (auto simp: layout_def)
    then show ?thesis using Cons.IH[OF r2 l2] e Cons.prems(3,4) by (auto simp: same_target_def staged_def unstaged_def)
  qed
qed (simp add: same_target_def)

text \<open>A file is left where it is, or moved to a new name; a failed attempt changes nothing.\<close>

definition unchanged :: "fsys \<Rightarrow> fsys \<Rightarrow> bool" where
  "unchanged s s1 \<longleftrightarrow> fy_files s1 = fy_files s \<and> (fy_names s1 = fy_names s \<or> (\<exists>n. fy_names s = n # fy_names s1))"

definition moved_away :: "secretFile \<Rightarrow> fsys \<Rightarrow> fsys \<Rightarrow> string \<Rightarrow> bool" where
  "moved_away f s s1 b \<longleftrightarrow> fy_names s = b # fy_names s1 \<and> fy_files s (sf_path f) \<noteq> None
     \<and> fy_files s1 = (fy_files s)(sf_path f := None, b := fy_files s (sf_path f))"

lemma layout_unchanged: "layout F fs s \<Longrightarrow> unchanged s s1 \<Longrightarrow> layout F fs s1"
  unfolding unchanged_def using layout_cong[of s1 s] layout_drop_name by metis

lemma preserveOne_cases:
  assumes pr: "preserveOne f s = (s1, f1, es)" and fresh: "list_all (\<lambda>n. fy_files s n = None) (fy_names s)"
    and path: "sf_path f \<notin> set (fy_names s)" and clean: "\<not> list_ex leftover es"
  shows "(f1 = f \<and> unchanged s s1 \<and> (es = [] \<longrightarrow> fy_files s (sf_path f) = None))
    \<or> (es = [] \<and> (\<exists>b. f1 = f\<lparr>sf_backup := b\<rparr> \<and> moved_away f s s1 b))"
proof -
  obtain t1 r1 where l: "lstat (sf_path f) s = (t1, r1)" by (cases "lstat (sf_path f) s")
  have t1: "fy_files t1 = fy_files s" "fy_names t1 = fy_names s" "r1 = Some NotExist \<Longrightarrow> fy_files s (sf_path f) = None"
    using l os_call_frame by (auto simp: lstat_def Let_def split: prod.splits if_splits)
  obtain t2 r2 where c: "createTempFile t1 = (t2, r2)" by (cases "createTempFile t1")
  note u = pr[unfolded preserveOne_def l prod.case]
  show ?thesis
  proof (cases "r1 = None \<and> r2 \<noteq> None")
    case False
    then show ?thesis
      using u t1 createTempFile_cases(1)[OF c] c by (auto simp: unchanged_def split: option.splits os_error.splits)
  next
    case True
    then obtain n where r: "r1 = None" "r2 = Some n" by auto
    note c2 = createTempFile_cases(2)[OF c r(2)]
    obtain t3 b where o: "os_call t2 = (t3, b)" by (cases "os_call t2")
    note t3 = os_call_frame[OF o]
    have n: "fy_files s n = None" "n \<noteq> sf_path f" using fresh c2 t1 path by auto
    obtain t4 r4 where m: "renameFile (sf_path f) n t3 = (t4, r4)" by (cases "renameFile (sf_path f) n t3")
    obtain t5 es5 where w: "removeWorkFile n (sf_path f) (if b then t3 else t4) = (t5, es5)"
      by (cases "removeWorkFile n (sf_path f) (if b then t3 else t4)")
    show ?thesis
    proof (cases "\<not> b \<and> r4 = None")
      case True
      then have "s1 = t4" "f1 = f\<lparr>sf_backup := n\<rparr>" "es = []" using u r c o m by simp_all
      then show ?thesis
        using renameFile_cases(1,2)[OF m] True t3 c2 t1 n unfolding moved_away_def by (simp add: fun_upd_twist)
    next
      case False
      then have e: "s1 = t5" "f1 = f" "list_ex leftover es = list_ex leftover es5" "es \<noteq> []"
        using u r c o m w by (cases b; cases r4; auto)+
      have "fy_files (if b then t3 else t4) = (fy_files s)(n := Some [])" "fy_names (if b then t3 else t4) = fy_names t2"
        using renameFile_cases(1,3)[OF m] False t3 c2 t1 by auto
      then have "unchanged s s1"
        using removeWorkFile_cases[OF w] e clean c2 t1 n by (auto simp: unchanged_def fun_eq_iff)
      then show ?thesis using e by simp
    qed
  qed
qed

definition out_of_way :: "(string \<Rightarrow> string option) \<Rightarrow> secretFile \<Rightarrow> bool" where
  "out_of_way F f \<longleftrightarrow> staged f \<and> (sf_backup f = [] \<longrightarrow> F (sf_path f) = None)"

lemma preserveAll_layout:
  assumes "preserveAll fs s = (s', fs', es)" and "layout F (xs @ fs) s" and "list_all (\<lambda>f. staged f \<and> sf_backup f = []) fs"
    and "\<not> list_ex leftover es"
  shows "layout F (xs @ fs') s' \<and> same_target fs' fs \<and> list_all staged fs' \<and> (es = [] \<longrightarrow> list_all (out_of_way F) fs')"
  using assms
proof (induction fs arbitrary: xs s s' fs' es)
  case (Cons f fs)
  obtain s1 f1 e1 where pr: "preserveOne f s = (s1, f1, e1)" by (cases "preserveOne f s")
  have path: "sf_path f \<notin> set (fy_names s)" using Cons.prems(2) by (auto simp: layout_def locs_def)
  have clean: "\<not> list_ex leftover e1" using Cons.prems(1,4) pr by (auto split: list.splits prod.splits)
  have F: "fy_files s (sf_path f) = F (sf_path f)" using Cons.prems(2,3) by (auto simp: layout_def placed_def staged_def)
  have l1: "layout F (xs @ f1 # fs) s1 \<and> staged f1 \<and> same_target [f1] [f] \<and> (e1 = [] \<longrightarrow> out_of_way F f1)"
    using preserveOne_cases[OF pr layout_fresh[OF Cons.prems(2)] path clean]
  proof (elim disjE conjE exE)
    assume "f1 = f" "unchanged s s1" "e1 = [] \<longrightarrow> fy_files s (sf_path f) = None"
    then show ?thesis using layout_unchanged[OF Cons.prems(2)] Cons.prems(3) F by (auto simp: same_target_def out_of_way_def)
  next
    fix b assume b: "f1 = f\<lparr>sf_backup := b\<rparr>" "moved_away f s s1 b" and "e1 = []"
    have "b \<noteq> []" using b(2) Cons.prems(2) by (auto simp: moved_away_def layout_def)
    moreover have "layout F (xs @ f1 # fs) s1"
    proof (rule layout_step[OF Cons.prems(2)])
    qed (use b Cons.prems(2,3) path in \<open>auto simp: locs_def layout_def placed_def staged_def moved_away_def\<close>)
    ultimately show ?thesis using b Cons.prems(3) by (auto simp: same_target_def staged_def out_of_way_def)
  qed
  then have l2: "layout F ((xs @ [f1]) @ fs) s1" by simp
  show ?case
  proof (cases e1)
    case Nil
    obtain s2 fs2 es2 where r2: "preserveAll fs s1 = (s2, fs2, es2)" by (cases "preserveAll fs s1")
    then have "s' = s2" "fs' = f1 # fs2" "es = es2" using Cons.prems(1) pr Nil by simp_all
    then show ?thesis using Cons.IH[OF r2 l2] Cons.prems(3,4) l1 Nil by (auto simp: same_target_def)
  next
    case (Cons e es1)
    then have "s' = s1" "fs' = f1 # fs" "es = e # es1" using Cons.prems(1) pr by simp_all
    then show ?thesis using l1 Cons.prems(3) by (auto simp: same_target_def list_all_iff)
  qed
qed (simp add: same_target_def)

text \<open>Restoring moves the backups back; files that were created have been removed before.\<close>

lemma restoreBackups_layout:
  assumes "restoreBackups fs s = (s', fs', es)" and "layout F (xs @ fs) s" and "list_all (\<lambda>f. \<not> sf_created f) fs"
    and "\<not> list_ex leftover es"
  shows "layout F (xs @ fs') s' \<and> list_all (\<lambda>f. \<not> sf_created f \<and> sf_backup f = []) fs'"
  using assms
proof (induction fs arbitrary: xs s s' fs' es)
  case (Cons f fs)
  obtain t r where m: "renameFile (sf_backup f) (sf_path f) s = (t, r)" by (cases "renameFile (sf_backup f) (sf_path f) s")
  obtain s1 f1 e1 where one: "(if sf_backup f = [] then (s, f, []) else case renameFile (sf_backup f) (sf_path f) s of
      (s', None) \<Rightarrow> (s', f\<lparr>sf_backup := []\<rparr>, []) | (s', Some _) \<Rightarrow> (s', f, [Restore (sf_path f)])) = (s1, f1, e1)"
    by (cases rule: prod_cases3)
  obtain s2 fs2 es2 where r2: "restoreBackups fs s1 = (s2, fs2, es2)" by (metis prod_cases3)
  have e: "s' = s2" "fs' = f1 # fs2" "es = e1 @ es2" using Cons.prems(1) one r2 by simp_all
  have "layout F (xs @ f1 # fs) s1 \<and> \<not> sf_created f1 \<and> sf_backup f1 = []"
  proof (cases "sf_backup f = []")
    case True
    then show ?thesis using one Cons.prems by auto
  next
    case False
    then have r: "r = None" "s1 = t" "f1 = f\<lparr>sf_backup := []\<rparr>"
      using one m Cons.prems(4) e(3) by (auto split: option.splits)
    note mv = renameFile_cases(1)[OF m] renameFile_cases(2)[OF m r(1)]
    have "layout F (xs @ f1 # fs) s1"
    proof (rule layout_step[OF Cons.prems(2)])
    qed (use False r mv Cons.prems(2,3) in \<open>auto simp: locs_def layout_def placed_def split: if_splits\<close>)
    then show ?thesis using r Cons.prems(3) by simp
  qed
  then have l2: "layout F ((xs @ [f1]) @ fs) s1" "\<not> sf_created f1 \<and> sf_backup f1 = []" by simp_all
  then show ?case using Cons.IH[OF r2 l2(1)] e Cons.prems(3,4) by simp
qed simp

definition absent :: "(string \<Rightarrow> string option) \<Rightarrow> secretFile \<Rightarrow> bool" where
  "absent F f \<longleftrightarrow> (sf_backup f = [] \<longrightarrow> F (sf_path f) = None)"

lemma installOne_layout:
  assumes one: "installOne force f s = (s1, f1, e1)" and l: "layout F (xs @ f # fs) s" and "staged f" and "absent F f"
  shows "layout F (xs @ f1 # fs) s1 \<and> sf_path f1 = sf_path f \<and> sf_content f1 = sf_content f \<and> sf_backup f1 = sf_backup f
    \<and> \<not> list_ex leftover e1 \<and> (e1 = [] \<longrightarrow> sf_created f1 \<and> sf_temp f1 = [])"
proof -
  obtain t r where m: "(if force then renameFile (sf_temp f) (sf_path f) s else linkFile (sf_temp f) (sf_path f) s) = (t, r)"
    by (cases "if force then renameFile (sf_temp f) (sf_path f) s else linkFile (sf_temp f) (sf_path f) s")
  have temp: "sf_temp f \<noteq> []" "\<not> sf_created f" "fy_files s (sf_temp f) = Some (sf_content f)" "F (sf_temp f) = None"
    using l assms(3) by (auto simp: layout_def placed_def staged_def)
  show ?thesis
  proof (cases r)
    case (Some x)
    then have "fy_files t = fy_files s" "fy_names t = fy_names s"
      using m renameFile_cases(1,3)[of "sf_temp f" "sf_path f" s t r] linkFile_cases(1,3)[of "sf_temp f" "sf_path f" s t r]
      by (auto split: if_splits)
    moreover have "s1 = t" "f1 = f" "e1 = [Install (sf_path f)]" using one m Some by (auto simp: installOne_def)
    ultimately show ?thesis using l layout_cong[of t s] by simp
  next
    case None
    let ?c = "f\<lparr>sf_created := True\<rparr>"
    show ?thesis
    proof (cases force)
      case True
      then have mv: "fy_names t = fy_names s" "fy_files t = (fy_files s)(sf_temp f := None, sf_path f := Some (sf_content f))"
        using m None renameFile_cases(1,2)[of "sf_temp f" "sf_path f" s t r] temp by auto
      have f1: "s1 = t" "f1 = ?c\<lparr>sf_temp := []\<rparr>" "e1 = []" using one m None True by (simp_all add: installOne_def)
      have "layout F (xs @ f1 # fs) s1"
      proof (rule layout_step[OF l])
      qed (use f1 mv l temp in \<open>auto simp: locs_def layout_def placed_def split: if_splits\<close>)
      then show ?thesis using f1 by simp
    next
      case False
      then have ln: "fy_names t = fy_names s" "fy_files t = (fy_files s)(sf_path f := Some (sf_content f))"
        using m None linkFile_cases(1,2)[of "sf_temp f" "sf_path f" s t r] temp by auto
      have lt: "layout F (xs @ ?c # fs) t"
      proof (rule layout_step[OF l])
      qed (use ln l temp in \<open>auto simp: locs_def layout_def placed_def split: if_splits\<close>)
      obtain u q where rm: "removeFile (sf_temp f) t = (u, q)" by (cases "removeFile (sf_temp f) t")
      note rc = removeFile_cases[OF rm]
      show ?thesis
      proof (cases "q = Some Failed")
        case True
        then have "s1 = u" "f1 = ?c" "e1 = [RemoveTemp (sf_path f)]" using one m None False rm by (simp_all add: installOne_def)
        then show ?thesis using lt rc(1,3) True layout_cong[of u t] by simp
      next
        case no: False
        then have f1: "s1 = u" "f1 = ?c\<lparr>sf_temp := []\<rparr>" "e1 = []"
          using one m None False rm by (cases q; cases "the q"; simp add: installOne_def)+
        have "layout F (xs @ f1 # fs) s1"
        proof (rule layout_step[OF lt])
        qed (use f1 rc(1) rc(2)[OF no] lt temp in \<open>auto simp: locs_def layout_def placed_def split: if_splits\<close>)
        then show ?thesis using f1 by simp
      qed
    qed
  qed
qed

definition same_backups :: "secretFile list \<Rightarrow> secretFile list \<Rightarrow> bool" where
  "same_backups fs gs \<longleftrightarrow> same_target fs gs \<and> map sf_backup fs = map sf_backup gs"

lemma same_backups_absent:
  assumes "same_backups fs gs"
  shows "list_all (absent F) fs = list_all (absent F) gs" and "list_all (\<lambda>f. sf_backup f = []) fs = list_all (\<lambda>f. sf_backup f = []) gs"
proof -
  have "length fs = length gs" using assms by (auto simp: same_backups_def same_target_def dest: map_eq_imp_length_eq)
  then show "list_all (absent F) fs = list_all (absent F) gs" "list_all (\<lambda>f. sf_backup f = []) fs = list_all (\<lambda>f. sf_backup f = []) gs"
    using assms by (induction fs gs rule: list_induct2) (auto simp: same_backups_def same_target_def absent_def)
qed

lemma installAll_layout:
  assumes "installAll force fs s = (s', fs', es)" and "layout F (xs @ fs) s" and "list_all (\<lambda>f. staged f \<and> absent F f) fs"
  shows "layout F (xs @ fs') s' \<and> same_backups fs' fs \<and> \<not> list_ex leftover es
    \<and> (es = [] \<longrightarrow> list_all (\<lambda>f. sf_created f \<and> sf_temp f = []) fs')"
  using assms
proof (induction fs arbitrary: xs s s' fs' es)
  case (Cons f fs)
  obtain s1 f1 e1 where one: "installOne force f s = (s1, f1, e1)" by (cases "installOne force f s")
  have l1: "layout F ((xs @ [f1]) @ fs) s1" "sf_path f1 = sf_path f" "sf_content f1 = sf_content f" "sf_backup f1 = sf_backup f"
      "\<not> list_ex leftover e1" "e1 = [] \<longrightarrow> sf_created f1 \<and> sf_temp f1 = []"
    using installOne_layout[OF one Cons.prems(2)] Cons.prems(3) by auto
  show ?case
  proof (cases e1)
    case Nil
    obtain s2 fs2 es2 where r2: "installAll force fs s1 = (s2, fs2, es2)" by (cases "installAll force fs s1")
    then have "s' = s2" "fs' = f1 # fs2" "es = es2" using Cons.prems(1) one Nil by simp_all
    then show ?thesis using Cons.IH[OF r2 l1(1)] Cons.prems(3) l1 Nil by (auto simp: same_backups_def same_target_def)
  next
    case (Cons e es1)
    then have "s' = s1" "fs' = f1 # fs" "es = e # es1" using Cons.prems(1) one by simp_all
    then show ?thesis using l1 Cons by (auto simp: same_backups_def same_target_def)
  qed
qed (simp add: same_backups_def same_target_def)

text \<open>The loops of the clean-up, seen as changes of the list.\<close>

lemma removeCreated_layout:
  assumes "removeCreated fs s = (s', es)" and "layout F (xs @ fs) s" and "list_all (absent F) fs" and "\<not> list_ex leftover es"
  shows "layout F (xs @ map (sf_created_update (\<lambda>_. False)) fs) s'"
  using assms
proof (induction fs arbitrary: xs s s' es)
  case (Cons f fs)
  let ?f = "f\<lparr>sf_created := False\<rparr>"
  obtain t r where m: "removeFile (sf_path f) s = (t, r)" by (cases "removeFile (sf_path f) s")
  note rc = removeFile_cases[OF m]
  obtain s1 e1 where one: "(if sf_created f then (case removeFile (sf_path f) s of
      (s', Some Failed) \<Rightarrow> (s', [RemoveNew (sf_path f)]) | (s', _) \<Rightarrow> (s', [])) else (s, [])) = (s1, e1)"
    by (cases rule: prod.exhaust)
  obtain s2 es2 where r2: "removeCreated fs s1 = (s2, es2)" by (cases "removeCreated fs s1")
  have e: "s' = s2" "es = e1 @ es2" using Cons.prems(1) one r2 by simp_all
  have "layout F (xs @ ?f # fs) s1"
  proof (cases "sf_created f")
    case False
    then have "?f = f" "s1 = s" using one by (cases f; simp)+
    then show ?thesis unfolding \<open>?f = f\<close> using Cons.prems(2) by simp
  next
    case True
    then have r: "r \<noteq> Some Failed" "s1 = t"
      using one m Cons.prems(4) e(2) by (auto split: option.splits os_error.splits)
    have pl: "placed F (fy_files s) f" "distinct (locs f @ fy_names s)" "absent F f"
      using layout_at[OF Cons.prems(2)] Cons.prems(3) by simp_all
    have m2: "fy_files t = (fy_files s)(sf_path f := None)" "fy_names t = fy_names s" using rc(1) rc(2)[OF r(1)] by simp_all
    show ?thesis
    proof (rule layout_step[OF Cons.prems(2)])
    qed (use True r(2) m2 pl in \<open>auto simp: locs_def placed_def absent_def split: if_splits\<close>)
  qed
  then have l2: "layout F ((xs @ [?f]) @ fs) s1" by simp
  show ?case using Cons.IH[OF r2 l2] e Cons.prems(3,4) by simp
qed simp

lemma cleanupTemps_layout:
  assumes "cleanupTemps fs s = (s', es)" and "layout F (xs @ fs) s" and "\<not> list_ex leftover es"
  shows "layout F (xs @ map (sf_temp_update (\<lambda>_. [])) fs) s'"
  using assms
proof (induction fs arbitrary: xs s s' es)
  case (Cons f fs)
  let ?f = "f\<lparr>sf_temp := []\<rparr>"
  obtain t q where m: "removeWorkFile (sf_temp f) (sf_path f) s = (t, q)" by (cases "removeWorkFile (sf_temp f) (sf_path f) s")
  obtain s1 e1 where one: "(if sf_temp f \<noteq> [] then removeWorkFile (sf_temp f) (sf_path f) s else (s, [])) = (s1, e1)"
    by (cases rule: prod.exhaust)
  obtain s2 es2 where r2: "cleanupTemps fs s1 = (s2, es2)" by (cases "cleanupTemps fs s1")
  have e: "s' = s2" "es = e1 @ es2" using Cons.prems(1) one r2 by simp_all
  have "layout F (xs @ ?f # fs) s1"
  proof (cases "sf_temp f = []")
    case True
    then have "?f = f" "s1 = s" using one by (cases f; simp)+
    then show ?thesis unfolding \<open>?f = f\<close> using Cons.prems(2) by simp
  next
    case False
    then have r: "s1 = t" "\<not> list_ex leftover q" using one m Cons.prems(3) e(2) by auto
    show ?thesis
    proof (rule layout_step[OF Cons.prems(2)])
    qed (use False r removeWorkFile_cases(1)[OF m] removeWorkFile_cases(2)[OF m r(2)] Cons.prems(2)
        in \<open>auto simp: locs_def layout_def placed_def split: if_splits\<close>)
  qed
  then have l2: "layout F ((xs @ [?f]) @ fs) s1" by simp
  show ?case using Cons.IH[OF r2 l2] e Cons.prems(3) by simp
qed simp

lemma removeBackups_layout:
  assumes "removeBackups fs s = (s', es)" and "layout F (xs @ fs) s" and "\<not> list_ex leftover es" and "list_all sf_created fs"
  shows "layout F (xs @ map (sf_backup_update (\<lambda>_. [])) fs) s'"
  using assms
proof (induction fs arbitrary: xs s s' es)
  case (Cons f fs)
  let ?f = "f\<lparr>sf_backup := []\<rparr>"
  obtain t r where m: "removeFile (sf_backup f) s = (t, r)" by (cases "removeFile (sf_backup f) s")
  note rc = removeFile_cases[OF m]
  obtain s1 e1 where one: "(if sf_backup f \<noteq> [] then (case removeFile (sf_backup f) s of
      (s', Some Failed) \<Rightarrow> (s', [RemoveBackup (sf_path f)]) | (s', _) \<Rightarrow> (s', [])) else (s, [])) = (s1, e1)"
    by (cases rule: prod.exhaust)
  obtain s2 es2 where r2: "removeBackups fs s1 = (s2, es2)" by (cases "removeBackups fs s1")
  have e: "s' = s2" "es = e1 @ es2" using Cons.prems(1) one r2 by simp_all
  have "layout F (xs @ ?f # fs) s1"
  proof (cases "sf_backup f = []")
    case True
    then have "?f = f" "s1 = s" using one by (cases f; simp)+
    then show ?thesis unfolding \<open>?f = f\<close> using Cons.prems(2) by simp
  next
    case False
    then have r: "r \<noteq> Some Failed" "s1 = t"
      using one m Cons.prems(3) e(2) by (auto split: option.splits os_error.splits)
    show ?thesis
    proof (rule layout_step[OF Cons.prems(2)])
    qed (use False r rc(1) rc(2)[OF r(1)] Cons.prems(2,4) in \<open>auto simp: locs_def layout_def placed_def split: if_splits\<close>)
  qed
  then have l2: "layout F ((xs @ [?f]) @ fs) s1" by simp
  show ?case using Cons.IH[OF r2 l2] e Cons.prems(3,4) by simp
qed simp

text \<open>Whatever happens to the backups, nothing else changes.\<close>

lemma removeBackups_frame:
  assumes "removeBackups fs s = (s', es)" and "x \<notin> {sf_backup f |f. f \<in> set fs \<and> sf_backup f \<noteq> []}"
  shows "fy_files s' x = fy_files s x"
  using assms
proof (induction fs arbitrary: s es)
  case (Cons f fs)
  obtain t r where m: "removeFile (sf_backup f) s = (t, r)" by (cases "removeFile (sf_backup f) s")
  have x: "fy_files (if sf_backup f \<noteq> [] then t else s) x = fy_files s x"
    using removeFile_cases(2,3)[OF m] Cons.prems(2) by (cases "r = Some Failed") auto
  obtain s2 es2 where r2: "removeBackups fs (if sf_backup f \<noteq> [] then t else s) = (s2, es2)"
    by (cases rule: prod.exhaust)
  have "s' = s2" using Cons.prems(1) m r2 by (auto simp: Let_def split: if_splits prod.splits option.splits os_error.splits)
  moreover have "x \<notin> {sf_backup f |f. f \<in> set fs \<and> sf_backup f \<noteq> []}" using Cons.prems(2) by auto
  ultimately show ?case using Cons.IH[of "if sf_backup f \<noteq> [] then t else s" es2] r2 x by simp
qed simp

lemma path_not_backup:
  assumes "distinct (concat (map locs fs))" and "f \<in> set fs" and "g \<in> set fs" and "sf_backup g \<noteq> []"
  shows "sf_path f \<noteq> sf_backup g"
  using assms by (induction fs) (auto simp: locs_def split: if_splits)

lemma restoreBackups_created:
  "restoreBackups (map (sf_created_update (\<lambda>_. False)) fs) s =
     (let (s', fs', es) = restoreBackups fs s in (s', map (sf_created_update (\<lambda>_. False)) fs', es))"
  by (induction fs arbitrary: s) (auto simp: Let_def split: prod.splits option.splits)

lemma cleanupTemps_created: "cleanupTemps (map (sf_created_update (\<lambda>_. False)) fs) s = cleanupTemps fs s"
  by (induction fs arbitrary: s) (auto simp: Let_def split: prod.splits)

lemma layout_unstaged: "layout F fs s \<Longrightarrow> list_all unstaged fs \<Longrightarrow> fy_files s = F"
proof
  fix x assume l: "layout F fs s" "list_all unstaged fs"
  show "fy_files s x = F x"
  proof (cases "x \<in> set (concat (map locs fs))")
    case True
    then obtain f where "f \<in> set fs" "x \<in> set (locs f)" by auto
    then show ?thesis using l by (auto simp: layout_def placed_def unstaged_def locs_def list_all_iff)
  qed (use l in \<open>simp add: layout_def\<close>)
qed

section \<open>The bundle\<close>

lemma checkAbsent_frame:
  "checkAbsent fs s = (s', es) \<Longrightarrow>
     fy_files s' = fy_files s \<and> fy_names s' = fy_names s \<and> (es = [] \<longrightarrow> list_all (\<lambda>f. fy_files s (sf_path f) = None) fs)"
proof (induction fs arbitrary: s)
  case (Cons f fs)
  obtain t r where l: "lstat (sf_path f) s = (t, r)" by (cases "lstat (sf_path f) s")
  have t: "fy_files t = fy_files s" "fy_names t = fy_names s" "r = Some NotExist \<Longrightarrow> fy_files s (sf_path f) = None"
    using l os_call_frame by (auto simp: lstat_def Let_def split: prod.splits if_splits)
  then show ?case using Cons.IH[of t] Cons.prems l by (auto split: option.splits os_error.splits)
qed simp

lemma cleanup_restores:
  assumes "cleanupTemps fs s = (s', es)" and "layout F fs s" and "\<not> list_ex leftover es"
    and "list_all (\<lambda>f. \<not> sf_created f \<and> sf_backup f = []) fs"
  shows "fy_files s' = F"
proof (rule layout_unstaged)
  show "layout F (map (sf_temp_update (\<lambda>_. [])) fs) s'" using cleanupTemps_layout[of fs s s' es F "[]"] assms(1-3) by simp
  show "list_all unstaged (map (sf_temp_update (\<lambda>_. [])) fs)" using assms(4) by (simp add: list_all_iff unstaged_def)
qed

lemma preserveSecrets_layout:
  assumes ps: "preserveSecrets fs s = (s', fs', es)" and l: "layout F fs s" and st: "list_all (\<lambda>f. staged f \<and> sf_backup f = []) fs"
    and clean: "\<not> list_ex leftover es"
  shows "layout F fs' s'" and "es = [] \<Longrightarrow> same_target fs' fs \<and> list_all (\<lambda>f. staged f \<and> absent F f) fs'"
    and "es \<noteq> [] \<Longrightarrow> list_all (\<lambda>f. \<not> sf_created f \<and> sf_backup f = []) fs'"
proof -
  obtain s1 fs1 e1 where p: "preserveAll fs s = (s1, fs1, e1)" by (cases rule: prod_cases3)
  obtain s2 fs2 e2 where r: "restoreBackups fs1 s1 = (s2, fs2, e2)" by (cases rule: prod_cases3)
  have "\<not> list_ex leftover e1" using ps clean p r by (cases e1) (auto simp: preserveSecrets_def)
  note pl = preserveAll_layout[of fs s s1 fs1 e1 F "[]", simplified, OF p l st this]
  have nc: "list_all (\<lambda>f. \<not> sf_created f) fs1" using pl by (simp add: list_all_iff staged_def)
  have "layout F fs' s' \<and> (es = [] \<longrightarrow> same_target fs' fs \<and> list_all (\<lambda>f. staged f \<and> absent F f) fs')
      \<and> (es \<noteq> [] \<longrightarrow> list_all (\<lambda>f. \<not> sf_created f \<and> sf_backup f = []) fs')"
  proof (cases e1)
    case Nil
    then have "s' = s1" "fs' = fs1" "es = []" using ps p by (simp_all add: preserveSecrets_def)
    then show ?thesis using pl Nil by (simp add: list_all_iff out_of_way_def absent_def)
  next
    case (Cons e e1')
    then have e: "s' = s2" "fs' = fs2" "es = e1 @ e2" using ps p r by (simp_all add: preserveSecrets_def)
    then have "\<not> list_ex leftover e2" using clean by simp
    then show ?thesis using restoreBackups_layout[of fs1 s1 s2 fs2 e2 F "[]", simplified, OF r _ nc] pl e Cons by simp
  qed
  then show "layout F fs' s'" "es = [] \<Longrightarrow> same_target fs' fs \<and> list_all (\<lambda>f. staged f \<and> absent F f) fs'"
      "es \<noteq> [] \<Longrightarrow> list_all (\<lambda>f. \<not> sf_created f \<and> sf_backup f = []) fs'"
    by simp_all
qed

lemma rollback_restores:
  assumes rb: "rollbackSecrets fs force s = (s', es)" and l: "layout F fs s" and ab: "list_all (absent F) fs"
    and nb: "\<not> force \<Longrightarrow> list_all (\<lambda>f. sf_backup f = []) fs" and clean: "\<not> list_ex leftover es"
  shows "fy_files s' = F"
proof -
  let ?c = "map (sf_created_update (\<lambda>_. False))"
  obtain s1 e1 where r1: "removeCreated fs s = (s1, e1)" by (cases "removeCreated fs s")
  obtain s2 fs2 e2 where r2: "(if force then restoreBackups fs s1 else (s1, fs, [])) = (s2, fs2, e2)" by (cases rule: prod_cases3)
  obtain s3 e3 where r3: "cleanupTemps fs2 s2 = (s3, e3)" by (cases "cleanupTemps fs2 s2")
  have e: "s' = s3" "es = e1 @ e2 @ e3" using rb r1 r2 r3 by (simp_all add: rollbackSecrets_def Let_def)
  have l1: "layout F (?c fs) s1" using removeCreated_layout[of fs s s1 e1 F "[]"] r1 l ab clean e(2) by simp
  have nc: "list_all (\<lambda>f. \<not> sf_created f) (?c fs)" by (simp add: list_all_iff)
  have l2: "layout F (?c fs2) s2 \<and> list_all (\<lambda>f. \<not> sf_created f \<and> sf_backup f = []) (?c fs2)"
  proof (cases force)
    case True
    then have "restoreBackups (?c fs) s1 = (s2, ?c fs2, e2)" using r2 by (simp add: restoreBackups_created)
    then show ?thesis using restoreBackups_layout[of "?c fs" s1 s2 "?c fs2" e2 F "[]"] l1 nc clean e(2) by simp
  next
    case False
    then show ?thesis using r2 l1 nb by (auto simp: list_all_iff)
  qed
  show ?thesis using cleanup_restores[of "?c fs2" s2 s3 e3] r3 l2 clean e by (simp add: cleanupTemps_created)
qed

lemma layout_start:
  assumes "list_all unstaged files" and "distinct (map sf_path files @ fy_names s)"
    and "list_all (\<lambda>n. n \<noteq> [] \<and> fy_files s n = None) (fy_names s)"
  shows "layout (fy_files s) files s"
proof -
  have "concat (map locs files) = map sf_path files" using assms(1) by (induction files) (auto simp: locs_def unstaged_def)
  then show ?thesis using assms by (auto simp: layout_def placed_def unstaged_def list_all_iff)
qed

lemma layout_installed:
  assumes l: "layout F files s" and c: "list_all (\<lambda>f. sf_created f \<and> sf_temp f = []) files" and rb: "removeBackups files s = (s', ws)"
  shows "list_all (\<lambda>f. fy_files s' (sf_path f) = Some (sf_content f)) files"
    and "\<not> list_ex leftover ws \<Longrightarrow> x \<notin> set (map sf_path files) \<Longrightarrow> fy_files s' x = F x"
proof -
  have d: "distinct (concat (map locs files))" using l by (simp add: layout_def)
  have "fy_files s' (sf_path f) = Some (sf_content f)" if f: "f \<in> set files" for f
  proof -
    have M: "fy_files s (sf_path f) = Some (sf_content f)" using l c f by (auto simp: layout_def placed_def list_all_iff)
    have "sf_path f \<notin> {sf_backup g |g. g \<in> set files \<and> sf_backup g \<noteq> []}" using path_not_backup[OF d f] by force
    then show ?thesis using M removeBackups_frame[OF rb, of "sf_path f"] by auto
  qed
  then show "list_all (\<lambda>f. fy_files s' (sf_path f) = Some (sf_content f)) files" by (simp add: list_all_iff)
  assume ws: "\<not> list_ex leftover ws" and x: "x \<notin> set (map sf_path files)"
  let ?fs = "map (sf_backup_update (\<lambda>_. [])) files"
  have l2: "layout F ?fs s'" using removeBackups_layout[of files s s' ws F "[]"] rb l ws c by (simp add: list_all_iff)
  have "concat (map locs ?fs) = map sf_path files" using c by (induction files) (auto simp: locs_def)
  then show "fy_files s' x = F x" using l2 x by (simp add: layout_def)
qed

text \<open>What the command promises: \<open>F\<close> is the file system before it, the rest its result.\<close>

definition all_or_nothing :: "(string \<Rightarrow> string option) \<Rightarrow> secretFile list \<Rightarrow> fsys \<times> init_error list \<times> init_error list \<Rightarrow> bool" where
  "all_or_nothing F files = (\<lambda>(s', es, ws).
     (es \<noteq> [] \<and> \<not> list_ex leftover es \<longrightarrow> fy_files s' = F)
     \<and> (es = [] \<longrightarrow> (\<forall>f \<in> set files. fy_files s' (sf_path f) = Some (sf_content f)))
     \<and> (es = [] \<and> ws = [] \<longrightarrow> (\<forall>x. x \<notin> set (map sf_path files) \<longrightarrow> fy_files s' x = F x)))"

lemma all_or_nothing_failed: "es \<noteq> [] \<Longrightarrow> (\<not> list_ex leftover es \<Longrightarrow> fy_files s' = F) \<Longrightarrow> all_or_nothing F files (s', es, ws)"
  by (simp add: all_or_nothing_def)

lemma same_target_cong: "same_target fs gs \<Longrightarrow> all_or_nothing F fs r \<Longrightarrow> all_or_nothing F gs r"
proof -
  have "(\<forall>f \<in> set fs. M (sf_path f) = Some (sf_content f)) = (\<forall>f \<in> set gs. M (sf_path f) = Some (sf_content f))"
    if "same_target fs gs" for M
  proof -
    have "length fs = length gs" using that by (auto simp: same_target_def dest: map_eq_imp_length_eq)
    then show ?thesis using that by (induction fs gs rule: list_induct2) (auto simp: same_target_def)
  qed
  then show "same_target fs gs \<Longrightarrow> all_or_nothing F fs r \<Longrightarrow> all_or_nothing F gs r"
    by (auto simp: all_or_nothing_def same_target_def)
qed

definition installPhase :: "bool \<Rightarrow> secretFile list \<Rightarrow> fsys \<Rightarrow> fsys \<times> init_error list \<times> init_error list" where
  "installPhase force files s =
     (case installAll force files s of
        (s3, files3, e # es) \<Rightarrow> (let (s4, es2) = rollbackSecrets files3 force s3 in (s4, (e # es) @ es2, []))
      | (s3, files3, []) \<Rightarrow> (let (s4, warnings) = removeBackups files3 s3 in (s4, [], warnings)))"

lemma installPhase_ok:
  assumes l: "layout F fs s" and st: "list_all (\<lambda>f. staged f \<and> absent F f) fs" and nb: "\<not> force \<Longrightarrow> list_all (\<lambda>f. sf_backup f = []) fs"
  shows "all_or_nothing F fs (installPhase force fs s)"
proof -
  obtain s3 fs3 e3 where i: "installAll force fs s = (s3, fs3, e3)" by (cases rule: prod_cases3)
  note il = installAll_layout[of force fs s s3 fs3 e3 F "[]", simplified, OF i l st]
  show ?thesis
  proof (cases e3)
    case Nil
    obtain s4 ws where b: "removeBackups fs3 s3 = (s4, ws)" by (cases "removeBackups fs3 s3")
    have "all_or_nothing F fs3 (s4, [], ws)"
      using layout_installed[OF _ _ b, of F] il Nil by (auto simp: all_or_nothing_def list_all_iff)
    then show ?thesis using same_target_cong[of fs3 fs] il i b Nil by (simp add: installPhase_def same_backups_def)
  next
    case (Cons e es)
    obtain s4 e4 where r: "rollbackSecrets fs3 force s3 = (s4, e4)" by (cases "rollbackSecrets fs3 force s3")
    have ab: "list_all (absent F) fs3" "\<not> force \<Longrightarrow> list_all (\<lambda>f. sf_backup f = []) fs3"
      using same_backups_absent[OF conjunct1[OF conjunct2[OF il]]] st nb by (simp_all add: list_all_iff)
    have "all_or_nothing F fs (s4, e3 @ e4, [])"
      using rollback_restores[OF r _ ab] il Cons by (intro all_or_nothing_failed) auto
    then show ?thesis using i r Cons by (simp add: installPhase_def)
  qed
qed

definition preservePhase :: "bool \<Rightarrow> secretFile list \<Rightarrow> fsys \<Rightarrow> fsys \<times> init_error list \<times> init_error list" where
  "preservePhase force files s =
     (case (if force then preserveSecrets files s else (s, files, [])) of
        (s2, files2, e # es) \<Rightarrow> (let (s3, es2) = cleanupTemps files2 s2 in (s3, (e # es) @ es2, []))
      | (s2, files2, []) \<Rightarrow> installPhase force files2 s2)"

lemma preservePhase_ok:
  assumes l: "layout F fs s" and st: "list_all (\<lambda>f. staged f \<and> sf_backup f = []) fs"
    and new: "\<not> force \<Longrightarrow> list_all (\<lambda>f. F (sf_path f) = None) fs"
  shows "all_or_nothing F fs (preservePhase force fs s)"
proof (cases force)
  case False
  then show ?thesis
    using installPhase_ok[OF l, of False] st new by (simp add: preservePhase_def list_all_iff absent_def)
next
  case True
  obtain s2 fs2 e2 where p: "preserveSecrets fs s = (s2, fs2, e2)" by (cases rule: prod_cases3)
  note pl = preserveSecrets_layout[OF p l st]
  show ?thesis
  proof (cases e2)
    case Nil
    then have "same_target fs2 fs" "all_or_nothing F fs2 (installPhase True fs2 s2)"
      using pl installPhase_ok[of F fs2 s2 True] by simp_all
    then show ?thesis using same_target_cong[of fs2 fs] True p Nil by (simp add: preservePhase_def)
  next
    case (Cons e es)
    obtain s3 e3 where c: "cleanupTemps fs2 s2 = (s3, e3)" by (cases "cleanupTemps fs2 s2")
    have "all_or_nothing F fs (s3, e2 @ e3, [])"
      using cleanup_restores[OF c pl(1) _ pl(3)] Cons by (intro all_or_nothing_failed) auto
    then show ?thesis using True p c Cons by (simp add: preservePhase_def)
  qed
qed

lemma list_all_path: "list_all (\<lambda>f. P (sf_path f)) fs = list_all P (map sf_path fs)"
  by (induction fs) auto

definition stagePhase :: "bool \<Rightarrow> secretFile list \<Rightarrow> fsys \<Rightarrow> fsys \<times> init_error list \<times> init_error list" where
  "stagePhase force files s =
     (case stageAll files s of
        (s1, files1, e # es) \<Rightarrow> (let (s2, es2) = cleanupTemps files1 s1 in (s2, (e # es) @ es2, []))
      | (s1, files1, []) \<Rightarrow> preservePhase force files1 s1)"

lemma stagePhase_ok:
  assumes l: "layout F fs s" and un: "list_all unstaged fs" and new: "\<not> force \<Longrightarrow> list_all (\<lambda>f. F (sf_path f) = None) fs"
  shows "all_or_nothing F fs (stagePhase force fs s)"
proof -
  obtain s1 fs1 e1 where a: "stageAll fs s = (s1, fs1, e1)" by (cases rule: prod_cases3)
  note sl = stageAll_layout[of fs s s1 fs1 e1 F "[]", simplified, OF a l un]
  show ?thesis
  proof (cases e1)
    case Nil
    have "map sf_path fs1 = map sf_path fs" using sl Nil by (simp add: same_target_def)
    then have "list_all (\<lambda>f. F (sf_path f) = None) fs1" if "\<not> force"
      using new[OF that] list_all_path[of "\<lambda>p. F p = None" fs] list_all_path[of "\<lambda>p. F p = None" fs1] by simp
    then have "all_or_nothing F fs1 (preservePhase force fs1 s1)"
      using preservePhase_ok[of F fs1 s1 force] sl Nil by (simp add: list_all_iff)
    then show ?thesis using same_target_cong[of fs1 fs] sl a Nil by (simp add: stagePhase_def)
  next
    case (Cons e es)
    obtain s2 e2 where c: "cleanupTemps fs1 s1 = (s2, e2)" by (cases "cleanupTemps fs1 s1")
    have "all_or_nothing F fs (s2, e1 @ e2, [])"
    proof (rule all_or_nothing_failed)
      assume "\<not> list_ex leftover (e1 @ e2)"
      then show "fy_files s2 = F" using cleanup_restores[OF c] sl by (simp add: list_all_iff)
    qed (use Cons in simp)
    then show ?thesis using a c Cons by (simp add: stagePhase_def)
  qed
qed

lemma writeSecretBundle_phases:
  "writeSecretBundle files force s =
     (case (if force then (s, []) else checkAbsent files s) of
        (s1, e # es) \<Rightarrow> (s1, e # es, []) | (s1, []) \<Rightarrow> stagePhase force files s1)"
  by (simp add: writeSecretBundle_def stagePhase_def preservePhase_def installPhase_def cong: prod.case_cong list.case_cong)

text \<open>
  C20. The files are installed all or nothing. Let none of them be staged, their paths and the names of the temporary files
  be distinct and those names be new. If the installation reports an error and none of its clean-up steps failed, the file
  system is as before, whichever call to the operating system failed. If it reports no error, every file has its new
  content, and unless it warns of a backup that it could not remove, nothing else has changed. Without force it never
  replaces a file: it reports no error only if none of them existed.
\<close>

theorem bundle_all_or_nothing:
  assumes "list_all unstaged files" and "distinct (map sf_path files @ fy_names s)"
    and "list_all (\<lambda>n. n \<noteq> [] \<and> fy_files s n = None) (fy_names s)"
    and "writeSecretBundle files force s = (s', es, ws)"
  shows "(es \<noteq> [] \<and> \<not> list_ex leftover es \<longrightarrow> fy_files s' = fy_files s)
    \<and> (es = [] \<longrightarrow> (\<forall>f \<in> set files. fy_files s' (sf_path f) = Some (sf_content f)))
    \<and> (es = [] \<and> ws = [] \<longrightarrow> (\<forall>x. x \<notin> set (map sf_path files) \<longrightarrow> fy_files s' x = fy_files s x))
    \<and> (es = [] \<and> \<not> force \<longrightarrow> (\<forall>f \<in> set files. fy_files s (sf_path f) = None))"
proof -
  obtain t ce where c: "(if force then (s, []) else checkAbsent files s) = (t, ce)" by (cases rule: prod.exhaust)
  have t: "fy_files t = fy_files s" "fy_names t = fy_names s"
      "ce = [] \<Longrightarrow> \<not> force \<Longrightarrow> list_all (\<lambda>f. fy_files s (sf_path f) = None) files"
    using c checkAbsent_frame[of files s t ce] by (auto split: if_splits)
  have l: "layout (fy_files s) files t" using layout_start[OF assms(1-3)] layout_cong[OF t(1,2)] by simp
  have ok: "all_or_nothing (fy_files s) files (s', es, ws)"
  proof (cases ce)
    case Nil
    then show ?thesis using stagePhase_ok[OF l assms(1), of force] t(3) assms(4) c by (simp add: writeSecretBundle_phases)
  next
    case (Cons e es')
    then have "s' = t" "es \<noteq> []" using assms(4) c by (auto simp: writeSecretBundle_phases)
    then show ?thesis using t(1) by (intro all_or_nothing_failed) auto
  qed
  have "es = [] \<and> \<not> force \<longrightarrow> (\<forall>f \<in> set files. fy_files s (sf_path f) = None)"
    using assms(4) c t(3) by (cases ce) (auto simp: writeSecretBundle_phases list_all_iff split: if_splits)
  then show ?thesis using ok by (simp add: all_or_nothing_def)
qed

text \<open>
  Two files of which one exists, with force: the second rename of the installation fails, and the old content is restored.
\<close>

definition exampleFiles :: "secretFile list" where
  "exampleFiles = [newSecret ''a'' ''new'', newSecret ''b'' ''other'']"

definition exampleDisk :: "bool list \<Rightarrow> fsys" where
  "exampleDisk faults = \<lparr>fy_files = [''a'' \<mapsto> ''old''], fy_names = [''t1'', ''t2'', ''k1''], fy_faults = faults\<rparr>"

theorem bundle_all_or_nothing_witness:
  "let r = writeSecretBundle exampleFiles True (exampleDisk (replicate 16 False @ [True]))
   in fst (snd r) = [Install ''b''] \<and> fy_files (fst r) = [''a'' \<mapsto> ''old'']"
proof -
  let ?s = "exampleDisk (replicate 16 False @ [True])"
  obtain s' es ws where w: "writeSecretBundle exampleFiles True ?s = (s', es, ws)" by (cases rule: prod_cases3)
  have es: "fst (snd (writeSecretBundle exampleFiles True ?s)) = [Install ''b'']" by code_simp
  then have "es = [Install ''b'']" using w by simp
  moreover have "list_all unstaged exampleFiles" "distinct (map sf_path exampleFiles @ fy_names ?s)"
    by (simp_all add: exampleFiles_def exampleDisk_def newSecret_def unstaged_def)
  moreover have "list_all (\<lambda>n. n \<noteq> [] \<and> fy_files ?s n = None) (fy_names ?s)" by (simp add: exampleDisk_def)
  ultimately have "fy_files s' = fy_files ?s" using bundle_all_or_nothing[of exampleFiles ?s True s' es ws] w by simp
  then show ?thesis using w es by (simp add: exampleDisk_def)
qed

section \<open>The generated settings\<close>

text \<open>The environment of a process that is started with a file of settings only.\<close>

definition environmentOf :: "(string \<times> string) list \<Rightarrow> environment" where
  "environmentOf kvs name = (case map_of kvs name of None \<Rightarrow> [] | Some v \<Rightarrow> v)"

text \<open>
  Neither process accepts the file that is generated for it: the identity of the edge is missing from both, whatever the
  options and the certificates.
\<close>

theorem init_files_rejected:
  "\<nexists>e. LoadEdge targets strings (environmentOf (edgeSettings i ca cert key)) = Inr e"
  "\<nexists>c. LoadConnector missing (environmentOf (connectorSettings i ca cert key)) = Inr c"
proof -
  let ?e = "environmentOf (edgeSettings i ca cert key)" and ?c = "environmentOf (connectorSettings i ca cert key)"
  have "required ?e ''TB_EDGE_ID'' = []" "required ?c ''TB_EDGE_ID'' = []" "required ?c ''TB_REGISTRATION_MODE'' = []"
    by (simp_all add: required_def environmentOf_def edgeSettings_def connectorSettings_def commonSettings_def trim_space_def trim_where_def)
  then show "\<nexists>e. LoadEdge targets strings ?e = Inr e" "\<nexists>c. LoadConnector missing ?c = Inr c"
    by (auto simp: LoadEdge_def LoadConnector_def loadStaticConnector_def value_or_def loadCommon_def validateCommon_def Let_def)
qed

end
