(* ===== verification/Spec2Isabelle.thy ===== *)
theory Spec2Isabelle
  imports Protocol Config_Load Registry_Findings Status Edge_Udp Identity Edge_Findings Dnsproxy_Props Udp_Path Oidc
    Enrollment_Props Approval_Props Edge_Run Enrollment_Exchange Connector_Run Session_Setup Transport Proxy Metrics Commands Init_Props
begin

text \<open>
  Tailbridge connects a tailnet to the private networks of Railway environments. An \<^emph>\<open>edge\<close> runs in the tailnet: it
  advertises one IPv6 /16 prefix per environment, intercepts the packets for it and carries them over QUIC to a
  \<^emph>\<open>connector\<close> inside the environment, which reaches the services. Connectors are either configured statically or
  enrolled: a \<^emph>\<open>registry\<close> (SQLite) keeps requests, approvals, keys, certificates, leases and prefixes, a workflow with an
  OIDC token approves a request over an HTTP service, and the routes that Tailscale advertises follow the registry. This
  development models the Go packages under \<^verbatim>\<open>src/internal\<close> and the three commands under \<^verbatim>\<open>src/cmd\<close>, and proves what makes them correct.

  \<^bold>\<open>Conventions.\<close> A struct is a record whose fields carry a short prefix, an enumeration of strings or errors a datatype,
  an error result a value of a sum type. Times and durations are integers in nanoseconds, the wire types are words, Go's
  \<^verbatim>\<open>int\<close> and \<^verbatim>\<open>int64\<close> are integers with the wrap-around written out where it can occur (\<open>wrap64\<close>). State is passed
  explicitly; objects that Go shares by pointer live in a heap (a list) and are named by their position. The clock, random
  numbers, the outcome of a system call and code that is not in the repository are arguments of the definitions.
  Goroutines that share state are steps of a relation at the granularity of the locks.

  \<^bold>\<open>Foundations.\<close> \<open>Prelude\<close>: types, texts, results, shared lemmas. \<open>Machine\<close>: the locale of a step relation with an
  inductive invariant, interpreted for every machine below; \<open>Flow_Table\<close>: the contract that the flow tables of the edge
  and of the connector share. \<open>Netip\<close>, \<open>Netip_Codec\<close>, \<open>Netip_Text\<close>, \<open>Strconv\<close>: what the sources use of \<^verbatim>\<open>net/netip\<close>,
  \<^verbatim>\<open>strconv\<close> and \<^verbatim>\<open>net\<close>.

  \<^bold>\<open>Wire.\<close> \<open>Protocol\<close> (\<^verbatim>\<open>protocol/datagram.go\<close>, \<^verbatim>\<open>protocol.go\<close>): the datagram codec is exact, a frame written in pieces
  is read back. \<open>Translation\<close> (\<^verbatim>\<open>edge/translation.go\<close>): an address keeps its host part between two /16 prefixes.

  \<^bold>\<open>Configuration.\<close> \<open>Config\<close>, \<open>Config_Load\<close> (\<^verbatim>\<open>config/config.go\<close>): the intersection of prefix lists is exact, accepted
  routes open no address that the connector does not allow, static targets are disjoint, and whatever the loaders return is
  valid.

  \<^bold>\<open>Registry.\<close> \<open>Registry\<close> (\<^verbatim>\<open>registry/registry.go\<close>): the tables with their constraints and one function per method of the
  store, each a transaction. \<open>Registry_Inv\<close>: every operation keeps the invariant of the tables. \<open>Registry_Run\<close>: runs of
  committed and rolled-back operations, a spent token is never accepted again, the limits on open requests hold.
  \<open>Registry_Props\<close>: disjoint prefixes, route generations, expiry, revocation, renewal. \<open>Registry_Findings\<close>: a sample history
  and three situations in which the registry gets stuck or inconsistent.

  \<^bold>\<open>Identities.\<close> \<open>Identity\<close> (\<^verbatim>\<open>pki\<close>, \<^verbatim>\<open>transport/tls.go\<close>): an issued certificate is read back as exactly the identity it was
  issued for. \<open>Transport\<close> (\<^verbatim>\<open>transport/tls.go\<close>, \<^verbatim>\<open>quic.go\<close>): the TLS configurations and the handshake between them; who can
  talk to whom, exactly. \<open>Oidc\<close> (\<^verbatim>\<open>oidc/validator.go\<close>): the validator as a machine with its key cache; a token is accepted only if it
  is signed with a fresh key of its policy and bound to the project and environment. \<open>Enrollment\<close>, \<open>Enrollment_Props\<close>
  (\<^verbatim>\<open>enrollment/server.go\<close>, \<^verbatim>\<open>client.go\<close>): the rate limit, and that the connector that an approved registration configures is
  the one that the registry holds. \<open>Enrollment_Exchange\<close>: client and server over one stream that may cut and fail; a
  response is the answer to exactly the request that was sent, and the identity file is replaced as a whole. \<open>Approval\<close>, \<open>Approval_Props\<close> (\<^verbatim>\<open>approval/server.go\<close>): the registry changes only for
  an authorised caller with a fresh token, and only by runs of its own operations.

  \<^bold>\<open>Edge.\<close> \<open>Edge_Udp\<close> (\<^verbatim>\<open>edge/edge.go\<close>, UDP flows): the flow table as a machine, its limits, gauges and sockets.
  \<open>Edge_Server\<close>, \<open>Edge_Sessions\<close>: hellos, sessions, drains and routing as a machine; a flow is routed only to the active
  session of the entry and into the prefixes that were admitted. \<open>Edge_Findings\<close>: two races of the sessions and a concrete
  run. \<open>Status\<close> (\<^verbatim>\<open>status/status.go\<close>): the status server refines an abstract board of sessions (locale \<open>session_board\<close>),
  readiness is exact, and a QUIC observer that is replaced has no effect. \<open>Metrics\<close>: the metrics page, which describes the
  registry after a refresh.

  \<^bold>\<open>Routes.\<close> \<open>Netpolicy\<close> (\<^verbatim>\<open>netpolicy/netpolicy_linux.go\<close>) and \<open>Reconcile\<close> (\<^verbatim>\<open>reconcile/reconcile.go\<close>): the rule text and
  the change of routes over an arbitrary command runner and an arbitrary policy. \<open>Reconcile_Props\<close>: the locales of a policy
  that loads routes (\<open>route_policy\<close>) and of one whose commands are observed (\<open>traced_policy\<close>), with what a reconciliation
  guarantees over them. \<open>Edge_Routes\<close>: the policy of the running edge, which also refreshes the connector entries; a success
  leaves the rules, Tailscale, the entries and the registry in agreement, and while it runs every advertised route is
  redirected, with the two exceptions that are proved beside it. \<open>Edge_Run\<close> (\<^verbatim>\<open>edge/edge.go\<close>, \<^verbatim>\<open>Run\<close>): the resources of an
  edge are acquired in order and all released, whichever call fails.

  \<^bold>\<open>Connector.\<close> \<open>Dnsproxy\<close>, \<open>Dnsproxy_Props\<close> (\<^verbatim>\<open>dnsproxy/dnsproxy.go\<close>): what a rewritten response may contain, names and
  addresses come back to where they started, forwarding over TCP ends. \<open>Connector\<close>, \<open>Connector_Udp\<close>
  (\<^verbatim>\<open>connector/connector.go\<close>): the UDP session as a machine over its flow objects and sockets. \<open>Connector_Run\<close>: the handshake and the
  loop of attempts; delays stay in their range and readiness follows the sessions. \<open>Proxy\<close> (\<^verbatim>\<open>proxy/copy.go\<close>): the two
  copying goroutines as a machine; without an error everything was delivered, and a failure ends both. \<open>Session_Setup\<close>: the start of a session,
  edge and connector composed; both agree on whether it exists and on its routes. \<open>Udp_Path\<close>: edge, wire and
  connector composed, a datagram and its answer arrive unchanged at the right addresses.

  \<^bold>\<open>Commands.\<close> \<open>Observability\<close> (\<^verbatim>\<open>observability/observability.go\<close>): which exporters start and stop. \<open>Commands\<close>
  (\<^verbatim>\<open>cmd/tailbridge-edge\<close>, \<^verbatim>\<open>cmd/tailbridge-connector\<close>): the start-up of both processes; a started edge is valid, its registry
  consistent, and it serves exactly the static and the active prefixes. \<open>Init_Cmd\<close>, \<open>Init_Props\<close> (\<^verbatim>\<open>cmd/tailbridge/main.go\<close>):
  the files of \<^verbatim>\<open>tailbridge init\<close> over a file system in which every call may fail; they are installed all or nothing.

  \<^bold>\<open>Loops and bounds.\<close> Every definition is total or, for the forwarding of DNS over TCP, a \<open>partial_function\<close> that is
  proved to end on every finite stream. Loops that wait for the outside world (registration, the listener address, the
  Tailscale interface) run over the list of the answers they get; its end is the end of the context.

  \<^bold>\<open>Not modelled.\<close> Sockets and their options, the TLS and QUIC protocols themselves (libraries; what the sources rely on is
  the handshake of \<open>Transport\<close>), JSON, base64 and PEM texts, hash functions and signatures (parameters), faults of the
  database itself (the rolled-back steps), logging, tracing, comment lines of the metrics page. The programs under
  \<^verbatim>\<open>src/.tools\<close> check the coverage of the tests and serve the build only.
\<close>

end
